(* ===== verification/Prelude.thy ===== *)
theory Prelude
  imports Main "HOL-Library.Word" "HOL-Library.Sublist"
begin

text \<open>
  Shared vocabulary of the NodeWe development: the byte strings of the Rust program, the
  \<open>std\<close> string operations the sources call, decimal and hexadecimal numbers, results that may
  panic, first-match updates of vectors, and the generic interfaces (codec, identifier check,
  growing vector) that the component theories interpret.

  A Rust \<open>String\<close> is the list of its UTF-8 bytes (HOL's \<^typ>\<open>char\<close> is a byte), so
  \<open>length\<close> is \<open>str::len\<close>; operations that work on Unicode characters go through
  \<open>chars_of\<close>, which cuts a byte string at its lead bytes.
\<close>

section \<open>Types\<close>

type_synonym u8 = "8 word"
type_synonym u32 = "32 word"
type_synonym u64 = "64 word"
type_synonym bytes = "u8 list"

text \<open>A computation of the source that can panic (index or slice out of range).\<close>

datatype 'a exec = Panic | Done 'a

fun exec_bind :: "'a exec \<Rightarrow> ('a \<Rightarrow> 'b exec) \<Rightarrow> 'b exec" where
  "exec_bind Panic f = Panic"
| "exec_bind (Done x) f = f x"

fun exec_map :: "('a \<Rightarrow> 'b) \<Rightarrow> 'a exec \<Rightarrow> 'b exec" where
  "exec_map f Panic = Panic"
| "exec_map f (Done x) = Done (f x)"

named_theorems text_simps \<open>facts about the string operations\<close>
named_theorems codec_simps \<open>decoding what was encoded\<close>
named_theorems ascii_simps \<open>character classes, unfolded to byte ranges\<close>

section \<open>Bytes and characters\<close>

definition byte :: "char \<Rightarrow> nat" where
  [ascii_simps]: "byte c = of_char c"

abbreviation "NL \<equiv> CHR 0x0A"
abbreviation "CR \<equiv> CHR 0x0D"
abbreviation "TAB \<equiv> CHR 0x09"
abbreviation "DQUOTE \<equiv> CHR 0x22"
abbreviation "BACKSLASH \<equiv> CHR 0x5C"

definition is_ascii_graphic :: "char \<Rightarrow> bool" where
  [ascii_simps]: "is_ascii_graphic c \<longleftrightarrow> 33 \<le> byte c \<and> byte c \<le> 126"

definition is_ascii_digit :: "char \<Rightarrow> bool" where
  [ascii_simps]: "is_ascii_digit c \<longleftrightarrow> 48 \<le> byte c \<and> byte c \<le> 57"

definition is_ascii_lowercase :: "char \<Rightarrow> bool" where
  [ascii_simps]: "is_ascii_lowercase c \<longleftrightarrow> 97 \<le> byte c \<and> byte c \<le> 122"

definition is_ascii_uppercase :: "char \<Rightarrow> bool" where
  [ascii_simps]: "is_ascii_uppercase c \<longleftrightarrow> 65 \<le> byte c \<and> byte c \<le> 90"

definition is_ascii_alphanumeric :: "char \<Rightarrow> bool" where
  [ascii_simps]: "is_ascii_alphanumeric c \<longleftrightarrow>
     is_ascii_digit c \<or> is_ascii_lowercase c \<or> is_ascii_uppercase c"

definition is_ascii_hexdigit :: "char \<Rightarrow> bool" where
  [ascii_simps]: "is_ascii_hexdigit c \<longleftrightarrow>
     is_ascii_digit c \<or> (65 \<le> byte c \<and> byte c \<le> 70) \<or> (97 \<le> byte c \<and> byte c \<le> 102)"

definition is_ascii_control :: "char \<Rightarrow> bool" where
  [ascii_simps]: "is_ascii_control c \<longleftrightarrow> byte c < 32 \<or> byte c = 127"

definition is_ascii_whitespace :: "char \<Rightarrow> bool" where
  [ascii_simps]: "is_ascii_whitespace c \<longleftrightarrow> byte c \<in> {9, 10, 12, 13, 32}"

definition to_lower :: "char \<Rightarrow> char" where
  "to_lower c = (if is_ascii_uppercase c then char_of (byte c + 32) else c)"

definition to_upper :: "char \<Rightarrow> char" where
  "to_upper c = (if is_ascii_lowercase c then char_of (byte c - 32) else c)"

definition to_ascii_lowercase :: "string \<Rightarrow> string" where
  "to_ascii_lowercase = map to_lower"

definition to_ascii_uppercase :: "string \<Rightarrow> string" where
  "to_ascii_uppercase = map to_upper"

definition eq_ignore_ascii_case :: "string \<Rightarrow> string \<Rightarrow> bool" where
  "eq_ignore_ascii_case a b \<longleftrightarrow> to_ascii_lowercase a = to_ascii_lowercase b"

lemma byte_less_256 [simp]: "byte c < 256"
  by (simp add: byte_def)

lemma byte_inject [simp]: "byte a = byte b \<longleftrightarrow> a = b"
  by (simp add: byte_def)

lemma byte_char_of [simp]: "byte (char_of n) = n mod 256"
  by (simp add: byte_def)

lemma char_of_byte [simp]: "char_of (byte c) = c"
  by (simp add: byte_def)

lemma byte_to_lower: "byte (to_lower c) = (if is_ascii_uppercase c then byte c + 32 else byte c)"
  by (auto simp: to_lower_def is_ascii_uppercase_def)

lemma to_lower_eq:
  "to_lower a = to_lower b \<longleftrightarrow> a = b \<or> (is_ascii_uppercase a \<and> byte b = byte a + 32)
     \<or> (is_ascii_uppercase b \<and> byte a = byte b + 32)"
  using byte_inject [of "to_lower a" "to_lower b", symmetric] byte_inject [of a b, symmetric]
  by (auto simp: byte_to_lower is_ascii_uppercase_def simp del: byte_inject)

text \<open>Bytes of a string as machine bytes, and back.\<close>

definition as_bytes :: "string \<Rightarrow> bytes" where
  "as_bytes s = map (\<lambda>c. word_of_nat (byte c)) s"

definition of_bytes :: "bytes \<Rightarrow> string" where
  "of_bytes bs = map (\<lambda>b. char_of (unat b)) bs"

lemma unat_byte_word [simp]: "unat (word_of_nat (byte c) :: u8) = byte c"
  by (simp add: unat_of_nat)

lemma of_bytes_as_bytes [simp]: "of_bytes (as_bytes s) = s"
  by (simp add: of_bytes_def as_bytes_def comp_def)

lemma as_bytes_of_bytes [simp]: "as_bytes (of_bytes bs) = bs"
proof -
  have "(word_of_nat (byte (char_of (unat b))) :: u8) = b" for b :: u8
  proof -
    have "unat b < 2 ^ LENGTH(8)" by (rule unsigned_less)
    then show ?thesis by simp
  qed
  then show ?thesis by (simp add: of_bytes_def as_bytes_def comp_def)
qed

lemma length_as_bytes [simp]: "length (as_bytes s) = length s"
  by (simp add: as_bytes_def)

lemma as_bytes_inject [simp]: "as_bytes s = as_bytes t \<longleftrightarrow> s = t"
  by (metis of_bytes_as_bytes)

section \<open>UTF-8\<close>

text \<open>\<open>char::len_utf8\<close> of the character whose lead byte is given.\<close>

definition utf8_width :: "char \<Rightarrow> nat" where
  "utf8_width c = (if byte c < 0xC0 then 1 else if byte c < 0xE0 then 2
                   else if byte c < 0xF0 then 3 else 4)"

fun chars_of :: "string \<Rightarrow> string list" where
  "chars_of [] = []"
| "chars_of (b # bs) =
     (b # take (utf8_width b - 1) bs) # chars_of (drop (utf8_width b - 1) bs)"

definition is_cont :: "char \<Rightarrow> bool" where
  [ascii_simps]: "is_cont c \<longleftrightarrow> 0x80 \<le> byte c \<and> byte c < 0xC0"

text \<open>The scalar value of one encoded character.\<close>

fun code_point :: "string \<Rightarrow> nat" where
  "code_point [a] = byte a"
| "code_point [a, b] = (byte a mod 32) * 64 + byte b mod 64"
| "code_point [a, b, c] = ((byte a mod 16) * 64 + byte b mod 64) * 64 + byte c mod 64"
| "code_point [a, b, c, d] =
     (((byte a mod 8) * 64 + byte b mod 64) * 64 + byte c mod 64) * 64 + byte d mod 64"
| "code_point _ = 0"

text \<open>Well-formed UTF-8, as \<open>String::from_utf8\<close> checks it (RFC 3629: shortest form, no
  surrogates, at most U+10FFFF).\<close>

fun valid_utf8 :: "string \<Rightarrow> bool" where
  "valid_utf8 [] = True"
| "valid_utf8 (a # as) =
     (if byte a < 0x80 then valid_utf8 as
      else if 0xC2 \<le> byte a \<and> byte a < 0xE0 then
        (case as of b # r \<Rightarrow> is_cont b \<and> valid_utf8 r | _ \<Rightarrow> False)
      else if 0xE0 \<le> byte a \<and> byte a < 0xF0 then
        (case as of b # c # r \<Rightarrow>
             is_cont b \<and> is_cont c
           \<and> (byte a = 0xE0 \<longrightarrow> 0xA0 \<le> byte b) \<and> (byte a = 0xED \<longrightarrow> byte b < 0xA0)
           \<and> valid_utf8 r
         | _ \<Rightarrow> False)
      else if 0xF0 \<le> byte a \<and> byte a < 0xF5 then
        (case as of b # c # d # r \<Rightarrow>
             is_cont b \<and> is_cont c \<and> is_cont d
           \<and> (byte a = 0xF0 \<longrightarrow> 0x90 \<le> byte b) \<and> (byte a = 0xF4 \<longrightarrow> byte b < 0x90)
           \<and> valid_utf8 r
         | _ \<Rightarrow> False)
      else False)"

definition from_utf8 :: "bytes \<Rightarrow> string option" where
  "from_utf8 bs = (if valid_utf8 (of_bytes bs) then Some (of_bytes bs) else None)"

text \<open>Induction over the characters of well-formed text.\<close>

lemma utf8_induct [consumes 1, case_names Nil one two three four]:
  assumes "valid_utf8 s" and "P []"
    and one: "\<And>a r. byte a < 0x80 \<Longrightarrow> valid_utf8 r \<Longrightarrow> P r \<Longrightarrow> P (a # r)"
    and two: "\<And>a b r. 0xC2 \<le> byte a \<Longrightarrow> byte a < 0xE0 \<Longrightarrow> is_cont b \<Longrightarrow> valid_utf8 r \<Longrightarrow> P r \<Longrightarrow> P (a # b # r)"
    and three: "\<And>a b c r. 0xE0 \<le> byte a \<Longrightarrow> byte a < 0xF0 \<Longrightarrow> is_cont b \<Longrightarrow> is_cont c \<Longrightarrow>
      byte a = 0xE0 \<longrightarrow> 0xA0 \<le> byte b \<Longrightarrow> byte a = 0xED \<longrightarrow> byte b < 0xA0 \<Longrightarrow>
      valid_utf8 r \<Longrightarrow> P r \<Longrightarrow> P (a # b # c # r)"
    and four: "\<And>a b c d r. 0xF0 \<le> byte a \<Longrightarrow> byte a < 0xF5 \<Longrightarrow> is_cont b \<Longrightarrow> is_cont c \<Longrightarrow> is_cont d \<Longrightarrow>
      byte a = 0xF0 \<longrightarrow> 0x90 \<le> byte b \<Longrightarrow> byte a = 0xF4 \<longrightarrow> byte b < 0x90 \<Longrightarrow>
      valid_utf8 r \<Longrightarrow> P r \<Longrightarrow> P (a # b # c # d # r)"
  shows "P s"
  using assms(1)
proof (induction s rule: valid_utf8.induct)
  case (2 a as)
  consider "byte a < 0x80" | "0xC2 \<le> byte a" "byte a < 0xE0"
    | "0xE0 \<le> byte a" "byte a < 0xF0" | "0xF0 \<le> byte a" "byte a < 0xF5"
    using "2.prems" by (auto split: if_splits)
  then show ?case
  proof cases
    case 1
    then show ?thesis using 2 by (simp add: one)
  next
    case lead2: 2
    with "2.prems" obtain b r where "as = b # r" "is_cont b" "valid_utf8 r"
      by (auto split: list.splits)
    then show ?thesis using lead2 "2.IH"(2) by (simp add: two)
  next
    case lead3: 3
    with "2.prems" obtain b c r where "as = b # c # r" "is_cont b" "is_cont c"
        "byte a = 0xE0 \<longrightarrow> 0xA0 \<le> byte b" "byte a = 0xED \<longrightarrow> byte b < 0xA0" "valid_utf8 r"
      by (auto split: list.splits)
    then show ?thesis using lead3 "2.IH"(3) by (simp add: three)
  next
    case lead4: 4
    with "2.prems" obtain b c d r where "as = b # c # d # r" "is_cont b" "is_cont c" "is_cont d"
        "byte a = 0xF0 \<longrightarrow> 0x90 \<le> byte b" "byte a = 0xF4 \<longrightarrow> byte b < 0x90" "valid_utf8 r"
      by (auto split: list.splits)
    then show ?thesis using lead4 "2.IH"(4) by (simp add: four)
  qed
qed (use assms in simp)

lemma concat_chars_of [simp]: "concat (chars_of s) = s"
  by (induction s rule: chars_of.induct) simp_all

lemma chars_of_nonempty: "x \<in> set (chars_of s) \<Longrightarrow> x \<noteq> []"
  by (induction s rule: chars_of.induct) auto

lemma chars_of_ascii: "list_all (\<lambda>c. byte c < 128) s \<Longrightarrow> chars_of s = map (\<lambda>c. [c]) s"
  by (induction s) (simp_all add: utf8_width_def)

lemma valid_utf8_ascii: "list_all (\<lambda>c. byte c < 128) s \<Longrightarrow> valid_utf8 s"
  by (induction s) simp_all

text \<open>\<open>char::is_whitespace\<close> (Unicode \<open>White_Space\<close>) and \<open>char::is_control\<close>.\<close>

definition is_whitespace :: "string \<Rightarrow> bool" where
  "is_whitespace ch \<longleftrightarrow> (let p = code_point ch in
     (9 \<le> p \<and> p \<le> 13) \<or> p = 0x20 \<or> p = 0x85 \<or> p = 0xA0 \<or> p = 0x1680
     \<or> (0x2000 \<le> p \<and> p \<le> 0x200A) \<or> p = 0x2028 \<or> p = 0x2029 \<or> p = 0x202F \<or> p = 0x205F
     \<or> p = 0x3000)"

definition is_control :: "string \<Rightarrow> bool" where
  "is_control ch \<longleftrightarrow> code_point ch < 32 \<or> (127 \<le> code_point ch \<and> code_point ch \<le> 159)"

section \<open>String operations of \<open>std\<close>\<close>

definition str_starts_with :: "string \<Rightarrow> string \<Rightarrow> bool" where
  "str_starts_with s p \<longleftrightarrow> prefix p s"

definition str_ends_with :: "string \<Rightarrow> string \<Rightarrow> bool" where
  "str_ends_with s p \<longleftrightarrow> suffix p s"

fun str_contains :: "string \<Rightarrow> string \<Rightarrow> bool" where
  "str_contains [] p = (p = [])"
| "str_contains (c # s) p = (prefix p (c # s) \<or> str_contains s p)"

definition strip_prefix :: "string \<Rightarrow> string \<Rightarrow> string option" where
  "strip_prefix s p = (if prefix p s then Some (drop (length p) s) else None)"

text \<open>\<open>str::split\<close> at every character that satisfies the predicate; never empty.\<close>

fun split_by :: "(char \<Rightarrow> bool) \<Rightarrow> string \<Rightarrow> string list" where
  "split_by P [] = [[]]"
| "split_by P (c # s) =
     (if P c then [] # split_by P s
      else (case split_by P s of [] \<Rightarrow> [[c]] | w # ws \<Rightarrow> (c # w) # ws))"

definition str_split :: "string \<Rightarrow> char \<Rightarrow> string list" where
  "str_split s c = split_by (\<lambda>x. x = c) s"

text \<open>\<open>str::splitn(n, c)\<close>: at most \<open>n\<close> pieces, the last one holds the rest.\<close>

fun str_splitn :: "nat \<Rightarrow> char \<Rightarrow> string \<Rightarrow> string list" where
  "str_splitn 0 c s = []"
| "str_splitn (Suc 0) c s = [s]"
| "str_splitn (Suc (Suc n)) c s =
     (if c \<in> set s
      then takeWhile (\<lambda>x. x \<noteq> c) s # str_splitn (Suc n) c (tl (dropWhile (\<lambda>x. x \<noteq> c) s))
      else [s])"

definition split_once :: "string \<Rightarrow> char \<Rightarrow> (string \<times> string) option" where
  "split_once s c =
     (if c \<in> set s then Some (takeWhile (\<lambda>x. x \<noteq> c) s, tl (dropWhile (\<lambda>x. x \<noteq> c) s))
      else None)"

definition rsplit_once :: "string \<Rightarrow> char \<Rightarrow> (string \<times> string) option" where
  "rsplit_once s c =
     (case split_once (rev s) c of None \<Rightarrow> None | Some (a, b) \<Rightarrow> Some (rev b, rev a))"

text \<open>\<open>slice::join\<close>.\<close>

fun str_join :: "string \<Rightarrow> string list \<Rightarrow> string" where
  "str_join sep [] = []"
| "str_join sep [x] = x"
| "str_join sep (x # y # r) = x @ sep @ str_join sep (y # r)"

text \<open>\<open>str::lines\<close>: pieces ended by a newline, a carriage return before the newline dropped,
  no piece after a final newline.\<close>

definition chop_cr :: "string \<Rightarrow> string" where
  "chop_cr l = (if l \<noteq> [] \<and> last l = CR then butlast l else l)"

definition str_lines :: "string \<Rightarrow> string list" where
  "str_lines s = (let ps = str_split s NL in
     map chop_cr (butlast ps) @ (if last ps = [] then [] else [last ps]))"

text \<open>\<open>str::trim\<close> and its one-sided and pattern versions.\<close>

definition trim_start :: "string \<Rightarrow> string" where
  "trim_start s = concat (dropWhile is_whitespace (chars_of s))"

definition trim_end :: "string \<Rightarrow> string" where
  "trim_end s = concat (rev (dropWhile is_whitespace (rev (chars_of s))))"

definition str_trim :: "string \<Rightarrow> string" where
  "str_trim s = concat (rev (dropWhile is_whitespace (rev (dropWhile is_whitespace (chars_of s)))))"

function trim_start_matches :: "string \<Rightarrow> string \<Rightarrow> string" where
  "trim_start_matches p s =
     (if p \<noteq> [] \<and> prefix p s then trim_start_matches p (drop (length p) s) else s)"
  by pat_completeness auto
termination
  by (relation "measure (\<lambda>(p, s). length s)") (auto simp: prefix_def)

declare trim_start_matches.simps [simp del]

definition trim_end_matches :: "string \<Rightarrow> string \<Rightarrow> string" where
  "trim_end_matches p s = rev (trim_start_matches (rev p) (rev s))"

text \<open>\<open>str::split_whitespace\<close>: the maximal runs of non-blank characters.\<close>

fun words_of :: "string list \<Rightarrow> string \<Rightarrow> string list" where
  "words_of [] acc = (if acc = [] then [] else [acc])"
| "words_of (ch # cs) acc =
     (if is_whitespace ch then (if acc = [] then words_of cs [] else acc # words_of cs [])
      else words_of cs (acc @ ch))"

definition split_whitespace :: "string \<Rightarrow> string list" where
  "split_whitespace s = words_of (chars_of s) []"

text \<open>\<open>str::replace\<close> of single characters by one string.\<close>

definition replace_chars :: "char set \<Rightarrow> string \<Rightarrow> string \<Rightarrow> string" where
  "replace_chars cs r s = concat (map (\<lambda>c. if c \<in> cs then r else [c]) s)"

subsection \<open>Facts\<close>

lemma split_by_nonempty [simp]: "split_by P s \<noteq> []"
  by (induction s) (auto split: list.splits)

lemma str_split_nonempty [simp]: "str_split s c \<noteq> []"
  by (simp add: str_split_def)

lemma split_by_none: "\<forall>c \<in> set s. \<not> P c \<Longrightarrow> split_by P s = [s]"
  by (induction s) auto

lemma split_by_append:
  "\<forall>c \<in> set s. \<not> P c \<Longrightarrow> P d \<Longrightarrow> split_by P (s @ d # t) = s # split_by P t"
  by (induction s) auto

lemma split_by_pieces: "w \<in> set (split_by P s) \<Longrightarrow> c \<in> set w \<Longrightarrow> \<not> P c \<and> c \<in> set s"
  by (induction s arbitrary: w) (fastforce split: list.splits if_splits)+

lemma str_split_none [text_simps]: "c \<notin> set s \<Longrightarrow> str_split s c = [s]"
  by (auto simp: str_split_def intro: split_by_none)

lemma str_split_append [text_simps]:
  "c \<notin> set s \<Longrightarrow> str_split (s @ c # t) c = s # str_split t c"
  unfolding str_split_def by (rule split_by_append) auto

lemma str_split_pieces: "w \<in> set (str_split s c) \<Longrightarrow> c \<notin> set w"
  unfolding str_split_def by (blast dest: split_by_pieces)

lemma str_split_subset: "w \<in> set (str_split s c) \<Longrightarrow> set w \<subseteq> set s"
  unfolding str_split_def by (blast dest: split_by_pieces)

text \<open>Splitting what was joined, and joining what was split.\<close>

lemma str_split_join [codec_simps]:
  "ws \<noteq> [] \<Longrightarrow> \<forall>w \<in> set ws. c \<notin> set w \<Longrightarrow> str_split (str_join [c] ws) c = ws"
proof (induction ws)
  case (Cons w ws)
  then show ?case by (cases ws) (simp_all add: str_split_append str_split_none)
qed simp

lemma str_join_Cons: "ws \<noteq> [] \<Longrightarrow> str_join sep (w # ws) = w @ sep @ str_join sep ws"
  by (cases ws) auto

lemma join_split_by: "str_join [c] (split_by (\<lambda>x. x = c) s) = s"
proof (induction s)
  case (Cons a s)
  show ?case
  proof (cases "a = c")
    case True
    then show ?thesis using Cons by (simp add: str_join_Cons)
  next
    case False
    obtain w ws where w: "split_by (\<lambda>x. x = c) s = w # ws"
      by (cases "split_by (\<lambda>x. x = c) s") auto
    then have "str_join [c] ((a # w) # ws) = a # str_join [c] (w # ws)"
      by (cases ws) auto
    with False w Cons show ?thesis by simp
  qed
qed simp

lemma str_join_split [codec_simps]: "str_join [c] (str_split s c) = s"
  by (simp add: str_split_def join_split_by)

lemma takeWhile_sep [simp]:
  "c \<notin> set a \<Longrightarrow> takeWhile (\<lambda>x. x \<noteq> c) (a @ c # b) = a"
  by (induction a) auto

lemma dropWhile_sep [simp]:
  "c \<notin> set a \<Longrightarrow> dropWhile (\<lambda>x. x \<noteq> c) (a @ c # b) = c # b"
  by (induction a) auto

lemma split_once_append [text_simps]:
  "c \<notin> set a \<Longrightarrow> split_once (a @ c # b) c = Some (a, b)"
  by (simp add: split_once_def)

lemma split_once_None [text_simps]: "c \<notin> set a \<Longrightarrow> split_once a c = None"
  by (simp add: split_once_def)

lemma split_once_SomeD: "split_once s c = Some (a, b) \<Longrightarrow> s = a @ c # b \<and> c \<notin> set a"
proof -
  assume h: "split_once s c = Some (a, b)"
  then have "c \<in> set s" by (simp add: split_once_def split: if_splits)
  then obtain u v where s: "s = u @ c # v" "c \<notin> set u" by (meson split_list_first)
  with h show ?thesis by (simp add: split_once_def)
qed

lemma str_splitn_append [text_simps]:
  "c \<notin> set a \<Longrightarrow> str_splitn (Suc (Suc n)) c (a @ c # b) = a # str_splitn (Suc n) c b"
  by simp

lemma str_splitn_join [codec_simps]:
  "ws \<noteq> [] \<Longrightarrow> \<forall>w \<in> set ws. c \<notin> set w \<Longrightarrow> length ws \<le> n \<Longrightarrow>
   str_splitn n c (str_join [c] ws) = ws"
proof (induction ws arbitrary: n)
  case (Cons w ws)
  then obtain m where n: "n = Suc m" by (cases n) auto
  show ?case
  proof (cases ws)
    case Nil
    then show ?thesis using Cons.prems n by (cases m) auto
  next
    case (Cons v vs)
    with Cons.prems n obtain k where m: "m = Suc k" by (cases m) auto
    have "str_splitn m c (str_join [c] ws) = ws"
      using Cons.IH Cons.prems Cons n by simp
    then show ?thesis using Cons.prems Cons n m by (simp add: str_join_Cons)
  qed
qed simp

lemma str_lines_terminated [text_simps]:
  "NL \<notin> set l \<Longrightarrow> str_lines (l @ NL # t) = chop_cr l # str_lines t"
  by (simp add: str_lines_def str_split_append Let_def)

lemma str_lines_Nil [simp]: "str_lines [] = []"
  by (simp add: str_lines_def str_split_def)

lemma chop_cr_id [text_simps]: "CR \<notin> set l \<Longrightarrow> chop_cr l = l"
  using last_in_set by (fastforce simp: chop_cr_def)

lemma str_lines_concat [codec_simps]:
  "\<forall>l \<in> set ls. NL \<notin> set l \<and> CR \<notin> set l \<Longrightarrow>
   str_lines (concat (map (\<lambda>l. l @ [NL]) ls) @ t) = ls @ str_lines t"
  by (induction ls) (simp_all add: str_lines_terminated chop_cr_id)

lemma trim_start_matches_step [text_simps]:
  "p \<noteq> [] \<Longrightarrow> trim_start_matches p (p @ s) = trim_start_matches p s"
  by (subst trim_start_matches.simps) simp

lemma trim_start_matches_stop [text_simps]:
  "\<not> prefix p s \<Longrightarrow> trim_start_matches p s = s"
  by (subst trim_start_matches.simps) simp

lemma trim_end_matches_step [text_simps]:
  "p \<noteq> [] \<Longrightarrow> trim_end_matches p (s @ p) = trim_end_matches p s"
  by (simp add: trim_end_matches_def trim_start_matches_step)

lemma trim_end_matches_stop [text_simps]:
  "\<not> suffix p s \<Longrightarrow> trim_end_matches p s = s"
  by (simp add: trim_end_matches_def trim_start_matches_stop suffix_to_prefix)

lemma graphic_not_whitespace: "is_ascii_graphic c \<Longrightarrow> \<not> is_whitespace [c]"
  by (auto simp: is_ascii_graphic_def is_whitespace_def)

lemma dropWhile_id: "\<forall>x \<in> set xs. \<not> P x \<Longrightarrow> dropWhile P xs = xs"
  by (cases xs) auto

lemma str_trim_graphic [text_simps]:
  assumes "list_all is_ascii_graphic s"
  shows "str_trim s = s"
proof -
  have "list_all (\<lambda>c. byte c < 128) s"
    using assms by (auto simp: list_all_iff is_ascii_graphic_def)
  then have c: "chars_of s = map (\<lambda>c. [c]) s" by (rule chars_of_ascii)
  have "\<forall>x \<in> set (chars_of s). \<not> is_whitespace x"
    using assms by (auto simp: c list_all_iff graphic_not_whitespace)
  then show ?thesis by (simp add: str_trim_def dropWhile_id)
qed

lemma str_trim_starts:
  assumes "is_ascii_graphic c"
  shows "\<exists>t. str_trim (c # s) = c # t"
proof -
  have "byte c < 128" using assms by (simp add: is_ascii_graphic_def)
  then have c: "chars_of (c # s) = [c] # chars_of s" by (simp add: utf8_width_def)
  have "\<not> is_whitespace [c]" using assms by (rule graphic_not_whitespace)
  then have "dropWhile is_whitespace (rev (chars_of s) @ [[c]])
      = dropWhile is_whitespace (rev (chars_of s)) @ [[c]]"
    by (cases "\<forall>x \<in> set (chars_of s). is_whitespace x") (auto simp: dropWhile_append)
  then show ?thesis using \<open>\<not> is_whitespace [c]\<close> unfolding str_trim_def c by simp
qed

lemma replace_chars_id [text_simps]: "set s \<inter> cs = {} \<Longrightarrow> replace_chars cs r s = s"
  by (induction s) (auto simp: replace_chars_def)

lemma replace_chars_gone: "set r \<inter> cs = {} \<Longrightarrow> set (replace_chars cs r s) \<inter> cs = {}"
  by (auto simp: replace_chars_def split: if_splits)

lemma str_contains_iff: "str_contains s p \<longleftrightarrow> sublist p s"
  by (induction s) (auto simp: sublist_Cons_right)

section \<open>Numbers as text\<close>

text \<open>Display of an unsigned integer, lower-case hexadecimal (\<open>{:x}\<close>), and
  \<open>str::parse\<close> / \<open>from_str_radix\<close> for integers of a given largest value.\<close>

definition digit_char :: "nat \<Rightarrow> char" where
  "digit_char d = (if d < 10 then char_of (48 + d) else char_of (87 + d))"

fun show_radix :: "nat \<Rightarrow> nat \<Rightarrow> string" where
  "show_radix b n = (if n < b \<or> b < 2 then [digit_char n]
                     else show_radix b (n div b) @ [digit_char (n mod b)])"

declare show_radix.simps [simp del]

definition dec :: "nat \<Rightarrow> string" where
  "dec n = show_radix 10 n"

definition hex :: "nat \<Rightarrow> string" where
  "hex n = show_radix 16 n"

text \<open>\<open>char::to_digit\<close>.\<close>

definition digit_of :: "nat \<Rightarrow> char \<Rightarrow> nat option" where
  "digit_of b c =
     (let d = (if is_ascii_digit c then byte c - 48
               else if is_ascii_lowercase c then byte c - 87
               else if is_ascii_uppercase c then byte c - 55 else b)
      in if d < b then Some d else None)"

fun digits_value :: "nat \<Rightarrow> nat \<Rightarrow> string \<Rightarrow> nat option" where
  "digits_value b acc [] = Some acc"
| "digits_value b acc (c # cs) =
     (case digit_of b c of None \<Rightarrow> None | Some d \<Rightarrow> digits_value b (acc * b + d) cs)"

definition parse_uint :: "nat \<Rightarrow> nat \<Rightarrow> string \<Rightarrow> nat option" where
  "parse_uint b m s =
     (let ds = (case s of c # r \<Rightarrow> if c = CHR ''+'' then r else s | [] \<Rightarrow> [])
      in if ds = [] then None
         else (case digits_value b 0 ds of
                 None \<Rightarrow> None | Some n \<Rightarrow> if n \<le> m then Some n else None))"

definition parse_u64 :: "string \<Rightarrow> u64 option" where
  "parse_u64 s = map_option word_of_nat (parse_uint 10 (2 ^ 64 - 1) s)"

text \<open>\<open>usize\<close> is 64 bits wide on the supported targets.\<close>

definition parse_usize :: "string \<Rightarrow> nat option" where
  "parse_usize s = parse_uint 10 (2 ^ 64 - 1) s"

definition parse_u16 :: "string \<Rightarrow> nat option" where
  "parse_u16 s = parse_uint 10 (2 ^ 16 - 1) s"

definition parse_i32 :: "string \<Rightarrow> int option" where
  "parse_i32 s =
     (case s of c # r \<Rightarrow>
        if c = CHR ''-'' then
          (if r = [] then None
           else case digits_value 10 0 r of
             None \<Rightarrow> None | Some n \<Rightarrow> if n \<le> 2 ^ 31 then Some (- int n) else None)
        else map_option int (parse_uint 10 (2 ^ 31 - 1) s)
      | [] \<Rightarrow> None)"

definition show_int :: "int \<Rightarrow> string" where
  "show_int i = (if i < 0 then CHR ''-'' # dec (nat (- i)) else dec (nat i))"

lemma digit_char_digit: "d < 10 \<Longrightarrow> is_ascii_digit (digit_char d)"
  by (simp add: digit_char_def is_ascii_digit_def)

lemma digit_of_char: "d < b \<Longrightarrow> b \<le> 16 \<Longrightarrow> digit_of b (digit_char d) = Some d"
  by (auto simp: digit_of_def digit_char_def is_ascii_digit_def is_ascii_lowercase_def Let_def)

lemma digits_value_append:
  "digits_value b acc (xs @ ys) =
   (case digits_value b acc xs of None \<Rightarrow> None | Some v \<Rightarrow> digits_value b v ys)"
  by (induction xs arbitrary: acc) (auto split: option.splits)

lemma digits_value_show:
  assumes "2 \<le> b" and "b \<le> 16"
  shows "digits_value b 0 (show_radix b n) = Some n"
  using assms
proof (induction b n rule: show_radix.induct)
  case (1 b n)
  show ?case
  proof (cases "n < b")
    case True
    then show ?thesis using 1 by (simp add: show_radix.simps [of b n] digit_of_char)
  next
    case False
    then have "digits_value b 0 (show_radix b (n div b)) = Some (n div b)"
      using 1 by simp
    then show ?thesis
      using 1 False by (simp add: show_radix.simps [of b n] digits_value_append digit_of_char)
  qed
qed

lemma show_radix_nonempty [simp]: "show_radix b n \<noteq> []"
  by (subst show_radix.simps) simp

lemma digit_char_alnum:
  "d < 16 \<Longrightarrow> is_ascii_digit (digit_char d) \<or> is_ascii_lowercase (digit_char d)"
  by (auto simp: digit_char_def ascii_simps)

lemma show_radix_chars:
  assumes "2 \<le> b" and "b \<le> 16"
  shows "list_all (\<lambda>c. is_ascii_digit c \<or> is_ascii_lowercase c) (show_radix b n)"
  using assms
proof (induction b n rule: show_radix.induct)
  case (1 b n)
  then have "n mod b < 16" using mod_less_divisor [of b n] by linarith
  with 1 show ?case
    by (cases "n < b") (simp_all add: show_radix.simps [of b n] digit_char_alnum)
qed

lemma dec_digits: "list_all is_ascii_digit (dec n)"
proof -
  have "list_all is_ascii_digit (show_radix b n)" if "b = 10" for b
    using that
    by (induction b n rule: show_radix.induct)
       (simp add: show_radix.simps [where b = 10] digit_char_digit)
  then show ?thesis by (simp add: dec_def)
qed

lemma dec_nonempty [simp]: "dec n \<noteq> []"
  by (simp add: dec_def)

lemma dec_free [text_simps]: "\<not> is_ascii_digit c \<Longrightarrow> c \<notin> set (dec n)"
  using dec_digits [of n] by (auto simp: list_all_iff)

lemma hex_chars: "list_all (\<lambda>c. is_ascii_digit c \<or> is_ascii_lowercase c) (hex n)"
  by (simp add: hex_def show_radix_chars)

lemma show_radix_length:
  assumes "2 \<le> b" and "n < b ^ k" and "0 < k"
  shows "length (show_radix b n) \<le> k"
  using assms
proof (induction b n arbitrary: k rule: show_radix.induct)
  case (1 b n)
  show ?case
  proof (cases "n < b")
    case True
    then show ?thesis using 1 by (simp add: show_radix.simps [of b n])
  next
    case False
    obtain j where k: "k = Suc j" using 1 by (cases k) auto
    then have "n div b < b ^ j" "0 < j" using 1 False
      by (auto simp: less_mult_imp_div_less mult.commute gr0_conv_Suc) (cases j; auto)+
    then have "length (show_radix b (n div b)) \<le> j" using 1 False by simp
    then show ?thesis using 1 False k by (simp add: show_radix.simps [of b n])
  qed
qed

lemma hex_length: "n < 16 ^ k \<Longrightarrow> 0 < k \<Longrightarrow> length (hex n) \<le> k"
  by (simp add: hex_def show_radix_length)

lemma parse_uint_digits:
  assumes "list_all (\<lambda>c. is_ascii_digit c \<or> is_ascii_lowercase c) ds" and "ds \<noteq> []"
    and "digits_value b 0 ds = Some n" and "n \<le> m"
  shows "parse_uint b m ds = Some n"
proof -
  obtain c r where ds: "ds = c # r" using assms(2) by (cases ds) auto
  with assms(1) have "c \<noteq> CHR ''+''" by (auto simp: ascii_simps)
  with ds assms show ?thesis by (simp add: parse_uint_def)
qed

lemma parse_uint_dec [codec_simps]: "n \<le> m \<Longrightarrow> parse_uint 10 m (dec n) = Some n"
  by (rule parse_uint_digits)
     (auto simp: dec_def digits_value_show show_radix_chars)

lemma parse_u64_dec [codec_simps]: "parse_u64 (dec (unat w)) = Some w"
proof -
  have "unat w < 2 ^ LENGTH(64)" by (rule unsigned_less)
  then show ?thesis by (simp add: parse_u64_def parse_uint_dec)
qed

lemma parse_usize_dec [codec_simps]: "n < 2 ^ 64 \<Longrightarrow> parse_usize (dec n) = Some n"
  by (simp add: parse_usize_def parse_uint_dec)

lemma parse_i32_show [codec_simps]:
  assumes "- (2 ^ 31) \<le> i" and "i < 2 ^ 31"
  shows "parse_i32 (show_int i) = Some i"
proof (cases "i < 0")
  case True
  then have "digits_value 10 0 (dec (nat (- i))) = Some (nat (- i))"
    by (simp add: dec_def digits_value_show)
  with True assms show ?thesis by (simp add: parse_i32_def show_int_def)
next
  case False
  obtain c r where d: "dec (nat i) = c # r" by (cases "dec (nat i)") auto
  have "c \<noteq> CHR ''-''"
    using dec_digits [of "nat i"] d by (auto simp: ascii_simps)
  moreover have "parse_uint 10 (2 ^ 31 - 1) (dec (nat i)) = Some (nat i)"
    using assms False by (intro parse_uint_dec) simp
  ultimately show ?thesis using False d by (simp add: parse_i32_def show_int_def)
qed

section \<open>Machine arithmetic\<close>

text \<open>\<open>u64::saturating_add\<close>. Plain \<open>+\<close> on \<^typ>\<open>u64\<close> wraps, as in a release build.\<close>

definition saturating_add :: "u64 \<Rightarrow> u64 \<Rightarrow> u64" where
  "saturating_add a b = (if unat a + unat b < 2 ^ 64 then a + b else - 1)"

lemma saturating_add_ge: "a \<le> saturating_add a b"
proof (cases "unat a + unat b < 2 ^ 64")
  case True
  then have "unat (a + b) = unat a + unat b" by (simp add: unat_word_ariths)
  with True show ?thesis by (simp add: saturating_add_def word_le_nat_alt)
qed (simp add: saturating_add_def)

section \<open>First-match update of a vector\<close>

text \<open>\<open>iter_mut().find(p)\<close> followed by writes through the reference.\<close>

fun update_first :: "('a \<Rightarrow> bool) \<Rightarrow> ('a \<Rightarrow> 'a) \<Rightarrow> 'a list \<Rightarrow> 'a list" where
  "update_first P f [] = []"
| "update_first P f (x # xs) = (if P x then f x # xs else x # update_first P f xs)"

lemma length_update_first [simp]: "length (update_first P f xs) = length xs"
  by (induction xs) auto

lemma update_first_id: "find P xs = None \<Longrightarrow> update_first P f xs = xs"
  by (induction xs) (auto split: if_splits)

lemma map_update_first: "(\<And>x. g (f x) = g x) \<Longrightarrow> map g (update_first P f xs) = map g xs"
  by (induction xs) auto

lemma list_all2_update_first:
  assumes "\<And>x. R x x" and "\<And>x. x \<in> set xs \<Longrightarrow> P x \<Longrightarrow> find P xs = Some x \<Longrightarrow> R x (f x)"
  shows "list_all2 R xs (update_first P f xs)"
  using assms(2)
proof (induction xs)
  case (Cons x xs)
  then show ?case using assms(1) by (auto simp: list_all2_same)
qed simp

lemma set_update_first:
  "y \<in> set (update_first P f xs) \<Longrightarrow> y \<in> set xs \<or> (\<exists>x \<in> set xs. P x \<and> y = f x)"
  by (induction xs) (auto split: if_splits)

lemma find_SomeD: "find P xs = Some x \<Longrightarrow> P x \<and> x \<in> set xs"
  by (induction xs) (auto split: if_splits)

lemma find_update_first:
  "find P xs = Some x \<Longrightarrow> P (f x) \<Longrightarrow> find P (update_first P f xs) = Some (f x)"
  by (induction xs) (auto split: if_splits)

lemma update_first_distinct:
  "distinct (map k xs) \<Longrightarrow> x \<in> set xs \<Longrightarrow> update_first (\<lambda>y. k y = k x) f xs =
   map (\<lambda>y. if k y = k x then f y else y) xs"
proof (induction xs)
  case (Cons a as)
  show ?case
  proof (cases "k a = k x")
    case True
    with Cons.prems have "\<forall>y \<in> set as. k y \<noteq> k x" by (auto simp: image_iff)
    with True show ?thesis by (auto intro!: map_idI [symmetric])
  next
    case False
    with Cons show ?thesis by auto
  qed
qed simp

text \<open>Case analysis on the outermost test of a value, for an opaque predicate.\<close>

lemma if_cases: "(c \<Longrightarrow> Q a) \<Longrightarrow> (\<not> c \<Longrightarrow> Q b) \<Longrightarrow> Q (if c then a else b)"
  by simp

lemma option_cases:
  "(x = None \<Longrightarrow> Q a) \<Longrightarrow> (\<And>v. x = Some v \<Longrightarrow> Q (f v)) \<Longrightarrow> Q (case x of None \<Rightarrow> a | Some v \<Rightarrow> f v)"
  by (cases x) auto

lemma sum_cases:
  "(\<And>l. x = Inl l \<Longrightarrow> Q (f l)) \<Longrightarrow> (\<And>r. x = Inr r \<Longrightarrow> Q (g r)) \<Longrightarrow> Q (case x of Inl l \<Rightarrow> f l | Inr r \<Rightarrow> g r)"
  by (cases x) auto

lemma exec_cases: "Q Panic \<Longrightarrow> (\<And>a. m = Done a \<Longrightarrow> Q (f a)) \<Longrightarrow> Q (exec_bind m f)"
  by (cases m) auto

lemma pair_cases: "(\<And>a b. x = (a, b) \<Longrightarrow> Q (f a b)) \<Longrightarrow> Q (case x of (a, b) \<Rightarrow> f a b)"
  by (cases x) auto

section \<open>Interfaces\<close>

text \<open>A vector whose old elements only evolve along a preorder and to which new elements may be
  appended: the shape of every table of the control-plane store.\<close>

definition grows :: "('a \<Rightarrow> 'a \<Rightarrow> bool) \<Rightarrow> 'a list \<Rightarrow> 'a list \<Rightarrow> bool" where
  "grows R xs ys \<longleftrightarrow> length xs \<le> length ys \<and> list_all2 R xs (take (length xs) ys)"

locale growing_table =
  fixes R :: "'a \<Rightarrow> 'a \<Rightarrow> bool"
  assumes evolve_refl: "R x x"
    and evolve_trans: "R x y \<Longrightarrow> R y z \<Longrightarrow> R x z"
begin

lemma grows_refl: "grows R xs xs"
  by (simp add: grows_def list_all2_same evolve_refl)

lemma grows_append: "grows R xs (xs @ ys)"
  by (simp add: grows_def list_all2_same evolve_refl)

lemma grows_nth:
  "grows R xs ys \<longleftrightarrow> length xs \<le> length ys \<and> (\<forall>i < length xs. R (xs ! i) (ys ! i))"
  by (auto simp: grows_def list_all2_conv_all_nth)

lemma grows_trans: "grows R xs ys \<Longrightarrow> grows R ys zs \<Longrightarrow> grows R xs zs"
  unfolding grows_nth by (meson evolve_trans order_less_le_trans order_trans)

lemma grows_same_length: "list_all2 R xs ys \<Longrightarrow> grows R xs ys"
  by (simp add: grows_def list_all2_lengthD)

lemma grows_update_first:
  "(\<And>x. x \<in> set xs \<Longrightarrow> P x \<Longrightarrow> find P xs = Some x \<Longrightarrow> R x (f x)) \<Longrightarrow>
   grows R xs (update_first P f xs)"
  by (intro grows_same_length list_all2_update_first evolve_refl)

lemma grows_map: "(\<And>x. x \<in> set xs \<Longrightarrow> R x (f x)) \<Longrightarrow> grows R xs (map f xs)"
  by (intro grows_same_length) (auto simp: list_all2_conv_all_nth)

lemma grows_memD: "grows R xs ys \<Longrightarrow> x \<in> set xs \<Longrightarrow> \<exists>y \<in> set ys. R x y"
  unfolding grows_nth by (metis in_set_conv_nth order_less_le_trans)

end

text \<open>Encoders with a decoder that inverts them on the values satisfying \<open>ok\<close>.\<close>

locale codec =
  fixes enc :: "'a \<Rightarrow> 'b" and decode :: "'b \<Rightarrow> 'a option" and ok :: "'a \<Rightarrow> bool"
  assumes decode_enc: "ok x \<Longrightarrow> decode (enc x) = Some x"
begin

lemma enc_injective: "ok x \<Longrightarrow> ok y \<Longrightarrow> enc x = enc y \<longleftrightarrow> x = y"
  by (metis decode_enc option.inject)

lemma decode_in_image: "ok x \<Longrightarrow> y = enc x \<Longrightarrow> decode y \<noteq> None"
  by (simp add: decode_enc)

end

text \<open>The identifier checks of the program: non-empty, bounded, every byte in a class.\<close>

locale identifier_check =
  fixes accept :: "string \<Rightarrow> bool" and cls :: "char \<Rightarrow> bool" and lim :: nat
  assumes accept_iff: "accept s \<longleftrightarrow> s \<noteq> [] \<and> length s \<le> lim \<and> list_all cls s"
begin

lemma rejects_char: "accept s \<Longrightarrow> \<not> cls c \<Longrightarrow> c \<notin> set s"
  by (auto simp: accept_iff list_all_iff)

lemma accept_bounds: "accept s \<Longrightarrow> 0 < length s \<and> length s \<le> lim"
  by (auto simp: accept_iff)

lemma accept_take: "accept s \<Longrightarrow> 0 < n \<Longrightarrow> accept (take n s)"
  by (auto simp: accept_iff list_all_iff dest: in_set_takeD)

lemma accept_append:
  "accept a \<Longrightarrow> accept b \<Longrightarrow> accept (a @ b) \<longleftrightarrow> length a + length b \<le> lim"
  by (auto simp: accept_iff)

end

text \<open>Decimal numbers are a codec.\<close>

interpretation u64_text: codec "\<lambda>w. dec (unat w)" parse_u64 "\<lambda>_. True"
  by unfold_locales (rule parse_u64_dec)

interpretation i32_text: codec show_int parse_i32 "\<lambda>i. - (2 ^ 31) \<le> i \<and> i < 2 ^ 31"
  by unfold_locales (auto intro: parse_i32_show)

end
