(* ===== verification/Json_Text.thy ===== *)
theory Json_Text
  imports Prelude
begin

text \<open>
  JSON as the control plane and the agent use it: the typed reads of a request body, and the
  escaping of the strings written into the hand-formatted responses.

  \<open>serde_json::from_str\<close> is third-party code and stays a parameter \<open>parse_json\<close> of every
  definition that parses; a parsed document is a \<open>json\<close> value whose objects are association
  lists read with \<^const>\<open>map_of\<close>. \<open>JU64\<close> are the numbers for which \<open>Value::as_u64\<close> answers,
  \<open>JNumber\<close> all others.
\<close>

section \<open>Reading\<close>

datatype json =
  JNull
| JBool bool
| JU64 u64
| JNumber string
| JString string
| JArray "json list"
| JObject "(string \<times> json) list"

type_synonym json_parser = "string \<Rightarrow> json option"

fun as_str :: "json \<Rightarrow> string option" where
  "as_str (JString s) = Some s"
| "as_str _ = None"

fun as_u64 :: "json \<Rightarrow> u64 option" where
  "as_u64 (JU64 n) = Some n"
| "as_u64 _ = None"

fun as_bool :: "json \<Rightarrow> bool option" where
  "as_bool (JBool b) = Some b"
| "as_bool _ = None"

fun as_array :: "json \<Rightarrow> json list option" where
  "as_array (JArray xs) = Some xs"
| "as_array _ = None"

fun as_object :: "json \<Rightarrow> (string \<times> json) list option" where
  "as_object (JObject kvs) = Some kvs"
| "as_object _ = None"

definition parse_json_object :: "json_parser \<Rightarrow> string \<Rightarrow> (string \<times> json) list option" where
  "parse_json_object pj body = Option.bind (pj body) as_object"

definition json_field :: "json_parser \<Rightarrow> string \<Rightarrow> string \<Rightarrow> string option" where
  "json_field pj body key =
     Option.bind (parse_json_object pj body) (\<lambda>obj. Option.bind (map_of obj key) as_str)"

definition none_or :: "('a \<Rightarrow> bool) \<Rightarrow> 'a option \<Rightarrow> bool" where
  "none_or P x = (case x of None \<Rightarrow> True | Some v \<Rightarrow> P v)"

definition json_types_valid ::
    "json_parser \<Rightarrow> string \<Rightarrow> string list \<Rightarrow> string list \<Rightarrow> string list \<Rightarrow> bool" where
  "json_types_valid pj body strings numbers booleans =
     (case parse_json_object pj body of
        None \<Rightarrow> False
      | Some obj \<Rightarrow>
          list_all (\<lambda>key. none_or (\<lambda>v. as_str v \<noteq> None) (map_of obj key)) strings
        \<and> list_all (\<lambda>key. none_or (\<lambda>v. as_u64 v \<noteq> None) (map_of obj key)) numbers
        \<and> list_all (\<lambda>key. none_or (\<lambda>v. as_bool v \<noteq> None) (map_of obj key)) booleans)"

definition json_true :: "json_parser \<Rightarrow> string \<Rightarrow> string \<Rightarrow> bool" where
  "json_true pj body key =
     (Option.bind (parse_json_object pj body) (\<lambda>obj. Option.bind (map_of obj key) as_bool)
      = Some True)"

definition json_number :: "json_parser \<Rightarrow> string \<Rightarrow> string \<Rightarrow> u64 option" where
  "json_number pj body key =
     Option.bind (parse_json_object pj body) (\<lambda>obj. Option.bind (map_of obj key) as_u64)"

definition json_key_present :: "json_parser \<Rightarrow> string \<Rightarrow> string \<Rightarrow> bool" where
  "json_key_present pj body key =
     (case parse_json_object pj body of None \<Rightarrow> False | Some obj \<Rightarrow> map_of obj key \<noteq> None)"

definition json_string_array :: "json_parser \<Rightarrow> string \<Rightarrow> string \<Rightarrow> string list" where
  "json_string_array pj body key =
     (case Option.bind (parse_json_object pj body)
             (\<lambda>obj. Option.bind (map_of obj key) as_array) of
        None \<Rightarrow> [] | Some vs \<Rightarrow> List.map_filter as_str vs)"

lemma json_field_valid:
  "json_types_valid pj body ss ns bs \<Longrightarrow> k \<in> set ss \<Longrightarrow> json_key_present pj body k \<Longrightarrow>
   \<exists>v. json_field pj body k = Some v"
  by (auto simp: json_types_valid_def json_key_present_def json_field_def none_or_def list_all_iff
      split: option.splits)

section \<open>Writing\<close>

text \<open>One character of \<open>esc\<close>.\<close>

definition hex4 :: "nat \<Rightarrow> string" where
  "hex4 n = replicate (4 - length (hex n)) CHR ''0'' @ hex n"

definition esc_char :: "string \<Rightarrow> string" where
  "esc_char ch =
     (if ch = [DQUOTE] then [BACKSLASH, DQUOTE]
      else if ch = [BACKSLASH] then [BACKSLASH, BACKSLASH]
      else if ch = [NL] then [BACKSLASH, CHR ''n'']
      else if ch = [CR] then [BACKSLASH, CHR ''r'']
      else if ch = [TAB] then [BACKSLASH, CHR ''t'']
      else if is_control ch then BACKSLASH # CHR ''u'' # hex4 (code_point ch)
      else ch)"

definition esc :: "string \<Rightarrow> string" where
  "esc value = concat (map esc_char (chars_of value))"

text \<open>A quoted, escaped string, a boolean and an optional string, as the format strings of the
  renderers write them.\<close>

definition quoted :: "string \<Rightarrow> string" where
  "quoted s = DQUOTE # esc s @ [DQUOTE]"

definition show_bool :: "bool \<Rightarrow> string" where
  "show_bool b = (if b then ''true'' else ''false'')"

definition opt_quoted :: "string option \<Rightarrow> string" where
  "opt_quoted v = (case v of Some s \<Rightarrow> quoted s | None \<Rightarrow> ''null'')"

definition show_u64 :: "u64 \<Rightarrow> string" where
  "show_u64 n = dec (unat n)"

section \<open>Escaping can be undone\<close>

text \<open>A reader of JSON string bodies (RFC 8259, basic plane): \<open>None\<close> on an unescaped quote, a raw
  control byte or a bad escape.\<close>

definition encode_utf8 :: "nat \<Rightarrow> string" where
  "encode_utf8 p =
     (if p < 0x80 then [char_of p]
      else if p < 0x800 then [char_of (0xC0 + p div 64), char_of (0x80 + p mod 64)]
      else [char_of (0xE0 + p div 4096), char_of (0x80 + p div 64 mod 64),
            char_of (0x80 + p mod 64)])"

definition unescape_simple :: "char \<Rightarrow> char option" where
  "unescape_simple c =
     (if c = DQUOTE \<or> c = BACKSLASH \<or> c = CHR ''/'' then Some c
      else if c = CHR ''n'' then Some NL else if c = CHR ''r'' then Some CR
      else if c = CHR ''t'' then Some TAB else if c = CHR ''b'' then Some CHR 0x08
      else if c = CHR ''f'' then Some CHR 0x0C else None)"

fun unescape :: "string \<Rightarrow> string option" where
  "unescape [] = Some []"
| "unescape (c # s) =
     (if c = DQUOTE \<or> byte c < 32 then None
      else if c = BACKSLASH then
        (case s of
           [] \<Rightarrow> None
         | d # r \<Rightarrow>
             if d = CHR ''u'' then
               (if length (take 4 r) = 4 then
                  (case digits_value 16 0 (take 4 r) of
                     None \<Rightarrow> None
                   | Some p \<Rightarrow> map_option ((@) (encode_utf8 p)) (unescape (drop 4 r)))
                else None)
             else (case unescape_simple d of
                     None \<Rightarrow> None | Some x \<Rightarrow> map_option ((#) x) (unescape r)))
      else map_option ((#) c) (unescape s))"

text \<open>A character of a well-formed string: its lead byte with its continuation bytes, in shortest
  form.\<close>

definition wf_char :: "string \<Rightarrow> bool" where
  "wf_char ch \<longleftrightarrow>
     (\<exists>a. ch = [a] \<and> byte a < 0x80)
   \<or> (\<exists>a b. ch = [a, b] \<and> 0xC2 \<le> byte a \<and> byte a < 0xE0 \<and> is_cont b)
   \<or> (\<exists>a b c. ch = [a, b, c] \<and> is_cont b \<and> is_cont c \<and> 0xE0 \<le> byte a \<and> byte a < 0xF0
          \<and> (byte a = 0xE0 \<longrightarrow> 0xA0 \<le> byte b))
   \<or> (\<exists>a b c d. ch = [a, b, c, d] \<and> is_cont b \<and> is_cont c \<and> is_cont d
          \<and> 0xF0 \<le> byte a \<and> byte a < 0xF5 \<and> (byte a = 0xF0 \<longrightarrow> 0x90 \<le> byte b))"

lemma valid_utf8_chars: "valid_utf8 s \<Longrightarrow> list_all wf_char (chars_of s)"
  by (induction s rule: utf8_induct) (simp_all add: utf8_width_def wf_char_def eval_nat_numeral)

lemma unescape_plain:
  "list_all (\<lambda>c. 32 \<le> byte c \<and> c \<noteq> DQUOTE \<and> c \<noteq> BACKSLASH) ch \<Longrightarrow>
   unescape (ch @ s) = map_option ((@) ch) (unescape s)"
  by (cases "unescape s"; induction ch) auto

lemma byte_cases: "byte a = n \<Longrightarrow> a = char_of n"
  by (metis char_of_byte)

lemma is_cont_mod: "is_cont c \<Longrightarrow> \<exists>k < 64. byte c = 128 + k \<and> byte c mod 64 = k"
  by (rule exI [of _ "byte c - 128"]) (auto simp: is_cont_def mod_if)

lemma hex_short: "n < 256 \<Longrightarrow> length (hex n) \<le> 2"
proof -
  assume "n < 256"
  then have "n div 16 < 16" by linarith
  then show ?thesis
    by (simp add: hex_def show_radix.simps [of 16 n] show_radix.simps [of 16 "n div 16"])
qed

lemma digits_value_zeros: "digits_value 16 0 (replicate k CHR ''0'' @ ds) = digits_value 16 0 ds"
proof -
  have "digit_of 16 CHR ''0'' = Some 0" by (simp add: digit_of_def ascii_simps)
  then show ?thesis by (induction k) auto
qed

lemma hex4_reads:
  assumes "n < 256"
  shows "length (hex4 n) = 4" and "digits_value 16 0 (hex4 n) = Some n"
  using hex_short [OF assms]
  by (simp_all add: hex4_def digits_value_zeros) (simp add: hex_def digits_value_show)

lemma unescape_control:
  assumes "code_point ch < 256" and "encode_utf8 (code_point ch) = ch"
  shows "unescape (BACKSLASH # CHR ''u'' # hex4 (code_point ch) @ s)
       = map_option ((@) ch) (unescape s)"
  using assms hex4_reads [OF assms(1)] by (simp add: byte_def)

lemma mod_window: "m * q \<le> n \<Longrightarrow> n < m * q + m \<Longrightarrow> n mod m = n - m * q" for n :: nat
proof -
  assume h: "m * q \<le> n" "n < m * q + m"
  then have "n mod m = (n - m * q + m * q) mod m" by simp
  also have "\<dots> = (n - m * q) mod m" by (rule mod_mult_self2)
  finally show ?thesis using h by (simp add: mod_less)
qed

lemma control_encode:
  assumes "wf_char ch" and "is_control ch"
  shows "code_point ch < 256 \<and> encode_utf8 (code_point ch) = ch"
  using assms(1) unfolding wf_char_def
proof (elim disjE exE conjE)
  fix a assume "ch = [a]" "byte a < 0x80"
  then show ?thesis by (simp add: encode_utf8_def)
next
  fix a b assume h: "ch = [a, b]" "0xC2 \<le> byte a" "byte a < 0xE0" "is_cont b"
  from is_cont_mod [OF h(4)] obtain k where k: "k < 64" "byte b = 128 + k" "byte b mod 64 = k"
    by blast
  have "byte a mod 32 = byte a - 192" using mod_window [of 32 6 "byte a"] h(2,3) by simp
  then have cp: "code_point ch = (byte a - 192) * 64 + k" using h k by simp
  have "code_point ch \<le> 159" using assms(2) unfolding is_control_def by linarith
  with cp h(2) have a: "byte a = 194" by linarith
  have eq: "char_of (194::nat) = a" "char_of (128 + k) = b" using a k by (metis char_of_byte)+
  have dm: "(128 + k) div 64 = 2" "(128 + k) mod 64 = k" using mod_window [of 64 2 "128 + k"] k(1) by auto
  have cp2: "code_point ch = 128 + k" using cp a by simp
  then show ?thesis using k(1) eq h(1) by (simp add: encode_utf8_def dm)
next
  fix a b c assume h: "ch = [a, b, c]" "is_cont b" "is_cont c" "0xE0 \<le> byte a" "byte a < 0xF0"
    "byte a = 0xE0 \<longrightarrow> 0xA0 \<le> byte b"
  from is_cont_mod [OF h(2)] obtain k where k: "k < 64" "byte b = 128 + k" "byte b mod 64 = k"
    by blast
  have "byte a mod 16 = byte a - 224" using mod_window [of 16 14 "byte a"] h(4,5) by simp
  then have "code_point ch \<ge> 2048" using h k by (cases "byte a = 224") auto
  then show ?thesis using assms(2) by (simp add: is_control_def)
next
  fix a b c d assume h: "ch = [a, b, c, d]" "is_cont b" "is_cont c" "is_cont d"
    "0xF0 \<le> byte a" "byte a < 0xF5" "byte a = 0xF0 \<longrightarrow> 0x90 \<le> byte b"
  from is_cont_mod [OF h(2)] obtain k where k: "k < 64" "byte b = 128 + k" "byte b mod 64 = k"
    by blast
  have "byte a mod 8 = byte a - 240" using mod_window [of 8 30 "byte a"] h(5,6) by simp
  then have "code_point ch \<ge> 2048" using h k by (cases "byte a = 240") auto
  then show ?thesis using assms(2) by (simp add: is_control_def)
qed

lemma wf_char_plain:
  assumes "wf_char ch" and "\<not> is_control ch" and "ch \<noteq> [DQUOTE]" and "ch \<noteq> [BACKSLASH]"
  shows "list_all (\<lambda>c. 32 \<le> byte c \<and> c \<noteq> DQUOTE \<and> c \<noteq> BACKSLASH) ch"
proof -
  have high: "32 \<le> byte c \<and> c \<noteq> DQUOTE \<and> c \<noteq> BACKSLASH" if "128 \<le> byte c" for c
    using that by (auto simp: byte_def)
  have "(\<exists>a. ch = [a]) \<or> list_all (\<lambda>c. 128 \<le> byte c) ch"
    using assms(1) unfolding wf_char_def by (elim disjE exE conjE) (simp_all add: is_cont_def)
  then consider a where "ch = [a]" | "list_all (\<lambda>c. 128 \<le> byte c) ch" by blast
  then show ?thesis
  proof cases
    case 1
    have "32 \<le> byte a" using assms(2) unfolding 1 is_control_def by simp
    moreover have "a \<noteq> DQUOTE" "a \<noteq> BACKSLASH" using assms(3,4) unfolding 1 by blast+
    ultimately show ?thesis unfolding 1 by simp
  next
    case 2
    then show ?thesis using high unfolding list_all_iff by blast
  qed
qed

lemma unescape_esc_char:
  assumes "wf_char ch"
  shows "unescape (esc_char ch @ s) = map_option ((@) ch) (unescape s)"
proof -
  consider "ch \<in> {[DQUOTE], [BACKSLASH], [NL], [CR], [TAB]}"
    | "ch \<notin> {[DQUOTE], [BACKSLASH], [NL], [CR], [TAB]}" "is_control ch"
    | "ch \<notin> {[DQUOTE], [BACKSLASH], [NL], [CR], [TAB]}" "\<not> is_control ch" by blast
  then show ?thesis
  proof cases
    case 1
    then show ?thesis
      by (elim insertE emptyE; cases "unescape s")
         (simp_all add: esc_char_def unescape_simple_def byte_def)
  next
    case 2
    then have "esc_char ch = BACKSLASH # CHR ''u'' # hex4 (code_point ch)"
      by (auto simp: esc_char_def)
    then show ?thesis using unescape_control control_encode [OF assms 2(2)] by simp
  next
    case 3
    then have "esc_char ch = ch" by (auto simp: esc_char_def)
    then show ?thesis using unescape_plain wf_char_plain [OF assms] 3 by auto
  qed
qed

lemma unescape_esc [codec_simps]: "valid_utf8 s \<Longrightarrow> unescape (esc s) = Some s"
proof -
  assume u: "valid_utf8 s"
  have "unescape (concat (map esc_char chs)) = Some (concat chs)" if "list_all wf_char chs" for chs
    using that by (induction chs) (simp_all add: unescape_esc_char)
  from this [OF valid_utf8_chars [OF u]] show ?thesis by (simp add: esc_def)
qed

interpretation json_string: codec esc unescape valid_utf8
  by unfold_locales (rule unescape_esc)

text \<open>Escaping loses nothing and breaks out of nothing. Reading the body of a JSON string
  written by \<open>esc\<close> gives back the value, for every UTF-8 string: no value of the store can end
  the string it is printed in, or be mistaken for another value.\<close>

theorem esc_roundtrip:
  assumes "valid_utf8 value"
  shows "unescape (esc value) = Some value"
  using assms by (rule json_string.decode_enc)

theorem esc_roundtrip_witness:
  "unescape (esc [DQUOTE, NL, CHR ''a'', CHR 0xC2, CHR 0x85])
   = Some [DQUOTE, NL, CHR ''a'', CHR 0xC2, CHR 0x85]"
  by (rule esc_roundtrip) (simp add: byte_def is_cont_def)

end
