(* ===== verification/Crypto.thy ===== *)
theory Crypto
  imports Prelude
begin

text \<open>
  The hand-written encodings and hashes of \<open>control-plane/src/main.rs\<close>: hexadecimal, base64 and
  base64url, constant-time comparison, SHA-256 and HMAC-SHA-256. (SHA-1, AES-GCM and Ed25519 come
  from the \<open>ring\<close> crate and are parameters where they are used.)
\<close>

unbundle bit_operations_syntax

section \<open>Hexadecimal\<close>

text \<open>\<open>{byte:02x}\<close>.\<close>

definition hex2 :: "nat \<Rightarrow> string" where
  "hex2 n = replicate (2 - length (hex n)) CHR ''0'' @ hex n"

definition hex_encode :: "string \<Rightarrow> string" where
  "hex_encode value = concat (map (\<lambda>c. hex2 (byte c)) value)"

definition hex_encode_bytes :: "bytes \<Rightarrow> string" where
  "hex_encode_bytes value = concat (map (\<lambda>b. hex2 (unat b)) value)"

text \<open>The loop over \<open>(0..len).step_by(2)\<close>. Slicing \<open>value[index..index + 2]\<close> panics when
  \<open>index + 2\<close> falls inside a UTF-8 character; \<open>collect\<close> stops at the first \<open>None\<close>.\<close>

fun hex_pairs :: "string \<Rightarrow> bytes option exec" where
  "hex_pairs (a # b # r) =
     (if r \<noteq> [] \<and> is_cont (hd r) then Panic
      else (case parse_uint 16 255 [a, b] of
              None \<Rightarrow> Done None
            | Some n \<Rightarrow> exec_map (map_option ((#) (word_of_nat n))) (hex_pairs r)))"
| "hex_pairs _ = Done (Some [])"

definition hex_decode :: "string \<Rightarrow> string option exec" where
  "hex_decode value =
     (if odd (length value) then Done None
      else exec_map (\<lambda>bs. Option.bind bs from_utf8) (hex_pairs value))"

definition hex_decode_bytes :: "string \<Rightarrow> bytes option exec" where
  "hex_decode_bytes value =
     (if value = [] \<or> odd (length value) then Done None else hex_pairs value)"

section \<open>Base64\<close>

definition base64_table :: string where
  "base64_table = ''ABCDEFGHIJKLMNOPQRSTUVWXYZabcdefghijklmnopqrstuvwxyz0123456789+/''"

definition base64_char :: "u64 \<Rightarrow> char" where
  "base64_char i = base64_table ! unat i"

definition base64_chunk :: "bytes \<Rightarrow> string" where
  "base64_chunk chunk =
     (let a = ucast (chunk ! 0) :: u64;
          b = (if 1 < length chunk then ucast (chunk ! 1) else 0);
          c = (if 2 < length chunk then ucast (chunk ! 2) else 0)
      in [base64_char (drop_bit 2 a),
          base64_char (push_bit 4 (a AND 3) OR drop_bit 4 b),
          if 1 < length chunk then base64_char (push_bit 2 (b AND 15) OR drop_bit 6 c) else CHR ''='',
          if 2 < length chunk then base64_char (c AND 63) else CHR ''=''])"

fun base64_encode :: "bytes \<Rightarrow> string" where
  "base64_encode [] = []"
| "base64_encode (a # bs) = base64_chunk (a # take 2 bs) @ base64_encode (drop 2 bs)"

definition base64url_encode :: "bytes \<Rightarrow> string" where
  "base64url_encode bs =
     replace_chars {CHR ''/''} ''_'' (replace_chars {CHR ''+''} ''-''
       (trim_end_matches ''='' (base64_encode bs)))"

definition base64url_digit :: "char \<Rightarrow> nat option" where
  "base64url_digit c =
     (if is_ascii_uppercase c then Some (byte c - 65)
      else if is_ascii_lowercase c then Some (byte c - 97 + 26)
      else if is_ascii_digit c then Some (byte c - 48 + 52)
      else if c = CHR ''-'' then Some 62
      else if c = CHR ''_'' then Some 63
      else None)"

text \<open>The loop of \<open>base64url_decode\<close>: accumulator, number of pending bits, output.\<close>

fun base64url_loop :: "string \<Rightarrow> u32 \<Rightarrow> nat \<Rightarrow> bytes \<Rightarrow> (nat \<times> bytes) option" where
  "base64url_loop [] acc bits out = Some (bits, out)"
| "base64url_loop (c # cs) acc bits out =
     (case base64url_digit c of
        None \<Rightarrow> None
      | Some d \<Rightarrow>
          (let acc = push_bit 6 acc OR word_of_nat d; bits = min 255 (bits + 6)
           in if 8 \<le> bits
              then (let bits = bits - 8
                    in base64url_loop cs (acc AND (push_bit bits 1 - 1)) bits
                         (out @ [ucast (drop_bit bits acc)]))
              else base64url_loop cs acc bits out))"

definition base64url_decode :: "string \<Rightarrow> bytes option" where
  "base64url_decode value =
     (if value = [] \<or> CHR ''='' \<in> set value then None
      else (case base64url_loop value 0 0 [] of
              None \<Rightarrow> None | Some (bits, out) \<Rightarrow> if bits < 6 then Some out else None))"

section \<open>Constant-time comparison\<close>

text \<open>\<open>get(index).copied().unwrap_or(0) as usize\<close>.\<close>

definition byte_at :: "bytes \<Rightarrow> nat \<Rightarrow> u64" where
  "byte_at bs i = (if i < length bs then ucast (bs ! i) else 0)"

definition constant_time_eq_bytes :: "bytes \<Rightarrow> bytes \<Rightarrow> bool" where
  "constant_time_eq_bytes l r \<longleftrightarrow>
     foldl (\<lambda>d i. d OR (byte_at l i XOR byte_at r i))
       (word_of_nat (length l) XOR word_of_nat (length r)) [0..<max (length l) (length r)] = 0"

definition constant_time_eq :: "string \<Rightarrow> string \<Rightarrow> bool" where
  "constant_time_eq l r \<longleftrightarrow>
     foldl (\<lambda>d i. d OR (byte_at (as_bytes l) i XOR byte_at (as_bytes r) i))
       (word_of_nat (length l) XOR word_of_nat (length r)) [0..<max (length l) (length r)] = 0"

section \<open>SHA-256\<close>

text \<open>\<open>K\<close>, row by row as the source lays it out.\<close>

definition sha256_K :: "u32 list" where
  "sha256_K = concat
    [[0x428a2f98, 0x71374491, 0xb5c0fbcf, 0xe9b5dba5, 0x3956c25b, 0x59f111f1, 0x923f82a4],
     [0xab1c5ed5, 0xd807aa98, 0x12835b01, 0x243185be, 0x550c7dc3, 0x72be5d74, 0x80deb1fe],
     [0x9bdc06a7, 0xc19bf174, 0xe49b69c1, 0xefbe4786, 0x0fc19dc6, 0x240ca1cc, 0x2de92c6f],
     [0x4a7484aa, 0x5cb0a9dc, 0x76f988da, 0x983e5152, 0xa831c66d, 0xb00327c8, 0xbf597fc7],
     [0xc6e00bf3, 0xd5a79147, 0x06ca6351, 0x14292967, 0x27b70a85, 0x2e1b2138, 0x4d2c6dfc],
     [0x53380d13, 0x650a7354, 0x766a0abb, 0x81c2c92e, 0x92722c85, 0xa2bfe8a1, 0xa81a664b],
     [0xc24b8b70, 0xc76c51a3, 0xd192e819, 0xd6990624, 0xf40e3585, 0x106aa070, 0x19a4c116],
     [0x1e376c08, 0x2748774c, 0x34b0bcb5, 0x391c0cb3, 0x4ed8aa4a, 0x5b9cca4f, 0x682e6ff3],
     [0x748f82ee, 0x78a5636f, 0x84c87814, 0x8cc70208, 0x90befffa, 0xa4506ceb, 0xbef9a3f7],
     [0xc67178f2]]"

definition sha256_init :: "u32 list" where
  "sha256_init = [0x6a09e667, 0xbb67ae85, 0x3c6ef372, 0xa54ff53a, 0x510e527f, 0x9b05688c,
                  0x1f83d9ab, 0x5be0cd19]"

text \<open>\<open>to_be_bytes\<close> and \<open>from_be_bytes\<close>.\<close>

definition be_bytes64 :: "u64 \<Rightarrow> bytes" where
  "be_bytes64 n = map (\<lambda>k. ucast (drop_bit k n)) [56, 48, 40, 32, 24, 16, 8, 0]"

definition be_bytes32 :: "u32 \<Rightarrow> bytes" where
  "be_bytes32 n = map (\<lambda>k. ucast (drop_bit k n)) [24, 16, 8, 0]"

definition from_be_bytes :: "bytes \<Rightarrow> 'a::len word" where
  "from_be_bytes bs = foldl (\<lambda>acc b. push_bit 8 acc OR ucast b) 0 bs"

function pad_loop :: "bytes \<Rightarrow> bytes" where
  "pad_loop m = (if (length m + 8) mod 64 = 0 then m else pad_loop (m @ [0]))"
  by pat_completeness auto
termination
proof (relation "measure (\<lambda>m. (64 - (length m + 8) mod 64) mod 64)")
  fix m :: bytes
  let ?r = "(length m + 8) mod 64"
  assume nz: "?r \<noteq> 0"
  have lt: "?r < 64" by simp
  have "(length (m @ [0]) + 8) mod 64 = (if Suc ?r = 64 then 0 else Suc ?r)"
    using mod_Suc [of "length m + 8" 64] by simp
  then show "(m @ [0], m) \<in> measure (\<lambda>m. (64 - (length m + 8) mod 64) mod 64)"
    using nz lt by (simp only: in_measure split: if_split) auto
qed simp

declare pad_loop.simps [simp del]

definition sha256_pad :: "bytes \<Rightarrow> bytes" where
  "sha256_pad data =
     pad_loop (data @ [0x80]) @ be_bytes64 (word_of_nat (length data) * 8)"

definition sha256_schedule :: "bytes \<Rightarrow> u32 list" where
  "sha256_schedule chunk =
     foldl (\<lambda>w i.
         let s0 = word_rotr 7 (w ! (i - 15)) XOR word_rotr 18 (w ! (i - 15))
                  XOR drop_bit 3 (w ! (i - 15));
             s1 = word_rotr 17 (w ! (i - 2)) XOR word_rotr 19 (w ! (i - 2))
                  XOR drop_bit 10 (w ! (i - 2))
         in w[i := w ! (i - 16) + s0 + w ! (i - 7) + s1])
       (map (\<lambda>i. from_be_bytes [chunk ! (i * 4), chunk ! (i * 4 + 1), chunk ! (i * 4 + 2),
                               chunk ! (i * 4 + 3)]) [0..<16] @ replicate 48 0)
       [16..<64]"

fun sha256_round :: "u32 list \<Rightarrow> u32 \<times> u32 \<Rightarrow> u32 list" where
  "sha256_round [a, b, c, d, e, f, g, h] (k, w) =
     (let s1 = word_rotr 6 e XOR word_rotr 11 e XOR word_rotr 25 e;
          choice = (e AND f) XOR (NOT e AND g);
          temp1 = h + s1 + choice + k + w;
          s0 = word_rotr 2 a XOR word_rotr 13 a XOR word_rotr 22 a;
          majority = (a AND b) XOR (a AND c) XOR (b AND c);
          temp2 = s0 + majority
      in [temp1 + temp2, a, b, c, d + temp1, e, f, g])"
| "sha256_round _ _ = []"

definition sha256_block :: "u32 list \<Rightarrow> bytes \<Rightarrow> u32 list" where
  "sha256_block hash chunk =
     map2 (+) hash (foldl sha256_round hash (zip sha256_K (sha256_schedule chunk)))"

text \<open>\<open>chunks_exact(64)\<close>.\<close>

fun chunks64 :: "bytes \<Rightarrow> bytes list" where
  "chunks64 m = (if length m < 64 then [] else take 64 m # chunks64 (drop 64 m))"

declare chunks64.simps [simp del]

definition sha256 :: "bytes \<Rightarrow> bytes" where
  "sha256 data =
     concat (map be_bytes32 (foldl sha256_block sha256_init (chunks64 (sha256_pad data))))"

definition hmac_sha256 :: "bytes \<Rightarrow> bytes \<Rightarrow> bytes" where
  "hmac_sha256 key message =
     (let k = (if 64 < length key then sha256 key else key);
          block = k @ replicate (64 - length k) 0;
          inner = map (\<lambda>b. b XOR 0x36) block;
          outer = map (\<lambda>b. b XOR 0x5c) block
      in sha256 (outer @ sha256 (inner @ message)))"

section \<open>Hexadecimal is a codec\<close>

lemma hex2_pair:
  assumes "n < 256"
  shows "\<exists>a b. hex2 n = [a, b] \<and> parse_uint 16 255 [a, b] = Some n \<and> \<not> is_cont a"
proof -
  have hx: "hex n = (if n < 16 then [digit_char n] else [digit_char (n div 16), digit_char (n mod 16)])"
  proof -
    have "n div 16 < 16" using assms by linarith
    then show ?thesis
      by (simp add: hex_def show_radix.simps [of 16 n] show_radix.simps [of 16 "n div 16"])
  qed
  have zero: "digit_char 0 = CHR ''0''" by (subst byte_inject [symmetric]) (simp add: digit_char_def ascii_simps)
  have h: "hex2 n = [digit_char (n div 16), digit_char (n mod 16)]"
    by (auto simp: hex2_def hx zero numeral_2_eq_2)
  have d: "n div 16 < 16" "n mod 16 < 16" using assms by auto
  have al: "is_ascii_digit (digit_char k) \<or> is_ascii_lowercase (digit_char k)" if "k < 16" for k
    using digit_char_alnum [OF that] .
  have "digits_value 16 0 (hex2 n) = Some (n div 16 * 16 + n mod 16)"
    using d by (simp add: h digit_of_char)
  then have "parse_uint 16 255 (hex2 n) = Some n"
    by (intro parse_uint_digits) (use al d assms h in auto)
  moreover have "\<not> is_cont (digit_char (n div 16))"
    using al [OF d(1)] by (auto simp: ascii_simps)
  ultimately show ?thesis using h by auto
qed

lemma hex_pairs_append:
  assumes "n < 256" and "r = [] \<or> \<not> is_cont (hd r)"
  shows "hex_pairs (hex2 n @ r) = exec_map (map_option ((#) (word_of_nat n))) (hex_pairs r)"
  using hex2_pair [OF assms(1)] assms(2) by auto

lemma hex_text_start: "s = [] \<or> \<not> is_cont (hd (concat (map (\<lambda>b. hex2 (unat b)) s)))" for s :: bytes
proof (cases s)
  case (Cons b bs)
  have "unat b < 2 ^ LENGTH(8)" by (rule unsigned_less)
  then obtain x y where "hex2 (unat b) = [x, y]" "\<not> is_cont x" using hex2_pair [of "unat b"] by auto
  then show ?thesis using Cons by simp
qed simp

lemma hex_pairs_encode [codec_simps]: "hex_pairs (hex_encode_bytes bs) = Done (Some bs)"
proof (induction bs)
  case (Cons b bs)
  have "unat b < 2 ^ LENGTH(8)" by (rule unsigned_less)
  then have "hex_pairs (hex2 (unat b) @ hex_encode_bytes bs)
      = exec_map (map_option ((#) b)) (hex_pairs (hex_encode_bytes bs))"
    using hex_pairs_append [of "unat b" "hex_encode_bytes bs"] hex_text_start [of bs]
    by (cases bs) (auto simp: hex_encode_bytes_def)
  then show ?case using Cons by (simp add: hex_encode_bytes_def)
qed (simp add: hex_encode_bytes_def)

lemma hex_encode_as_bytes: "hex_encode s = hex_encode_bytes (as_bytes s)"
  by (simp add: hex_encode_def hex_encode_bytes_def as_bytes_def comp_def)

lemma length_hex_encode_bytes [simp]: "length (hex_encode_bytes bs) = 2 * length bs"
proof (induction bs)
  case (Cons b bs)
  have "unat b < 2 ^ LENGTH(8)" by (rule unsigned_less)
  then show ?case using Cons hex2_pair [of "unat b"] by (auto simp: hex_encode_bytes_def)
qed (simp add: hex_encode_bytes_def)

lemma hex_decode_encode [codec_simps]: "valid_utf8 s \<Longrightarrow> hex_decode (hex_encode s) = Done (Some s)"
  by (simp add: hex_decode_def hex_encode_as_bytes hex_pairs_encode from_utf8_def)

lemma hex_decode_bytes_encode [codec_simps]:
  "bs \<noteq> [] \<Longrightarrow> hex_decode_bytes (hex_encode_bytes bs) = Done (Some bs)"
  using length_hex_encode_bytes [of bs]
  by (auto simp: hex_decode_bytes_def hex_pairs_encode simp del: length_hex_encode_bytes)

fun done_value :: "'a exec \<Rightarrow> 'a option" where
  "done_value (Done x) = Some x"
| "done_value Panic = None"

interpretation hex_text: codec hex_encode "\<lambda>s. Option.bind (done_value (hex_decode s)) id" valid_utf8
  by unfold_locales (simp add: hex_decode_encode)

text \<open>Decoding panics only on non-ASCII text.\<close>

lemma hex_pairs_ascii: "list_all (\<lambda>c. byte c < 128) s \<Longrightarrow> hex_pairs s \<noteq> Panic"
proof (induction s rule: hex_pairs.induct)
  case (1 a b r)
  then show ?case
    by (cases r) (auto simp: is_cont_def split: option.splits exec.splits,
        metis exec.distinct(1) exec_map.elims)+
qed auto

section \<open>Comparison\<close>

lemma or_word_eq_0: "a OR b = 0 \<longleftrightarrow> a = 0 \<and> b = 0" for a b :: "'a::len word"
  by (auto simp: bit_eq_iff bit_or_iff)

lemma xor_word_eq_0: "a XOR b = 0 \<longleftrightarrow> a = b" for a b :: "'a::len word"
  by (auto simp: bit_eq_iff bit_xor_iff)

lemma foldl_or_eq_0:
  "foldl (\<lambda>d i. d OR f i) (z :: 'a::len word) xs = 0 \<longleftrightarrow> z = 0 \<and> (\<forall>i \<in> set xs. f i = 0)"
  by (induction xs arbitrary: z) (auto simp: or_word_eq_0)

lemma ucast_u8_eq: "(ucast (a :: u8) :: u64) = ucast b \<longleftrightarrow> a = b"
proof
  assume "(ucast a :: u64) = ucast b"
  then have "unat (ucast a :: u64) = unat (ucast b :: u64)" by simp
  moreover have "take_bit 64 (unat w) = unat w" for w :: u8
    by (rule take_bit_nat_eq_self) (rule order_less_trans [OF unsigned_less], simp)
  ultimately show "a = b" by (simp add: unsigned_ucast_eq word_unat_eq_iff)
qed simp

lemma byte_at_eq: "l = r \<longleftrightarrow> length l = length r \<and>
    (\<forall>i \<in> set [0..<max (length l) (length r)]. byte_at l i XOR byte_at r i = 0)"
  by (auto simp: xor_word_eq_0 byte_at_def ucast_u8_eq intro!: nth_equalityI)

text \<open>The lengths of two slices that fit in memory differ in their 64-bit representation.\<close>

lemma constant_time_eq_bytes_iff:
  assumes "length l < 2 ^ 64" and "length r < 2 ^ 64"
  shows "constant_time_eq_bytes l r \<longleftrightarrow> l = r"
proof -
  have "(word_of_nat (length l) :: u64) = word_of_nat (length r) \<longleftrightarrow> length l = length r"
    using assms by (simp add: word_of_nat_eq_iff take_bit_nat_eq_self)
  then show ?thesis
    unfolding constant_time_eq_bytes_def foldl_or_eq_0 byte_at_eq [of l r] by (simp add: xor_word_eq_0)
qed

lemma constant_time_eq_via: "constant_time_eq l r = constant_time_eq_bytes (as_bytes l) (as_bytes r)"
  by (simp add: constant_time_eq_def constant_time_eq_bytes_def)

text \<open>The constant-time comparison is equality: two strings that fit in memory compare equal
  exactly when they are equal, and the loop always runs over the longer of the two.\<close>

theorem constant_time_eq_iff:
  assumes "length l < 2 ^ 64" and "length r < 2 ^ 64"
  shows "constant_time_eq l r \<longleftrightarrow> l = r"
  using assms by (simp add: constant_time_eq_via constant_time_eq_bytes_iff)

theorem constant_time_eq_iff_witness: "\<not> constant_time_eq ''tok'' ''tokens''"
  using constant_time_eq_iff [of "''tok''" "''tokens''"] by simp

section \<open>Base64url\<close>

text \<open>The digits of a chunk of three bytes, and the accumulator after two, three and four of them.\<close>

definition url_char :: "char \<Rightarrow> char" where
  "url_char c = (if c = CHR ''+'' then CHR ''-'' else if c = CHR ''/'' then CHR ''_'' else c)"

lemma table_digits: "map (\<lambda>c. base64url_digit (url_char c)) base64_table = map Some [0..<64]"
  by (simp add: base64_table_def base64url_digit_def ascii_simps url_char_def upt_rec_numeral upt_rec)

lemma table_no_pad: "CHR ''='' \<notin> set base64_table"
  by (simp add: base64_table_def)

lemma base64_digit:
  "d < 64 \<Longrightarrow> base64url_digit (url_char (base64_char d)) = Some (unat d) \<and> base64_char d \<noteq> CHR ''=''"
proof -
  assume d: "d < 64"
  then have n: "unat d < 64" by (simp add: word_less_nat_alt)
  have l: "length base64_table = 64" by (simp add: base64_table_def)
  have "map (\<lambda>c. base64url_digit (url_char c)) base64_table ! unat d = map Some [0..<64] ! unat d"
    by (simp only: table_digits)
  then have "base64url_digit (url_char (base64_char d)) = Some (unat d)" 
    using n l by (simp add: base64_char_def)
  then show ?thesis using table_no_pad n l by (metis base64_char_def nth_mem)
qed

lemma small_word: "(\<And>n. 6 \<le> n \<Longrightarrow> \<not> bit w n) \<Longrightarrow> w < 64" for w :: u64
proof -
  assume h: "\<And>n. 6 \<le> n \<Longrightarrow> \<not> bit w n"
  have "take_bit 6 w = w"
    by (rule bit_word_eqI) (use h not_less in \<open>auto simp: bit_take_bit_iff\<close>)
  then have "take_bit 6 (unat w) = unat w" by (metis unsigned_take_bit_eq)
  then have "unat w < 2 ^ 6" by (simp only: take_bit_nat_eq_self_iff)
  then show ?thesis by (simp add: word_less_nat_alt)
qed

lemma and_masks: "w AND 3 = take_bit 2 w" "w AND 15 = take_bit 4 w" "w AND 63 = take_bit 6 w"
  for w :: u64
  by (simp_all add: take_bit_eq_mask mask_eq_exp_minus_1)

lemma byte_high: "bit (a :: u8) n \<Longrightarrow> n < 8"
  using bit_imp_le_length [of a n] by simp

definition dig1 :: "u8 \<Rightarrow> u64" where "dig1 a = drop_bit 2 (ucast a)"
definition dig2 :: "u8 \<Rightarrow> u8 \<Rightarrow> u64" where
  "dig2 a b = push_bit 4 (take_bit 2 (ucast a)) OR drop_bit 4 (ucast b)"
definition dig3 :: "u8 \<Rightarrow> u8 \<Rightarrow> u64" where
  "dig3 b c = push_bit 2 (take_bit 4 (ucast b)) OR drop_bit 6 (ucast c)"
definition dig4 :: "u8 \<Rightarrow> u64" where "dig4 c = take_bit 6 (ucast c)"

lemmas digs = dig1_def dig2_def dig3_def dig4_def

lemma six_bits: "dig1 a < 64" "dig2 a b < 64" "dig3 b c < 64" "dig4 c < 64"
  unfolding digs by (rule small_word, auto simp: bit_simps dest!: byte_high)+

lemma low_mask: "w AND (2 ^ n - 1) = take_bit n w" for w :: u32
  by (simp add: take_bit_eq_mask mask_eq_exp_minus_1)

definition acc2 :: "u8 \<Rightarrow> u8 \<Rightarrow> u32" where
  "acc2 a b = push_bit 6 (ucast (dig1 a)) OR ucast (dig2 a b)"
definition acc3 :: "u8 \<Rightarrow> u8 \<Rightarrow> u8 \<Rightarrow> u32" where
  "acc3 a b c = push_bit 6 (take_bit 4 (acc2 a b)) OR ucast (dig3 b c)"
definition acc4 :: "u8 \<Rightarrow> u8 \<Rightarrow> u8 \<Rightarrow> u32" where
  "acc4 a b c = push_bit 6 (take_bit 2 (acc3 a b c)) OR ucast (dig4 c)"

lemma less_8: "n < 8 \<Longrightarrow> n = 0 \<or> n = 1 \<or> n = 2 \<or> n = 3 \<or> n = 4 \<or> n = 5 \<or> n = 6 \<or> n = (7::nat)"
  by auto

lemma no_high_bit: "8 \<le> n \<Longrightarrow> \<not> bit (a :: u8) n"
  using byte_high [of a n] by auto

lemma u8_eqI: "(\<And>n. n \<in> {0, 1, 2, 3, 4, 5, 6, 7} \<Longrightarrow> bit a n = bit b n) \<Longrightarrow> a = b" for a b :: u8
  by (rule bit_word_eqI) (use less_8 in auto)

lemma out_bytes:
  "(ucast (drop_bit 4 (acc2 a b)) :: u8) = a"
  "(ucast (drop_bit 2 (acc3 a b c)) :: u8) = b"
  "(ucast (acc4 a b c) :: u8) = c"
  unfolding acc2_def acc3_def acc4_def digs
  by (rule u8_eqI, elim insertE emptyE; simp add: bit_simps no_high_bit)+

lemma step_short:
  "d < 64 \<Longrightarrow> bits < 2 \<Longrightarrow> base64url_loop (url_char (base64_char d) # cs) acc bits out =
   base64url_loop cs (push_bit 6 acc OR ucast d) (bits + 6) out"
  using base64_digit [of d] by simp

lemma step_push:
  "A = push_bit 6 acc OR ucast d \<Longrightarrow> d < 64 \<Longrightarrow> 2 \<le> bits \<Longrightarrow> bits < 8 \<Longrightarrow>
   base64url_loop (url_char (base64_char d) # cs) acc bits out =
   base64url_loop cs (take_bit (bits - 2) A) (bits - 2) (out @ [ucast (drop_bit (bits - 2) A)])"
  using base64_digit [of d] by (simp add: low_mask Let_def min_def)

lemma loop2:
  "base64url_loop (url_char (base64_char (dig1 a)) # url_char (base64_char (dig2 a b)) # cs) 0 0 out
   = base64url_loop cs (take_bit 4 (acc2 a b)) 4 (out @ [a])"
  using step_push [OF acc2_def six_bits(2), where bits = 6]
  by (simp only: step_short [OF six_bits(1)]) (simp add: out_bytes)

lemma loop3:
  "base64url_loop (url_char (base64_char (dig3 b c)) # cs) (take_bit 4 (acc2 a b)) 4 out
   = base64url_loop cs (take_bit 2 (acc3 a b c)) 2 (out @ [b])"
  using step_push [OF acc3_def six_bits(3), where bits = 4] by (simp add: out_bytes)

lemma loop4:
  "base64url_loop (url_char (base64_char (dig4 c)) # cs) (take_bit 2 (acc3 a b c)) 2 out
   = base64url_loop cs 0 0 (out @ [c])"
  using step_push [OF acc4_def six_bits(4), where bits = 2] by (simp add: out_bytes)

lemma chunk_chars:
  "base64_chunk [a, b, c] = map base64_char [dig1 a, dig2 a b, dig3 b c, dig4 c]"
  "base64_chunk [a, b] = map base64_char [dig1 a, dig2 a b, dig3 b 0] @ ''=''"
  "base64_chunk [a] = map base64_char [dig1 a, dig2 a 0] @ ''==''"
  by (simp_all only: base64_chunk_def digs and_masks) (simp_all add: Let_def)


lemma trim_end_no_pad: "CHR ''='' \<notin> set ys \<Longrightarrow> trim_end_matches ''='' ys = ys"
  by (rule trim_end_matches_stop) (auto simp: suffix_def)

lemma trim_end_append:
  assumes "CHR ''='' \<notin> set xs"
  shows "trim_end_matches ''='' (xs @ ys) = xs @ trim_end_matches ''='' ys"
proof (induction ys rule: rev_induct)
  case (snoc y ys)
  show ?case
  proof (cases "y = CHR ''=''")
    case True
    then show ?thesis using snoc trim_end_matches_step [of "''=''" "xs @ ys"]
        trim_end_matches_step [of "''=''" ys] by simp
  next
    case False
    then show ?thesis by (simp add: trim_end_matches_stop suffix_def)
  qed
qed (simp add: trim_end_no_pad assms)

lemma replace_is_url_char:
  "replace_chars {CHR ''/''} ''_'' (replace_chars {CHR ''+''} ''-'' s) = map url_char s"
  by (induction s) (auto simp: replace_chars_def url_char_def)

definition unpadded :: "bytes \<Rightarrow> string" where
  "unpadded bs = trim_end_matches ''='' (base64_encode bs)"

lemma base64_char_no_pad: "i < 64 \<Longrightarrow> base64_char i \<noteq> CHR ''=''"
  using base64_digit [of i] by blast

lemma unpadded_eqs:
  "unpadded [] = []"
  "unpadded [a] = map base64_char [dig1 a, dig2 a 0]"
  "unpadded [a, b] = map base64_char [dig1 a, dig2 a b, dig3 b 0]"
  "unpadded (a # b # c # bs) = map base64_char [dig1 a, dig2 a b, dig3 b c, dig4 c] @ unpadded bs"
proof -
  note np = base64_char_no_pad [OF six_bits(1)] base64_char_no_pad [OF six_bits(2)]
    base64_char_no_pad [OF six_bits(3)] base64_char_no_pad [OF six_bits(4)]
  have pad: "trim_end_matches ''='' ''='' = []" "trim_end_matches ''='' ''=='' = []"
    using trim_end_matches_step [of "''=''" "[]"] trim_end_matches_step [of "''=''" "''=''"]
    by (simp_all add: trim_end_no_pad)
  show "unpadded [] = []" by (simp add: unpadded_def trim_end_no_pad)
  show "unpadded [a] = map base64_char [dig1 a, dig2 a 0]"
    unfolding unpadded_def base64_encode.simps take_Nil chunk_chars drop_Nil append_Nil2
    by (subst trim_end_append) (auto simp: np [symmetric] pad)
  show "unpadded [a, b] = map base64_char [dig1 a, dig2 a b, dig3 b 0]"
    by (simp add: unpadded_def chunk_chars del: append.simps list.map)
       (subst trim_end_append, auto simp: np [symmetric] pad)
  show "unpadded (a # b # c # bs) = map base64_char [dig1 a, dig2 a b, dig3 b c, dig4 c] @ unpadded bs"
    by (simp add: unpadded_def chunk_chars del: append.simps list.map)
       (subst trim_end_append, auto simp: np [symmetric])
qed

lemma loop_unpadded:
  "\<exists>bits < 6. base64url_loop (map url_char (unpadded bs)) 0 0 out = Some (bits, out @ bs)"
proof (induction bs arbitrary: out rule: base64_encode.induct)
  case (2 a bs)
  show ?case
  proof (cases bs rule: base64_encode.cases)
    case 1
    then show ?thesis by (simp add: unpadded_eqs loop2 del: base64url_loop.simps) simp
  next
    case bs: (2 b cs)
    show ?thesis
    proof (cases cs)
      case Nil
      then show ?thesis using bs
        by (simp add: unpadded_eqs loop2 loop3 del: base64url_loop.simps) simp
    next
      case (Cons c r)
      then show ?thesis using bs 2 [of "out @ [a, b, c]"]
        by (simp add: unpadded_eqs loop2 loop3 loop4 del: base64url_loop.simps)
    qed
  qed
qed (simp add: unpadded_eqs)

lemma unpadded_no_pad: "CHR ''='' \<notin> set (unpadded bs)"
proof (induction bs rule: base64_encode.induct)
  case (2 a bs)
  then show ?case
    using base64_char_no_pad [OF six_bits(1)] base64_char_no_pad [OF six_bits(2)]
      base64_char_no_pad [OF six_bits(3)] base64_char_no_pad [OF six_bits(4)]
    by (cases bs; cases "tl bs") (auto simp: unpadded_eqs eq_commute [of "CHR ''=''"])
qed (simp add: unpadded_eqs)

lemma base64url_decode_encode [codec_simps]:
  assumes "bs \<noteq> []"
  shows "base64url_decode (base64url_encode bs) = Some bs"
proof -
  have e: "base64url_encode bs = map url_char (unpadded bs)"
    by (simp add: base64url_encode_def replace_is_url_char unpadded_def)
  have ne: "unpadded bs \<noteq> []"
    using assms by (cases bs; cases "tl bs"; cases "tl (tl bs)") (auto simp: unpadded_eqs)
  have np: "CHR ''='' \<notin> set (map url_char (unpadded bs))"
    using unpadded_no_pad [of bs] by (auto simp: url_char_def split: if_splits)
  show ?thesis using loop_unpadded [of bs "[]"] ne np
    by (auto simp: base64url_decode_def e)
qed

text \<open>JWT segments survive: \<open>base64url_decode\<close> gives back every non-empty byte string from the
  unpadded base64url text of the encoder, bit for bit through the shared accumulator.\<close>

theorem base64url_roundtrip:
  assumes "bs \<noteq> []"
  shows "base64url_decode (base64url_encode bs) = Some bs"
  using assms by (rule base64url_decode_encode)

theorem base64url_roundtrip_witness: "base64url_decode (base64url_encode [0xFF, 0x3E]) = Some [0xFF, 0x3E]"
  by (rule base64url_roundtrip) simp


section \<open>Padding and digest length\<close>

lemma pad_loop_zeros: "\<exists>k. pad_loop m = m @ replicate k 0 \<and> (length (pad_loop m) + 8) mod 64 = 0"
proof (induction m rule: pad_loop.induct)
  case (1 m)
  show ?case
  proof (cases "(length m + 8) mod 64 = 0")
    case True
    then have "pad_loop m = m @ replicate 0 0" by (subst pad_loop.simps) simp
    then show ?thesis using True by (intro exI [of _ 0]) simp
  next
    case False
    obtain k where "pad_loop (m @ [0]) = (m @ [0]) @ replicate k 0
        \<and> (length (pad_loop (m @ [0])) + 8) mod 64 = 0" using 1 [OF False] ..
    moreover have "pad_loop m = pad_loop (m @ [0])"
      using pad_loop.simps [of m] by (simp only: False if_False)
    ultimately have "pad_loop m = m @ replicate (Suc k) 0 \<and> (length (pad_loop m) + 8) mod 64 = 0"
      by (metis append_Cons append_Nil append_assoc replicate_Suc)
    then show ?thesis ..
  qed
qed

lemma length_sha256_pad: "64 dvd length (sha256_pad data)"
  using pad_loop_zeros [of "data @ [0x80]"]
  by (auto simp: sha256_pad_def be_bytes64_def dvd_eq_mod_eq_0)

lemma be_bytes64_inject: "be_bytes64 m = be_bytes64 n \<longleftrightarrow> m = n"
proof
  assume e: "be_bytes64 m = be_bytes64 n"
  show "m = n"
  proof (rule bit_word_eqI)
    fix i assume "i < LENGTH(64)"
    then have i: "i div 8 < 8" by simp
    have "(ucast (drop_bit k m) :: u8) = ucast (drop_bit k n)"
      if "k \<in> {56, 48, 40, 32, 24, 16, 8, 0}" for k
      using e that by (auto simp: be_bytes64_def)
    moreover have "8 * (i div 8) \<in> {56, 48, 40, 32, 24, 16, 8, 0}"
      using less_8 [OF i] by auto
    ultimately have "(ucast (drop_bit (8 * (i div 8)) m) :: u8) = ucast (drop_bit (8 * (i div 8)) n)"
      by blast
    then have "bit (ucast (drop_bit (8 * (i div 8)) m) :: u8) (i mod 8)
             = bit (ucast (drop_bit (8 * (i div 8)) n) :: u8) (i mod 8)" by simp
    then show "bit m i = bit n i" by (simp add: bit_simps)
  qed
qed simp

lemma word_times_8:
  assumes "a < 2 ^ 61" and "b < 2 ^ 61" and "(word_of_nat a :: u64) * 8 = word_of_nat b * 8"
  shows "a = b"
proof -
  have "(word_of_nat (a * 8) :: u64) = word_of_nat (b * 8)" using assms(3) by simp
  then have "take_bit 64 (a * 8) = take_bit 64 (b * 8)" by (simp only: word_of_nat_eq_iff) simp
  then show ?thesis using assms(1,2) by (simp add: take_bit_nat_eq_self)
qed

lemma sha256_pad_inject:
  assumes "length a < 2 ^ 61" and "length b < 2 ^ 61" and "sha256_pad a = sha256_pad b"
  shows "a = b"
proof -
  obtain j k where j: "pad_loop (a @ [0x80]) = (a @ [0x80]) @ replicate j 0"
    and k: "pad_loop (b @ [0x80]) = (b @ [0x80]) @ replicate k 0"
    using pad_loop_zeros [of "a @ [0x80]"] pad_loop_zeros [of "b @ [0x80]"] by blast
  have l: "length (be_bytes64 x) = 8" for x by (simp add: be_bytes64_def)
  from assms(3) have "(a @ [0x80]) @ replicate j 0 = (b @ [0x80]) @ replicate k 0
      \<and> be_bytes64 (word_of_nat (length a) * 8) = be_bytes64 (word_of_nat (length b) * 8)"
    by (simp add: sha256_pad_def j k l append_eq_append_conv del: append_assoc)
  then have "length a = length b" and e: "(a @ [0x80]) @ replicate j 0 = (b @ [0x80]) @ replicate k 0"
    using word_times_8 [OF assms(1,2)] be_bytes64_inject by blast+
  then have "take (length a) ((a @ [0x80]) @ replicate j 0) = take (length a) ((b @ [0x80]) @ replicate k 0)"
    by simp
  then show ?thesis using \<open>length a = length b\<close> by simp
qed

lemma length_schedule_loop: "length (foldl (\<lambda>w i. w[i := f w i]) ws xs) = length ws"
  by (induction xs arbitrary: ws) auto

lemma length_schedule: "length (sha256_schedule c) = 64"
  unfolding sha256_schedule_def Let_def by (subst length_schedule_loop) simp

lemma length_rounds: "length hs = 8 \<Longrightarrow> length (foldl sha256_round hs kws) = 8"
proof (induction kws arbitrary: hs)
  case (Cons kw kws)
  obtain k w where kw: "kw = (k, w)" by force
  from Cons.prems obtain a b c d e f g h where "hs = [a, b, c, d, e, f, g, h]"
    by (auto simp: length_Suc_conv eval_nat_numeral)
  then have "length (sha256_round hs kw) = 8" by (simp add: kw Let_def)
  then show ?case using Cons.IH by simp
qed simp

lemma length_blocks: "length hs = 8 \<Longrightarrow> length (foldl sha256_block hs cs) = 8"
  by (induction cs arbitrary: hs) (simp_all add: sha256_block_def length_rounds)

lemma length_sha256 [simp]: "length (sha256 data) = 32"
proof -
  have "length (concat (map be_bytes32 hs)) = 4 * length hs" for hs
    by (induction hs) (simp_all add: be_bytes32_def)
  then show ?thesis by (simp add: sha256_def length_blocks sha256_init_def)
qed

text \<open>The SHA-256 preprocessing is sound: the padded message is a whole number of 64-byte
  blocks, so no byte escapes \<open>chunks_exact\<close>; two different messages below the 2^61-byte limit are
  never padded to the same blocks; and the digest always has 32 bytes.\<close>

theorem sha256_padding:
  assumes "length a < 2 ^ 61" and "length b < 2 ^ 61"
  shows "(sha256_pad a = sha256_pad b \<longleftrightarrow> a = b) \<and> concat (chunks64 (sha256_pad a)) = sha256_pad a
       \<and> length (sha256 a) = 32"
proof -
  have "concat (chunks64 m) = m" if "64 dvd length m" for m
    using that
  proof (induction m rule: chunks64.induct)
    case (1 m)
    show ?case
    proof (cases "length m < 64")
      case True
      then show ?thesis using 1(2) by (simp add: chunks64.simps [of m]) (auto dest: dvd_imp_le)
    next
      case False
      then have "64 dvd length (drop 64 m)" using 1(2) by (simp add: dvd_diff_nat)
      then show ?thesis using 1(1) [OF False] False by (simp add: chunks64.simps [of m])
    qed
  qed
  then show ?thesis using sha256_pad_inject [OF assms] length_sha256_pad by auto
qed

theorem sha256_padding_witness: "sha256_pad [1] \<noteq> sha256_pad [1, 0] \<and> length (sha256 [1]) = 32"
  using sha256_padding [of "[1]" "[1, 0]"] by simp

text \<open>The byte-index slicing of \<open>hex_decode\<close> panics when a slice ends inside a character, and only
  then: text without multi-byte characters never does.\<close>

lemma hex_decode_panics:
  "hex_decode [CHR ''a'', CHR 0xC3, CHR 0xA9, CHR ''a''] = Panic"
  by (simp add: hex_decode_def is_cont_def byte_def)

lemma hex_decode_ascii: "list_all (\<lambda>c. byte c < 128) s \<Longrightarrow> hex_decode s \<noteq> Panic"
  using hex_pairs_ascii [of s] by (cases "hex_pairs s") (auto simp: hex_decode_def)

lemma hex_encode_chars:
  "list_all (\<lambda>c. is_ascii_digit c \<or> is_ascii_lowercase c) (hex_encode_bytes bs)"
proof -
  have "list_all (\<lambda>c. is_ascii_digit c \<or> is_ascii_lowercase c) (hex2 n)" for n
    using hex_chars [of n] by (auto simp: hex2_def list_all_iff is_ascii_digit_def byte_def)
  then show ?thesis by (auto simp: hex_encode_bytes_def list_all_iff)
qed

lemma hex_encode_free [text_simps]:
  "\<not> is_ascii_digit c \<Longrightarrow> \<not> is_ascii_lowercase c \<Longrightarrow> c \<notin> set (hex_encode_bytes bs)"
  using hex_encode_chars [of bs] by (auto simp: list_all_iff)

lemma hex_encode_bytes_inject: "hex_encode_bytes a = hex_encode_bytes b \<longleftrightarrow> a = b"
  by (metis exec.inject hex_pairs_encode option.inject)

lemma length_hmac [simp]: "length (hmac_sha256 key message) = 32"
  by (simp add: hmac_sha256_def Let_def)

lemma constant_time_eq_same: "length s < 2 ^ 64 \<Longrightarrow> constant_time_eq s s"
  by (simp add: constant_time_eq_via constant_time_eq_bytes_iff)

end
