(* ===== verification/Store_Model.thy ===== *)
theory Store_Model
  imports Json_Text Crypto
begin

text \<open>
  The data model of the control plane (\<open>control-plane/src/main.rs\<close>): nodes, tasks, audit records,
  grants and approvals, the identifier checks, the JSON renderers, and what one handler call sees
  of the outside world (\<open>env\<close>). The last section says how a table of the store may evolve.
\<close>

section \<open>Records\<close>

record node =
  nd_id :: string
  nd_name :: string
  nd_online :: bool
  nd_revoked :: bool
  nd_credential :: string
  nd_abilities :: string
  nd_platform :: string
  nd_architecture :: string
  nd_version :: string
  nd_labels :: string
  nd_region :: string
  nd_data_class :: string
  nd_capacity :: string
  nd_last_seen :: u64

record task =
  tk_id :: string
  tk_request_id :: string
  tk_actor :: string
  tk_node_id :: string
  tk_ability :: string
  tk_state :: string
  tk_idempotency_key :: string
  tk_program :: string
  tk_argument :: string
  tk_output :: string
  tk_output_sha256 :: string
  tk_output_truncated :: bool
  tk_output_limit :: nat
  tk_exit_code :: "int option"
  tk_lease_until :: u64
  tk_lease_token :: string
  tk_timeout_ms :: u64

record activity =
  ac_id :: string
  ac_event :: string
  ac_node_id :: "string option"
  ac_task_id :: "string option"
  ac_actor :: "string option"
  ac_timestamp :: u64
  ac_prev_hash :: string
  ac_hash :: string

record grant =
  gr_code :: string
  gr_signature :: string
  gr_expires_at :: u64
  gr_used :: bool
  gr_revoked :: bool

record approval =
  ap_id :: string
  ap_node_id :: string
  ap_ability :: string
  ap_program :: string
  ap_argument :: string
  ap_actor :: string
  ap_expires_at :: u64
  ap_used :: bool

record store =
  nodes :: "node list"
  tasks :: "task list"
  audit :: "activity list"
  grants :: "grant list"
  approvals :: "approval list"

definition SUPPORTED_ABILITIES :: "string list" where
  "SUPPORTED_ABILITIES = [''file.read'', ''file.write'', ''task.exec'', ''system.inspect'']"

definition DEFAULT_TASK_TIMEOUT_MS :: u64 where
  "DEFAULT_TASK_TIMEOUT_MS = 30000"

definition MAX_TASK_TIMEOUT_MS :: u64 where
  "MAX_TASK_TIMEOUT_MS = 300000"

definition MAX_PERSISTED_OUTPUT_BYTES :: nat where
  "MAX_PERSISTED_OUTPUT_BYTES = 4 * 1024"

definition MAX_TASK_OUTPUT_LIMIT :: nat where
  "MAX_TASK_OUTPUT_LIMIT = 1024 * 1024"

section \<open>The outside world\<close>

text \<open>What one handler call sees: the JSON parser of \<open>serde_json\<close>; the environment variables
  (raw bytes); the permission bits and the text of a file, or the error; the clock and \<open>/dev/urandom\<close>, as the answer to the \<open>k\<close>-th place of the call that asks (places are
  numbered in the definitions, so different places may see different times); the process id; the
  verdict of the storage backend on a store; and the Ed25519 operations of \<open>ring\<close> on PKCS#8 keys.\<close>

record env =
  parse_json :: json_parser
  environ :: "string \<Rightarrow> string option"
  file_mode :: "string \<Rightarrow> string + nat"
  read_file :: "string \<Rightarrow> string + string"
  clk :: "nat \<Rightarrow> u64"
  rnd :: "nat \<Rightarrow> bytes option"
  pid :: u32
  persist :: "store \<Rightarrow> string + unit"
  ed_key_ok :: "bytes \<Rightarrow> bool"
  ed_sign :: "bytes \<Rightarrow> bytes \<Rightarrow> bytes"
  ed_verify :: "bytes \<Rightarrow> bytes \<Rightarrow> bytes \<Rightarrow> bool"

text \<open>\<open>env::var\<close>: set and valid UTF-8.\<close>

definition env_var :: "env \<Rightarrow> string \<Rightarrow> string option" where
  "env_var e name =
     (case environ e name of
        None \<Rightarrow> None | Some v \<Rightarrow> if valid_utf8 v then Some v else None)"

text \<open>\<open>read_exact\<close> of 24 random bytes, in hexadecimal.\<close>

definition random_token :: "env \<Rightarrow> nat \<Rightarrow> string option" where
  "random_token e k =
     (case rnd e k of
        None \<Rightarrow> None
      | Some bs \<Rightarrow> if 24 \<le> length bs then Some (hex_encode_bytes (take 24 bs)) else None)"

definition new_id :: "env \<Rightarrow> nat \<Rightarrow> string \<Rightarrow> u64 \<Rightarrow> string" where
  "new_id e k tag sequence =
     tag @ ''_'' @ hex (unat (clk e k)) @ ''_'' @ hex (unat (pid e)) @ ''_'' @ hex (unat sequence)"

definition node_online_ttl_ms :: "env \<Rightarrow> u64" where
  "node_online_ttl_ms e =
     (case Option.bind (env_var e ''NODEWE_NODE_ONLINE_TTL_MS'') parse_u64 of
        None \<Rightarrow> 30000
      | Some v \<Rightarrow> if 1000 \<le> v \<and> v \<le> 300000 then v else 30000)"

definition validate_node_online_ttl :: "env \<Rightarrow> string + unit" where
  "validate_node_online_ttl e =
     (case env_var e ''NODEWE_NODE_ONLINE_TTL_MS'' of
        None \<Rightarrow> Inr ()
      | Some raw \<Rightarrow>
          (case parse_u64 raw of
             None \<Rightarrow> Inl ''NODEWE_NODE_ONLINE_TTL_MS must be an integer''
           | Some v \<Rightarrow>
               if 1000 \<le> v \<and> v \<le> 300000 then Inr ()
               else Inl ''NODEWE_NODE_ONLINE_TTL_MS must be between 1000 and 300000''))"

definition node_is_fresh :: "env \<Rightarrow> nat \<Rightarrow> node \<Rightarrow> bool" where
  "node_is_fresh e k n \<longleftrightarrow>
     nd_online n \<and> \<not> nd_revoked n \<and> clk e k \<le> saturating_add (nd_last_seen n) (node_online_ttl_ms e)"

section \<open>Checks\<close>

definition node_id_char :: "char \<Rightarrow> bool" where
  [ascii_simps]: "node_id_char b \<longleftrightarrow> is_ascii_graphic b \<and>
     b \<notin> {CHR ''/'', BACKSLASH, CHR ''?'', CHR ''&'', CHR ''='', CHR ''#'', CHR ''%''}"

definition valid_node_id :: "string \<Rightarrow> bool" where
  "valid_node_id value \<longleftrightarrow> value \<noteq> [] \<and> length value \<le> 128 \<and> list_all node_id_char value"

definition actor_char :: "char \<Rightarrow> bool" where
  [ascii_simps]: "actor_char b \<longleftrightarrow> is_ascii_alphanumeric b \<or>
     b \<in> {CHR ''_'', CHR ''-'', CHR ''.'', CHR '':'', CHR ''@'', CHR ''|'', CHR ''+''}"

definition valid_actor_id :: "string \<Rightarrow> bool" where
  "valid_actor_id value \<longleftrightarrow> value \<noteq> [] \<and> length value \<le> 256 \<and> list_all actor_char value"

definition label_char :: "char \<Rightarrow> bool" where
  [ascii_simps]: "label_char b \<longleftrightarrow> is_ascii_alphanumeric b \<or>
     b \<in> {CHR ''_'', CHR ''-'', CHR ''.'', CHR ''+''}"

definition valid_labels :: "string \<Rightarrow> bool" where
  "valid_labels value =
     list_all (\<lambda>label. length (str_trim label) \<le> 64 \<and> list_all label_char (str_trim label))
       (filter (\<lambda>label. str_trim label \<noteq> []) (str_split value CHR '',''))"

text \<open>The loop of \<open>normalize_abilities\<close>: unsupported names refuse, repeated ones are dropped.\<close>

fun normalize_loop :: "string list \<Rightarrow> string list \<Rightarrow> string list option" where
  "normalize_loop normalized [] = Some normalized"
| "normalize_loop normalized (ability # rest) =
     (if ability \<notin> set SUPPORTED_ABILITIES then None
      else normalize_loop (if ability \<in> set normalized then normalized else normalized @ [ability]) rest)"

definition normalize_abilities :: "string \<Rightarrow> string option" where
  "normalize_abilities abilities =
     (case normalize_loop []
             (filter (\<lambda>v. v \<noteq> []) (map str_trim (str_split abilities CHR '',''))) of
        None \<Rightarrow> None
      | Some normalized \<Rightarrow> if normalized = [] then None else Some (str_join '','' normalized))"

text \<open>\<open>truncate_utf8\<close>: the longest prefix of whole characters within the byte budget.\<close>

fun take_chars :: "nat \<Rightarrow> string list \<Rightarrow> string" where
  "take_chars n [] = []"
| "take_chars n (ch # chs) = (if length ch \<le> n then ch @ take_chars (n - length ch) chs else [])"

definition truncate_utf8 :: "string \<Rightarrow> nat \<Rightarrow> string" where
  "truncate_utf8 value max_bytes =
     (if length value \<le> max_bytes then value else take_chars max_bytes (chars_of value))"

text \<open>The metadata of a create request, in the order platform, architecture, version, labels,
  region, data class, capacity.\<close>

record metadata =
  md_platform :: string
  md_architecture :: string
  md_version :: string
  md_labels :: string
  md_region :: string
  md_data_class :: string
  md_capacity :: string

definition field_or :: "json_parser \<Rightarrow> string \<Rightarrow> string \<Rightarrow> string \<Rightarrow> string" where
  "field_or pj body key d = (case json_field pj body key of None \<Rightarrow> d | Some v \<Rightarrow> v)"

definition node_metadata :: "json_parser \<Rightarrow> string \<Rightarrow> metadata" where
  "node_metadata pj body =
     \<lparr>md_platform = field_or pj body ''platform'' ''unknown'',
      md_architecture = field_or pj body ''architecture'' ''unknown'',
      md_version = field_or pj body ''version'' ''unknown'',
      md_labels = field_or pj body ''labels'' [],
      md_region = field_or pj body ''region'' ''unknown'',
      md_data_class = field_or pj body ''data_class'' ''unclassified'',
      md_capacity = field_or pj body ''capacity'' []\<rparr>"

section \<open>Rendering\<close>

definition abilities_json :: "string \<Rightarrow> string" where
  "abilities_json abilities =
     str_join '','' (map quoted (filter (\<lambda>a. a \<noteq> []) (str_split abilities CHR '','')))"

definition labels_json :: "string \<Rightarrow> string" where
  "labels_json labels =
     str_join '','' (map quoted (filter (\<lambda>l. l \<noteq> []) (map str_trim (str_split labels CHR '',''))))"

definition node_fields :: "env \<Rightarrow> nat \<Rightarrow> node \<Rightarrow> string" where
  \<open>node_fields e k n =
     ''"node_id":'' @ quoted (nd_id n) @ '',"name":'' @ quoted (nd_name n)
     @ '',"online":'' @ show_bool (node_is_fresh e k n) @ '',"revoked":'' @ show_bool (nd_revoked n)
     @ '',"abilities":['' @ abilities_json (nd_abilities n) @ ''],"platform":'' @ quoted (nd_platform n)
     @ '',"architecture":'' @ quoted (nd_architecture n) @ '',"version":'' @ quoted (nd_version n)
     @ '',"labels":['' @ labels_json (nd_labels n) @ ''],"region":'' @ quoted (nd_region n)
     @ '',"data_class":'' @ quoted (nd_data_class n) @ '',"capacity":'' @ quoted (nd_capacity n)\<close>

definition node_json :: "env \<Rightarrow> nat \<Rightarrow> node \<Rightarrow> string" where
  "node_json e k n = ''{'' @ node_fields e k n @ ''}''"

definition node_with_credential_json :: "env \<Rightarrow> nat \<Rightarrow> node \<Rightarrow> string \<Rightarrow> string" where
  \<open>node_with_credential_json e k n credential =
     ''{'' @ node_fields e k n @ '',"credential":'' @ quoted credential @ ''}''\<close>

definition task_json :: "task \<Rightarrow> string" where
  \<open>task_json t =
     ''{"task_id":'' @ quoted (tk_id t) @ '',"request_id":'' @ quoted (tk_request_id t)
     @ '',"actor":'' @ quoted (tk_actor t) @ '',"node_id":'' @ quoted (tk_node_id t)
     @ '',"ability":'' @ quoted (tk_ability t) @ '',"state":'' @ quoted (tk_state t)
     @ '',"idempotency_key":'' @ quoted (tk_idempotency_key t) @ '',"program":'' @ quoted (tk_program t)
     @ '',"argument":'' @ quoted (tk_argument t) @ '',"output":'' @ quoted (tk_output t)
     @ '',"output_sha256":'' @ quoted (tk_output_sha256 t)
     @ '',"output_truncated":'' @ show_bool (tk_output_truncated t)
     @ '',"output_limit":'' @ dec (tk_output_limit t)
     @ '',"exit_code":'' @ (case tk_exit_code t of Some code \<Rightarrow> show_int code | None \<Rightarrow> ''null'')
     @ '',"lease_until":'' @ show_u64 (tk_lease_until t)
     @ '',"lease_token":'' @ quoted (tk_lease_token t)
     @ '',"timeout_ms":'' @ show_u64 (tk_timeout_ms t) @ ''}''\<close>

definition approval_json :: "approval \<Rightarrow> string" where
  \<open>approval_json a =
     ''{"approval_id":'' @ quoted (ap_id a) @ '',"node_id":'' @ quoted (ap_node_id a)
     @ '',"ability":'' @ quoted (ap_ability a) @ '',"program":'' @ quoted (ap_program a)
     @ '',"argument":'' @ quoted (ap_argument a) @ '',"actor":'' @ quoted (ap_actor a)
     @ '',"expires_at":'' @ show_u64 (ap_expires_at a) @ '',"used":'' @ show_bool (ap_used a) @ ''}''\<close>

definition grant_list_item :: "grant \<Rightarrow> string" where
  \<open>grant_list_item g =
     ''{"grant_code":'' @ quoted (gr_code g) @ '',"grant_signature":'' @ quoted (gr_signature g)
     @ '',"expires_at":'' @ show_u64 (gr_expires_at g) @ '',"used":'' @ show_bool (gr_used g)
     @ '',"revoked":'' @ show_bool (gr_revoked g) @ ''}''\<close>

definition json_list :: "string list \<Rightarrow> string" where
  "json_list items = ''['' @ str_join '','' items @ '']''"

section \<open>Facts\<close>

interpretation cp_node_id: identifier_check valid_node_id node_id_char 128
  by unfold_locales (simp add: valid_node_id_def)

interpretation cp_actor_id: identifier_check valid_actor_id actor_char 256
  by unfold_locales (simp add: valid_actor_id_def)

lemma take_chars_prefix:
  "\<exists>rest. concat chs = take_chars n chs @ concat rest \<and> (\<exists>kept. chs = kept @ rest \<and> concat kept = take_chars n chs)
     \<and> length (take_chars n chs) \<le> n
     \<and> (rest = [] \<or> n < length (take_chars n chs) + length (hd rest))"
proof (induction chs arbitrary: n)
  case (Cons ch chs)
  show ?case
  proof (cases "length ch \<le> n")
    case True
    from Cons.IH [of "n - length ch"] obtain rest kept where
      "concat chs = take_chars (n - length ch) chs @ concat rest" "chs = kept @ rest"
      "concat kept = take_chars (n - length ch) chs" "length (take_chars (n - length ch) chs) \<le> n - length ch"
      "rest = [] \<or> n - length ch < length (take_chars (n - length ch) chs) + length (hd rest)" by blast
    then show ?thesis using True
      by (intro exI [of _ rest]) (auto intro!: exI [of _ "ch # kept"])
  next
    case False
    then show ?thesis by (intro exI [of _ "ch # chs"]) simp
  qed
qed simp

text \<open>Output truncation keeps whole characters. The result is a prefix of the value made of its
  first characters, never longer than the byte budget, and as long as it can be: either nothing was
  dropped, or the next character would not have fitted.\<close>

theorem truncate_utf8_longest:
  "\<exists>kept dropped. chars_of value = kept @ dropped \<and> truncate_utf8 value n = concat kept
     \<and> length (truncate_utf8 value n) \<le> n
     \<and> (dropped = [] \<or> n < length (truncate_utf8 value n) + length (hd dropped))"
proof (cases "length value \<le> n")
  case True
  then show ?thesis
    by (intro exI [of _ "chars_of value"] exI [of _ "[]"]) (simp add: truncate_utf8_def)
next
  case False
  then show ?thesis using take_chars_prefix [of "chars_of value" n]
    by (auto simp: truncate_utf8_def) metis
qed

lemma truncate_utf8_length: "length (truncate_utf8 value n) \<le> n"
  using take_chars_prefix [of "chars_of value" n] by (auto simp: truncate_utf8_def)

lemma normalize_loop_result:
  "normalize_loop ns xs = Some r \<Longrightarrow> distinct ns \<Longrightarrow> set ns \<subseteq> set SUPPORTED_ABILITIES \<Longrightarrow>
   distinct r \<and> set r = set ns \<union> set xs \<and> set r \<subseteq> set SUPPORTED_ABILITIES \<and> prefix ns r"
proof (induction ns xs rule: normalize_loop.induct)
  case (2 ns a xs)
  then have a: "a \<in> set SUPPORTED_ABILITIES"
    and n: "normalize_loop (if a \<in> set ns then ns else ns @ [a]) xs = Some r"
    by (auto split: if_splits)
  from "2.IH" [OF _ n] a "2.prems" show ?case
    by (auto split: if_splits dest: append_prefixD)
qed simp

text \<open>Ability negotiation. \<open>normalize_abilities\<close> accepts exactly the comma lists that name at
  least one ability and only supported ones, and what it stores names the same abilities, each
  once.\<close>

theorem normalize_abilities_result:
  assumes "normalize_abilities abilities = Some stored"
  shows "\<exists>names. stored = str_join '','' names \<and> names \<noteq> [] \<and> distinct names
     \<and> set names = {a. a \<noteq> [] \<and> a \<in> str_trim ` set (str_split abilities CHR '','')}
     \<and> set names \<subseteq> set SUPPORTED_ABILITIES \<and> str_split stored CHR '','' = names"
proof -
  let ?xs = "filter (\<lambda>v. v \<noteq> []) (map str_trim (str_split abilities CHR '',''))"
  obtain names where n: "normalize_loop [] ?xs = Some names" "names \<noteq> []" "stored = str_join '','' names"
    using assms by (auto simp: normalize_abilities_def split: option.splits if_splits)
  from normalize_loop_result [OF n(1)] have r: "distinct names" "set names = set ?xs"
      "set names \<subseteq> set SUPPORTED_ABILITIES" by auto
  have "\<forall>w \<in> set names. CHR '','' \<notin> set w"
    using r(3) by (auto simp: SUPPORTED_ABILITIES_def)
  then have "str_split stored CHR '','' = names" using n by (simp add: str_split_join)
  then show ?thesis using r n by auto
qed

theorem normalize_abilities_result_witness:
  "\<exists>names. ''task.exec'' = str_join '','' names \<and> names \<noteq> [] \<and> distinct names
     \<and> set names = {a. a \<noteq> [] \<and> a \<in> str_trim ` set (str_split ''task.exec,task.exec'' CHR '','')}
     \<and> set names \<subseteq> set SUPPORTED_ABILITIES \<and> str_split ''task.exec'' CHR '','' = names"
proof (rule normalize_abilities_result)
  have "str_split ''task.exec,task.exec'' CHR '','' = [''task.exec'', ''task.exec'']"
    by (simp add: str_split_def)
  moreover have "str_trim ''task.exec'' = ''task.exec''" by (simp add: str_trim_graphic ascii_simps)
  ultimately show "normalize_abilities ''task.exec,task.exec'' = Some ''task.exec''"
    by (simp add: normalize_abilities_def SUPPORTED_ABILITIES_def)
qed

lemma random_token_nonempty: "random_token e k = Some t \<Longrightarrow> t \<noteq> []"
proof -
  assume "random_token e k = Some t"
  then obtain bs where "24 \<le> length bs" "t = hex_encode_bytes (take 24 bs)"
    by (auto simp: random_token_def split: option.splits if_splits)
  then have "length t = 48" by simp
  then show "t \<noteq> []" by auto
qed

text \<open>Generated identifiers are valid identifiers.\<close>

lemma new_id_valid:
  assumes "list_all node_id_char tag" and "length tag \<le> 80"
  shows "valid_node_id (new_id e k tag sequence)"
proof -
  have "unat (clk e k) < 16 ^ 16" "unat (pid e) < 16 ^ 8" "unat sequence < 16 ^ 16"
    using unsigned_less [of "clk e k", where 'a = nat] unsigned_less [of "pid e", where 'a = nat]
      unsigned_less [of sequence, where 'a = nat] by simp_all
  then have l: "length (hex (unat (clk e k))) \<le> 16" "length (hex (unat (pid e))) \<le> 8"
      "length (hex (unat sequence)) \<le> 16"
    by (simp_all add: hex_length)
  have "list_all node_id_char (hex n)" for n
    using hex_chars [of n] by (auto simp: list_all_iff ascii_simps)
  then show ?thesis using assms l
    by (auto simp: valid_node_id_def new_id_def ascii_simps)
qed

section \<open>How the store evolves\<close>

definition terminal_states :: "string set" where
  "terminal_states = {''succeeded'', ''failed'', ''cancelled'', ''timed_out''}"

definition task_rank :: "string \<Rightarrow> nat" where
  "task_rank s = (if s \<in> terminal_states then 2 else if s = ''dispatched'' then 1 else 0)"

text \<open>Identity and scheduling metadata of a node never change; a revoked node stays revoked with
  its credential.\<close>

definition node_evolves :: "node \<Rightarrow> node \<Rightarrow> bool" where
  "node_evolves a b \<longleftrightarrow>
     nd_id b = nd_id a \<and> nd_name b = nd_name a \<and> nd_labels b = nd_labels a
   \<and> nd_region b = nd_region a \<and> nd_data_class b = nd_data_class a \<and> nd_capacity b = nd_capacity a
   \<and> (nd_revoked a \<longrightarrow> nd_revoked b \<and> nd_credential b = nd_credential a)"

text \<open>What a task asks for is fixed; its state only moves forward; a finished task is frozen.\<close>

definition task_evolves :: "task \<Rightarrow> task \<Rightarrow> bool" where
  "task_evolves a b \<longleftrightarrow>
     tk_id b = tk_id a \<and> tk_request_id b = tk_request_id a \<and> tk_actor b = tk_actor a
   \<and> tk_node_id b = tk_node_id a \<and> tk_ability b = tk_ability a \<and> tk_program b = tk_program a
   \<and> tk_argument b = tk_argument a \<and> tk_timeout_ms b = tk_timeout_ms a
   \<and> tk_output_limit b = tk_output_limit a \<and> tk_idempotency_key b = tk_idempotency_key a
   \<and> task_rank (tk_state a) \<le> task_rank (tk_state b)
   \<and> (tk_state a \<in> terminal_states \<longrightarrow> b = a)"

definition grant_evolves :: "grant \<Rightarrow> grant \<Rightarrow> bool" where
  "grant_evolves a b \<longleftrightarrow>
     gr_code b = gr_code a \<and> gr_signature b = gr_signature a \<and> gr_expires_at b = gr_expires_at a
   \<and> (gr_used a \<longrightarrow> gr_used b) \<and> (gr_revoked a \<longrightarrow> gr_revoked b)"

definition approval_evolves :: "approval \<Rightarrow> approval \<Rightarrow> bool" where
  "approval_evolves a b \<longleftrightarrow> b\<lparr>ap_used := False\<rparr> = a\<lparr>ap_used := False\<rparr> \<and> (ap_used a \<longrightarrow> ap_used b)"

interpretation node_table: growing_table node_evolves
  by unfold_locales (auto simp: node_evolves_def)

interpretation task_table: growing_table task_evolves
  by unfold_locales (auto simp: task_evolves_def)

interpretation grant_table: growing_table grant_evolves
  by unfold_locales (auto simp: grant_evolves_def)

interpretation approval_table: growing_table approval_evolves
  by unfold_locales (auto simp: approval_evolves_def)

interpretation audit_table: growing_table "(=)"
  by unfold_locales auto

definition store_evolves :: "store \<Rightarrow> store \<Rightarrow> bool" where
  "store_evolves a b \<longleftrightarrow>
     grows node_evolves (nodes a) (nodes b) \<and> grows task_evolves (tasks a) (tasks b)
   \<and> grows (=) (audit a) (audit b) \<and> grows grant_evolves (grants a) (grants b)
   \<and> grows approval_evolves (approvals a) (approvals b)"

lemma store_evolves_refl [simp]: "store_evolves s s"
  by (simp add: store_evolves_def node_table.grows_refl task_table.grows_refl
      audit_table.grows_refl grant_table.grows_refl approval_table.grows_refl)

lemma store_evolves_trans: "store_evolves a b \<Longrightarrow> store_evolves b c \<Longrightarrow> store_evolves a c"
  unfolding store_evolves_def
  by (blast intro: node_table.grows_trans task_table.grows_trans audit_table.grows_trans
      grant_table.grows_trans approval_table.grows_trans)

end
