(* ===== verification/Http_Parse.thy ===== *)
theory Http_Parse
  imports Prelude
begin

text \<open>
  The HTTP/1.1 reading of \<open>control-plane/src/main.rs\<close>: the byte loop of \<open>handle\<close> up to a complete
  request, the header checks and the query string. A connection is the list of byte blocks that
  successive \<open>read\<close> calls return; an empty block, or the end of the list, is end of file.
\<close>

section \<open>Headers\<close>

text \<open>The header loop of \<open>request_content_length\<close>, with the length found so far.\<close>

fun content_length_loop :: "string list \<Rightarrow> nat option \<Rightarrow> string + nat" where
  "content_length_loop [] found = Inr (case found of None \<Rightarrow> 0 | Some n \<Rightarrow> n)"
| "content_length_loop (line # lines) found =
     (if str_trim line = [] then content_length_loop lines found
      else (case split_once line CHR '':'' of
              None \<Rightarrow> Inl ''malformed_header''
            | Some (name, value) \<Rightarrow>
               (let name = str_trim name; value = str_trim value in
                if name = [] \<or> list_ex is_ascii_control value then Inl ''malformed_header''
                else if eq_ignore_ascii_case name ''transfer-encoding''
                then Inl ''unsupported_transfer_encoding''
                else if eq_ignore_ascii_case name ''content-length'' then
                  (if value = [] \<or> \<not> list_all is_ascii_digit value then Inl ''invalid_content_length''
                   else (case parse_usize value of
                           None \<Rightarrow> Inl ''invalid_content_length''
                         | Some parsed \<Rightarrow>
                             if found \<noteq> None \<and> found \<noteq> Some parsed
                             then Inl ''conflicting_content_length''
                             else content_length_loop lines (Some parsed)))
                else content_length_loop lines found)))"

definition request_content_length :: "string \<Rightarrow> string + nat" where
  "request_content_length header = content_length_loop (drop 1 (str_lines header)) None"

text \<open>A header line as name and value, both trimmed.\<close>

definition header_pair :: "string \<Rightarrow> (string \<times> string) option" where
  "header_pair line =
     map_option (\<lambda>(k, v). (str_trim k, str_trim v)) (split_once line CHR '':'')"

definition has_header :: "string \<Rightarrow> string \<Rightarrow> string \<Rightarrow> bool" where
  "has_header header name expected =
     list_ex (\<lambda>line. case header_pair line of
         None \<Rightarrow> False
       | Some (key, value) \<Rightarrow> eq_ignore_ascii_case key name \<and> eq_ignore_ascii_case value expected)
     (str_lines header)"

definition has_header_token :: "string \<Rightarrow> string \<Rightarrow> string \<Rightarrow> bool" where
  "has_header_token header name expected =
     list_ex (\<lambda>line. case split_once line CHR '':'' of
         None \<Rightarrow> False
       | Some (key, value) \<Rightarrow>
           eq_ignore_ascii_case (str_trim key) name
         \<and> list_ex (\<lambda>token. eq_ignore_ascii_case (str_trim token) expected)
             (str_split value CHR '',''))
     (str_lines header)"

text \<open>\<open>Iterator::find_map\<close>.\<close>

fun find_map :: "('a \<Rightarrow> 'b option) \<Rightarrow> 'a list \<Rightarrow> 'b option" where
  "find_map f [] = None"
| "find_map f (x # xs) = (case f x of None \<Rightarrow> find_map f xs | Some y \<Rightarrow> Some y)"

definition header_value :: "string \<Rightarrow> string \<Rightarrow> string option" where
  "header_value header name =
     find_map (\<lambda>line. case header_pair line of
         None \<Rightarrow> None
       | Some (key, value) \<Rightarrow> if eq_ignore_ascii_case key name then Some value else None)
     (str_lines header)"

text \<open>The bearer token of the \<open>Authorization\<close> header, as \<open>handle\<close> looks it up.\<close>

definition bearer_of :: "string \<Rightarrow> string" where
  "bearer_of request =
     (case find_map (\<lambda>line. case split_once line CHR '':'' of
         None \<Rightarrow> None
       | Some (name, value) \<Rightarrow>
           if eq_ignore_ascii_case (str_trim name) ''authorization''
           then map_option str_trim (strip_prefix (str_trim value) ''Bearer '') else None)
       (str_lines request)
      of None \<Rightarrow> [] | Some t \<Rightarrow> t)"

section \<open>Paths and queries\<close>

definition query_field :: "string \<Rightarrow> string \<Rightarrow> string option" where
  "query_field path key =
     (case split_once path CHR ''?'' of
        None \<Rightarrow> None
      | Some (_, query) \<Rightarrow>
          find_map (\<lambda>item. case split_once item CHR ''='' of
              None \<Rightarrow> None
            | Some (name, value) \<Rightarrow> if name = key then Some value else None)
          (str_split query CHR ''&''))"

definition websocket_path :: "string \<Rightarrow> bool" where
  "websocket_path path =
     (case split_once path CHR ''?'' of
        None \<Rightarrow> path = ''/v1/agent/ws'' | Some (p, _) \<Rightarrow> p = ''/v1/agent/ws'')"

section \<open>Reading a request\<close>

definition max_request_bytes :: nat where
  "max_request_bytes = 64 * 1024"

definition crlf2 :: bytes where
  "crlf2 = [13, 10, 13, 10]"

text \<open>\<open>request.windows(4).position(...)\<close>.\<close>

fun window_position :: "'a list \<Rightarrow> 'a list \<Rightarrow> nat option" where
  "window_position w [] = None"
| "window_position w (b # bs) =
     (if prefix w (b # bs) then Some 0 else map_option Suc (window_position w bs))"

datatype header_end = Eof | Oversized | Header_at nat

fun read_header :: "bytes list \<Rightarrow> bytes \<Rightarrow> header_end \<times> bytes \<times> bytes list" where
  "read_header [] request = (Eof, request, [])"
| "read_header (chunk # chunks) request =
     (if chunk = [] then (Eof, request, chunks)
      else (let request = request @ chunk in
            if max_request_bytes < length request then (Oversized, request, chunks)
            else (case window_position crlf2 request of
                    Some index \<Rightarrow> (Header_at index, request, chunks)
                  | None \<Rightarrow> read_header chunks request)))"

text \<open>\<open>while request.len() < total\<close>: \<open>None\<close> when the stream ends first.\<close>

fun read_body :: "nat \<Rightarrow> bytes list \<Rightarrow> bytes \<Rightarrow> (bytes \<times> bytes list) option" where
  "read_body need [] request = (if need \<le> length request then Some (request, []) else None)"
| "read_body need (chunk # chunks) request =
     (if need \<le> length request then Some (request, chunk # chunks)
      else if chunk = [] then None else read_body need chunks (request @ chunk))"

text \<open>\<open>String::from_utf8_lossy\<close>: every maximal invalid piece becomes U+FFFD.\<close>

definition second_byte_ok :: "char \<Rightarrow> char \<Rightarrow> bool" where
  "second_byte_ok a b \<longleftrightarrow> is_cont b
     \<and> (byte a = 0xE0 \<longrightarrow> 0xA0 \<le> byte b) \<and> (byte a = 0xED \<longrightarrow> byte b < 0xA0)
     \<and> (byte a = 0xF0 \<longrightarrow> 0x90 \<le> byte b) \<and> (byte a = 0xF4 \<longrightarrow> byte b < 0x90)"

definition lead_width :: "char \<Rightarrow> nat" where
  "lead_width a =
     (if byte a < 0x80 then 1 else if 0xC2 \<le> byte a \<and> byte a < 0xE0 then 2
      else if 0xE0 \<le> byte a \<and> byte a < 0xF0 then 3
      else if 0xF0 \<le> byte a \<and> byte a < 0xF5 then 4 else 0)"

definition good_tail :: "char \<Rightarrow> string \<Rightarrow> nat" where
  "good_tail a r =
     (if lead_width a < 2 then 0
      else case r of [] \<Rightarrow> 0
           | b # r' \<Rightarrow> if second_byte_ok a b
                      then 1 + length (takeWhile is_cont (take (lead_width a - 2) r')) else 0)"

function from_utf8_lossy :: "string \<Rightarrow> string" where
  "from_utf8_lossy [] = []"
| "from_utf8_lossy (a # r) =
     (let k = good_tail a r in
      (if lead_width a = k + 1 then a # take k r else [CHR 0xEF, CHR 0xBF, CHR 0xBD])
      @ from_utf8_lossy (drop k r))"
  by pat_completeness auto
termination by (relation "measure length") (auto simp: less_Suc_eq_le)

text \<open>\<open>handle\<close> up to the authentication: the refusal with its status and JSON body, or header text,
  method, path, body and bearer token, with the blocks not yet read. \<open>header_end + 4 +
  content_length\<close> is computed on \<open>usize\<close>, which wraps in a release build. (A failing \<open>read\<close> just
  drops the connection and is not represented.)\<close>

datatype request_outcome =
  Refused string string
| Request (req_header: string) (req_method: string) (req_path: string) (req_body: string)
    (req_bearer: string)

definition usize_add :: "nat \<Rightarrow> nat \<Rightarrow> nat" where
  "usize_add a b = (a + b) mod 2 ^ 64"

definition code_body :: "string \<Rightarrow> string" where
  \<open>code_body code = ''{"code":"'' @ code @ ''"}''\<close>

text \<open>\<open>request.split(w).nth(1).unwrap_or("")\<close>.\<close>

definition second_piece :: "string \<Rightarrow> string \<Rightarrow> string" where
  "second_piece w s =
     (case window_position w s of
        None \<Rightarrow> []
      | Some i \<Rightarrow> (let r = drop (i + length w) s in
                  case window_position w r of None \<Rightarrow> r | Some j \<Rightarrow> take j r))"

definition nth_word :: "nat \<Rightarrow> string list \<Rightarrow> string" where
  "nth_word n ws = (if n < length ws then ws ! n else [])"

definition parse_request :: "string \<Rightarrow> bytes \<Rightarrow> request_outcome" where
  "parse_request header raw =
     (let request = from_utf8_lossy (of_bytes raw);
          parts = split_whitespace (nth_word 0 (str_lines request))
      in Request header (nth_word 0 parts) (nth_word 1 parts)
           (second_piece (of_bytes crlf2) request) (bearer_of request))"

definition read_request :: "bytes list \<Rightarrow> request_outcome \<times> bytes list" where
  "read_request chunks =
     (case read_header chunks [] of
        (Eof, request, chunks) \<Rightarrow> (Refused ''400 Bad Request'' (code_body ''malformed_request''), chunks)
      | (Oversized, request, chunks) \<Rightarrow>
          (Refused ''413 Payload Too Large'' (code_body ''request_too_large''), chunks)
      | (Header_at header_end, request, chunks) \<Rightarrow>
          (case from_utf8 (take header_end request) of
             None \<Rightarrow> (Refused ''400 Bad Request'' (code_body ''invalid_headers''), chunks)
           | Some header \<Rightarrow>
               (case request_content_length header of
                  Inl code \<Rightarrow> (Refused ''400 Bad Request'' (code_body code), chunks)
                | Inr content_length \<Rightarrow>
                    (let need = usize_add (header_end + 4) content_length in
                     if max_request_bytes < need
                     then (Refused ''413 Payload Too Large'' (code_body ''request_too_large''), chunks)
                     else (case read_body need chunks request of
                             None \<Rightarrow>
                               (Refused ''400 Bad Request'' (code_body ''truncated_request''), [])
                           | Some (request, chunks) \<Rightarrow>
                               (parse_request header (take need request), chunks))))))"

text \<open>\<open>write_response\<close>: the response bytes as text.\<close>

definition write_response :: "string \<Rightarrow> string \<Rightarrow> string" where
  "write_response status response =
     (let content_type = (if str_starts_with response ''<!doctype html>''
                          then ''text/html; charset=utf-8'' else ''application/json; charset=utf-8'');
          line = (\<lambda>l. l @ [CR, NL])
      in line (''HTTP/1.1 '' @ status) @ line (''Content-Type: '' @ content_type)
         @ line (''Content-Length: '' @ dec (length response)) @ line ''Cache-Control: no-store''
         @ line ''Pragma: no-cache'' @ line ''X-Content-Type-Options: nosniff''
         @ line (''Content-Security-Policy: default-src '' @ [CHR 0x27] @ ''none'' @ [CHR 0x27]
                 @ ''; script-src '' @ [CHR 0x27] @ ''unsafe-inline'' @ [CHR 0x27]
                 @ ''; style-src '' @ [CHR 0x27] @ ''unsafe-inline'' @ [CHR 0x27])
         @ line ''Connection: close'' @ [CR, NL] @ response)"

section \<open>One length per request\<close>

lemma content_length_loop_accepts:
  "content_length_loop lines found = Inr n \<Longrightarrow>
   (\<forall>line \<in> set lines. str_trim line = [] \<or>
      (\<exists>name value. header_pair line = Some (name, value) \<and> name \<noteq> []
         \<and> \<not> eq_ignore_ascii_case name ''transfer-encoding''
         \<and> (eq_ignore_ascii_case name ''content-length'' \<longrightarrow> parse_usize value = Some n)))
   \<and> (case found of None \<Rightarrow> True | Some m \<Rightarrow> m = n)"
proof (induction lines found rule: content_length_loop.induct)
  case (2 line lines found)
  show ?case
  proof (cases "str_trim line = []")
    case True
    then show ?thesis using 2 by simp
  next
    case False
    with "2.prems" obtain name v where s: "split_once line CHR '':'' = Some (name, v)"
      by (auto split: option.splits)
    show ?thesis
    proof (cases "eq_ignore_ascii_case (str_trim name) ''content-length''")
      case True
      with "2.prems" False s obtain m where m: "parse_usize (str_trim v) = Some m"
          "content_length_loop lines (Some m) = Inr n" "found = None \<or> found = Some m"
          "str_trim name \<noteq> []" "\<not> eq_ignore_ascii_case (str_trim name) ''transfer-encoding''"
        by (auto simp: Let_def split: if_splits option.splits)
      then show ?thesis using "2.IH"(2) [OF False s] False s True "2.prems"
        by (auto simp: header_pair_def Let_def split: if_splits)
    next
      case other: False
      with "2.prems" False s have m: "content_length_loop lines found = Inr n"
          "str_trim name \<noteq> []" "\<not> eq_ignore_ascii_case (str_trim name) ''transfer-encoding''"
        by (auto simp: Let_def split: if_splits)
      then show ?thesis using "2.IH"(3) [OF False s] False s other "2.prems"
        by (auto simp: header_pair_def Let_def split: if_splits)
    qed
  qed
qed (auto split: option.splits)

text \<open>No request smuggling through the length. When \<open>request_content_length\<close> accepts a header
  with length \<open>n\<close>, every non-blank header line is a well-formed name and value, none is a
  transfer encoding, and every content-length line says exactly \<open>n\<close>, whatever their number, order
  and letter case.\<close>

theorem request_content_length_unambiguous:
  assumes "request_content_length header = Inr n" and "line \<in> set (tl (str_lines header))"
    and "str_trim line \<noteq> []"
  shows "\<exists>name value. header_pair line = Some (name, value) \<and> name \<noteq> []
         \<and> \<not> eq_ignore_ascii_case name ''transfer-encoding''
         \<and> (eq_ignore_ascii_case name ''content-length'' \<longrightarrow> parse_usize value = Some n)"
  using content_length_loop_accepts [of "drop 1 (str_lines header)" None n] assms
  by (auto simp: request_content_length_def drop_Suc)

definition sample_header :: string where
  "sample_header = ''GET / HTTP/1.1'' @ [CR, NL] @ ''content-LENGTH: 07'' @ [CR, NL] @ ''Content-Length:7''"

theorem request_content_length_unambiguous_witness:
  "\<exists>name value. header_pair ''Content-Length:7'' = Some (name, value) \<and> name \<noteq> []
     \<and> \<not> eq_ignore_ascii_case name ''transfer-encoding''
     \<and> (eq_ignore_ascii_case name ''content-length'' \<longrightarrow> parse_usize value = Some 7)"
proof -
  have l: "str_lines sample_header = [''GET / HTTP/1.1'', ''content-LENGTH: 07'', ''Content-Length:7'']"
    by (simp add: sample_header_def str_lines_def str_split_def chop_cr_def Let_def)
  have trims: "str_trim ''content-LENGTH: 07'' = ''content-LENGTH: 07''" "str_trim '' 07'' = ''07''"
    by (simp_all add: str_trim_def utf8_width_def is_whitespace_def byte_def Let_def)
  have c: "request_content_length sample_header = Inr 7"
    by (simp add: request_content_length_def l trims str_trim_graphic split_once_def ascii_simps
        eq_ignore_ascii_case_def to_ascii_lowercase_def to_lower_eq parse_usize_def parse_uint_def
        digit_of_def Let_def)
  have t: "str_trim ''Content-Length:7'' \<noteq> []" by (simp add: str_trim_graphic ascii_simps)
  show ?thesis by (rule request_content_length_unambiguous [OF c _ t]) (simp add: l)
qed

section \<open>Reads may be split anywhere\<close>

lemma window_position_bound: "window_position w p = Some i \<Longrightarrow> i + length w \<le> length p"
proof (induction p arbitrary: i)
  case (Cons a p)
  then show ?case
    by (cases "prefix w (a # p)") (auto dest: prefix_length_le)
qed simp

lemma window_position_append:
  "window_position w p = Some i \<Longrightarrow> window_position w (p @ q) = Some i"
proof (induction p arbitrary: i)
  case (Cons a p)
  show ?case
  proof (cases "prefix w (a # p)")
    case True
    then have "prefix w (a # p @ q)" using prefix_prefix [of w "a # p" q] by simp
    then show ?thesis using True Cons.prems by simp
  next
    case False
    with Cons.prems obtain j where j: "window_position w p = Some j" "i = Suc j" by auto
    have "\<not> prefix w (a # p @ q)"
    proof
      assume "prefix w (a # p @ q)"
      moreover have "length w \<le> length (a # p)" using window_position_bound [OF j(1)] by simp
      ultimately have "prefix w (a # p)"
        by (metis append_Cons prefix_length_prefix prefixI)
      with False show False ..
    qed
    then show ?thesis using Cons.IH [OF j(1)] j(2) by simp
  qed
qed simp

lemma read_header_found:
  assumes "[] \<notin> set chunks" and "length (request @ concat chunks) \<le> max_request_bytes"
    and "chunks = [] \<longrightarrow> window_position crlf2 request = None"
  shows "case window_position crlf2 (request @ concat chunks) of
      None \<Rightarrow> \<exists>r c. read_header chunks request = (Eof, r, c)
    | Some i \<Rightarrow> \<exists>r c. read_header chunks request = (Header_at i, r, c)
               \<and> r @ concat c = request @ concat chunks \<and> [] \<notin> set c \<and> i + 4 \<le> length r"
  using assms
proof (induction chunks request rule: read_header.induct)
  case (2 chunk chunks request)
  have ne: "chunk \<noteq> []" using "2.prems"(1) by auto
  have len: "\<not> max_request_bytes < length (request @ chunk)" using "2.prems" by simp
  show ?case
  proof (cases "window_position crlf2 (request @ chunk)")
    case None
    then show ?thesis using "2.IH" [OF ne refl len None] "2.prems" ne len
      by (auto split: option.splits)
  next
    case (Some i)
    then have "window_position crlf2 (request @ concat (chunk # chunks)) = Some i"
      using window_position_append [of crlf2 "request @ chunk" i "concat chunks"] by simp
    then show ?thesis using Some ne len "2.prems" window_position_bound [OF Some]
      by (simp add: crlf2_def)
  qed
qed simp

lemma read_body_found:
  "[] \<notin> set chunks \<Longrightarrow>
   (case read_body need chunks request of
      None \<Rightarrow> length (request @ concat chunks) < need
    | Some (r, c) \<Rightarrow> need \<le> length (request @ concat chunks)
                  \<and> take need r = take need (request @ concat chunks))"
proof (induction need chunks request rule: read_body.induct)
  case (2 need chunk chunks request)
  then show ?case
    by (cases "need \<le> length request \<or> chunk = []")
       (auto simp: append_assoc [symmetric] simp del: append_assoc split: option.splits)
qed simp

text \<open>The request a byte stream holds, by its bytes alone.\<close>

definition request_in :: "bytes \<Rightarrow> request_outcome" where
  "request_in raw =
     (case window_position crlf2 raw of
        None \<Rightarrow> Refused ''400 Bad Request'' (code_body ''malformed_request'')
      | Some header_end \<Rightarrow>
          (case from_utf8 (take header_end raw) of
             None \<Rightarrow> Refused ''400 Bad Request'' (code_body ''invalid_headers'')
           | Some header \<Rightarrow>
               (case request_content_length header of
                  Inl code \<Rightarrow> Refused ''400 Bad Request'' (code_body code)
                | Inr content_length \<Rightarrow>
                    (let need = usize_add (header_end + 4) content_length in
                     if max_request_bytes < need
                     then Refused ''413 Payload Too Large'' (code_body ''request_too_large'')
                     else if length raw < need
                     then Refused ''400 Bad Request'' (code_body ''truncated_request'')
                     else parse_request header (take need raw)))))"

lemma read_request_whole:
  assumes "[] \<notin> set chunks" and "length (concat chunks) \<le> max_request_bytes"
  shows "fst (read_request chunks) = request_in (concat chunks)"
proof (cases "window_position crlf2 (concat chunks)")
  case None
  then show ?thesis using read_header_found [of chunks "[]"] assms
    by (auto simp: read_request_def request_in_def)
next
  case (Some i)
  obtain r c where h: "read_header chunks [] = (Header_at i, r, c)" "r @ concat c = concat chunks"
      "[] \<notin> set c" "i + 4 \<le> length r"
    using read_header_found [of chunks "[]"] assms Some by auto
  have t: "take i r = take i (concat chunks)" using h(2) [symmetric] h(4) by simp
  show ?thesis
  proof (cases "from_utf8 (take i r)")
    case None
    then show ?thesis using h Some t by (simp add: read_request_def request_in_def)
  next
    case utf: (Some header)
    show ?thesis
    proof (cases "request_content_length header")
      case (Inl e)
      then show ?thesis using h Some t utf by (simp add: read_request_def request_in_def)
    next
      case (Inr n)
      show ?thesis
        using h Some t utf Inr read_body_found [OF h(3), where need = "usize_add (i + 4) n" and request = r]
        by (auto simp: read_request_def request_in_def Let_def split: option.splits)
    qed
  qed
qed

text \<open>C15: The outcome of reading a request depends only on the bytes of the connection, not on how
  the network splits them into reads: it is the functional reading \<open>request_in\<close> of the whole
  stream, for every stream within the 64 KiB limit and every split into non-empty blocks.\<close>

theorem read_request_split_invariant:
  assumes "[] \<notin> set chunks" and "length (concat chunks) \<le> max_request_bytes"
  shows "fst (read_request chunks) = request_in (concat chunks)"
  using assms by (rule read_request_whole)

theorem read_request_split_invariant_witness:
  "fst (read_request [[71, 69, 84, 32, 47, 13, 10], [13, 10, 49]])
   = request_in [71, 69, 84, 32, 47, 13, 10, 13, 10, 49]"
  using read_request_split_invariant [of "[[71, 69, 84, 32, 47, 13, 10], [13, 10, 49]]"]
  by (simp add: max_request_bytes_def)

text \<open>The sum \<open>header_end + 4 + content_length\<close> wraps: a declared length of 2^64 - 1 passes the limit
  check, nothing is waited for, and the request is taken one byte short of its own header.\<close>

lemma huge_content_length_accepted:
  assumes "window_position crlf2 raw = Some i" and "from_utf8 (take i raw) = Some h"
    and "request_content_length h = Inr (2 ^ 64 - 1)" and "i + 4 \<le> max_request_bytes"
  shows "request_in raw = parse_request h (take (i + 3) raw)"
proof -
  have "i + 4 + (2 ^ 64 - 1) = i + 3 + (2 ^ 64 :: nat)" by simp
  then have "(i + 4 + (2 ^ 64 - 1)) mod 2 ^ 64 = (i + 3 + 2 ^ 64) mod (2 ^ 64 :: nat)" by (rule arg_cong)
  also have "\<dots> = (i + 3) mod 2 ^ 64" by (rule mod_add_self2)
  also have "\<dots> = i + 3" using assms(4) by (simp add: max_request_bytes_def)
  finally have "usize_add (i + 4) (2 ^ 64 - 1) = i + 3" by (simp add: usize_add_def)
  then show ?thesis using assms window_position_bound [OF assms(1)]
    by (simp add: request_in_def crlf2_def)
qed

text \<open>A query field is found when its item comes first and has no separator in it.\<close>

lemma query_field_first [text_simps]:
  assumes "CHR ''?'' \<notin> set p" and "CHR ''='' \<notin> set key" and "CHR ''&'' \<notin> set (key @ v)"
  shows "query_field (p @ CHR ''?'' # key @ CHR ''='' # v) key = Some v"
proof -
  have "CHR ''&'' \<notin> set (key @ CHR ''='' # v)" using assms(3) by simp
  from str_split_none [OF this] show ?thesis
    using assms(1,2) by (simp add: query_field_def split_once_append)
qed

end
