(* ===== verification/Audit_Chain.thy ===== *)
theory Audit_Chain
  imports Store_Model Http_Parse
begin

text \<open>
  The audit log of the control plane: the SHA-256 hash chain over activities, the sealed JSON
  records, their export in pages, and the check of a chain that was read back from storage
  (\<open>activity_hash\<close>, \<open>sealed_activity_json\<close>, \<open>audit_jsonl\<close>, \<open>export_audit\<close>, \<open>audit_chain_valid\<close> of
  \<open>control-plane/src/main.rs\<close>).
\<close>

section \<open>Records and hashes\<close>

definition activity_json_with_chain :: "activity \<Rightarrow> string \<Rightarrow> string \<Rightarrow> string" where
  \<open>activity_json_with_chain item prev_hash hash =
     ''{"activity_id":'' @ quoted (ac_id item) @ '',"event":'' @ quoted (ac_event item)
     @ '',"node_id":'' @ opt_quoted (ac_node_id item) @ '',"task_id":'' @ opt_quoted (ac_task_id item)
     @ '',"actor":'' @ opt_quoted (ac_actor item) @ '',"timestamp":'' @ show_u64 (ac_timestamp item)
     @ '',"prev_hash":'' @ quoted prev_hash @ '',"hash":'' @ quoted hash @ ''}''\<close>

definition or_empty :: "string option \<Rightarrow> string" where
  "or_empty v = (case v of None \<Rightarrow> [] | Some s \<Rightarrow> s)"

text \<open>The text that is hashed: seven lines with an actor, the six-line legacy form without.\<close>

definition canonical :: "activity \<Rightarrow> string \<Rightarrow> string" where
  "canonical item prev_hash =
     (case ac_actor item of
        Some actor \<Rightarrow>
          str_join [NL] [ac_id item, ac_event item, or_empty (ac_node_id item),
            or_empty (ac_task_id item), actor, show_u64 (ac_timestamp item), prev_hash]
      | None \<Rightarrow>
          str_join [NL] [ac_id item, ac_event item, or_empty (ac_node_id item),
            or_empty (ac_task_id item), show_u64 (ac_timestamp item), prev_hash])"

definition activity_hash :: "activity \<Rightarrow> string \<Rightarrow> string" where
  "activity_hash item prev_hash = hex_encode_bytes (sha256 (as_bytes (canonical item prev_hash)))"

definition GENESIS :: string where
  "GENESIS = ''GENESIS''"

text \<open>The loop of \<open>sealed_activity_json\<close>.\<close>

fun sealed_from :: "string \<Rightarrow> activity list \<Rightarrow> nat \<Rightarrow> string" where
  "sealed_from previous [] index = []"
| "sealed_from previous (item # rest) index =
     (let hash = activity_hash item previous in
      case index of
        0 \<Rightarrow> activity_json_with_chain item previous hash
      | Suc n \<Rightarrow> sealed_from hash rest n)"

definition sealed_activity_json :: "activity list \<Rightarrow> nat \<Rightarrow> string" where
  "sealed_activity_json trail index = sealed_from GENESIS trail index"

definition audit_jsonl :: "activity list \<Rightarrow> string" where
  "audit_jsonl trail =
     str_join [NL] (map (sealed_activity_json trail) [0..<length trail])
     @ (if trail = [] then [] else [NL])"

fun chain_valid_from :: "string \<Rightarrow> activity list \<Rightarrow> bool" where
  "chain_valid_from previous [] = True"
| "chain_valid_from previous (item # rest) =
     (let expected = activity_hash item previous in
      if ac_hash item \<noteq> [] \<and> (ac_prev_hash item \<noteq> previous \<or> ac_hash item \<noteq> expected) then False
      else chain_valid_from (if ac_hash item = [] then expected else ac_hash item) rest)"

definition audit_chain_valid :: "activity list \<Rightarrow> bool" where
  "audit_chain_valid trail = chain_valid_from GENESIS trail"

section \<open>Export\<close>

definition parse_query :: "string \<Rightarrow> string \<Rightarrow> nat \<Rightarrow> nat" where
  "parse_query path key d =
     (case Option.bind (query_field path key) parse_usize of None \<Rightarrow> d | Some v \<Rightarrow> v)"

text \<open>\<open>saturating_add\<close> on \<open>usize\<close>.\<close>

definition usize_saturating_add :: "nat \<Rightarrow> nat \<Rightarrow> nat" where
  "usize_saturating_add a b = min (a + b) (2 ^ 64 - 1)"

definition export_audit :: "string \<Rightarrow> activity list \<Rightarrow> string \<times> string" where
  \<open>export_audit path trail =
     (let start = parse_query path ''from'' 0; limit = parse_query path ''limit'' 1000 in
      if limit = 0 \<or> limit > 10000 then (''400 Bad Request'', code_body ''invalid_audit_limit'')
      else if start > length trail
      then (''416 Range Not Satisfiable'', code_body ''invalid_audit_offset'')
      else (let stop = min (usize_saturating_add start limit) (length trail);
                records = map (sealed_activity_json trail) [start..<stop]
            in (''200 OK'',
                ''{"protocol_version":1,"from":'' @ dec start @ '',"count":'' @ dec (length records)
                @ '',"next":'' @ (if stop < length trail then dec stop else ''null'')
                @ '',"records":['' @ str_join '','' records @ '']}'')))\<close>

section \<open>Sealing\<close>

text \<open>The chain fields a log gets when it is written, as data.\<close>

fun seal_from :: "string \<Rightarrow> activity list \<Rightarrow> activity list" where
  "seal_from previous [] = []"
| "seal_from previous (item # rest) =
     item\<lparr>ac_prev_hash := previous, ac_hash := activity_hash item previous\<rparr>
     # seal_from (activity_hash item previous) rest"

definition seal :: "activity list \<Rightarrow> activity list" where
  "seal trail = seal_from GENESIS trail"

lemma activity_hash_chain_fields [simp]:
  "activity_hash (item\<lparr>ac_prev_hash := p, ac_hash := h\<rparr>) q = activity_hash item q"
  by (simp add: activity_hash_def canonical_def split: option.splits)

lemma length_activity_hash [simp]: "length (activity_hash item p) = 64"
  by (simp add: activity_hash_def)

lemma activity_hash_nonempty [simp]: "activity_hash item p \<noteq> []"
  using length_activity_hash [of item p] by (metis list.size(3) zero_neq_numeral)

lemma length_seal_from [simp]: "length (seal_from p xs) = length xs"
  by (induction xs arbitrary: p) auto

lemma seal_from_valid: "chain_valid_from p (seal_from p xs)"
  by (induction xs arbitrary: p) auto

lemma sealed_from_seal:
  "i < length xs \<Longrightarrow> sealed_from p xs i =
     activity_json_with_chain (seal_from p xs ! i) (ac_prev_hash (seal_from p xs ! i))
       (ac_hash (seal_from p xs ! i))"
  by (induction xs arbitrary: p i)
     (auto simp: Let_def activity_json_with_chain_def split: nat.splits)

text \<open>Written audit records are final. Sealing any log gives a chain that the loader accepts, the
  record printed for a position is the sealed record, and appending more activities leaves every
  record already printed unchanged, hash and back link included.\<close>

theorem audit_records_final:
  "audit_chain_valid (seal trail)
   \<and> take (length trail) (seal (trail @ later)) = seal trail
   \<and> map (sealed_activity_json (trail @ later)) [0..<length trail]
     = map (\<lambda>r. activity_json_with_chain r (ac_prev_hash r) (ac_hash r)) (seal trail)"
proof -
  have t: "take (length trail) (seal (trail @ later)) = seal trail"
  proof -
    have "take (length trail) (seal_from p (trail @ later)) = seal_from p trail" for p
      by (induction trail arbitrary: p) auto
    then show ?thesis by (simp add: seal_def)
  qed
  have "sealed_activity_json (trail @ later) i
      = activity_json_with_chain (seal trail ! i) (ac_prev_hash (seal trail ! i)) (ac_hash (seal trail ! i))"
    if "i < length trail" for i
    using that t sealed_from_seal [of i "trail @ later" GENESIS]
    by (simp add: sealed_activity_json_def seal_def [symmetric]) (metis nth_take)
  then have "map (sealed_activity_json (trail @ later)) [0..<length trail]
      = map (\<lambda>r. activity_json_with_chain r (ac_prev_hash r) (ac_hash r)) (seal trail)"
    by (intro nth_equalityI) (simp_all add: seal_def)
  then show ?thesis using t seal_from_valid [of GENESIS trail]
    by (simp add: audit_chain_valid_def seal_def)
qed

section \<open>Tamper evidence\<close>

definition hashed :: "activity list \<Rightarrow> bool" where
  "hashed trail \<longleftrightarrow> (\<forall>item \<in> set trail. ac_hash item \<noteq> [])"

fun last_hash :: "string \<Rightarrow> activity list \<Rightarrow> string" where
  "last_hash previous [] = previous"
| "last_hash previous (item # rest) = last_hash (ac_hash item) rest"

lemma canonical_prev: "canonical a p = canonical b q \<Longrightarrow> NL \<notin> set p \<Longrightarrow> NL \<notin> set q \<Longrightarrow> p = q"
proof -
  have str: "\<exists>u. canonical x r = u @ NL # r" for x r
  proof (cases "ac_actor x")
    case None
    then show ?thesis
      by (intro exI [of _ "str_join [NL] [ac_id x, ac_event x, or_empty (ac_node_id x),
            or_empty (ac_task_id x), show_u64 (ac_timestamp x)]"]) (simp add: canonical_def)
  next
    case (Some actor)
    then show ?thesis
      by (intro exI [of _ "str_join [NL] [ac_id x, ac_event x, or_empty (ac_node_id x),
            or_empty (ac_task_id x), actor, show_u64 (ac_timestamp x)]"]) (simp add: canonical_def)
  qed
  assume e: "canonical a p = canonical b q" and n: "NL \<notin> set p" "NL \<notin> set q"
  from str obtain u v where "u @ NL # p = v @ NL # q" using e by metis
  then have "rev p @ NL # rev u = rev q @ NL # rev v" by (metis rev_append rev_rev_ident rev.simps(2) append_assoc append_Cons append_Nil)
  then have "takeWhile (\<lambda>x. x \<noteq> NL) (rev p @ NL # rev u) = takeWhile (\<lambda>x. x \<noteq> NL) (rev q @ NL # rev v)"
    by simp
  then show "p = q" using n by simp
qed

lemma chain_valid_nth:
  "chain_valid_from p xs \<Longrightarrow> hashed xs \<Longrightarrow> i < length xs \<Longrightarrow>
   ac_hash (xs ! i) = activity_hash (xs ! i) (ac_prev_hash (xs ! i))
   \<and> ac_prev_hash (xs ! i) = (if i = 0 then p else ac_hash (xs ! (i - 1)))"
proof (induction xs arbitrary: p i)
  case (Cons x xs)
  from Cons.prems have x: "ac_prev_hash x = p" "ac_hash x = activity_hash x p"
    and r: "chain_valid_from (ac_hash x) xs" "hashed xs"
    by (auto simp: Let_def hashed_def split: if_splits)
  show ?case
  proof (cases i)
    case (Suc j)
    then show ?thesis using Cons.IH [OF r, of j] Cons.prems by (cases j) auto
  qed (use x in simp)
qed simp

text \<open>The text a stored record commits to.\<close>

definition committed :: "activity \<Rightarrow> string" where
  "committed item = canonical item (ac_prev_hash item)"

lemma hash_no_newline: "NL \<notin> set (activity_hash item p)"
  by (simp add: activity_hash_def hex_encode_free ascii_simps)

text \<open>Records whose fields are single lines, as the server writes them; then the text says all there is.\<close>

definition single_lines :: "activity \<Rightarrow> bool" where
  "single_lines r \<longleftrightarrow> NL \<notin> set (ac_id r) \<and> NL \<notin> set (ac_event r) \<and> NL \<notin> set (or_empty (ac_node_id r))
     \<and> NL \<notin> set (or_empty (ac_task_id r)) \<and> NL \<notin> set (or_empty (ac_actor r))
     \<and> ac_node_id r \<noteq> Some [] \<and> ac_task_id r \<noteq> Some []"

definition canonical_lines :: "activity \<Rightarrow> string \<Rightarrow> string list" where
  "canonical_lines r p = [ac_id r, ac_event r, or_empty (ac_node_id r), or_empty (ac_task_id r)]
     @ (case ac_actor r of None \<Rightarrow> [] | Some actor \<Rightarrow> [actor]) @ [show_u64 (ac_timestamp r), p]"

lemma canonical_split:
  assumes "single_lines r" and "NL \<notin> set p"
  shows "str_split (canonical r p) NL = canonical_lines r p"
proof -
  have "NL \<notin> set (show_u64 n)" for n by (simp add: show_u64_def dec_free is_ascii_digit_def byte_def)
  then have "\<forall>w \<in> set (canonical_lines r p). NL \<notin> set w"
    using assms by (auto simp: single_lines_def canonical_lines_def or_empty_def split: option.splits)
  moreover have "canonical r p = str_join [NL] (canonical_lines r p)"
    by (simp add: canonical_def canonical_lines_def split: option.split)
  moreover have "canonical_lines r p \<noteq> []" by (simp add: canonical_lines_def)
  ultimately show ?thesis using str_split_join by metis
qed

lemma or_empty_inject: "or_empty v = or_empty w \<Longrightarrow> v \<noteq> Some [] \<Longrightarrow> w \<noteq> Some [] \<Longrightarrow> v = w"
  by (auto simp: or_empty_def split: option.splits)

lemma canonical_inject:
  assumes "canonical r p = canonical s q" and "single_lines r" and "single_lines s" and "NL \<notin> set p" and "NL \<notin> set q"
    and "ac_prev_hash r = ac_prev_hash s" and "ac_hash r = ac_hash s"
  shows "r = s"
proof -
  have l: "canonical_lines r p = canonical_lines s q"
    using canonical_split assms(1-5) by metis
  then have f: "ac_id r = ac_id s" "ac_event r = ac_event s" "or_empty (ac_node_id r) = or_empty (ac_node_id s)"
    "or_empty (ac_task_id r) = or_empty (ac_task_id s)" "ac_actor r = ac_actor s"
    "show_u64 (ac_timestamp r) = show_u64 (ac_timestamp s)"
    by (auto simp: canonical_lines_def split: option.splits)
  have "ac_timestamp r = ac_timestamp s" using f(6) parse_u64_dec by (metis show_u64_def option.inject)
  then show ?thesis
    using f or_empty_inject assms(2,3,6,7) by (cases r; cases s) (auto simp: single_lines_def)
qed

text \<open>Two checked logs with the same last hash agree from the end backwards, as far as both go, if no two of
  their texts collide.\<close>

lemma chain_ends:
  assumes "audit_chain_valid a" and "hashed a" and "i < length a"
  shows "ac_hash (a ! i) = activity_hash (a ! i) (ac_prev_hash (a ! i))"
    and "ac_prev_hash (a ! i) = (if i = 0 then GENESIS else ac_hash (a ! (i - 1)))"
    and "NL \<notin> set (ac_prev_hash (a ! i))"
proof -
  have c: "ac_hash (a ! j) = activity_hash (a ! j) (ac_prev_hash (a ! j))
      \<and> ac_prev_hash (a ! j) = (if j = 0 then GENESIS else ac_hash (a ! (j - 1)))" if "j < length a" for j
    using chain_valid_nth [of GENESIS a j] assms(1,2) that by (simp add: audit_chain_valid_def)
  then show "ac_hash (a ! i) = activity_hash (a ! i) (ac_prev_hash (a ! i))"
    and prev: "ac_prev_hash (a ! i) = (if i = 0 then GENESIS else ac_hash (a ! (i - 1)))"
    using assms(3) by blast+
  show "NL \<notin> set (ac_prev_hash (a ! i))"
    using prev c [of "i - 1"] assms(3) by (auto simp: GENESIS_def hash_no_newline split: if_splits)
qed

lemma agree_backwards:
  assumes "audit_chain_valid a" and "audit_chain_valid b" and "hashed a" and "hashed b"
    and "a \<noteq> []" and "b \<noteq> []" and "ac_hash (last a) = ac_hash (last b)"
    and free: "\<And>i j. i < length a \<Longrightarrow> j < length b \<Longrightarrow>
       sha256 (as_bytes (committed (a ! i))) = sha256 (as_bytes (committed (b ! j))) \<Longrightarrow> committed (a ! i) = committed (b ! j)"
  shows "k < length a \<Longrightarrow> k < length b \<Longrightarrow>
     ac_hash (a ! (length a - 1 - k)) = ac_hash (b ! (length b - 1 - k))
   \<and> committed (a ! (length a - 1 - k)) = committed (b ! (length b - 1 - k))
   \<and> ac_prev_hash (a ! (length a - 1 - k)) = ac_prev_hash (b ! (length b - 1 - k))"
proof -
  have step: "committed (a ! i) = committed (b ! j) \<and> ac_prev_hash (a ! i) = ac_prev_hash (b ! j)"
    if "i < length a" "j < length b" "ac_hash (a ! i) = ac_hash (b ! j)" for i j
  proof -
    have "sha256 (as_bytes (committed (a ! i))) = sha256 (as_bytes (committed (b ! j)))"
      using chain_ends(1) [OF assms(1,3) that(1)] chain_ends(1) [OF assms(2,4) that(2)] that(3)
      by (simp add: activity_hash_def committed_def hex_encode_bytes_inject)
    then have "committed (a ! i) = committed (b ! j)" using free that(1,2) by blast
    then show ?thesis
      using canonical_prev chain_ends(3) [OF assms(1,3) that(1)] chain_ends(3) [OF assms(2,4) that(2)]
      unfolding committed_def by blast
  qed
  show "k < length a \<Longrightarrow> k < length b \<Longrightarrow> ?thesis"
  proof (induction k)
    case 0
    then have "ac_hash (a ! (length a - 1)) = ac_hash (b ! (length b - 1))"
      using assms(5-7) by (simp add: last_conv_nth)
    then show ?case using step [of "length a - 1" "length b - 1"] 0 by simp
  next
    case (Suc k)
    then have p: "ac_prev_hash (a ! (length a - 1 - k)) = ac_prev_hash (b ! (length b - 1 - k))" by simp
    have "length a - 1 - k < length a" "length a - 1 - k \<noteq> 0" "length a - 1 - k - 1 = length a - 1 - Suc k"
      "length b - 1 - k < length b" "length b - 1 - k \<noteq> 0" "length b - 1 - k - 1 = length b - 1 - Suc k"
      using Suc.prems by auto
    then have "ac_hash (a ! (length a - 1 - Suc k)) = ac_hash (b ! (length b - 1 - Suc k))"
      using chain_ends(2) [OF assms(1,3)] chain_ends(2) [OF assms(2,4)] p by metis
    then show ?case using step [of "length a - 1 - Suc k" "length b - 1 - Suc k"] Suc.prems by simp
  qed
qed

lemma genesis_differs: "activity_hash r p \<noteq> GENESIS"
proof
  assume "activity_hash r p = GENESIS"
  then have "length (activity_hash r p) = length GENESIS" by simp
  then show False by (simp add: GENESIS_def)
qed

lemma same_length:
  assumes "audit_chain_valid a" and "audit_chain_valid b" and "hashed a" and "hashed b"
    and "a \<noteq> []" and "length a < length b"
    and "\<And>k. k < length a \<Longrightarrow> k < length b \<Longrightarrow> ac_prev_hash (a ! (length a - 1 - k)) = ac_prev_hash (b ! (length b - 1 - k))"
  shows False
proof -
  let ?k = "length a - 1" and ?j = "length b - length a"
  have "length b - 1 - ?k = ?j" "?j \<noteq> 0" "?j < length b" "?k < length a" using assms(5,6) by (cases a; simp)+
  then have "ac_prev_hash (b ! ?j) = GENESIS" "ac_prev_hash (b ! ?j) = ac_hash (b ! (?j - 1))"
    using assms(7) [of ?k] chain_ends(2) [OF assms(1,3), of 0] chain_ends(2) [OF assms(2,4), of ?j] assms(5,6) by simp_all
  moreover have "ac_hash (b ! (?j - 1)) = activity_hash (b ! (?j - 1)) (ac_prev_hash (b ! (?j - 1)))"
    using chain_ends(1) [OF assms(2,4)] \<open>?j < length b\<close> by simp
  ultimately show False using genesis_differs by metis
qed

text \<open>C16: The chain is tamper evident. Two stored logs that both pass the check, have no blank hash and end
  in the same hash have the same length and commit to the same text in every record, and records that are
  single lines are the same in every field; the only other possibility is that they hold two different texts
  with the same SHA-256 digest. (The text does not tell a missing node or task from an empty one, nor fields
  with newlines apart; hence the condition on lines.)\<close>

theorem audit_chain_tamper_evident:
  assumes "audit_chain_valid a" and "audit_chain_valid b" and "hashed a" and "hashed b"
    and "a \<noteq> []" and "b \<noteq> []" and "ac_hash (last a) = ac_hash (last b)"
  shows "(length a = length b \<and> map committed a = map committed b
      \<and> (\<forall>i < length a. single_lines (a ! i) \<and> single_lines (b ! i) \<longrightarrow> a ! i = b ! i))
    \<or> (\<exists>i < length a. \<exists>j < length b. committed (a ! i) \<noteq> committed (b ! j)
         \<and> sha256 (as_bytes (committed (a ! i))) = sha256 (as_bytes (committed (b ! j))))"
proof (rule disjCI)
  assume "\<not> (\<exists>i < length a. \<exists>j < length b. committed (a ! i) \<noteq> committed (b ! j)
         \<and> sha256 (as_bytes (committed (a ! i))) = sha256 (as_bytes (committed (b ! j))))"
  then have ab: "ac_hash (a ! (length a - 1 - k)) = ac_hash (b ! (length b - 1 - k))
     \<and> committed (a ! (length a - 1 - k)) = committed (b ! (length b - 1 - k))
     \<and> ac_prev_hash (a ! (length a - 1 - k)) = ac_prev_hash (b ! (length b - 1 - k))"
    if "k < length a" "k < length b" for k
    using agree_backwards [OF assms _ that] by blast
  have n: "length a = length b"
    using same_length [OF assms(1-4) assms(5)] same_length [OF assms(2,1,4,3) assms(6)] ab by (metis linorder_neqE_nat)
  have at: "ac_hash (a ! i) = ac_hash (b ! i) \<and> committed (a ! i) = committed (b ! i)
      \<and> ac_prev_hash (a ! i) = ac_prev_hash (b ! i)" if "i < length a" for i
    using ab [of "length a - 1 - i"] that n by simp
  have "a ! i = b ! i" if "i < length a" "single_lines (a ! i)" "single_lines (b ! i)" for i
    using canonical_inject [OF _ that(2,3)] at [OF that(1)] chain_ends(3) [OF assms(1,3) that(1)]
      chain_ends(3) [OF assms(2,4)] that(1) n unfolding committed_def by metis
  moreover have "map committed a = map committed b" using at n by (simp add: list_eq_iff_nth_eq)
  ultimately show "length a = length b \<and> map committed a = map committed b
      \<and> (\<forall>i < length a. single_lines (a ! i) \<and> single_lines (b ! i) \<longrightarrow> a ! i = b ! i)" using n by blast
qed

definition sample_activity :: activity where
  "sample_activity = \<lparr>ac_id = ''a'', ac_event = ''e'', ac_node_id = None, ac_task_id = None,
     ac_actor = Some ''admin'', ac_timestamp = 7, ac_prev_hash = [], ac_hash = []\<rparr>"

lemma sample_chain: "audit_chain_valid (seal [sample_activity])" "hashed (seal [sample_activity])"
  using seal_from_valid [of GENESIS "[sample_activity]"]
  by (auto simp: audit_chain_valid_def seal_def hashed_def)

theorem audit_chain_tamper_evident_witness:
  "(length (seal [sample_activity]) = 1 \<and> single_lines (seal [sample_activity] ! 0))
   \<or> (\<exists>i < 1. \<exists>j < 1. committed (seal [sample_activity] ! i) \<noteq> committed (seal [sample_activity] ! j)
      \<and> sha256 (as_bytes (committed (seal [sample_activity] ! i)))
        = sha256 (as_bytes (committed (seal [sample_activity] ! j))))"
proof -
  have "seal [sample_activity] \<noteq> []" by (simp add: seal_def)
  from audit_chain_tamper_evident [OF sample_chain(1) sample_chain(1) sample_chain(2) sample_chain(2) this this refl]
  show ?thesis by (auto simp: seal_def single_lines_def sample_activity_def or_empty_def)
qed

text \<open>The check skips every record with a blank hash, so a log whose hashes were all blanked passes
  whatever its records say.\<close>

lemma blank_hashes_accepted: "audit_chain_valid (map (\<lambda>x. x\<lparr>ac_hash := []\<rparr>) trail)"
proof -
  have "chain_valid_from p (map (\<lambda>x. x\<lparr>ac_hash := []\<rparr>) trail)" for p
    by (induction trail arbitrary: p) auto
  then show ?thesis by (simp add: audit_chain_valid_def)
qed

section \<open>Paging\<close>

text \<open>An exported page is a slice of the sealed log. For an accepted query the response holds the
  records from the offset on, at most the limit of them, in order, and its next cursor is the
  offset just after the last one, or null when the log is exhausted.\<close>

theorem export_audit_page:
  assumes "start = parse_query path ''from'' 0" and "limit = parse_query path ''limit'' 1000"
    and "0 < limit" and "limit \<le> 10000" and "start \<le> length trail" and "length trail < 2 ^ 63"
  shows \<open>\<exists>page. page = take limit (drop start (map (sealed_activity_json trail) [0..<length trail]))
     \<and> export_audit path trail = (''200 OK'',
         ''{"protocol_version":1,"from":'' @ dec start @ '',"count":'' @ dec (length page)
         @ '',"next":'' @ (if start + limit < length trail then dec (start + limit) else ''null'')
         @ '',"records":['' @ str_join '','' page @ '']}'')\<close>
proof -
  have s: "usize_saturating_add start limit = start + limit"
    using assms(4-6) by (simp add: usize_saturating_add_def)
  have "take limit (drop start [0..<length trail]) = [start..<min (start + limit) (length trail)]"
    by (cases "start + limit \<le> length trail") (simp_all add: drop_upt take_upt min_def)
  then have p: "take limit (drop start (map (sealed_activity_json trail) [0..<length trail]))
      = map (sealed_activity_json trail) [start..<min (start + limit) (length trail)]"
    by (simp add: take_map drop_map)
  have g: "\<not> (limit = 0 \<or> limit > 10000)" "\<not> start > length trail" using assms(3-5) by auto
  have n: "(if min (start + limit) (length trail) < length trail
            then dec (min (start + limit) (length trail)) else ''null'')
         = (if start + limit < length trail then dec (start + limit) else ''null'')"
    by (auto simp: min_def)
  show ?thesis
    unfolding p export_audit_def assms(1) [symmetric] assms(2) [symmetric] Let_def s
      if_not_P [OF g(1)] if_not_P [OF g(2)] n
    by (rule exI, rule conjI, rule refl, rule refl)
qed

theorem export_audit_page_witness:
  \<open>\<exists>page. page = take 1000 (drop 0 (map (sealed_activity_json [sample_activity]) [0..<1]))
     \<and> export_audit ''/v1/audit/export'' [sample_activity] = (''200 OK'',
         ''{"protocol_version":1,"from":'' @ dec 0 @ '',"count":'' @ dec (length page)
         @ '',"next":'' @ ''null'' @ '',"records":['' @ str_join '','' page @ '']}'')\<close>
proof -
  have "parse_query ''/v1/audit/export'' k d = d" for k d
    by (simp add: parse_query_def query_field_def split_once_def)
  then show ?thesis
    using export_audit_page [of 0 "''/v1/audit/export''" 1000 "[sample_activity]"] by simp
qed

end
