(* ===== verification/Policy_Config.thy ===== *)
theory Policy_Config
  imports Store_Model
begin

text \<open>
  Configuration of the control plane (\<open>control-plane/src/main.rs\<close>): the policy file, the OIDC
  profile, the authentication mode, secrets from the environment or from files, the bind and
  production checks.
\<close>

section \<open>Name and path checks\<close>

definition claim_char :: "char \<Rightarrow> bool" where
  [ascii_simps]: "claim_char b \<longleftrightarrow> is_ascii_alphanumeric b \<or> b \<in> {CHR ''_'', CHR ''-'', CHR ''.''}"

definition valid_claim_name :: "string \<Rightarrow> bool" where
  "valid_claim_name value \<longleftrightarrow> value \<noteq> [] \<and> length value \<le> 128 \<and> list_all claim_char value"

definition valid_command_name :: "string \<Rightarrow> bool" where
  "valid_command_name value \<longleftrightarrow> value \<noteq> [] \<and> length value \<le> 128 \<and> list_all label_char value"

interpretation claim_name: identifier_check valid_claim_name claim_char 128
  by unfold_locales (simp add: valid_claim_name_def)

interpretation command_name: identifier_check valid_command_name label_char 128
  by unfold_locales (simp add: valid_command_name_def)

definition path_sep :: "char \<Rightarrow> bool" where
  "path_sep c \<longleftrightarrow> c = CHR ''/'' \<or> c = BACKSLASH"

definition valid_relative_path :: "string \<Rightarrow> bool" where
  "valid_relative_path value \<longleftrightarrow>
     value \<noteq> [] \<and> length value \<le> 512 \<and> \<not> path_sep (hd value) \<and> CHR 0x00 \<notin> set value
   \<and> list_all (\<lambda>segment. segment \<noteq> [] \<and> segment \<noteq> ''..'') (split_by path_sep value)"

definition strip_dot :: "string \<Rightarrow> string" where
  "strip_dot p = (case strip_prefix p ''./'' of None \<Rightarrow> p | Some r \<Rightarrow> r)"

definition policy_allows_path :: "string \<Rightarrow> string list \<Rightarrow> bool" where
  "policy_allows_path path allowed_paths =
     (if allowed_paths = [] then True
      else if \<not> valid_relative_path path then False
      else (let normalized = strip_dot path in
            list_ex (\<lambda>allowed. let allowed = strip_dot allowed in
                normalized = allowed
              \<or> (case strip_prefix normalized allowed of
                   None \<Rightarrow> False | Some rest \<Rightarrow> str_starts_with rest ''/''))
              allowed_paths))"

section \<open>Secrets and modes\<close>

definition load_secret_value :: "env \<Rightarrow> string \<Rightarrow> string \<Rightarrow> string + string option" where
  "load_secret_value e env_name file_env_name =
     (case environ e env_name of
        Some v \<Rightarrow> if valid_utf8 v then Inr (Some (str_trim v)) else Inl (env_name @ '' must be UTF-8'')
      | None \<Rightarrow>
        (case environ e file_env_name of
           None \<Rightarrow> Inr None
         | Some path \<Rightarrow>
           (case file_mode e path of
              Inl err \<Rightarrow> Inl (''cannot stat '' @ file_env_name @ '' '' @ path @ '': '' @ err)
            | Inr mode \<Rightarrow>
              if mode AND 63 \<noteq> 0
              then Inl (''secret file '' @ path @ '' must not be group/world readable'')
              else (case read_file e path of
                      Inl err \<Rightarrow> Inl (''cannot read '' @ file_env_name @ '' '' @ path @ '': '' @ err)
                    | Inr v \<Rightarrow>
                      if str_trim v = [] then Inl (file_env_name @ '' must not be empty'')
                      else Inr (Some (str_trim v))))))"

definition auth_mode :: "env \<Rightarrow> string + string" where
  "auth_mode e =
     (case env_var e ''NODEWE_AUTH_MODE'' of
        Some v \<Rightarrow>
          if v = ''token'' then Inr ''token'' else if v = ''oidc'' then Inr ''oidc''
          else if v = ''nodewe'' then Inl ''NODEWE_AUTH_MODE=nodewe is not available in this release''
          else Inl (''NODEWE_AUTH_MODE must be token or oidc, got '' @ v)
      | None \<Rightarrow> if env_var e ''NODEWE_OIDC_REQUIRED'' = Some ''1'' then Inr ''oidc'' else Inr ''token'')"

record oidc_config =
  issuer :: string
  audience :: string
  hmac_secret :: bytes
  admin_group :: string
  group_claim :: string

definition var_or :: "env \<Rightarrow> string \<Rightarrow> string \<Rightarrow> string" where
  "var_or e name d = (case env_var e name of None \<Rightarrow> d | Some v \<Rightarrow> v)"

text \<open>The checks of \<open>load_oidc_config\<close> once some OIDC variable is set.\<close>

definition build_oidc_config ::
    "env \<Rightarrow> string \<Rightarrow> string \<Rightarrow> string option \<Rightarrow> string + oidc_config option" where
  "build_oidc_config e iss aud secret =
     (if iss = [] \<or> aud = [] then Inl ''NODEWE_OIDC_ISSUER and NODEWE_OIDC_AUDIENCE are required together''
      else if \<not> str_starts_with iss ''https://'' then Inl ''NODEWE_OIDC_ISSUER must use https://''
      else (case secret of
        None \<Rightarrow> Inl ''NODEWE_OIDC_HS256_SECRET or NODEWE_OIDC_HS256_SECRET_FILE is required''
      | Some s \<Rightarrow>
          if length s < 32 then Inl ''NODEWE_OIDC_HS256_SECRET must contain at least 32 bytes''
          else (let ag = var_or e ''NODEWE_OIDC_ADMIN_GROUP'' ''nodewe-admin'';
                    gc = var_or e ''NODEWE_OIDC_GROUP_CLAIM'' ''groups''
                in if \<not> valid_claim_name gc \<or> \<not> valid_claim_name ag
                   then Inl ''NODEWE_OIDC_ADMIN_GROUP and NODEWE_OIDC_GROUP_CLAIM must be safe claim names''
                   else Inr (Some \<lparr>issuer = iss, audience = aud, hmac_secret = as_bytes s,
                                   admin_group = ag, group_claim = gc\<rparr>))))"

definition load_oidc_config :: "env \<Rightarrow> string + oidc_config option" where
  "load_oidc_config e =
     (let iss = var_or e ''NODEWE_OIDC_ISSUER'' []; aud = var_or e ''NODEWE_OIDC_AUDIENCE'' [] in
      case load_secret_value e ''NODEWE_OIDC_HS256_SECRET'' ''NODEWE_OIDC_HS256_SECRET_FILE'' of
        Inl err \<Rightarrow> Inl err
      | Inr secret \<Rightarrow>
        (case (if env_var e ''NODEWE_OIDC_REQUIRED'' = Some ''1'' then Inr True
               else case auth_mode e of Inl err \<Rightarrow> Inl err | Inr m \<Rightarrow> Inr (m = ''oidc'')) of
           Inl err \<Rightarrow> Inl err
         | Inr required \<Rightarrow>
           if iss = [] \<and> aud = [] \<and> secret = None then
             (if required
              then Inl ''NODEWE_OIDC_REQUIRED=1 needs NODEWE_OIDC_ISSUER, NODEWE_OIDC_AUDIENCE and NODEWE_OIDC_HS256_SECRET''
              else Inr None)
           else build_oidc_config e iss aud secret))"

section \<open>Policy\<close>

record policy =
  allowed_abilities :: "string list"
  approval_required :: "string list"
  allowed_data_classes :: "string list"
  allowed_actors :: "string list"
  allowed_commands :: "string list"
  allowed_paths :: "string list"

definition default_policy :: policy where
  "default_policy =
     \<lparr>allowed_abilities = SUPPORTED_ABILITIES, approval_required = [''task.exec'', ''file.write''],
      allowed_data_classes = [], allowed_actors = [], allowed_commands = [], allowed_paths = []\<rparr>"

definition parse_policy_values :: "string \<Rightarrow> string list option" where
  "parse_policy_values v =
     (let values = filter (\<lambda>item. item \<noteq> []) (map str_trim (str_split v CHR '',''))
      in if values = [] then None else Some values)"

text \<open>The \<open>match key.trim()\<close> of \<open>load_policy\<close>.\<close>

definition unsupported :: "string list \<Rightarrow> string option" where
  "unsupported values = find (\<lambda>a. a \<notin> set SUPPORTED_ABILITIES) values"

definition apply_policy_key :: "string \<Rightarrow> string list \<Rightarrow> policy \<Rightarrow> string + policy" where
  "apply_policy_key key values p =
     (if key = ''allowed_abilities'' then
        (case unsupported values of
           Some a \<Rightarrow> Inl (''unsupported policy ability: '' @ a)
         | None \<Rightarrow> Inr (p\<lparr>allowed_abilities := values\<rparr>))
      else if key = ''approval_required'' then
        (case unsupported values of
           Some a \<Rightarrow> Inl (''unsupported approval ability: '' @ a)
         | None \<Rightarrow> Inr (p\<lparr>approval_required := values\<rparr>))
      else if key = ''allowed_data_classes'' then Inr (p\<lparr>allowed_data_classes := values\<rparr>)
      else if key = ''allowed_actors'' then Inr (p\<lparr>allowed_actors := values\<rparr>)
      else if key = ''allowed_commands'' then
        (if list_ex (\<lambda>c. \<not> valid_command_name c) values
         then Inl ''allowed_commands contains an unsafe command name''
         else Inr (p\<lparr>allowed_commands := values\<rparr>))
      else if key = ''allowed_paths'' then
        (if list_ex (\<lambda>c. \<not> valid_relative_path c) values
         then Inl ''allowed_paths contains an unsafe relative path''
         else Inr (p\<lparr>allowed_paths := values\<rparr>))
      else Inl (''unknown policy key: '' @ key))"

text \<open>The line loop; \<open>n\<close> is the number of the line, from 1.\<close>

fun policy_lines :: "nat \<Rightarrow> string list \<Rightarrow> policy \<Rightarrow> string + policy" where
  "policy_lines n [] p = Inr p"
| "policy_lines n (raw_line # rest) p =
     (let line = str_trim (case split_once raw_line CHR ''#'' of
                             None \<Rightarrow> raw_line | Some (v, _) \<Rightarrow> v) in
      if line = [] then policy_lines (n + 1) rest p
      else (case split_once line CHR ''='' of
              None \<Rightarrow> Inl (''invalid policy line '' @ dec n)
            | Some (key, v) \<Rightarrow>
              (case parse_policy_values v of
                 None \<Rightarrow> Inl (''empty policy value on line '' @ dec n)
               | Some values \<Rightarrow>
                 (case apply_policy_key (str_trim key) values p of
                    Inl err \<Rightarrow> Inl err
                  | Inr p \<Rightarrow> policy_lines (n + 1) rest p))))"

definition load_policy :: "env \<Rightarrow> string + policy" where
  "load_policy e =
     (case environ e ''NODEWE_POLICY_FILE'' of
        None \<Rightarrow> Inr default_policy
      | Some path \<Rightarrow>
        (case read_file e path of
           Inl err \<Rightarrow> Inl (''cannot read NODEWE_POLICY_FILE '' @ path @ '': '' @ err)
         | Inr contents \<Rightarrow>
           if 64 * 1024 < length contents then Inl ''NODEWE_POLICY_FILE is larger than 64 KiB''
           else (case policy_lines 1 (str_lines contents) default_policy of
                   Inl err \<Rightarrow> Inl err
                 | Inr p \<Rightarrow> if allowed_abilities p = []
                           then Inl ''allowed_abilities cannot be empty'' else Inr p)))"

section \<open>Start-up checks\<close>

definition ensure_bind_safe :: "env \<Rightarrow> string \<Rightarrow> string + unit" where
  "ensure_bind_safe e bind =
     (let host = (case rsplit_once bind CHR '':'' of Some (h, _) \<Rightarrow> h | None \<Rightarrow> bind) in
      if host \<in> {''127.0.0.1'', ''localhost'', ''::1'', ''[::1]''}
       \<or> env_var e ''NODEWE_ALLOW_PRIVATE_BIND'' = Some ''1''
      then Inr () else Inl ''non-loopback bind requires NODEWE_ALLOW_PRIVATE_BIND=1'')"

definition enforce_production_mode :: "env \<Rightarrow> string + unit" where
  "enforce_production_mode e =
     (if env_var e ''NODEWE_ENV'' \<noteq> Some ''production'' then Inr ()
      else case find (\<lambda>name. env_var e name \<noteq> Some ''1'')
                  [''NODEWE_REQUIRE_ENCRYPTED_STORE'', ''NODEWE_REQUIRE_SIGNED_GRANTS'',
                   ''NODEWE_REQUIRE_APPROVAL_RECORDS''] of
        Some name \<Rightarrow> Inl (''NODEWE_ENV=production requires '' @ name @ ''=1'')
      | None \<Rightarrow>
        (case auth_mode e of
           Inl err \<Rightarrow> Inl err
         | Inr m \<Rightarrow>
           if m = ''oidc'' \<and> env_var e ''NODEWE_OIDC_REQUIRED'' \<noteq> Some ''1''
           then Inl ''NODEWE_AUTH_MODE=oidc requires NODEWE_OIDC_REQUIRED=1''
           else (case env_var e ''NODEWE_DATA_DIR'' of
             None \<Rightarrow> Inl ''NODEWE_ENV=production requires an explicit NODEWE_DATA_DIR''
           | Some data_dir \<Rightarrow>
             if str_trim data_dir = [] \<or> data_dir = ''.nodewe-control-plane''
             then Inl ''NODEWE_ENV=production requires a non-default NODEWE_DATA_DIR''
             else if \<not> list_all (\<lambda>name. environ e name \<noteq> None)
                        [''NODEWE_TLS_CERT'', ''NODEWE_TLS_KEY'', ''NODEWE_TLS_CLIENT_CA'']
                   \<and> env_var e ''NODEWE_TLS_PROXY_APPROVED'' \<noteq> Some ''1''
             then Inl ''NODEWE_ENV=production requires native TLS/mTLS or NODEWE_TLS_PROXY_APPROVED=1''
             else Inr ())))"

section \<open>Correctness\<close>

text \<open>What every policy in force satisfies.\<close>

definition policy_ok :: "policy \<Rightarrow> bool" where
  "policy_ok p \<longleftrightarrow>
     set (allowed_abilities p) \<subseteq> set SUPPORTED_ABILITIES
   \<and> set (approval_required p) \<subseteq> set SUPPORTED_ABILITIES \<and> approval_required p \<noteq> []
   \<and> list_all valid_command_name (allowed_commands p) \<and> list_all valid_relative_path (allowed_paths p)
   \<and> [] \<notin> set (allowed_data_classes p) \<and> [] \<notin> set (allowed_actors p)"

lemma parse_policy_values_ok: "parse_policy_values v = Some vs \<Longrightarrow> vs \<noteq> [] \<and> [] \<notin> set vs"
  by (auto simp: parse_policy_values_def Let_def split: if_splits)

lemma unsupported_None: "unsupported vs = None \<longleftrightarrow> set vs \<subseteq> set SUPPORTED_ABILITIES"
  by (auto simp: unsupported_def find_None_iff)

lemma apply_policy_key_ok:
  "apply_policy_key k vs p = Inr q \<Longrightarrow> vs \<noteq> [] \<Longrightarrow> [] \<notin> set vs \<Longrightarrow> policy_ok p \<Longrightarrow>
   policy_ok q \<and> (allowed_abilities p \<noteq> [] \<longrightarrow> allowed_abilities q \<noteq> [])"
  by (auto simp: apply_policy_key_def policy_ok_def unsupported_None list_all_iff list_ex_iff
      split: if_splits option.splits)

lemma policy_lines_ok:
  "policy_lines n ls p = Inr q \<Longrightarrow> policy_ok p \<Longrightarrow> policy_ok q"
proof (induction ls arbitrary: n p)
  case (Cons raw rest)
  have key: "policy_ok p'"
    if "apply_policy_key k vs p = Inr p'" "parse_policy_values v = Some vs" for k vs p' v
    using apply_policy_key_ok [OF that(1)] parse_policy_values_ok [OF that(2)] Cons.prems(2) by blast
  show ?case using Cons.prems(1) Cons.prems(2)
    by (auto simp: Let_def split: if_splits option.splits sum.splits intro: Cons.IH)
       (blast intro: Cons.IH key)+
qed simp

lemma default_policy_ok: "policy_ok default_policy"
  by (simp add: policy_ok_def default_policy_def SUPPORTED_ABILITIES_def)

lemma load_policy_ok:
  assumes "load_policy e = Inr p"
  shows "policy_ok p \<and> allowed_abilities p \<noteq> []"
proof -
  have "allowed_abilities default_policy \<noteq> []"
    by (simp add: default_policy_def SUPPORTED_ABILITIES_def)
  then show ?thesis using assms default_policy_ok policy_lines_ok
    by (auto simp: load_policy_def split: option.splits sum.splits if_splits)
qed

text \<open>A policy that loads is well formed, whatever the file says: it allows at least one ability
  and only supported ones, always requires approval for some supported ability, names only safe
  command names and relative paths without parent segments, and holds no blank entry.\<close>

theorem load_policy_well_formed:
  assumes "load_policy e = Inr p"
  shows "policy_ok p \<and> allowed_abilities p \<noteq> []"
  using assms by (rule load_policy_ok)

text \<open>An outside world for examples: the given variables and files, a clock that always says 100,
  random bytes that are all zero, and storage that works.\<close>

definition sample_env :: "(string \<Rightarrow> string option) \<Rightarrow> (string \<Rightarrow> string + string) \<Rightarrow> json_parser \<Rightarrow> env" where
  "sample_env vars files pj =
     \<lparr>parse_json = pj, environ = vars, file_mode = (\<lambda>_. Inr 384), read_file = files,
      clk = (\<lambda>_. 100), rnd = (\<lambda>_. Some (replicate 24 0)), pid = 1, persist = (\<lambda>_. Inr ()),
      ed_key_ok = (\<lambda>_. True), ed_sign = (\<lambda>_ _. [1]), ed_verify = (\<lambda>_ _ _. True)\<rparr>"

theorem load_policy_well_formed_witness:
  "\<exists>p. load_policy (sample_env [''NODEWE_POLICY_FILE'' \<mapsto> ''p''] (\<lambda>_. Inr []) (\<lambda>_. None)) = Inr p
     \<and> policy_ok p \<and> allowed_abilities p \<noteq> []"
proof -
  have "load_policy (sample_env [''NODEWE_POLICY_FILE'' \<mapsto> ''p''] (\<lambda>_. Inr []) (\<lambda>_. None)) = Inr default_policy"
    by (simp add: load_policy_def sample_env_def str_lines_def str_split_def Let_def
        default_policy_def SUPPORTED_ABILITIES_def)
  then show ?thesis using load_policy_well_formed by blast
qed

lemma load_oidc_config_ok:
  assumes "load_oidc_config e = Inr r"
  shows "(case r of
      Some c \<Rightarrow> str_starts_with (issuer c) ''https://'' \<and> audience c \<noteq> [] \<and> 32 \<le> length (hmac_secret c)
        \<and> valid_claim_name (admin_group c) \<and> valid_claim_name (group_claim c)
        \<and> load_secret_value e ''NODEWE_OIDC_HS256_SECRET'' ''NODEWE_OIDC_HS256_SECRET_FILE''
          = Inr (Some (of_bytes (hmac_secret c)))
    | None \<Rightarrow> env_var e ''NODEWE_OIDC_REQUIRED'' \<noteq> Some ''1'' \<and> auth_mode e = Inr ''token'')"
proof -
  let ?iss = "var_or e ''NODEWE_OIDC_ISSUER'' []" and ?aud = "var_or e ''NODEWE_OIDC_AUDIENCE'' []"
  obtain secret where s: "load_secret_value e ''NODEWE_OIDC_HS256_SECRET'' ''NODEWE_OIDC_HS256_SECRET_FILE''
      = Inr secret"
    using assms unfolding load_oidc_config_def Let_def by (auto split: sum.splits)
  define req where "req = (if env_var e ''NODEWE_OIDC_REQUIRED'' = Some ''1'' then Inr True
      else case auth_mode e of Inl err \<Rightarrow> Inl err | Inr m \<Rightarrow> Inr (m = ''oidc''))"
  obtain b where b: "req = Inr b" "if ?iss = [] \<and> ?aud = [] \<and> secret = None
      then \<not> b \<and> r = None else build_oidc_config e ?iss ?aud secret = Inr r"
    using assms unfolding load_oidc_config_def Let_def s req_def [symmetric]
    by (auto split: sum.splits if_splits)
  show ?thesis
  proof (cases "?iss = [] \<and> ?aud = [] \<and> secret = None")
    case True
    then have r: "r = None" "req = Inr False" using b by auto
    then have "env_var e ''NODEWE_OIDC_REQUIRED'' \<noteq> Some ''1''" and m: "\<exists>m. auth_mode e = Inr m \<and> m \<noteq> ''oidc''"
      unfolding req_def by (auto split: if_splits sum.splits)
    moreover have "m = ''token'' \<or> m = ''oidc''" if "auth_mode e = Inr m" for m
      using that unfolding auth_mode_def by (auto split: option.splits if_splits)
    ultimately show ?thesis using r by auto
  next
    case False
    then have "build_oidc_config e ?iss ?aud secret = Inr r" using b by (simp only: if_False)
    then show ?thesis unfolding s
      by (auto simp: build_oidc_config_def Let_def split: option.splits if_splits)
  qed
qed

text \<open>An OIDC profile that loads fails closed: the issuer is an https URL, the audience is not
  blank, the shared secret has at least 32 bytes and is not the default of anything (it comes from the
  environment or from a file), and both claim names are safe. If OIDC is required, by either
  variable, the control plane does not start without a profile.\<close>

theorem load_oidc_config_fail_closed:
  assumes "load_oidc_config e = Inr r"
  shows "(case r of
      Some c \<Rightarrow> str_starts_with (issuer c) ''https://'' \<and> audience c \<noteq> [] \<and> 32 \<le> length (hmac_secret c)
        \<and> valid_claim_name (admin_group c) \<and> valid_claim_name (group_claim c)
        \<and> load_secret_value e ''NODEWE_OIDC_HS256_SECRET'' ''NODEWE_OIDC_HS256_SECRET_FILE''
          = Inr (Some (of_bytes (hmac_secret c)))
    | None \<Rightarrow> env_var e ''NODEWE_OIDC_REQUIRED'' \<noteq> Some ''1'' \<and> auth_mode e = Inr ''token'')"
  using assms by (rule load_oidc_config_ok)

text \<open>The path policy is containment by whole segments. A path is allowed under a non-empty list
  only if its segments extend the segments of some listed path, and then it is relative, non-empty
  and free of parent segments with either separator, so \<open>data\<close> never lets \<open>database\<close> or
  \<open>data/../x\<close> through.\<close>

theorem policy_allows_path_contained:
  assumes "policy_allows_path path allowed" and "allowed \<noteq> []"
  shows "\<exists>a \<in> set allowed. prefix (str_split (strip_dot a) CHR ''/'') (str_split (strip_dot path) CHR ''/'')
     \<and> ''..'' \<notin> set (split_by path_sep path) \<and> [] \<notin> set (split_by path_sep path)
     \<and> \<not> path_sep (hd path)"
proof -
  have v: "valid_relative_path path"
    using assms by (auto simp: policy_allows_path_def split: if_splits)
  obtain a where a1: "a \<in> set allowed" and c: "strip_dot path = strip_dot a
      \<or> (case strip_prefix (strip_dot path) (strip_dot a) of
           None \<Rightarrow> False | Some rest \<Rightarrow> str_starts_with rest ''/'')"
    using assms by (auto simp: policy_allows_path_def Let_def list_ex_iff split: if_splits)
  have a: "a \<in> set allowed"
      "strip_dot path = strip_dot a \<or> (\<exists>r. strip_dot path = strip_dot a @ CHR ''/'' # r)"
    using a1 c
    by (auto simp: strip_prefix_def str_starts_with_def prefix_def split: if_splits)
  have app: "str_split (s @ CHR ''/'' # r) CHR ''/'' = str_split s CHR ''/'' @ str_split r CHR ''/''" for s r
    by (induction s) (auto simp: str_split_def split: list.splits)
  have "prefix (str_split (strip_dot a) CHR ''/'') (str_split (strip_dot path) CHR ''/'')"
    using a(2) by (auto simp: app)
  then show ?thesis using v a(1) by (auto simp: valid_relative_path_def list_all_iff)
qed

theorem policy_allows_path_contained_witness:
  "\<exists>a \<in> set [''data'']. prefix (str_split (strip_dot a) CHR ''/'') (str_split (strip_dot ''data/x'') CHR ''/'')
     \<and> ''..'' \<notin> set (split_by path_sep ''data/x'') \<and> [] \<notin> set (split_by path_sep ''data/x'')
     \<and> \<not> path_sep (hd ''data/x'')"
  by (rule policy_allows_path_contained)
     (simp_all add: policy_allows_path_def valid_relative_path_def path_sep_def strip_dot_def
       strip_prefix_def str_starts_with_def Let_def)

theorem load_oidc_config_fail_closed_witness:
  "\<exists>c. load_oidc_config (sample_env [''NODEWE_OIDC_ISSUER'' \<mapsto> ''https://id'', ''NODEWE_OIDC_AUDIENCE'' \<mapsto> ''nodewe'',
         ''NODEWE_OIDC_HS256_SECRET'' \<mapsto> replicate 32 CHR ''k''] (\<lambda>_. Inl []) (\<lambda>_. None)) = Inr (Some c)
     \<and> 32 \<le> length (hmac_secret c)"
proof -
  let ?e = "sample_env [''NODEWE_OIDC_ISSUER'' \<mapsto> ''https://id'', ''NODEWE_OIDC_AUDIENCE'' \<mapsto> ''nodewe'',
         ''NODEWE_OIDC_HS256_SECRET'' \<mapsto> replicate 32 CHR ''k''] (\<lambda>_. Inl []) (\<lambda>_. None)"
  have u: "valid_utf8 (replicate 32 CHR ''k'')" "str_trim (replicate 32 CHR ''k'') = replicate 32 CHR ''k''"
    by (rule valid_utf8_ascii, simp add: list_all_iff byte_def,
        rule str_trim_graphic, simp add: list_all_iff ascii_simps)
  then obtain c where c: "load_oidc_config ?e = Inr (Some c)"
    by (simp add: load_oidc_config_def build_oidc_config_def load_secret_value_def var_or_def
        env_var_def sample_env_def auth_mode_def valid_claim_name_def str_starts_with_def ascii_simps Let_def)
  then show ?thesis using load_oidc_config_fail_closed [OF c] by auto
qed

end
