(* ===== verification/Control_State.thy ===== *)
theory Control_State
  imports Audit_Chain Policy_Config
begin

text \<open>
  The state shared by the handlers of the control plane, and the steps they are made of: recording
  an activity, persisting with rollback, resolving the acting user, signing and verifying grants.

  A handler is a function of the outside world (\<open>env\<close>), its inputs and the state; it returns the
  HTTP status and body and the state afterwards. The mutex around the store makes a handler atomic.
  The calls of \<open>now()\<close> and of \<open>/dev/urandom\<close> inside one handler are numbered in the order of the
  source text. \<open>NEXT_ID\<close>, the static counter of \<open>new_id\<close>, is a field of the state.
\<close>

section \<open>State\<close>

record state =
  admin_token :: string
  grant_secret :: string
  require_approval_records :: bool
  policy :: policy
  oidc :: "oidc_config option"
  store :: store
  next_seq :: u64

type_synonym response = "string \<times> string"

text \<open>\<open>new_id\<close>: the counter is read and incremented; the atomic addition wraps.\<close>

definition take_id :: "env \<Rightarrow> nat \<Rightarrow> string \<Rightarrow> state \<Rightarrow> string \<times> state" where
  "take_id e k tag st = (new_id e k tag (next_seq st), st\<lparr>next_seq := next_seq st + 1\<rparr>)"

text \<open>\<open>store.audit.push(Activity::with_actor(...))\<close>: clock places \<open>k\<close> (identifier) and \<open>k + 1\<close>.\<close>

definition with_actor ::
    "env \<Rightarrow> nat \<Rightarrow> u64 \<Rightarrow> string \<Rightarrow> string option \<Rightarrow> string option \<Rightarrow> string option \<Rightarrow> activity" where
  "with_actor e k sequence event node_id task_id actor =
     \<lparr>ac_id = new_id e k ''activity'' sequence, ac_event = event, ac_node_id = node_id,
      ac_task_id = task_id, ac_actor = actor, ac_timestamp = clk e (k + 1), ac_prev_hash = [],
      ac_hash = []\<rparr>"

definition push_audit ::
    "env \<Rightarrow> nat \<Rightarrow> string \<Rightarrow> string option \<Rightarrow> string option \<Rightarrow> string option \<Rightarrow> state \<Rightarrow> state" where
  "push_audit e k event node_id task_id actor st =
     st\<lparr>store := (store st)\<lparr>audit := audit (store st)
          @ [with_actor e k (next_seq st) event node_id task_id actor]\<rparr>,
        next_seq := next_seq st + 1\<rparr>"

definition storage_unavailable :: response where
  "storage_unavailable = (''503 Service Unavailable'', code_body ''storage_unavailable'')"

text \<open>\<open>persist_or_rollback\<close> followed by the early return: the response if the backend accepts the
  store, otherwise 503 with the store of before.\<close>

definition persist_or_rollback :: "env \<Rightarrow> store \<Rightarrow> response \<Rightarrow> state \<Rightarrow> response \<times> state" where
  "persist_or_rollback e before ok st =
     (case persist e (store st) of
        Inr _ \<Rightarrow> (ok, st)
      | Inl _ \<Rightarrow> (storage_unavailable, st\<lparr>store := before\<rparr>))"

definition audit_actor :: "string option \<Rightarrow> string" where
  "audit_actor authenticated = (case authenticated of None \<Rightarrow> ''admin'' | Some a \<Rightarrow> a)"

definition resolve_actor :: "env \<Rightarrow> string \<Rightarrow> string option \<Rightarrow> string option" where
  "resolve_actor e body authenticated =
     (case (authenticated, json_field (parse_json e) body ''actor'') of
        (Some a, Some r) \<Rightarrow> if a \<noteq> r then None else Some a
      | (Some a, None) \<Rightarrow> Some a
      | (None, Some r) \<Rightarrow> Some r
      | (None, None) \<Rightarrow> Some ''admin'')"

section \<open>Grant signatures\<close>

definition configured_signing_key_value ::
    "env \<Rightarrow> string \<Rightarrow> string \<Rightarrow> (string + bytes option) exec" where
  "configured_signing_key_value e env_name file_env_name =
     (case load_secret_value e env_name file_env_name of
        Inl err \<Rightarrow> Done (Inl err)
      | Inr None \<Rightarrow> Done (Inr None)
      | Inr (Some v) \<Rightarrow>
          exec_map (\<lambda>b. case b of
              None \<Rightarrow> Inl (env_name @ '' must be hexadecimal PKCS#8 bytes'')
            | Some key \<Rightarrow> Inr (Some key)) (hex_decode_bytes v))"

definition configured_grant_signing_key :: "env \<Rightarrow> (string + bytes option) exec" where
  "configured_grant_signing_key e =
     configured_signing_key_value e ''NODEWE_GRANT_SIGNING_KEY'' ''NODEWE_GRANT_SIGNING_KEY_FILE''"

definition option_list :: "'a option \<Rightarrow> 'a list" where
  "option_list x = (case x of None \<Rightarrow> [] | Some v \<Rightarrow> [v])"

definition configured_grant_verification_keys :: "env \<Rightarrow> (string + bytes list) exec" where
  "configured_grant_verification_keys e =
     exec_bind (configured_grant_signing_key e) (\<lambda>active. case active of
        Inl err \<Rightarrow> Done (Inl err)
      | Inr active \<Rightarrow>
          exec_map (\<lambda>previous. case previous of
              Inl err \<Rightarrow> Inl err
            | Inr previous \<Rightarrow> Inr (option_list active @ option_list previous))
          (configured_signing_key_value e ''NODEWE_GRANT_SIGNING_KEY_PREVIOUS''
             ''NODEWE_GRANT_SIGNING_KEY_PREVIOUS_FILE''))"

definition grant_payload :: "string \<Rightarrow> u64 \<Rightarrow> bytes" where
  "grant_payload code expires_at = as_bytes (code @ '':'' @ show_u64 expires_at)"

definition sign_grant :: "env \<Rightarrow> string \<Rightarrow> u64 \<Rightarrow> string \<Rightarrow> (string + string) exec" where
  "sign_grant e code expires_at secret =
     exec_bind (configured_grant_signing_key e) (\<lambda>configured_key. case configured_key of
        Inl _ \<Rightarrow> Done (Inl ''invalid grant signing key'')
      | Inr (Some key_bytes) \<Rightarrow>
          Done (if ed_key_ok e key_bytes
                then Inr (hex_encode_bytes (ed_sign e key_bytes (grant_payload code expires_at)))
                else Inl ''invalid grant signing key'')
      | Inr None \<Rightarrow>
          exec_map (\<lambda>keys. case keys of
              Inl _ \<Rightarrow> Inl ''invalid grant signing key''
            | Inr keys \<Rightarrow>
                if keys \<noteq> [] then Inl ''active grant signing key is required for signing''
                else Inr (hex_encode_bytes (hmac_sha256 (as_bytes secret)
                            (grant_payload code expires_at))))
          (configured_grant_verification_keys e))"

definition verify_grant :: "env \<Rightarrow> string \<Rightarrow> u64 \<Rightarrow> string \<Rightarrow> string \<Rightarrow> bool exec" where
  "verify_grant e code expires_at signature secret =
     exec_bind (configured_grant_verification_keys e) (\<lambda>configured_keys. case configured_keys of
        Inl _ \<Rightarrow> Done False
      | Inr keys \<Rightarrow>
          if keys \<noteq> [] then
            exec_map (\<lambda>s. case s of
                None \<Rightarrow> False
              | Some signature_bytes \<Rightarrow>
                  list_ex (\<lambda>key_bytes. ed_key_ok e key_bytes
                     \<and> ed_verify e key_bytes (grant_payload code expires_at) signature_bytes) keys)
            (hex_decode_bytes signature)
          else Done (constant_time_eq signature
                       (hex_encode_bytes (hmac_sha256 (as_bytes secret)
                          (grant_payload code expires_at)))))"

section \<open>Facts the handler proofs share\<close>

named_theorems handler_defs \<open>handlers, unfolded to record updates\<close>
named_theorems evolves_intro \<open>steps of a handler that let the store evolve\<close>

text \<open>The fixed part of the state: secrets, policy and modes never change while serving.\<close>

definition same_config :: "state \<Rightarrow> state \<Rightarrow> bool" where
  "same_config a b \<longleftrightarrow> b = a\<lparr>store := store b, next_seq := next_seq b\<rparr>"

lemma same_config_refl [simp]: "same_config st st"
  by (simp add: same_config_def)

lemma push_audit_store [simp]:
  "nodes (store (push_audit e k ev n t a st)) = nodes (store st)"
  "tasks (store (push_audit e k ev n t a st)) = tasks (store st)"
  "grants (store (push_audit e k ev n t a st)) = grants (store st)"
  "approvals (store (push_audit e k ev n t a st)) = approvals (store st)"
  "audit (store (push_audit e k ev n t a st))
     = audit (store st) @ [with_actor e k (next_seq st) ev n t a]"
  "next_seq (push_audit e k ev n t a st) = next_seq st + 1"
  by (simp_all add: push_audit_def)

lemma push_audit_config [simp]:
  "same_config st0 (push_audit e k ev n t a st) = same_config st0 st"
  by (cases st0; cases st) (auto simp: same_config_def push_audit_def)

lemma store_update_config [simp]: "same_config st0 (st\<lparr>store := s\<rparr>) = same_config st0 st"
  by (cases st0; cases st) (auto simp: same_config_def)

lemma seq_update_config [simp]: "same_config st0 (st\<lparr>next_seq := n\<rparr>) = same_config st0 st"
  by (cases st0; cases st) (auto simp: same_config_def)

text \<open>A handler step is good for a start store when the store it leads to evolves from it.\<close>

lemma evolves_push_audit [evolves_intro]:
  "store_evolves s (store st) \<Longrightarrow> store_evolves s (store (push_audit e k ev n t a st))"
  by (rule store_evolves_trans, assumption)
     (simp add: store_evolves_def node_table.grows_refl task_table.grows_refl
        audit_table.grows_append grant_table.grows_refl approval_table.grows_refl)

lemma evolves_nodes:
  "grows node_evolves (nodes s) ns \<Longrightarrow> store_evolves s (s\<lparr>nodes := ns\<rparr>)"
  by (simp add: store_evolves_def task_table.grows_refl audit_table.grows_refl
      grant_table.grows_refl approval_table.grows_refl)

lemma evolves_tasks:
  "grows task_evolves (tasks s) ts \<Longrightarrow> store_evolves s (s\<lparr>tasks := ts\<rparr>)"
  by (simp add: store_evolves_def node_table.grows_refl audit_table.grows_refl
      grant_table.grows_refl approval_table.grows_refl)

lemma evolves_grants:
  "grows grant_evolves (grants s) gs \<Longrightarrow> store_evolves s (s\<lparr>grants := gs\<rparr>)"
  by (simp add: store_evolves_def node_table.grows_refl task_table.grows_refl audit_table.grows_refl
      approval_table.grows_refl)

lemma evolves_approvals:
  "grows approval_evolves (approvals s) ps \<Longrightarrow> store_evolves s (s\<lparr>approvals := ps\<rparr>)"
  by (simp add: store_evolves_def node_table.grows_refl task_table.grows_refl audit_table.grows_refl
      grant_table.grows_refl)

lemma persist_or_rollback_cases:
  "persist_or_rollback e before ok st =
     (if \<exists>u. persist e (store st) = Inr u then (ok, st)
      else (storage_unavailable, st\<lparr>store := before\<rparr>))"
  by (auto simp: persist_or_rollback_def split: sum.splits)

lemma persist_store_cases:
  "store (snd (persist_or_rollback e before ok st)) = store st
   \<or> store (snd (persist_or_rollback e before ok st)) = before"
  by (simp add: persist_or_rollback_cases)

lemma evolves_persist [evolves_intro]:
  "store_evolves s (store st) \<Longrightarrow> store_evolves s before \<Longrightarrow>
   store_evolves s (store (snd (persist_or_rollback e before ok st)))"
  by (simp add: persist_or_rollback_cases)

lemma persist_config [simp]:
  "same_config st0 (snd (persist_or_rollback e before ok st)) = same_config st0 st"
  by (simp add: persist_or_rollback_cases)

section \<open>The contract of a handler\<close>

text \<open>Well-formedness of the tables.\<close>

definition node_wf :: "node \<Rightarrow> bool" where
  "node_wf n \<longleftrightarrow> valid_node_id (nd_id n) \<and> nd_credential n \<noteq> [] \<and> (nd_revoked n \<longrightarrow> \<not> nd_online n)"

definition task_wf :: "task \<Rightarrow> bool" where
  "task_wf t \<longleftrightarrow>
     valid_node_id (tk_request_id t) \<and> valid_node_id (tk_actor t)
   \<and> tk_ability t \<in> set SUPPORTED_ABILITIES
   \<and> tk_state t \<in> {''queued'', ''dispatched''} \<union> terminal_states
   \<and> 0 < tk_timeout_ms t \<and> tk_timeout_ms t \<le> MAX_TASK_TIMEOUT_MS
   \<and> 0 < tk_output_limit t \<and> tk_output_limit t \<le> MAX_TASK_OUTPUT_LIMIT
   \<and> length (tk_output t) \<le> tk_output_limit t \<and> length (tk_output t) \<le> MAX_PERSISTED_OUTPUT_BYTES
   \<and> (tk_state t = ''dispatched'' \<longrightarrow> tk_lease_token t \<noteq> [])"

definition approval_wf :: "approval \<Rightarrow> bool" where
  "approval_wf a \<longleftrightarrow> valid_node_id (ap_node_id a) \<and> valid_actor_id (ap_actor a) \<and> ap_ability a = ''task.exec''"

definition store_wf :: "store \<Rightarrow> bool" where
  "store_wf s \<longleftrightarrow> distinct (map nd_id (nodes s)) \<and> list_all node_wf (nodes s)
     \<and> list_all task_wf (tasks s) \<and> list_all approval_wf (approvals s)"

lemma store_wf_push_audit [simp]: "store_wf (store (push_audit e k ev n t a st)) = store_wf (store st)"
  by (simp add: store_wf_def)

text \<open>Good for every handler call: configuration untouched; the store only evolves and stays well
  formed; a success leaves a store that the backend accepted, or the one there was; after 503, and
  after a panic, the store is the one there was.\<close>

definition success :: "response \<Rightarrow> bool" where
  "success r \<longleftrightarrow> str_starts_with (fst r) ''2''"

definition handler_ok :: "env \<Rightarrow> state \<Rightarrow> response exec \<times> state \<Rightarrow> bool" where
  "handler_ok e st out \<longleftrightarrow>
     (case out of (r, st') \<Rightarrow>
        same_config st st' \<and> store_evolves (store st) (store st')
      \<and> (store_wf (store st) \<longrightarrow> store_wf (store st'))
      \<and> (case r of
           Panic \<Rightarrow> store st' = store st
         | Done resp \<Rightarrow>
             (success resp \<longrightarrow> store st' = store st \<or> persist e (store st') = Inr ())
           \<and> (fst resp = fst storage_unavailable \<longrightarrow> store st' = store st)))"

definition returning :: "('i \<Rightarrow> env \<Rightarrow> state \<Rightarrow> response \<times> state) \<Rightarrow> 'i \<Rightarrow> env \<Rightarrow> state \<Rightarrow> response exec \<times> state" where
  "returning h i e st = map_prod Done id (h i e st)"

text \<open>A sequence of calls, each in its own outside world.\<close>

fun run_calls :: "('i \<Rightarrow> env \<Rightarrow> state \<Rightarrow> response exec \<times> state) \<Rightarrow> ('i \<times> env) list \<Rightarrow> state \<Rightarrow> state" where
  "run_calls h [] st = st"
| "run_calls h ((i, e) # calls) st = run_calls h calls (snd (h i e st))"

locale handler =
  fixes h :: "'i \<Rightarrow> env \<Rightarrow> state \<Rightarrow> response exec \<times> state"
  assumes contract: "handler_ok e st (h i e st)"
begin

lemma evolves: "store_evolves (store st) (store (snd (h i e st)))"
  using contract [of e st i] by (auto simp: handler_ok_def split: prod.splits)

lemma keeps_config: "same_config st (snd (h i e st))"
  using contract [of e st i] by (auto simp: handler_ok_def split: prod.splits)

lemma keeps_wf: "store_wf (store st) \<Longrightarrow> store_wf (store (snd (h i e st)))"
  using contract [of e st i] by (auto simp: handler_ok_def split: prod.splits)

lemma durable:
  "h i e st = (Done resp, st') \<Longrightarrow> success resp \<Longrightarrow>
   store st' = store st \<or> persist e (store st') = Inr ()"
  using contract [of e st i] by (auto simp: handler_ok_def)

lemma unavailable_unchanged:
  "h i e st = (Done resp, st') \<Longrightarrow> fst resp = fst storage_unavailable \<Longrightarrow> store st' = store st"
  using contract [of e st i] by (auto simp: handler_ok_def)

lemma panic_unchanged: "h i e st = (Panic, st') \<Longrightarrow> store st' = store st"
  using contract [of e st i] by (auto simp: handler_ok_def)

lemma run_evolves: "store_evolves (store st) (store (run_calls h calls st))"
proof (induction calls arbitrary: st)
  case (Cons c calls)
  obtain i e where c: "c = (i, e)" by force
  from store_evolves_trans [OF evolves Cons.IH] show ?case by (simp add: c)
qed simp

lemma run_wf: "store_wf (store st) \<Longrightarrow> store_wf (store (run_calls h calls st))"
proof (induction calls arbitrary: st)
  case (Cons c calls)
  obtain i e where c: "c = (i, e)" by force
  from Cons.IH [OF keeps_wf [OF Cons.prems]] show ?case by (simp add: c)
qed simp

end

text \<open>The two shapes in which a handler ends.\<close>

lemma handler_ok_same [intro]: "handler_ok e st (r, st)"
  by (auto simp: handler_ok_def split: exec.splits)

lemma handler_ok_read [intro]: "handler_ok e st (Done r, st\<lparr>next_seq := n\<rparr>)"
  by (auto simp: handler_ok_def)

lemma handler_ok_refused:
  assumes "same_config st st2" and "store_evolves (store st) (store st2)"
    and "store_wf (store st) \<Longrightarrow> store_wf (store st2)" and "\<not> success r"
    and "fst r \<noteq> fst storage_unavailable"
  shows "handler_ok e st (Done r, st2)"
  using assms by (auto simp: handler_ok_def)

lemma handler_ok_persist:
  assumes "same_config st st2" and "store_evolves (store st) (store st2)"
    and "store_wf (store st) \<Longrightarrow> store_wf (store st2)" and "fst r \<noteq> fst storage_unavailable"
  shows "handler_ok e st (map_prod Done id (persist_or_rollback e (store st) r st2))"
  using assms
  by (auto simp: handler_ok_def persist_or_rollback_cases success_def storage_unavailable_def
      str_starts_with_def split: sum.splits)

text \<open>Splitting a handler at its conditions.\<close>

named_theorems handler_splits \<open>contract of a conditional from the contracts of its branches\<close>

lemma ok_if [handler_splits]:
  "(c \<Longrightarrow> handler_ok e st (map_prod Done id a)) \<Longrightarrow> (\<not> c \<Longrightarrow> handler_ok e st (map_prod Done id b)) \<Longrightarrow>
   handler_ok e st (map_prod Done id (if c then a else b))"
  by simp

lemma ok_option [handler_splits]:
  "(x = None \<Longrightarrow> handler_ok e st (map_prod Done id a)) \<Longrightarrow>
   (\<And>v. x = Some v \<Longrightarrow> handler_ok e st (map_prod Done id (f v))) \<Longrightarrow>
   handler_ok e st (map_prod Done id (case x of None \<Rightarrow> a | Some v \<Rightarrow> f v))"
  by (cases x) auto

lemma ok_return [handler_splits]: "handler_ok e st (map_prod Done id (r, st))"
  by (simp add: handler_ok_same)

lemma ok_if_exec [handler_splits]:
  "(c \<Longrightarrow> handler_ok e st a) \<Longrightarrow> (\<not> c \<Longrightarrow> handler_ok e st b) \<Longrightarrow> handler_ok e st (if c then a else b)"
  by simp

lemma ok_option_exec [handler_splits]:
  "(x = None \<Longrightarrow> handler_ok e st a) \<Longrightarrow> (\<And>v. x = Some v \<Longrightarrow> handler_ok e st (f v)) \<Longrightarrow>
   handler_ok e st (case x of None \<Rightarrow> a | Some v \<Rightarrow> f v)"
  by (cases x) auto

declare handler_ok_same [handler_splits]

section \<open>Signing\<close>

text \<open>What was signed is accepted. A signature that \<open>sign_grant\<close> issues for a code and an expiry
  passes \<open>verify_grant\<close> for them, both with an Ed25519 key (relying on \<open>ring\<close>: a signature made with a
  usable key verifies under that key) and with the shared HMAC secret, as long as the configured
  verification keys can be read.\<close>

theorem sign_grant_verifies:
  assumes "\<And>key m. ed_key_ok e key \<Longrightarrow> ed_sign e key m \<noteq> [] \<and> ed_verify e key m (ed_sign e key m)"
    and "configured_grant_verification_keys e = Done (Inr keys)"
    and "sign_grant e code expires_at secret = Done (Inr signature)"
  shows "verify_grant e code expires_at signature secret = Done True"
proof -
  obtain active where act: "configured_grant_signing_key e = Done (Inr active)"
    using assms(2) by (cases "configured_grant_signing_key e")
      (auto simp: configured_grant_verification_keys_def split: sum.splits)
  show ?thesis
  proof (cases active)
    case (Some key)
    then have s: "ed_key_ok e key" "signature = hex_encode_bytes (ed_sign e key (grant_payload code expires_at))"
      using assms(3) act by (auto simp: sign_grant_def split: if_splits)
    have "key \<in> set keys"
      using assms(2) act Some
      by (cases "configured_signing_key_value e ''NODEWE_GRANT_SIGNING_KEY_PREVIOUS''
             ''NODEWE_GRANT_SIGNING_KEY_PREVIOUS_FILE''")
         (auto simp: configured_grant_verification_keys_def option_list_def split: sum.splits)
    then show ?thesis using assms(1) [OF s(1)] assms(2) s
      by (auto simp: verify_grant_def hex_decode_bytes_encode list_ex_iff)
  next
    case None
    then have k: "keys = []" "signature = hex_encode_bytes (hmac_sha256 (as_bytes secret) (grant_payload code expires_at))"
      using assms(2,3) act by (auto simp: sign_grant_def split: if_splits)
    then have "length signature = 64" by (simp add: hmac_sha256_def Let_def)
    then show ?thesis using k assms(2)
      by (simp add: verify_grant_def constant_time_eq_via constant_time_eq_bytes_iff)
  qed
qed

theorem sign_grant_verifies_witness:
  "\<exists>signature. sign_grant (sample_env (\<lambda>_. None) (\<lambda>_. Inl []) (\<lambda>_. None)) ''c'' 5 ''s'' = Done (Inr signature)
     \<and> verify_grant (sample_env (\<lambda>_. None) (\<lambda>_. Inl []) (\<lambda>_. None)) ''c'' 5 signature ''s'' = Done True"
proof -
  let ?e = "sample_env (\<lambda>_. None) (\<lambda>_. Inl []) (\<lambda>_. None)"
  have k: "configured_grant_verification_keys ?e = Done (Inr [])"
    by (simp add: configured_grant_verification_keys_def configured_grant_signing_key_def
        configured_signing_key_value_def load_secret_value_def option_list_def sample_env_def)
  obtain signature where s: "sign_grant ?e ''c'' 5 ''s'' = Done (Inr signature)"
    using k by (simp add: sign_grant_def configured_grant_signing_key_def
        configured_signing_key_value_def load_secret_value_def sample_env_def)
  have "verify_grant ?e ''c'' 5 signature ''s'' = Done True"
    by (rule sign_grant_verifies [OF _ k s]) (simp add: sample_env_def)
  then show ?thesis using s by blast
qed

end
