(* ===== verification/Node_Handlers.thy ===== *)
theory Node_Handlers
  imports Control_State
begin

text \<open>
  The handlers of \<open>control-plane/src/main.rs\<close> that manage nodes and grants: creating, revoking and
  rotating nodes, heartbeats, and creating, listing, revoking and redeeming bootstrap grants.
\<close>

section \<open>Creating nodes\<close>

definition error_response :: "string \<Rightarrow> string \<Rightarrow> response" where
  "error_response status code = (status, code_body code)"

definition secure_random_unavailable :: response where
  "secure_random_unavailable = error_response ''500 Internal Server Error'' ''secure_random_unavailable''"

definition node_request_fields :: "string list" where
  "node_request_fields = [''node_id'', ''name'', ''platform'', ''architecture'', ''version'', ''labels'',
     ''region'', ''data_class'', ''capacity'']"

text \<open>The \<open>Node\<close> literal of \<open>create_node_as\<close> and \<open>redeem_grant\<close>; \<open>k\<close> is the clock place of
  \<open>last_seen\<close>.\<close>

definition fresh_node :: "env \<Rightarrow> nat \<Rightarrow> string \<Rightarrow> string \<Rightarrow> string \<Rightarrow> metadata \<Rightarrow> node" where
  "fresh_node e k i name credential md =
     \<lparr>nd_id = i, nd_name = name, nd_online = True, nd_revoked = False, nd_credential = credential,
      nd_abilities = ''file.read,file.write,task.exec,system.inspect'',
      nd_platform = md_platform md, nd_architecture = md_architecture md, nd_version = md_version md,
      nd_labels = md_labels md, nd_region = md_region md, nd_data_class = md_data_class md,
      nd_capacity = md_capacity md, nd_last_seen = clk e k\<rparr>"

definition push_node :: "node \<Rightarrow> state \<Rightarrow> state" where
  "push_node n st = st\<lparr>store := (store st)\<lparr>nodes := nodes (store st) @ [n]\<rparr>\<rparr>"

definition create_node_as :: "string \<Rightarrow> string option \<Rightarrow> env \<Rightarrow> state \<Rightarrow> response \<times> state" where
  "create_node_as body actor e st =
     (if \<not> json_types_valid (parse_json e) body node_request_fields [] []
      then (error_response ''400 Bad Request'' ''invalid_json_type'', st)
      else (let i = field_or (parse_json e) body ''node_id'' [];
                name = field_or (parse_json e) body ''name'' i;
                md = node_metadata (parse_json e) body in
        if \<not> valid_node_id i then (error_response ''400 Bad Request'' ''invalid_node'', st)
        else if \<not> valid_labels (md_labels md)
        then (error_response ''400 Bad Request'' ''invalid_labels'', st)
        else if list_ex (\<lambda>n. nd_id n = i) (nodes (store st))
        then (error_response ''409 Conflict'' ''node_exists'', st)
        else (case random_token e 0 of
                None \<Rightarrow> (secure_random_unavailable, st)
              | Some credential \<Rightarrow>
                  (let n = fresh_node e 0 i name credential md in
                   persist_or_rollback e (store st)
                     (''201 Created'', node_with_credential_json e 3 n credential)
                     (push_audit e 1 ''node.created'' (Some i) None (Some (audit_actor actor))
                       (push_node n st))))))"

section \<open>Grants\<close>

definition create_grant_as :: "string option \<Rightarrow> env \<Rightarrow> state \<Rightarrow> response exec \<times> state" where
  \<open>create_grant_as actor e st =
     (case random_token e 0 of
        None \<Rightarrow> (Done secure_random_unavailable, st)
      | Some code \<Rightarrow>
          (let expires_at = clk e 0 + 300000 in
           case sign_grant e code expires_at (grant_secret st) of
             Panic \<Rightarrow> (Panic, st)
           | Done (Inl _) \<Rightarrow>
               (Done (error_response ''500 Internal Server Error'' ''grant_signing_unavailable''), st)
           | Done (Inr signature) \<Rightarrow>
               (let g = \<lparr>gr_code = code, gr_signature = signature, gr_expires_at = expires_at,
                         gr_used = False, gr_revoked = False\<rparr>;
                    json = ''{"grant_code":'' @ quoted code @ '',"grant_signature":'' @ quoted signature
                           @ '',"expires_at":'' @ show_u64 expires_at @ ''}'';
                    st1 = push_audit e 1 ''grant.created'' None None (Some (audit_actor actor)) st
                in map_prod Done id (persist_or_rollback e (store st) (''201 Created'', json)
                     (st1\<lparr>store := (store st1)\<lparr>grants := grants (store st1) @ [g]\<rparr>\<rparr>)))))\<close>

definition list_grants :: "state \<Rightarrow> response" where
  "list_grants st = (''200 OK'', json_list (map grant_list_item (grants (store st))))"

definition path_argument :: "string \<Rightarrow> string \<Rightarrow> string \<Rightarrow> string" where
  "path_argument head tail path =
     trim_end_matches ''/'' (trim_end_matches tail (trim_start_matches head path))"

definition revoke_grant_as :: "string \<Rightarrow> string option \<Rightarrow> env \<Rightarrow> state \<Rightarrow> response \<times> state" where
  \<open>revoke_grant_as path actor e st =
     (let code = path_argument ''/v1/grants/'' ''/revoke'' path in
      if \<not> valid_node_id code then (error_response ''400 Bad Request'' ''invalid_grant'', st)
      else (case find (\<lambda>g. gr_code g = code) (grants (store st)) of
              None \<Rightarrow> (error_response ''404 Not Found'' ''grant_not_found'', st)
            | Some _ \<Rightarrow>
                persist_or_rollback e (store st)
                  (''200 OK'', ''{"grant_code":'' @ quoted code @ '',"revoked":true}'')
                  (push_audit e 0 ''grant.revoked'' None None (Some (audit_actor actor))
                    (st\<lparr>store := (store st)\<lparr>grants :=
                       update_first (\<lambda>g. gr_code g = code) (\<lambda>g. g\<lparr>gr_revoked := True\<rparr>)
                         (grants (store st))\<rparr>\<rparr>))))\<close>

text \<open>\<open>iter_mut().find(...)\<close> with a predicate that may panic.\<close>

fun find_exec :: "('a \<Rightarrow> bool exec) \<Rightarrow> 'a list \<Rightarrow> 'a option exec" where
  "find_exec p [] = Done None"
| "find_exec p (x # xs) = exec_bind (p x) (\<lambda>b. if b then Done (Some x) else find_exec p xs)"

text \<open>The closure of \<open>redeem_grant\<close>, in its order of evaluation.\<close>

definition redeemable :: "env \<Rightarrow> string \<Rightarrow> string \<Rightarrow> string \<Rightarrow> grant \<Rightarrow> bool exec" where
  "redeemable e secret code signature g =
     (if gr_code g = code \<and> constant_time_eq (gr_signature g) signature then
        exec_map (\<lambda>ok. ok \<and> \<not> gr_used g \<and> \<not> gr_revoked g \<and> clk e 0 < gr_expires_at g)
          (verify_grant e (gr_code g) (gr_expires_at g) (gr_signature g) secret)
      else Done False)"

definition mark_used :: "(grant \<Rightarrow> bool exec) \<Rightarrow> state \<Rightarrow> state" where
  "mark_used p st = st\<lparr>store := (store st)\<lparr>grants :=
     update_first (\<lambda>g. p g = Done True) (\<lambda>g. g\<lparr>gr_used := True\<rparr>) (grants (store st))\<rparr>\<rparr>"

text \<open>The second half of \<open>redeem_grant\<close>, once the request has been checked.\<close>

definition redeem_node ::
    "string \<Rightarrow> string \<Rightarrow> metadata \<Rightarrow> string \<Rightarrow> string \<Rightarrow> env \<Rightarrow> state \<Rightarrow> response exec \<times> state" where
  "redeem_node i name md code signature e st =
     (let p = redeemable e (grant_secret st) code signature in
      case find_exec p (grants (store st)) of
        Panic \<Rightarrow> (Panic, st)
      | Done None \<Rightarrow> (Done (error_response ''403 Forbidden'' ''grant_invalid_or_expired''), st)
      | Done (Some _) \<Rightarrow>
          (let st1 = mark_used p st in
           case random_token e 0 of
             None \<Rightarrow> (Done secure_random_unavailable, st1)
           | Some credential \<Rightarrow>
               (let n = fresh_node e 1 i name credential md in
                map_prod Done id (persist_or_rollback e (store st)
                  (''201 Created'', node_with_credential_json e 4 n credential)
                  (push_audit e 2 ''grant.redeemed'' (Some i) None (Some i) (push_node n st1))))))"

definition redeem_grant :: "string \<Rightarrow> env \<Rightarrow> state \<Rightarrow> response exec \<times> state" where
  "redeem_grant body e st =
     (if \<not> json_types_valid (parse_json e) body
            ([''grant_code'', ''grant_signature''] @ node_request_fields) [] []
      then (Done (error_response ''400 Bad Request'' ''invalid_json_type''), st)
      else (let code = field_or (parse_json e) body ''grant_code'' [];
                signature = field_or (parse_json e) body ''grant_signature'' [];
                i = field_or (parse_json e) body ''node_id'' [];
                name = field_or (parse_json e) body ''name'' i;
                md = node_metadata (parse_json e) body in
        if code = [] \<or> signature = [] \<or> \<not> valid_node_id i
        then (Done (error_response ''400 Bad Request'' ''invalid_grant''), st)
        else if \<not> valid_labels (md_labels md)
        then (Done (error_response ''400 Bad Request'' ''invalid_labels''), st)
        else if list_ex (\<lambda>n. nd_id n = i) (nodes (store st))
        then (Done (error_response ''409 Conflict'' ''node_exists''), st)
        else redeem_node i name md code signature e st))"

section \<open>Revoking and rotating\<close>

definition update_node :: "string \<Rightarrow> (node \<Rightarrow> node) \<Rightarrow> state \<Rightarrow> state" where
  "update_node i f st = st\<lparr>store := (store st)\<lparr>nodes :=
     update_first (\<lambda>n. nd_id n = i) f (nodes (store st))\<rparr>\<rparr>"

definition open_task_of :: "string \<Rightarrow> task \<Rightarrow> bool" where
  "open_task_of i t \<longleftrightarrow> tk_node_id t = i \<and> tk_state t \<in> {''queued'', ''dispatched''}"

definition cancel_task :: "task \<Rightarrow> task" where
  "cancel_task t = t\<lparr>tk_state := ''cancelled'', tk_lease_until := 0\<rparr>"

fun push_cancelled :: "env \<Rightarrow> nat \<Rightarrow> string \<Rightarrow> string \<Rightarrow> string list \<Rightarrow> state \<Rightarrow> state" where
  "push_cancelled e k i actor [] st = st"
| "push_cancelled e k i actor (task_id # rest) st =
     push_cancelled e (k + 2) i actor rest
       (push_audit e k ''task.cancelled_by_node_revoke'' (Some i) (Some task_id) (Some actor) st)"

definition revoke_node_as :: "string \<Rightarrow> string option \<Rightarrow> env \<Rightarrow> state \<Rightarrow> response \<times> state" where
  "revoke_node_as i actor e st =
     (case find (\<lambda>n. nd_id n = i) (nodes (store st)) of
        None \<Rightarrow> (error_response ''404 Not Found'' ''node_not_found'', st)
      | Some n \<Rightarrow>
          (let revoke = (\<lambda>n. n\<lparr>nd_revoked := True, nd_online := False\<rparr>);
               st1 = update_node i revoke st;
               cancelled = map tk_id (filter (open_task_of i) (tasks (store st1)));
               st2 = st1\<lparr>store := (store st1)\<lparr>tasks :=
                 map (\<lambda>t. if open_task_of i t then cancel_task t else t) (tasks (store st1))\<rparr>\<rparr>;
               st3 = push_audit e 1 ''node.revoked'' (Some i) None (Some (audit_actor actor)) st2
           in persist_or_rollback e (store st) (''200 OK'', node_json e 0 (revoke n))
                (push_cancelled e 3 i (audit_actor actor) cancelled st3)))"

definition rotate_node_as :: "string \<Rightarrow> string option \<Rightarrow> env \<Rightarrow> state \<Rightarrow> response \<times> state" where
  "rotate_node_as i actor e st =
     (case random_token e 0 of
        None \<Rightarrow> (secure_random_unavailable, st)
      | Some credential \<Rightarrow>
          (case find (\<lambda>n. nd_id n = i) (nodes (store st)) of
             None \<Rightarrow> (error_response ''404 Not Found'' ''node_not_found'', st)
           | Some n \<Rightarrow>
               if nd_revoked n then (error_response ''403 Forbidden'' ''node_revoked'', st)
               else (let rotate = (\<lambda>n. n\<lparr>nd_credential := credential\<rparr>) in
                 persist_or_rollback e (store st)
                   (''200 OK'', node_with_credential_json e 0 (rotate n) credential)
                   (push_audit e 1 ''node.credential_rotated'' (Some i) None (Some (audit_actor actor))
                     (update_node i rotate st)))))"

section \<open>Heartbeat\<close>

definition is_string_or_absent :: "(string \<times> json) list \<Rightarrow> string \<Rightarrow> bool" where
  "is_string_or_absent obj key = none_or (\<lambda>v. as_str v \<noteq> None) (map_of obj key)"

definition set_platform :: "env \<Rightarrow> string \<Rightarrow> node \<Rightarrow> node" where
  "set_platform e body n =
     n\<lparr>nd_platform := field_or (parse_json e) body ''platform'' (nd_platform n),
       nd_architecture := field_or (parse_json e) body ''architecture'' (nd_architecture n),
       nd_version := field_or (parse_json e) body ''version'' (nd_version n)\<rparr>"

text \<open>\<open>seen\<close>: the writes to the node before the abilities are negotiated; \<open>heartbeat_ack\<close>: the end of a
  heartbeat that made the update \<open>f\<close>; \<open>heartbeat_node\<close>: the part of \<open>heartbeat\<close> after the checks.\<close>

definition seen :: "env \<Rightarrow> node \<Rightarrow> node" where
  "seen e n = n\<lparr>nd_online := True, nd_last_seen := clk e 0\<rparr>"

definition heartbeat_ack :: "string \<Rightarrow> node \<Rightarrow> (node \<Rightarrow> node) \<Rightarrow> env \<Rightarrow> state \<Rightarrow> response \<times> state" where
  \<open>heartbeat_ack node_id n f e st =
     persist_or_rollback e (store st)
       (''200 OK'', ''{"protocol_version":1,"negotiated_abilities":['' @ abilities_json (nd_abilities (f n))
          @ ''],"node":'' @ node_json e 1 (f n) @ ''}'')
       (push_audit e 2 ''node.heartbeat'' (Some node_id) None (Some node_id) (update_node node_id f st))\<close>

definition heartbeat_node :: "string \<Rightarrow> string \<Rightarrow> node \<Rightarrow> env \<Rightarrow> state \<Rightarrow> response \<times> state" where
  "heartbeat_node body node_id n e st =
     (case json_field (parse_json e) body ''abilities'' of
        None \<Rightarrow> heartbeat_ack node_id n (\<lambda>n. set_platform e body (seen e n)) e st
      | Some abilities \<Rightarrow>
          (case normalize_abilities abilities of
             None \<Rightarrow> (error_response ''422 Unprocessable Entity'' ''unsupported_ability'',
                     update_node node_id (seen e) st)
           | Some negotiated \<Rightarrow>
               heartbeat_ack node_id n
                 (\<lambda>n. set_platform e body ((seen e n)\<lparr>nd_abilities := negotiated\<rparr>)) e st))"

definition heartbeat :: "string \<Rightarrow> env \<Rightarrow> state \<Rightarrow> response \<times> state" where
  \<open>heartbeat body e st =
     (case parse_json_object (parse_json e) body of
        None \<Rightarrow> (error_response ''400 Bad Request'' ''malformed_request'', st)
      | Some obj \<Rightarrow>
        if (case map_of obj ''protocol_version'' of None \<Rightarrow> False | Some v \<Rightarrow> as_u64 v = None)
         \<or> list_ex (\<lambda>key. \<not> is_string_or_absent obj key)
             [''node_id'', ''abilities'', ''platform'', ''architecture'', ''version'']
        then (error_response ''400 Bad Request'' ''invalid_json_type'', st)
        else (let node_id = field_or (parse_json e) body ''node_id'' [] in
          if node_id = [] then (error_response ''400 Bad Request'' ''invalid_node'', st)
          else if (case json_number (parse_json e) body ''protocol_version'' of
                     None \<Rightarrow> False | Some v \<Rightarrow> v \<noteq> 1)
          then ((''426 Upgrade Required'',
                 ''{"code":"unsupported_protocol_version","protocol_version":1}''), st)
          else (case find (\<lambda>n. nd_id n = node_id) (nodes (store st)) of
            None \<Rightarrow> (error_response ''404 Not Found'' ''node_not_found'', st)
          | Some n \<Rightarrow>
            if nd_revoked n then (error_response ''403 Forbidden'' ''node_revoked'', st)
            else if list_ex (\<lambda>key. map_of obj key \<noteq> None)
                      [''labels'', ''region'', ''data_class'', ''capacity'']
            then (error_response ''400 Bad Request'' ''immutable_node_metadata'', st)
            else heartbeat_node body node_id n e st)))\<close>

section \<open>The contract\<close>

lemma status_neq [simp]:
  "fst (error_response s c) = s" "success (error_response s c) = prefix ''2'' s"
  by (simp_all add: error_response_def success_def str_starts_with_def)

lemma push_node_store [simp]:
  "nodes (store (push_node n st)) = nodes (store st) @ [n]"
  "tasks (store (push_node n st)) = tasks (store st)"
  "grants (store (push_node n st)) = grants (store st)"
  "approvals (store (push_node n st)) = approvals (store st)"
  "audit (store (push_node n st)) = audit (store st)"
  "same_config st0 (push_node n st) = same_config st0 st"
  by (simp_all add: push_node_def)

lemma update_node_store [simp]:
  "nodes (store (update_node i f st)) = update_first (\<lambda>n. nd_id n = i) f (nodes (store st))"
  "tasks (store (update_node i f st)) = tasks (store st)"
  "grants (store (update_node i f st)) = grants (store st)"
  "approvals (store (update_node i f st)) = approvals (store st)"
  "audit (store (update_node i f st)) = audit (store st)"
  "same_config st0 (update_node i f st) = same_config st0 st"
  by (simp_all add: update_node_def)

lemma evolves_push_node [evolves_intro]:
  "store_evolves s (store st) \<Longrightarrow> store_evolves s (store (push_node n st))"
  by (rule store_evolves_trans, assumption)
     (simp add: store_evolves_def node_table.grows_append task_table.grows_refl
        audit_table.grows_refl grant_table.grows_refl approval_table.grows_refl)

lemma evolves_update_node:
  "(\<And>n. n \<in> set (nodes (store st)) \<Longrightarrow> nd_id n = i \<Longrightarrow> find (\<lambda>n. nd_id n = i) (nodes (store st)) = Some n
      \<Longrightarrow> node_evolves n (f n)) \<Longrightarrow>
   store_evolves (store st) (store (update_node i f st))"
  unfolding update_node_def by (auto intro!: evolves_nodes node_table.grows_update_first)

lemma wf_push_node:
  "store_wf (store st) \<Longrightarrow> node_wf n \<Longrightarrow> \<not> list_ex (\<lambda>m. nd_id m = nd_id n) (nodes (store st)) \<Longrightarrow>
   store_wf (store (push_node n st))"
  by (auto simp: store_wf_def list_ex_iff)

lemma wf_update_node:
  assumes "store_wf (store st)" and "\<And>n. nd_id (f n) = nd_id n"
    and "\<And>n. node_wf n \<Longrightarrow> find (\<lambda>n. nd_id n = i) (nodes (store st)) = Some n \<Longrightarrow> node_wf (f n)"
  shows "store_wf (store (update_node i f st))"
proof -
  have "list_all node_wf (update_first (\<lambda>n. nd_id n = i) f ns)"
    if "list_all node_wf ns" "\<And>n. node_wf n \<Longrightarrow> find (\<lambda>n. nd_id n = i) ns = Some n \<Longrightarrow> node_wf (f n)" for ns
    using that by (induction ns) auto
  then show ?thesis using assms by (auto simp: store_wf_def map_update_first)
qed

lemma fresh_node_wf:
  "valid_node_id i \<Longrightarrow> random_token e r = Some credential \<Longrightarrow> node_wf (fresh_node e k i name credential md)"
  using random_token_nonempty by (auto simp: node_wf_def fresh_node_def)

lemma fresh_node_id [simp]: "nd_id (fresh_node e k i name credential md) = i"
  by (simp add: fresh_node_def)

lemma storage_status [simp]: "fst storage_unavailable = ''503 Service Unavailable''"
  by (simp add: storage_unavailable_def)

lemma random_status [simp]:
  "\<not> success secure_random_unavailable" "fst secure_random_unavailable = ''500 Internal Server Error''"
  by (simp_all add: secure_random_unavailable_def error_response_def success_def str_starts_with_def)

lemma push_cancelled_store [simp]:
  "nodes (store (push_cancelled e k i a ids st)) = nodes (store st)"
  "tasks (store (push_cancelled e k i a ids st)) = tasks (store st)"
  "grants (store (push_cancelled e k i a ids st)) = grants (store st)"
  "approvals (store (push_cancelled e k i a ids st)) = approvals (store st)"
  "same_config st0 (push_cancelled e k i a ids st) = same_config st0 st"
  "store_wf (store (push_cancelled e k i a ids st)) = store_wf (store st)"
  by (induction ids arbitrary: k st) simp_all

lemma evolves_push_cancelled [evolves_intro]:
  "store_evolves s (store st) \<Longrightarrow> store_evolves s (store (push_cancelled e k i a ids st))"
  by (induction ids arbitrary: k st) (auto intro: evolves_push_audit)

lemma evolves_mark_used: "store_evolves (store st) (store (mark_used p st))"
  unfolding mark_used_def
  by (auto intro!: evolves_grants grant_table.grows_update_first simp: grant_evolves_def)

lemma mark_used_store [simp]:
  "nodes (store (mark_used p st)) = nodes (store st)"
  "tasks (store (mark_used p st)) = tasks (store st)"
  "approvals (store (mark_used p st)) = approvals (store st)"
  "same_config st0 (mark_used p st) = same_config st0 st"
  "store_wf (store (mark_used p st)) = store_wf (store st)"
  by (simp_all add: mark_used_def store_wf_def)

lemma evolves_map_tasks:
  "(\<And>t. t \<in> set (tasks s) \<Longrightarrow> task_evolves t (f t)) \<Longrightarrow> store_evolves s (s\<lparr>tasks := map f (tasks s)\<rparr>)"
  by (auto intro!: evolves_tasks task_table.grows_map)

lemma wf_map_tasks:
  "store_wf s \<Longrightarrow> (\<And>t. task_wf t \<Longrightarrow> task_wf (f t)) \<Longrightarrow> store_wf (s\<lparr>tasks := map f (tasks s)\<rparr>)"
  by (auto simp: store_wf_def list_all_iff)

lemma cancel_task_wf: "task_wf t \<Longrightarrow> task_wf (cancel_task t)"
  by (auto simp: task_wf_def cancel_task_def terminal_states_def)

lemma cancel_task_evolves:
  "tk_state t \<notin> terminal_states \<Longrightarrow> task_evolves t (cancel_task t)"
  by (auto simp: task_evolves_def cancel_task_def task_rank_def terminal_states_def)

lemma open_task_not_terminal: "open_task_of i t \<Longrightarrow> tk_state t \<notin> terminal_states"
  by (auto simp: open_task_of_def terminal_states_def)

lemma create_node_ok: "handler_ok e st (map_prod Done id (create_node_as body actor e st))"
  unfolding create_node_as_def Let_def
  by (auto split: option.splits
      intro!: handler_ok_persist evolves_push_audit evolves_push_node wf_push_node fresh_node_wf)

lemma create_grant_ok: "handler_ok e st (create_grant_as actor e st)"
proof -
  have ev: "store_evolves (store st) ((store (push_audit e k ev n t a st))\<lparr>grants :=
      grants (store (push_audit e k ev n t a st)) @ [g]\<rparr>)" for k ev n t a g
    by (rule store_evolves_trans [OF evolves_push_audit [OF store_evolves_refl]])
       (rule evolves_grants, rule grant_table.grows_append)
  have wf: "store_wf (s\<lparr>grants := gs\<rparr>) = store_wf s" for s gs by (simp add: store_wf_def)
  show ?thesis
    unfolding create_grant_as_def Let_def
    by (auto split: option.splits exec.splits sum.splits intro!: handler_ok_persist ev [simplified] simp: wf)
qed

lemma revoke_grant_ok: "handler_ok e st (map_prod Done id (revoke_grant_as path actor e st))"
proof -
  have ev: "store_evolves (store st) ((store st)\<lparr>grants := update_first p (\<lambda>g. g\<lparr>gr_revoked := True\<rparr>) (grants (store st))\<rparr>)" for p
    by (auto intro!: evolves_grants grant_table.grows_update_first simp: grant_evolves_def)
  have wf: "store_wf (s\<lparr>grants := gs\<rparr>) = store_wf s" for s gs by (simp add: store_wf_def)
  show ?thesis
    unfolding revoke_grant_as_def Let_def
    by (auto split: option.splits intro!: handler_ok_persist evolves_push_audit ev simp: wf)
qed

lemma redeem_node_ok:
  assumes "valid_node_id i" and "\<not> list_ex (\<lambda>n. nd_id n = i) (nodes (store st))"
  shows "handler_ok e st (redeem_node i name md code signature e st)"
  unfolding redeem_node_def Let_def
  using assms
  by (auto split: option.splits exec.splits
      intro!: handler_ok_persist handler_ok_refused evolves_push_audit evolves_push_node evolves_mark_used
        wf_push_node fresh_node_wf)

lemma redeem_grant_ok: "handler_ok e st (redeem_grant body e st)"
  unfolding redeem_grant_def Let_def by (auto intro: redeem_node_ok)

lemma revoke_node_ok: "handler_ok e st (map_prod Done id (revoke_node_as i actor e st))"
proof (cases "find (\<lambda>n. nd_id n = i) (nodes (store st))")
  case None
  then show ?thesis by (auto simp: revoke_node_as_def)
next
  case (Some n)
  let ?st1 = "update_node i (\<lambda>n. n\<lparr>nd_revoked := True, nd_online := False\<rparr>) st"
  let ?f = "\<lambda>t. if open_task_of i t then cancel_task t else t"
  let ?st2 = "?st1\<lparr>store := (store ?st1)\<lparr>tasks := map ?f (tasks (store ?st1))\<rparr>\<rparr>"
  have "store_evolves (store st) (store ?st1)"
    by (rule evolves_update_node) (simp add: node_evolves_def)
  moreover have "task_evolves t (?f t)" for t
    by (simp add: cancel_task_evolves open_task_not_terminal task_table.evolve_refl)
  then have "store_evolves (store ?st1) (store ?st2)"
    using evolves_map_tasks [of "store ?st1" ?f] by simp
  ultimately have ev: "store_evolves (store st) (store ?st2)" by (rule store_evolves_trans)
  have wf: "store_wf (store ?st2)" if "store_wf (store st)"
  proof -
    have "store_wf (store ?st1)"
      by (rule wf_update_node [OF that]) (auto simp: node_wf_def)
    then show ?thesis using wf_map_tasks [of "store ?st1" ?f] cancel_task_wf by simp
  qed
  show ?thesis
    unfolding revoke_node_as_def Let_def Some option.case
    by (rule handler_ok_persist) (use ev wf in \<open>auto intro!: evolves_push_cancelled evolves_push_audit\<close>)
qed

lemma rotate_node_ok: "handler_ok e st (map_prod Done id (rotate_node_as i actor e st))"
proof -
  have ev: "store_evolves (store st) (store (update_node i (\<lambda>n. n\<lparr>nd_credential := c\<rparr>) st))"
    if "find (\<lambda>n. nd_id n = i) (nodes (store st)) = Some m" "\<not> nd_revoked m" for m c
    by (rule evolves_update_node) (use that in \<open>auto simp: node_evolves_def\<close>)
  have wf: "store_wf (store (update_node i (\<lambda>n. n\<lparr>nd_credential := c\<rparr>) st))"
    if "store_wf (store st)" "c \<noteq> []" for c
    by (rule wf_update_node [OF that(1)]) (use that(2) in \<open>auto simp: node_wf_def\<close>)
  show ?thesis
    unfolding rotate_node_as_def Let_def
    by (auto split: option.splits dest: random_token_nonempty
        intro!: handler_ok_persist evolves_push_audit ev wf)
qed

text \<open>A heartbeat writes only liveness, abilities and platform of a node.\<close>

definition keeps_identity :: "node \<Rightarrow> node \<Rightarrow> bool" where
  "keeps_identity a b \<longleftrightarrow> nd_id b = nd_id a \<and> nd_name b = nd_name a \<and> nd_revoked b = nd_revoked a
     \<and> nd_credential b = nd_credential a \<and> nd_labels b = nd_labels a \<and> nd_region b = nd_region a
     \<and> nd_data_class b = nd_data_class a \<and> nd_capacity b = nd_capacity a"

lemma heartbeat_writes:
  "keeps_identity n (seen e n)" "keeps_identity n (set_platform e body (seen e n))"
  "keeps_identity n (set_platform e body ((seen e n)\<lparr>nd_abilities := a\<rparr>))"
  by (simp_all add: keeps_identity_def seen_def set_platform_def)

lemma heartbeat_step:
  assumes "find (\<lambda>n. nd_id n = i) (nodes (store st)) = Some m" and "\<not> nd_revoked m"
    and "\<And>n. keeps_identity n (f n)"
  shows "store_evolves (store st) (store (update_node i f st))"
    and "store_wf (store st) \<Longrightarrow> store_wf (store (update_node i f st))"
proof -
  show "store_evolves (store st) (store (update_node i f st))"
    by (rule evolves_update_node) (use assms in \<open>simp add: node_evolves_def keeps_identity_def\<close>)
  show "store_wf (store (update_node i f st))" if "store_wf (store st)"
    by (rule wf_update_node [OF that]) (use assms in \<open>auto simp: node_wf_def keeps_identity_def\<close>)
qed

lemma heartbeat_ack_ok:
  assumes "find (\<lambda>n. nd_id n = i) (nodes (store st)) = Some m" and "\<not> nd_revoked m"
    and "\<And>n. keeps_identity n (f n)"
  shows "handler_ok e st (map_prod Done id (heartbeat_ack i m f e st))"
  unfolding heartbeat_ack_def
  by (rule handler_ok_persist) (use heartbeat_step [OF assms] in \<open>auto intro: evolves_push_audit\<close>)

lemma heartbeat_node_ok:
  assumes "find (\<lambda>n. nd_id n = i) (nodes (store st)) = Some m" and "\<not> nd_revoked m"
  shows "handler_ok e st (map_prod Done id (heartbeat_node body i m e st))"
proof -
  have "handler_ok e st (map_prod Done id (error_response ''422 Unprocessable Entity'' c, update_node i (seen e) st))" for c
    using heartbeat_step [OF assms heartbeat_writes(1)] by (auto intro!: handler_ok_refused)
  then show ?thesis
    unfolding heartbeat_node_def
    by (intro handler_splits heartbeat_ack_ok [OF assms] heartbeat_writes)
qed

lemma heartbeat_ok: "handler_ok e st (map_prod Done id (heartbeat body e st))"
  unfolding heartbeat_def Let_def
  by (intro handler_splits heartbeat_node_ok)

interpretation create_node: handler "returning (\<lambda>(body, actor). create_node_as body actor)"
  by unfold_locales (auto simp: returning_def create_node_ok)

interpretation create_grant: handler create_grant_as
  by unfold_locales (rule create_grant_ok)

interpretation revoke_grant: handler "returning (\<lambda>(path, actor). revoke_grant_as path actor)"
  by unfold_locales (auto simp: returning_def revoke_grant_ok)

interpretation redeem: handler redeem_grant
  by unfold_locales (rule redeem_grant_ok)

interpretation revoke_node: handler "returning (\<lambda>(i, actor). revoke_node_as i actor)"
  by unfold_locales (auto simp: returning_def revoke_node_ok)

interpretation rotate_node: handler "returning (\<lambda>(i, actor). rotate_node_as i actor)"
  by unfold_locales (auto simp: returning_def rotate_node_ok)

interpretation heartbeats: handler "returning heartbeat"
  by unfold_locales (simp add: returning_def heartbeat_ok)

section \<open>Correctness\<close>

definition sample_node :: node where
  "sample_node = \<lparr>nd_id = ''n1'', nd_name = ''n1'', nd_online = True, nd_revoked = False,
     nd_credential = ''c'', nd_abilities = ''task.exec'', nd_platform = [], nd_architecture = [],
     nd_version = [], nd_labels = [], nd_region = [], nd_data_class = [], nd_capacity = [],
     nd_last_seen = 90\<rparr>"

definition sample_queued :: task where
  "sample_queued = \<lparr>tk_id = ''t1'', tk_request_id = ''r1'', tk_actor = ''admin'', tk_node_id = ''n1'',
     tk_ability = ''task.exec'', tk_state = ''queued'', tk_idempotency_key = [], tk_program = ''echo'',
     tk_argument = ''hi'', tk_output = [], tk_output_sha256 = [], tk_output_truncated = False,
     tk_output_limit = 100, tk_exit_code = None, tk_lease_until = 0, tk_lease_token = [],
     tk_timeout_ms = 1000\<rparr>"

definition sample_state :: "task list \<Rightarrow> grant list \<Rightarrow> state" where
  "sample_state ts gs = \<lparr>admin_token = ''adm'', grant_secret = ''s'', require_approval_records = False,
     policy = default_policy, oidc = None,
     store = \<lparr>nodes = [sample_node], tasks = ts, audit = [], grants = gs, approvals = []\<rparr>, next_seq = 1\<rparr>"

lemma sample_wf: "store_wf (store (sample_state [sample_queued] gs))"
  by (simp add: sample_state_def store_wf_def sample_node_def sample_queued_def node_wf_def task_wf_def
      valid_node_id_def ascii_simps SUPPORTED_ABILITIES_def MAX_TASK_TIMEOUT_MS_def
      MAX_TASK_OUTPUT_LIMIT_def MAX_PERSISTED_OUTPUT_BYTES_def word_le_nat_alt word_less_nat_alt)

lemma persisted: "fst r \<noteq> fst storage_unavailable \<Longrightarrow>
    persist_or_rollback e before r st = (r, st') \<Longrightarrow> st' = st"
  by (auto simp: persist_or_rollback_cases split: if_splits)

lemma persisted_same_status:
  "persist_or_rollback e before ok st = (r, st') \<Longrightarrow> fst r \<noteq> fst storage_unavailable \<Longrightarrow> r = ok \<and> st' = st"
  by (auto simp: persist_or_rollback_cases split: if_splits)

lemma persisted_exec:
  "map_prod Done id (persist_or_rollback e before ok st) = (Done r, st') \<Longrightarrow>
   fst r \<noteq> fst storage_unavailable \<Longrightarrow> r = ok \<and> st' = st"
  by (auto simp: persist_or_rollback_cases split: if_splits)

lemma error_status [simp]: "error_response s c = (s', b) \<longleftrightarrow> s' = s \<and> b = code_body c"
  by (auto simp: error_response_def)

text \<open>Revoking a node cuts it off. After a successful revocation the node exists, is revoked and
  offline, no other node record carries its identifier unrevoked, every task addressed to it is in
  a terminal state, and tasks of other nodes are untouched.\<close>

theorem revoke_node_cuts_off:
  assumes "store_wf (store st)" and "revoke_node_as i actor e st = ((''200 OK'', b), st')"
  shows "(\<exists>n \<in> set (nodes (store st')). nd_id n = i \<and> nd_revoked n \<and> \<not> nd_online n)
     \<and> (\<forall>n \<in> set (nodes (store st')). nd_id n = i \<longrightarrow> nd_revoked n)
     \<and> (\<forall>t \<in> set (tasks (store st')). tk_node_id t = i \<longrightarrow> tk_state t \<in> terminal_states)
     \<and> filter (\<lambda>t. tk_node_id t \<noteq> i) (tasks (store st')) = filter (\<lambda>t. tk_node_id t \<noteq> i) (tasks (store st))"
proof -
  let ?f = "\<lambda>n. n\<lparr>nd_revoked := True, nd_online := False\<rparr>"
  let ?c = "\<lambda>t. if open_task_of i t then cancel_task t else t"
  obtain n where n: "find (\<lambda>n. nd_id n = i) (nodes (store st)) = Some n"
    using assms(2) by (auto simp: revoke_node_as_def split: option.splits)
  then have st': "nodes (store st') = update_first (\<lambda>n. nd_id n = i) ?f (nodes (store st))"
      "tasks (store st') = map ?c (tasks (store st))"
    using assms(2) by (auto simp: revoke_node_as_def Let_def dest!: persisted_same_status)
  have n': "n \<in> set (nodes (store st))" "nd_id n = i" using find_SomeD [OF n] by auto
  have d: "distinct (map nd_id (nodes (store st)))" using assms(1) by (simp add: store_wf_def)
  have ns: "nodes (store st') = map (\<lambda>m. if nd_id m = i then ?f m else m) (nodes (store st))"
    using update_first_distinct [OF d n'(1), of ?f] n'(2) st'(1) by simp
  have "?f n \<in> set (nodes (store st'))" unfolding ns set_map by (rule image_eqI [OF _ n'(1)]) (simp add: n'(2))
  then have one: "\<exists>n \<in> set (nodes (store st')). nd_id n = i \<and> nd_revoked n \<and> \<not> nd_online n"
    using n'(2) by (intro bexI [of _ "?f n"]) auto
  have rev: "\<forall>n \<in> set (nodes (store st')). nd_id n = i \<longrightarrow> nd_revoked n"
    unfolding ns set_map by (intro ballI impI, elim imageE) (simp split: if_splits)
  have closed: "tk_state x \<in> terminal_states" if x: "x \<in> set (tasks (store st'))" "tk_node_id x = i" for x
  proof -
    obtain t where t: "t \<in> set (tasks (store st))" "x = ?c t" using x(1) unfolding st'(2) set_map by blast
    then have "tk_state t \<in> {''queued'', ''dispatched''} \<union> terminal_states"
      using assms(1) by (auto simp: store_wf_def task_wf_def list_all_iff)
    moreover have "tk_node_id t = i" using t(2) x(2) by (auto simp: cancel_task_def split: if_splits)
    ultimately show ?thesis by (auto simp: t(2) open_task_of_def cancel_task_def terminal_states_def)
  qed
  have "filter (\<lambda>t. tk_node_id t \<noteq> i) (map ?c ts) = filter (\<lambda>t. tk_node_id t \<noteq> i) ts" for ts
    by (induction ts) (auto simp: open_task_of_def cancel_task_def)
  then have others: "filter (\<lambda>t. tk_node_id t \<noteq> i) (tasks (store st'))
      = filter (\<lambda>t. tk_node_id t \<noteq> i) (tasks (store st))" by (simp only: st'(2))
  show ?thesis using one rev closed others by blast
qed

theorem revoke_node_cuts_off_witness:
  "\<exists>b st'. revoke_node_as ''n1'' None (sample_env (\<lambda>_. None) (\<lambda>_. Inl []) (\<lambda>_. None))
        (sample_state [sample_queued] []) = ((''200 OK'', b), st')
     \<and> (\<forall>t \<in> set (tasks (store st')). tk_node_id t = ''n1'' \<longrightarrow> tk_state t \<in> terminal_states)"
proof -
  let ?e = "sample_env (\<lambda>_. None) (\<lambda>_. Inl []) (\<lambda>_. None)"
  have "find (\<lambda>n. nd_id n = ''n1'') (nodes (store (sample_state [sample_queued] []))) = Some sample_node"
    by (simp add: sample_state_def sample_node_def)
  moreover have "persist ?e s = Inr ()" for s by (simp add: sample_env_def)
  ultimately obtain b st' where
    r: "revoke_node_as ''n1'' None ?e (sample_state [sample_queued] []) = ((''200 OK'', b), st')"
    by (simp add: revoke_node_as_def Let_def persist_or_rollback_cases)
  show ?thesis using revoke_node_cuts_off [OF sample_wf r] r by blast
qed

lemma find_exec_Some:
  "find_exec p xs = Done (Some x) \<Longrightarrow> find (\<lambda>x. p x = Done True) xs = Some x"
proof (induction xs)
  case (Cons a xs)
  then show ?case by (cases "p a") (auto split: if_splits)
qed simp

lemma update_first_at:
  "find P xs = Some x \<Longrightarrow> \<exists>k < length xs. xs ! k = x \<and> P x \<and> update_first P f xs = xs[k := f x]"
proof (induction xs)
  case (Cons a xs)
  show ?case
  proof (cases "P a")
    case True
    then show ?thesis using Cons.prems by (intro exI [of _ 0]) auto
  next
    case False
    then obtain k where "k < length xs" "xs ! k = x" "P x" "update_first P f xs = xs[k := f x]"
      using Cons by auto
    then show ?thesis using False by (intro exI [of _ "Suc k"]) auto
  qed
qed simp

lemma update_first_position:
  "find P xs = Some x \<Longrightarrow> \<exists>k < length xs. xs ! k = x \<and> P x \<and> (\<forall>j < k. \<not> P (xs ! j))
     \<and> (\<forall>f. update_first P f xs = xs[k := f x])"
proof (induction xs)
  case (Cons a xs)
  show ?case
  proof (cases "P a")
    case True
    then show ?thesis using Cons.prems by (intro exI [of _ 0]) auto
  next
    case False
    then obtain k where "k < length xs" "xs ! k = x" "P x" "\<forall>j < k. \<not> P (xs ! j)"
      "\<forall>f. update_first P f xs = xs[k := f x]" using Cons by auto
    then show ?thesis using False by (intro exI [of _ "Suc k"]) (auto simp: nth_Cons split: nat.splits)
  qed
qed simp

text \<open>C17: A node joins only by spending a live grant. When redeeming succeeds there was a grant with
  the presented code and signature that verifies, was neither used nor revoked and had not expired;
  exactly that grant is now marked used; and exactly one node was added, with a fresh valid
  identifier and a new credential.\<close>

theorem redeem_grant_spends:
  assumes "redeem_grant body e st = (Done (''201 Created'', b), st')"
  shows "\<exists>k < length (grants (store st)). \<exists>n. let g = grants (store st) ! k in
       gr_code g = field_or (parse_json e) body ''grant_code'' []
     \<and> constant_time_eq (gr_signature g) (field_or (parse_json e) body ''grant_signature'' [])
     \<and> verify_grant e (gr_code g) (gr_expires_at g) (gr_signature g) (grant_secret st) = Done True
     \<and> \<not> gr_used g \<and> \<not> gr_revoked g \<and> clk e 0 < gr_expires_at g
     \<and> grants (store st') = (grants (store st))[k := g\<lparr>gr_used := True\<rparr>]
     \<and> nodes (store st') = nodes (store st) @ [n]
     \<and> nd_id n = field_or (parse_json e) body ''node_id'' [] \<and> valid_node_id (nd_id n)
     \<and> nd_id n \<notin> nd_id ` set (nodes (store st))
     \<and> random_token e 0 = Some (nd_credential n) \<and> \<not> nd_revoked n"
proof -
  let ?code = "field_or (parse_json e) body ''grant_code'' []"
  let ?sig = "field_or (parse_json e) body ''grant_signature'' []"
  let ?i = "field_or (parse_json e) body ''node_id'' []"
  let ?name = "field_or (parse_json e) body ''name'' ?i"
  let ?p = "redeemable e (grant_secret st) ?code ?sig"
  have i: "valid_node_id ?i" "\<not> list_ex (\<lambda>n. nd_id n = ?i) (nodes (store st))"
    and r: "redeem_node ?i ?name (node_metadata (parse_json e) body) ?code ?sig e st
          = (Done (''201 Created'', b), st')"
    using assms by (auto simp: redeem_grant_def Let_def split: if_splits)
  obtain g c where g: "find_exec ?p (grants (store st)) = Done (Some g)" and c: "random_token e 0 = Some c"
    using r by (auto simp: redeem_node_def Let_def secure_random_unavailable_def
        split: exec.splits option.splits)
  let ?n = "fresh_node e 1 ?i ?name c (node_metadata (parse_json e) body)"
  have st': "st' = push_audit e 2 ''grant.redeemed'' (Some ?i) None (Some ?i) (push_node ?n (mark_used ?p st))"
    using r persisted_exec by (simp add: redeem_node_def Let_def g c)
  obtain k where k: "k < length (grants (store st))" "grants (store st) ! k = g" "?p g = Done True"
      "update_first (\<lambda>g. ?p g = Done True) (\<lambda>g. g\<lparr>gr_used := True\<rparr>) (grants (store st))
       = (grants (store st))[k := g\<lparr>gr_used := True\<rparr>]"
    using update_first_at [OF find_exec_Some [OF g], of "\<lambda>g. g\<lparr>gr_used := True\<rparr>"] by blast
  have v: "gr_code g = ?code" "constant_time_eq (gr_signature g) ?sig"
      "verify_grant e (gr_code g) (gr_expires_at g) (gr_signature g) (grant_secret st) = Done True"
      "\<not> gr_used g" "\<not> gr_revoked g" "clk e 0 < gr_expires_at g"
    using k(3) by (cases "verify_grant e (gr_code g) (gr_expires_at g) (gr_signature g) (grant_secret st)";
        auto simp: redeemable_def split: if_splits)+
  have gs: "grants (store st') = (grants (store st))[k := g\<lparr>gr_used := True\<rparr>]"
    using k(4) by (simp add: st' mark_used_def)
  show ?thesis
    using k(1,2) v gs i c
    by (intro exI [of _ k] conjI exI [of _ ?n]) (auto simp: Let_def st' list_ex_iff fresh_node_def)
qed

definition sample_signature :: string where
  "sample_signature = hex_encode_bytes (hmac_sha256 (as_bytes ''s'') (grant_payload ''code'' 500))"

definition sample_grant :: grant where
  "sample_grant = \<lparr>gr_code = ''code'', gr_signature = sample_signature, gr_expires_at = 500,
     gr_used = False, gr_revoked = False\<rparr>"

definition sample_redeem_env :: env where
  "sample_redeem_env = sample_env (\<lambda>_. None) (\<lambda>_. Inl []) (\<lambda>_. Some (JObject
     [(''grant_code'', JString ''code''), (''grant_signature'', JString sample_signature),
      (''node_id'', JString ''n2'')]))"

lemma sample_signature_length: "length sample_signature = 64"
  by (simp add: sample_signature_def)

lemma sample_verifies: "verify_grant sample_redeem_env ''code'' 500 sample_signature ''s'' = Done True"
proof -
  have "configured_grant_verification_keys sample_redeem_env = Done (Inr [])"
    by (simp add: configured_grant_verification_keys_def configured_grant_signing_key_def
        configured_signing_key_value_def load_secret_value_def option_list_def sample_redeem_env_def
        sample_env_def)
  then show ?thesis using constant_time_eq_same [of sample_signature] sample_signature_length
    by (simp add: verify_grant_def sample_signature_def)
qed

lemma sample_redeem:
  "\<exists>b st'. redeem_grant [] sample_redeem_env (sample_state [] [sample_grant]) = (Done (''201 Created'', b), st')"
proof -
  have sig: "sample_signature \<noteq> []" "length sample_signature < 2 ^ 64"
    using sample_signature_length by auto
  have f: "field_or (parse_json sample_redeem_env) [] ''grant_code'' [] = ''code''"
    "field_or (parse_json sample_redeem_env) [] ''grant_signature'' [] = sample_signature"
    "field_or (parse_json sample_redeem_env) [] ''node_id'' [] = ''n2''"
    "md_labels (node_metadata (parse_json sample_redeem_env) []) = []"
    "json_types_valid (parse_json sample_redeem_env) []
       ([''grant_code'', ''grant_signature''] @ node_request_fields) [] []"
    by (simp_all add: field_or_def json_field_def parse_json_object_def sample_redeem_env_def
        sample_env_def node_metadata_def json_types_valid_def node_request_fields_def none_or_def)
  have p: "redeemable sample_redeem_env ''s'' ''code'' sample_signature sample_grant = Done True"
    using sample_verifies constant_time_eq_same [OF sig(2)]
    by (simp add: redeemable_def sample_grant_def) (simp add: sample_redeem_env_def sample_env_def)
  have v: "valid_node_id ''n2''" "valid_labels []"
    by (simp_all add: valid_node_id_def ascii_simps valid_labels_def str_split_def str_trim_def)
  have per: "persist sample_redeem_env s = Inr ()" and r: "random_token sample_redeem_env 0 \<noteq> None" for s
    by (simp_all add: sample_redeem_env_def sample_env_def random_token_def)
  show ?thesis
    unfolding redeem_grant_def Let_def f redeem_node_def
    using sig v p per r f(5)
    by (auto simp: sample_state_def sample_node_def persist_or_rollback_cases)
qed

theorem redeem_grant_spends_witness:
  "\<exists>b st'. redeem_grant [] sample_redeem_env (sample_state [] [sample_grant]) = (Done (''201 Created'', b), st')
     \<and> grants (store st') = [sample_grant\<lparr>gr_used := True\<rparr>]"
proof -
  obtain b st' where r: "redeem_grant [] sample_redeem_env (sample_state [] [sample_grant])
      = (Done (''201 Created'', b), st')" using sample_redeem by blast
  have g: "grants (store (sample_state [] [sample_grant])) = [sample_grant]"
    by (simp add: sample_state_def)
  show ?thesis using redeem_grant_spends [OF r] r unfolding g by (auto simp: Let_def)
qed

lemma heartbeat_cases:
  "(\<exists>r. heartbeat body e st = (r, st))
   \<or> (\<exists>m. find (\<lambda>n. nd_id n = field_or (parse_json e) body ''node_id'' []) (nodes (store st)) = Some m
        \<and> \<not> nd_revoked m
        \<and> heartbeat body e st = heartbeat_node body (field_or (parse_json e) body ''node_id'' []) m e st)"
proof -
  let ?i = "field_or (parse_json e) body ''node_id'' []"
  define Q where "Q x \<longleftrightarrow> (\<exists>r. x = (r, st))
      \<or> (\<exists>m. find (\<lambda>n. nd_id n = ?i) (nodes (store st)) = Some m \<and> \<not> nd_revoked m
             \<and> x = heartbeat_node body ?i m e st)" for x
  have ret: "Q (r, st)" for r by (simp add: Q_def)
  have go: "Q (heartbeat_node body ?i m e st)"
    if "find (\<lambda>n. nd_id n = ?i) (nodes (store st)) = Some m" "\<not> nd_revoked m" for m
    using that by (auto simp: Q_def)
  have "Q (heartbeat body e st)"
    unfolding heartbeat_def Let_def
    by (intro if_cases [where Q = Q] option_cases [where Q = Q] ret go)
  then show ?thesis by (simp only: Q_def)
qed

lemma heartbeat_frame:
  "list_all2 (\<lambda>a b. b = a \<or> (nd_id a = field_or (parse_json e) body ''node_id'' [] \<and> \<not> nd_revoked a
        \<and> keeps_identity a b))
     (nodes (store st)) (nodes (store (snd (heartbeat body e st))))
   \<and> tasks (store (snd (heartbeat body e st))) = tasks (store st)
   \<and> grants (store (snd (heartbeat body e st))) = grants (store st)
   \<and> approvals (store (snd (heartbeat body e st))) = approvals (store st)"
proof -
  let ?i = "field_or (parse_json e) body ''node_id'' []"
  let ?good = "\<lambda>st'. list_all2 (\<lambda>a b. b = a \<or> (nd_id a = ?i \<and> \<not> nd_revoked a \<and> keeps_identity a b))
        (nodes (store st)) (nodes (store st')) \<and> tasks (store st') = tasks (store st)
      \<and> grants (store st') = grants (store st) \<and> approvals (store st') = approvals (store st)"
  have same: "?good st" by (simp add: list_all2_same)
  have upd: "?good (update_node ?i f st)"
    if "find (\<lambda>n. nd_id n = ?i) (nodes (store st)) = Some m" "\<not> nd_revoked m" "\<And>n. keeps_identity n (f n)"
    for f m
  proof -
    have "list_all2 (\<lambda>a b. b = a \<or> (nd_id a = ?i \<and> \<not> nd_revoked a \<and> keeps_identity a b))
        (nodes (store st)) (update_first (\<lambda>n. nd_id n = ?i) f (nodes (store st)))"
      by (rule list_all2_update_first) (use that in auto)
    then show ?thesis by simp
  qed
  have ack: "?good (snd (heartbeat_ack ?i m f e st))"
    if "find (\<lambda>n. nd_id n = ?i) (nodes (store st)) = Some m" "\<not> nd_revoked m" "\<And>n. keeps_identity n (f n)"
    for f m
    using upd [OF that] same by (simp add: heartbeat_ack_def persist_or_rollback_cases)
  have "?good (snd (heartbeat_node body ?i m e st))"
    if "find (\<lambda>n. nd_id n = ?i) (nodes (store st)) = Some m" "\<not> nd_revoked m" for m
    using ack [OF that] upd [OF that] heartbeat_writes
    by (auto simp: heartbeat_node_def split: option.splits)
  moreover have "(\<exists>r. heartbeat body e st = (r, st))
      \<or> (\<exists>m. find (\<lambda>n. nd_id n = ?i) (nodes (store st)) = Some m \<and> \<not> nd_revoked m
             \<and> heartbeat body e st = heartbeat_node body ?i m e st)"
    by (rule heartbeat_cases)
  ultimately show ?thesis using same by auto
qed

text \<open>A heartbeat reaches only the node it names. Whatever the body, every other node, all tasks,
  grants and approvals stay as they are; the named node keeps its identity, credential, labels,
  region, data class and capacity, and changes at all only if it is not revoked.\<close>

theorem heartbeat_isolated:
  "list_all2 (\<lambda>a b. b = a \<or> (nd_id a = field_or (parse_json e) body ''node_id'' [] \<and> \<not> nd_revoked a
        \<and> keeps_identity a b))
     (nodes (store st)) (nodes (store (snd (heartbeat body e st))))
   \<and> tasks (store (snd (heartbeat body e st))) = tasks (store st)
   \<and> grants (store (snd (heartbeat body e st))) = grants (store st)
   \<and> approvals (store (snd (heartbeat body e st))) = approvals (store st)"
  by (rule heartbeat_frame)

section \<open>Partial effects\<close>

text \<open>Two refusals that leave a trace: a heartbeat refused for its abilities has already renewed the
  node's liveness in memory, without persisting it, and a redemption refused for lack of random bytes has already spent the grant.\<close>

lemma heartbeat_refused_but_seen:
  assumes "json_field (parse_json e) body ''abilities'' = Some a" and "normalize_abilities a = None"
  shows "heartbeat_node body i n e st
       = (error_response ''422 Unprocessable Entity'' ''unsupported_ability'', update_node i (seen e) st)"
  using assms by (simp add: heartbeat_node_def)

lemma redeem_refused_but_spent:
  assumes "find_exec (redeemable e (grant_secret st) code signature) (grants (store st)) = Done (Some g)"
    and "random_token e 0 = None"
  shows "redeem_node i name md code signature e st
       = (Done secure_random_unavailable, mark_used (redeemable e (grant_secret st) code signature) st)"
  using assms by (simp add: redeem_node_def Let_def)

end
