(* ===== verification/Task_Handlers.thy ===== *)
theory Task_Handlers
  imports Node_Handlers
begin

text \<open>
  The handlers of \<open>control-plane/src/main.rs\<close> for approvals and tasks: creating approvals, creating,
  reading and cancelling tasks, handing queued tasks to an agent under a lease, and taking results.
\<close>

section \<open>Approvals\<close>

definition create_approval_as :: "string \<Rightarrow> string option \<Rightarrow> env \<Rightarrow> state \<Rightarrow> response \<times> state" where
  "create_approval_as body authenticated e st =
     (if \<not> json_types_valid (parse_json e) body
            [''node_id'', ''ability'', ''program'', ''argument'', ''actor''] [] []
      then (error_response ''400 Bad Request'' ''invalid_json_type'', st)
      else (let node_id = field_or (parse_json e) body ''node_id'' [];
                ability = field_or (parse_json e) body ''ability'' [];
                program = field_or (parse_json e) body ''program'' ''echo'';
                argument = field_or (parse_json e) body ''argument'' [] in
        case resolve_actor e body authenticated of
          None \<Rightarrow> (error_response ''403 Forbidden'' ''actor_mismatch'', st)
        | Some actor \<Rightarrow>
          if node_id = [] \<or> ability \<noteq> ''task.exec'' \<or> \<not> valid_node_id node_id \<or> \<not> valid_actor_id actor
          then (error_response ''400 Bad Request'' ''invalid_approval'', st)
          else (let (i, st1) = take_id e 0 ''approval'' st;
                    a = \<lparr>ap_id = i, ap_node_id = node_id, ap_ability = ability, ap_program = program,
                         ap_argument = argument, ap_actor = actor, ap_expires_at = clk e 1 + 300000,
                         ap_used = False\<rparr>;
                    st2 = push_audit e 2 ''approval.created'' (Some node_id) (Some i)
                            (Some (audit_actor authenticated)) st1
                in persist_or_rollback e (store st) (''201 Created'', approval_json a)
                     (st2\<lparr>store := (store st2)\<lparr>approvals := approvals (store st2) @ [a]\<rparr>\<rparr>))))"

section \<open>Creating tasks\<close>

text \<open>The request of \<open>create_task_as\<close> after the field checks.\<close>

record task_request =
  rq_node_id :: string
  rq_request_id :: string
  rq_actor :: string
  rq_ability :: string
  rq_idempotency_key :: string
  rq_program :: string
  rq_argument :: string
  rq_approval_id :: "string option"
  rq_timeout_ms :: u64
  rq_output_limit :: nat

text \<open>An optional number: absent gives the default, present but not an unsigned integer is an error.\<close>

definition number_or :: "env \<Rightarrow> string \<Rightarrow> string \<Rightarrow> u64 \<Rightarrow> u64 option" where
  "number_or e body key d =
     (if json_key_present (parse_json e) body key then json_number (parse_json e) body key else Some d)"

definition read_task_request ::
    "string \<Rightarrow> string option \<Rightarrow> env \<Rightarrow> state \<Rightarrow> (response + task_request) \<times> state" where
  "read_task_request body authenticated e st =
     (if \<not> json_types_valid (parse_json e) body
            [''node_id'', ''request_id'', ''actor'', ''ability'', ''idempotency_key'', ''program'',
             ''argument'', ''approval_id''] [''timeout_ms'', ''output_limit''] [''approved'']
      then (Inl (error_response ''400 Bad Request'' ''invalid_json_type''), st)
      else (let (request_id, st1) = (case json_field (parse_json e) body ''request_id'' of
                   Some r \<Rightarrow> (r, st) | None \<Rightarrow> take_id e 0 ''request'' st) in
        case resolve_actor e body authenticated of
          None \<Rightarrow> (Inl (error_response ''403 Forbidden'' ''actor_mismatch''), st1)
        | Some actor \<Rightarrow>
          (case number_or e body ''timeout_ms'' DEFAULT_TASK_TIMEOUT_MS of
             None \<Rightarrow> (Inl (error_response ''400 Bad Request'' ''invalid_timeout''), st1)
           | Some timeout_ms \<Rightarrow>
             (case number_or e body ''output_limit'' (word_of_nat MAX_TASK_OUTPUT_LIMIT) of
                None \<Rightarrow> (Inl (error_response ''400 Bad Request'' ''invalid_output_limit''), st1)
              | Some limit \<Rightarrow>
                if unat limit = 0 \<or> MAX_TASK_OUTPUT_LIMIT < unat limit
                then (Inl (error_response ''400 Bad Request'' ''invalid_output_limit''), st1)
                else if \<not> valid_node_id request_id
                then (Inl (error_response ''400 Bad Request'' ''invalid_request_id''), st1)
                else if \<not> valid_node_id actor
                then (Inl (error_response ''400 Bad Request'' ''invalid_actor''), st1)
                else if timeout_ms = 0 \<or> MAX_TASK_TIMEOUT_MS < timeout_ms
                then (Inl (error_response ''400 Bad Request'' ''invalid_timeout''), st1)
                else (Inr \<lparr>rq_node_id = field_or (parse_json e) body ''node_id'' [],
                           rq_request_id = request_id, rq_actor = actor,
                           rq_ability = field_or (parse_json e) body ''ability'' [],
                           rq_idempotency_key = field_or (parse_json e) body ''idempotency_key'' [],
                           rq_program = field_or (parse_json e) body ''program'' ''echo'',
                           rq_argument = field_or (parse_json e) body ''argument'' [],
                           rq_approval_id = json_field (parse_json e) body ''approval_id'',
                           rq_timeout_ms = timeout_ms, rq_output_limit = unat limit\<rparr>, st1)))))"

definition idempotent_replay :: "task_request \<Rightarrow> task list \<Rightarrow> response option" where
  "idempotent_replay rq ts =
     (if rq_idempotency_key rq = [] then None
      else (case find (\<lambda>t. tk_idempotency_key t = rq_idempotency_key rq) ts of
              None \<Rightarrow> None
            | Some t \<Rightarrow>
                if tk_node_id t = rq_node_id rq \<and> tk_actor t = rq_actor rq
                 \<and> tk_ability t = rq_ability rq \<and> tk_program t = rq_program rq
                 \<and> tk_argument t = rq_argument rq \<and> tk_timeout_ms t = rq_timeout_ms rq
                then Some (''200 OK'', task_json t)
                else Some (error_response ''409 Conflict'' ''idempotency_conflict'')))"

definition policy_denied :: response where
  "policy_denied = error_response ''403 Forbidden'' ''policy_denied''"

text \<open>The admission checks, in order; \<open>None\<close> admits.\<close>

definition admission_refusal :: "env \<Rightarrow> policy \<Rightarrow> node list \<Rightarrow> task_request \<Rightarrow> response option" where
  "admission_refusal e p ns rq =
     (if \<not> list_ex (\<lambda>n. nd_id n = rq_node_id rq \<and> node_is_fresh e 1 n) ns
      then Some (error_response ''409 Conflict'' ''node_unavailable'')
      else if rq_ability rq \<notin> {''file.read'', ''file.write'', ''task.exec'', ''system.inspect''}
      then Some (error_response ''403 Forbidden'' ''forbidden'')
      else if rq_ability rq \<notin> set (allowed_abilities p) then Some policy_denied
      else if allowed_actors p \<noteq> [] \<and> rq_actor rq \<notin> set (allowed_actors p) then Some policy_denied
      else if rq_ability rq = ''task.exec'' \<and> allowed_commands p \<noteq> []
            \<and> rq_program rq \<notin> set (allowed_commands p)
      then Some policy_denied
      else if rq_ability rq \<in> {''file.read'', ''file.write''}
            \<and> \<not> policy_allows_path (rq_program rq) (allowed_paths p)
      then Some policy_denied
      else if (case find (\<lambda>n. nd_id n = rq_node_id rq) ns of
                 None \<Rightarrow> False
               | Some n \<Rightarrow> allowed_data_classes p \<noteq> [] \<and> nd_data_class n \<notin> set (allowed_data_classes p))
      then Some policy_denied
      else if \<not> list_ex (\<lambda>n. nd_id n = rq_node_id rq
                    \<and> rq_ability rq \<in> set (str_split (nd_abilities n) CHR '','')) ns
      then Some (error_response ''403 Forbidden'' ''ability_unavailable'')
      else None)"

definition approval_matches :: "env \<Rightarrow> task_request \<Rightarrow> string \<Rightarrow> approval \<Rightarrow> bool" where
  "approval_matches e rq approval_id a \<longleftrightarrow>
     ap_id a = approval_id \<and> ap_node_id a = rq_node_id rq \<and> ap_ability a = rq_ability rq
   \<and> ap_program a = rq_program rq \<and> ap_argument a = rq_argument rq \<and> ap_actor a = rq_actor rq
   \<and> \<not> ap_used a \<and> clk e 2 < ap_expires_at a"

definition needs_approval :: "policy \<Rightarrow> task_request \<Rightarrow> bool" where
  "needs_approval p rq \<longleftrightarrow>
     rq_ability rq = ''task.exec'' \<or> rq_ability rq \<in> set (approval_required p)"

text \<open>The approval block: the refusal, or the state with the approval consumed.\<close>

definition check_approval :: "string \<Rightarrow> task_request \<Rightarrow> env \<Rightarrow> state \<Rightarrow> response + state" where
  "check_approval body rq e st =
     (if \<not> needs_approval (policy st) rq then Inr st
      else if require_approval_records st then
        (case rq_approval_id rq of
           None \<Rightarrow> Inl (error_response ''428 Precondition Required'' ''approval_required'')
         | Some approval_id \<Rightarrow>
             (case find (approval_matches e rq approval_id) (approvals (store st)) of
                None \<Rightarrow> Inl (error_response ''403 Forbidden'' ''approval_invalid'')
              | Some _ \<Rightarrow>
                  Inr (push_audit e 3 ''approval.consumed'' (Some (rq_node_id rq)) (Some approval_id)
                         (Some (rq_actor rq))
                    (st\<lparr>store := (store st)\<lparr>approvals :=
                       update_first (approval_matches e rq approval_id) (\<lambda>a. a\<lparr>ap_used := True\<rparr>)
                         (approvals (store st))\<rparr>\<rparr>))))
      else if json_true (parse_json e) body ''approved'' then Inr st
      else Inl (error_response ''428 Precondition Required'' ''approval_required''))"

definition queued_task :: "string \<Rightarrow> task_request \<Rightarrow> task" where
  "queued_task i rq =
     \<lparr>tk_id = i, tk_request_id = rq_request_id rq, tk_actor = rq_actor rq, tk_node_id = rq_node_id rq,
      tk_ability = rq_ability rq, tk_state = ''queued'', tk_idempotency_key = rq_idempotency_key rq,
      tk_program = rq_program rq, tk_argument = rq_argument rq, tk_output = [], tk_output_sha256 = [],
      tk_output_truncated = False, tk_output_limit = rq_output_limit rq, tk_exit_code = None,
      tk_lease_until = 0, tk_lease_token = [], tk_timeout_ms = rq_timeout_ms rq\<rparr>"

definition enqueue_task :: "env \<Rightarrow> task_request \<Rightarrow> state \<Rightarrow> task \<times> state" where
  "enqueue_task e rq st =
     (let (i, st1) = take_id e 5 ''task'' st;
          t = queued_task i rq;
          st2 = push_audit e 6 ''task.accepted'' (Some (rq_node_id rq)) (Some i) (Some (rq_actor rq)) st1;
          st3 = push_audit e 8 ''policy.allowed'' (Some (rq_node_id rq)) (Some i) (Some (rq_actor rq)) st2
      in (t, st3\<lparr>store := (store st3)\<lparr>tasks := tasks (store st3) @ [t]\<rparr>\<rparr>))"

definition create_task_as :: "string \<Rightarrow> string option \<Rightarrow> env \<Rightarrow> state \<Rightarrow> response \<times> state" where
  "create_task_as body authenticated e st =
     (case read_task_request body authenticated e st of
        (Inl r, st1) \<Rightarrow> (r, st1)
      | (Inr rq, st1) \<Rightarrow>
          (case idempotent_replay rq (tasks (store st1)) of
             Some r \<Rightarrow> (r, st1)
           | None \<Rightarrow>
             (case admission_refusal e (policy st1) (nodes (store st1)) rq of
                Some r \<Rightarrow> (r, st1)
              | None \<Rightarrow>
                (case check_approval body rq e st1 of
                   Inl r \<Rightarrow> (r, st1)
                 | Inr st2 \<Rightarrow>
                     (let (t, st3) = enqueue_task e rq st2 in
                      persist_or_rollback e (store st1) (''202 Accepted'', task_json t) st3)))))"

section \<open>Reading and cancelling\<close>

definition get_task :: "string \<Rightarrow> state \<Rightarrow> response" where
  "get_task path st =
     (let task_id = trim_end_matches ''/'' (trim_start_matches ''/v1/tasks/'' path) in
      case find (\<lambda>t. tk_id t = task_id) (tasks (store st)) of
        None \<Rightarrow> error_response ''404 Not Found'' ''task_not_found''
      | Some t \<Rightarrow> (''200 OK'', task_json t))"

definition update_task :: "(task \<Rightarrow> bool) \<Rightarrow> (task \<Rightarrow> task) \<Rightarrow> state \<Rightarrow> state" where
  "update_task p f st = st\<lparr>store := (store st)\<lparr>tasks := update_first p f (tasks (store st))\<rparr>\<rparr>"

definition cancel_task_as :: "string \<Rightarrow> string option \<Rightarrow> env \<Rightarrow> state \<Rightarrow> response \<times> state" where
  "cancel_task_as path authenticated e st =
     (let task_id = path_argument ''/v1/tasks/'' ''/cancel'' path in
      case find (\<lambda>t. tk_id t = task_id) (tasks (store st)) of
        None \<Rightarrow> (error_response ''404 Not Found'' ''task_not_found'', st)
      | Some t \<Rightarrow>
          if (case authenticated of None \<Rightarrow> False | Some actor \<Rightarrow> tk_actor t \<noteq> actor)
          then (error_response ''403 Forbidden'' ''actor_forbidden'', st)
          else if tk_state t \<in> terminal_states
          then (error_response ''409 Conflict'' ''task_terminal'', st)
          else persist_or_rollback e (store st) (''200 OK'', task_json (cancel_task t))
                 (push_audit e 0 ''task.cancelled'' (Some (tk_node_id t)) (Some task_id)
                    (Some (audit_actor authenticated))
                    (update_task (\<lambda>t. tk_id t = task_id) cancel_task st)))"

section \<open>Dispatch and results\<close>

text \<open>The loop of \<open>agent_tasks\<close> from position \<open>i\<close> of the task table: due tasks get a new lease; it
  returns early, with the rest of the table as it was, when no random token can be had. The clock
  places of position \<open>i\<close> are \<open>1 + 2 * i\<close> (is the lease over?) and \<open>2 + 2 * i\<close> (new lease).\<close>

definition lease_due :: "env \<Rightarrow> string \<Rightarrow> nat \<Rightarrow> task \<Rightarrow> bool" where
  "lease_due e node_id i t \<longleftrightarrow>
     tk_node_id t = node_id
   \<and> (tk_state t = ''queued'' \<or> (tk_state t = ''dispatched'' \<and> tk_lease_until t \<le> clk e (1 + 2 * i)))"

definition lease_task :: "env \<Rightarrow> nat \<Rightarrow> string \<Rightarrow> task \<Rightarrow> task" where
  "lease_task e i token t =
     t\<lparr>tk_state := ''dispatched'',
       tk_lease_until := clk e (2 + 2 * i) + max (tk_timeout_ms t) DEFAULT_TASK_TIMEOUT_MS + 5000,
       tk_lease_token := token\<rparr>"

fun dispatch :: "env \<Rightarrow> string \<Rightarrow> nat \<Rightarrow> task list \<Rightarrow> task list \<times> task list \<times> bool" where
  "dispatch e node_id i [] = ([], [], True)"
| "dispatch e node_id i (t # ts) =
     (if lease_due e node_id i t then
        (case random_token e i of
           None \<Rightarrow> (t # ts, [], False)
         | Some token \<Rightarrow>
             (let (ts', queued, ok) = dispatch e node_id (i + 1) ts; t' = lease_task e i token t
              in (t' # ts', t' # queued, ok)))
      else (let (ts', queued, ok) = dispatch e node_id (i + 1) ts in (t # ts', queued, ok)))"

definition agent_tasks :: "string \<Rightarrow> env \<Rightarrow> state \<Rightarrow> response \<times> state" where
  "agent_tasks path e st =
     (case query_field path ''node_id'' of
        None \<Rightarrow> (error_response ''400 Bad Request'' ''node_id_required'', st)
      | Some node_id \<Rightarrow>
          if \<not> list_ex (\<lambda>n. nd_id n = node_id \<and> \<not> nd_revoked n \<and> node_is_fresh e 0 n) (nodes (store st))
          then (error_response ''403 Forbidden'' ''node_revoked'', st)
          else (case dispatch e node_id 0 (tasks (store st)) of
            (ts, queued, ok) \<Rightarrow>
              (let st1 = st\<lparr>store := (store st)\<lparr>tasks := ts\<rparr>\<rparr>;
                   r = (''200 OK'', json_list (map task_json queued))
               in if \<not> ok then (secure_random_unavailable, st1)
                  else if queued = [] then (r, st1)
                  else persist_or_rollback e (store st) r
                         (push_audit e (1 + 2 * length ts) ''task.dispatched'' (Some node_id) None
                            (Some node_id) st1))))"

text \<open>The \<open>match json_field(body, "output_sha256")\<close>: the digest to store, or \<open>None\<close> on a mismatch.\<close>

definition checked_digest :: "env \<Rightarrow> string \<Rightarrow> string \<Rightarrow> string option" where
  "checked_digest e body raw_output =
     (let computed = hex_encode_bytes (sha256 (as_bytes raw_output)) in
      case json_field (parse_json e) body ''output_sha256'' of
        None \<Rightarrow> Some computed
      | Some v \<Rightarrow>
          if length v = 64 \<and> list_all is_ascii_hexdigit v
           \<and> constant_time_eq (to_ascii_lowercase v) computed
          then Some computed else None)"

definition complete_task :: "string \<Rightarrow> string \<Rightarrow> string \<Rightarrow> int option \<Rightarrow> task \<Rightarrow> task" where
  "complete_task new_state raw_output digest exit_code t =
     (let limit = min (tk_output_limit t) MAX_PERSISTED_OUTPUT_BYTES in
      t\<lparr>tk_state := new_state, tk_output := truncate_utf8 raw_output limit, tk_output_sha256 := digest,
        tk_output_truncated := limit < length raw_output, tk_exit_code := exit_code\<rparr>)"

text \<open>The part of \<open>agent_result\<close> under the lock.\<close>

definition accept_result ::
    "string \<Rightarrow> string \<Rightarrow> string option \<Rightarrow> string \<Rightarrow> string \<Rightarrow> string \<Rightarrow> string \<Rightarrow> int option \<Rightarrow> env \<Rightarrow> state
     \<Rightarrow> response \<times> state" where
  "accept_result task_id node_id request_id lease_token new_state raw_output digest exit_code e st =
     (let here = (\<lambda>t. tk_id t = task_id \<and> tk_node_id t = node_id) in
      case find here (tasks (store st)) of
        None \<Rightarrow> (error_response ''404 Not Found'' ''task_not_found'', st)
      | Some t \<Rightarrow>
          if request_id \<noteq> None \<and> request_id \<noteq> Some (tk_request_id t)
          then (error_response ''409 Conflict'' ''request_id_mismatch'', st)
          else if tk_state t \<noteq> ''dispatched'' \<or> tk_lease_until t < clk e 0
          then (error_response ''409 Conflict'' ''task_expired'', st)
          else if tk_lease_token t = [] \<or> \<not> constant_time_eq (tk_lease_token t) lease_token
          then (error_response ''409 Conflict'' ''lease_token_mismatch'', st)
          else if new_state \<notin> {''succeeded'', ''failed'', ''cancelled'', ''timed_out''}
          then (error_response ''400 Bad Request'' ''invalid_task_state'', st)
          else (let complete = complete_task new_state raw_output digest exit_code in
                persist_or_rollback e (store st) (''200 OK'', task_json (complete t))
                  (push_audit e 1 ''task.completed'' (Some node_id) (Some task_id) (Some node_id)
                    (update_task here complete st))))"

definition agent_result :: "string \<Rightarrow> string \<Rightarrow> env \<Rightarrow> state \<Rightarrow> response \<times> state" where
  "agent_result path body e st =
     (if \<not> json_types_valid (parse_json e) body
            [''node_id'', ''request_id'', ''lease_token'', ''state'', ''output'', ''output_sha256'',
             ''exit_code''] [] []
      then (error_response ''400 Bad Request'' ''invalid_json_type'', st)
      else (let task_id = path_argument ''/v1/agent/tasks/'' ''/result'' path;
                node_id = field_or (parse_json e) body ''node_id'' [];
                request_id = json_field (parse_json e) body ''request_id'';
                lease_token = field_or (parse_json e) body ''lease_token'' [] in
        if (case request_id of None \<Rightarrow> False | Some r \<Rightarrow> \<not> valid_node_id r)
        then (error_response ''400 Bad Request'' ''invalid_request_id'', st)
        else (let new_state = field_or (parse_json e) body ''state'' ''failed'';
                  raw_output = field_or (parse_json e) body ''output'' [] in
          case checked_digest e body raw_output of
            None \<Rightarrow> (error_response ''400 Bad Request'' ''output_hash_mismatch'', st)
          | Some digest \<Rightarrow>
              accept_result task_id node_id request_id lease_token new_state raw_output digest
                (Option.bind (json_field (parse_json e) body ''exit_code'') parse_i32) e st)))"

section \<open>The contract\<close>

lemma update_task_store [simp]:
  "nodes (store (update_task p f st)) = nodes (store st)"
  "tasks (store (update_task p f st)) = update_first p f (tasks (store st))"
  "grants (store (update_task p f st)) = grants (store st)"
  "approvals (store (update_task p f st)) = approvals (store st)"
  "audit (store (update_task p f st)) = audit (store st)"
  "same_config st0 (update_task p f st) = same_config st0 st"
  by (simp_all add: update_task_def)

lemma evolves_update_task:
  "(\<And>t. find p (tasks (store st)) = Some t \<Longrightarrow> task_evolves t (f t)) \<Longrightarrow>
   store_evolves (store st) (store (update_task p f st))"
  unfolding update_task_def by (auto intro!: evolves_tasks task_table.grows_update_first)

lemma wf_tasks: "store_wf s \<Longrightarrow> list_all task_wf ts \<Longrightarrow> store_wf (s\<lparr>tasks := ts\<rparr>)"
  by (simp add: store_wf_def)

lemma wf_update_task:
  assumes "store_wf (store st)" and "\<And>t. find p (tasks (store st)) = Some t \<Longrightarrow> task_wf t \<Longrightarrow> task_wf (f t)"
  shows "store_wf (store (update_task p f st))"
proof -
  have "list_all task_wf (update_first p f ts)"
    if "list_all task_wf ts" "\<And>t. find p ts = Some t \<Longrightarrow> task_wf t \<Longrightarrow> task_wf (f t)" for ts
    using that by (induction ts) auto
  then show ?thesis using assms by (auto simp: store_wf_def)
qed

lemma take_id_simps [simp]:
  "store (snd (take_id e k tag st)) = store st" "same_config st0 (snd (take_id e k tag st)) = same_config st0 st"
  "policy (snd (take_id e k tag st)) = policy st"
  "require_approval_records (snd (take_id e k tag st)) = require_approval_records st"
  by (simp_all add: take_id_def)

lemma create_approval_ok: "handler_ok e st (map_prod Done id (create_approval_as body actor e st))"
proof -
  have ev: "store_evolves (store st) ((store (push_audit e k ev n t a st1))\<lparr>approvals := approvals (store st) @ [g]\<rparr>)"
    if "store st1 = store st" for k ev n t a g st1
    using that by (simp add: store_evolves_def node_table.grows_refl task_table.grows_refl
        audit_table.grows_append grant_table.grows_refl approval_table.grows_append)
  have wf: "store_wf ((store (push_audit e k ev n t a st1))\<lparr>approvals := approvals (store st) @ [g]\<rparr>)"
    if "store_wf (store st)" "approval_wf g" "store st1 = store st" for k ev n t a g st1
    using that by (simp add: store_wf_def)
  show ?thesis
    unfolding create_approval_as_def Let_def take_id_def prod.case
    by (intro handler_splits handler_ok_persist)
       (auto intro!: ev [simplified] wf [simplified] simp: approval_wf_def)
qed

text \<open>What a request that passed the field checks satisfies.\<close>

definition request_ok :: "task_request \<Rightarrow> bool" where
  "request_ok rq \<longleftrightarrow> valid_node_id (rq_request_id rq) \<and> valid_node_id (rq_actor rq)
     \<and> 0 < rq_timeout_ms rq \<and> rq_timeout_ms rq \<le> MAX_TASK_TIMEOUT_MS
     \<and> 0 < rq_output_limit rq \<and> rq_output_limit rq \<le> MAX_TASK_OUTPUT_LIMIT"

text \<open>Reading the request only consumes an identifier; refusals are 400 or 403.\<close>

definition read_only_result :: "state \<Rightarrow> (response + task_request) \<times> state \<Rightarrow> bool" where
  "read_only_result st out \<longleftrightarrow>
     same_config st (snd out) \<and> store (snd out) = store st
   \<and> (case fst out of Inl r \<Rightarrow> fst r \<in> {''400 Bad Request'', ''403 Forbidden''} | Inr rq \<Rightarrow> request_ok rq)"

lemma read_task_request_ok: "read_only_result st (read_task_request body actor e st)"
proof -
  define Q where "Q = read_only_result st"
  obtain r st1 where r: "(case json_field (parse_json e) body ''request_id'' of
      Some r \<Rightarrow> (r, st) | None \<Rightarrow> take_id e 0 ''request'' st) = (r, st1)" by force
  have st1: "same_config st st1" "store st1 = store st"
    using r by (auto simp: take_id_def split: option.splits)
  have bad: "Q (Inl (error_response ''400 Bad Request'' c), st)" "Q (Inl (error_response ''400 Bad Request'' c), st1)"
    "Q (Inl (error_response ''403 Forbidden'' c), st1)" for c
    using st1 by (simp_all add: Q_def read_only_result_def)
  have good: "Q (Inr rq, st1)" if "request_ok rq" for rq
    using st1 that by (simp add: Q_def read_only_result_def)
  show ?thesis
    unfolding read_task_request_def Let_def r prod.case Q_def [symmetric]
    by (intro if_cases [where Q = Q] option_cases [where Q = Q] bad good)
       (auto simp: request_ok_def word_greater_zero_iff)
qed

lemma read_task_request_InrD:
  assumes "read_task_request body actor e st = (Inr rq, st1)"
  shows "request_ok rq" and "same_config st st1" and "store st1 = store st"
  using read_task_request_ok [of st body actor e] assms by (auto simp: read_only_result_def)

lemma idempotent_replay_status:
  "idempotent_replay rq ts = Some r \<Longrightarrow> fst r \<in> {''200 OK'', ''409 Conflict''}"
  by (auto simp: idempotent_replay_def split: if_splits option.splits)

lemma admission_refusal_status:
  "admission_refusal e p ns rq = Some r \<Longrightarrow> fst r \<in> {''409 Conflict'', ''403 Forbidden''}"
  by (auto simp: admission_refusal_def policy_denied_def split: if_splits)

lemma check_approval_cases:
  assumes "check_approval body rq e st = x"
  obtains c where "x = Inl (error_response ''428 Precondition Required'' c)"
    | c where "x = Inl (error_response ''403 Forbidden'' c)"
    | "x = Inr st"
    | a st2 where "x = Inr st2" "same_config st st2" "nodes (store st2) = nodes (store st)"
       "tasks (store st2) = tasks (store st)" "store_evolves (store st) (store st2)"
       "store_wf (store st) \<Longrightarrow> store_wf (store st2)"
proof -
  let ?u = "\<lambda>i. update_first (approval_matches e rq i) (\<lambda>a. a\<lparr>ap_used := True\<rparr>) (approvals (store st))"
  have ev: "store_evolves (store st) ((store st)\<lparr>approvals := ?u i\<rparr>)" for i
    by (intro evolves_approvals approval_table.grows_update_first) (simp add: approval_evolves_def)
  have wf: "store_wf ((store st)\<lparr>approvals := ?u i\<rparr>)" if "store_wf (store st)" for i
  proof -
    have "approval_wf y" if "y \<in> set (?u i)" for y
      using set_update_first [OF that] \<open>store_wf (store st)\<close>
      by (auto simp: store_wf_def list_all_iff approval_wf_def)
    then show ?thesis using that by (simp add: store_wf_def list_all_iff)
  qed
  show thesis
  proof (cases "needs_approval (policy st) rq \<and> require_approval_records st \<and> rq_approval_id rq \<noteq> None
      \<and> find (approval_matches e rq (the (rq_approval_id rq))) (approvals (store st)) \<noteq> None")
    case True
    then obtain i a where i: "rq_approval_id rq = Some i" "find (approval_matches e rq i) (approvals (store st)) = Some a"
      by auto
    let ?st2 = "push_audit e 3 ''approval.consumed'' (Some (rq_node_id rq)) (Some i) (Some (rq_actor rq))
                    (st\<lparr>store := (store st)\<lparr>approvals := ?u i\<rparr>\<rparr>)"
    have "x = Inr ?st2" using assms True i by (simp add: check_approval_def)
    then show thesis
      by (rule that(4)) (use ev [of i] wf [of i] in \<open>auto intro: evolves_push_audit\<close>)
  next
    case False
    then show thesis using assms that(1-3)
      by (auto simp: check_approval_def split: if_splits option.splits)
  qed
qed

lemma queued_task_wf:
  "request_ok rq \<Longrightarrow> rq_ability rq \<in> set SUPPORTED_ABILITIES \<Longrightarrow> task_wf (queued_task i rq)"
  by (simp add: task_wf_def request_ok_def queued_task_def)

lemma enqueue_task_ok:
  assumes "enqueue_task e rq st = (t, st')"
  shows "t = queued_task (tk_id t) rq" and "same_config st0 st' = same_config st0 st"
    and "tasks (store st') = tasks (store st) @ [t]" and "nodes (store st') = nodes (store st)"
    and "approvals (store st') = approvals (store st)" and "grants (store st') = grants (store st)"
    and "store_evolves (store st) (store st')"
    and "store_wf (store st) \<Longrightarrow> task_wf t \<Longrightarrow> store_wf (store st')"
  using assms
  by (auto simp: enqueue_task_def take_id_def Let_def queued_task_def store_wf_def store_evolves_def
      node_table.grows_refl audit_table.grows_append grant_table.grows_refl approval_table.grows_refl
      task_table.grows_append)

lemma admission_supported:
  "admission_refusal e p ns rq = None \<Longrightarrow> rq_ability rq \<in> set SUPPORTED_ABILITIES"
  by (auto simp: admission_refusal_def SUPPORTED_ABILITIES_def split: if_splits)

lemma same_config_trans [trans]: "same_config a b \<Longrightarrow> same_config b c \<Longrightarrow> same_config a c"
  by (cases a; cases b; cases c) (auto simp: same_config_def)

lemma handler_ok_from:
  assumes "same_config st st1" and "store st1 = store st" and "handler_ok e st1 out"
  shows "handler_ok e st out"
  using assms same_config_trans by (auto simp: handler_ok_def split: prod.splits exec.splits)

lemma create_task_ok: "handler_ok e st (map_prod Done id (create_task_as body actor e st))"
proof -
  obtain x st1 where x: "read_task_request body actor e st = (x, st1)" by force
  have cfg: "same_config st st1" "store st1 = store st"
    using read_task_request_ok [of st body actor e] by (simp_all add: x read_only_result_def)
  have "handler_ok e st1 (map_prod Done id (create_task_as body actor e st))"
  proof (cases x)
    case (Inl r)
    then show ?thesis by (auto simp: create_task_as_def x)
  next
    case (Inr rq)
    have q: "request_ok rq" using read_task_request_InrD x Inr by simp
    have "handler_ok e st1 (map_prod Done id (case check_approval body rq e st1 of Inl r \<Rightarrow> (r, st1)
        | Inr st2 \<Rightarrow> (let (t, st3) = enqueue_task e rq st2 in
            persist_or_rollback e (store st1) (''202 Accepted'', task_json t) st3)))"
      if "admission_refusal e (policy st1) (nodes (store st1)) rq = None"
    proof (rule check_approval_cases [OF refl, of body rq e st1])
      fix st2 assume c: "check_approval body rq e st1 = Inr st2" "same_config st1 st2"
        "nodes (store st2) = nodes (store st1)" "tasks (store st2) = tasks (store st1)"
        "store_evolves (store st1) (store st2)" "store_wf (store st1) \<Longrightarrow> store_wf (store st2)"
      obtain t st3 where t: "enqueue_task e rq st2 = (t, st3)" by force
      note tk = enqueue_task_ok [OF t]
      have "task_wf t" using queued_task_wf [OF q admission_supported [OF that]] tk(1) by metis
      then show ?thesis unfolding c(1) sum.case t Let_def prod.case
        by (intro handler_ok_persist) (use tk(2,7,8) c store_evolves_trans in auto)
    next
      assume c: "check_approval body rq e st1 = Inr st1"
      obtain t st3 where t: "enqueue_task e rq st1 = (t, st3)" by force
      note tk = enqueue_task_ok [OF t]
      have "task_wf t" using queued_task_wf [OF q admission_supported [OF that]] tk(1) by metis
      then show ?thesis unfolding c sum.case t Let_def prod.case
        by (intro handler_ok_persist) (use tk(2,7,8) in auto)
    qed auto
    then show ?thesis
      unfolding create_task_as_def x Inr prod.case sum.case
      by (intro handler_splits) auto
  qed
  then show ?thesis by (rule handler_ok_from [OF cfg])
qed

lemma cancel_task_ok: "handler_ok e st (map_prod Done id (cancel_task_as path actor e st))"
  unfolding cancel_task_as_def Let_def
  by (intro handler_splits handler_ok_persist)
     (auto intro!: evolves_push_audit evolves_update_task wf_update_task cancel_task_wf cancel_task_evolves)

text \<open>The dispatch loop leases due tasks only; the tasks it returns are the ones it leased.\<close>

lemma dispatch_result:
  "dispatch e n i ts = (ts', queued, ok) \<Longrightarrow>
   list_all2 (\<lambda>a b. b = a \<or> (\<exists>k token. lease_due e n k a \<and> random_token e k = Some token \<and> b = lease_task e k token a)) ts ts'"
proof (induction e n i ts arbitrary: ts' queued ok rule: dispatch.induct)
  case (2 e n i t ts)
  obtain us qs k where d: "dispatch e n (i + 1) ts = (us, qs, k)" by (metis prod_cases3)
  show ?case
  proof (cases "lease_due e n i t")
    case True
    show ?thesis
    proof (cases "random_token e i")
      case None
      then show ?thesis using 2 True by (auto simp: list_all2_same)
    next
      case (Some token)
      then show ?thesis using "2.IH"(1) [OF True Some d] "2.prems" True d by (auto simp: Let_def)
    qed
  next
    case False
    then show ?thesis using "2.IH"(2) [OF False d] "2.prems" d by auto
  qed
qed simp

lemma lease_due_open: "lease_due e n k t \<Longrightarrow> tk_state t \<notin> terminal_states"
  by (auto simp: lease_due_def terminal_states_def)

lemma lease_task_evolves:
  "lease_due e n k t \<Longrightarrow> random_token e k = Some token \<Longrightarrow> task_evolves t (lease_task e k token t)"
  by (auto simp: task_evolves_def lease_task_def lease_due_def task_rank_def terminal_states_def)

lemma lease_task_wf:
  "task_wf t \<Longrightarrow> random_token e k = Some token \<Longrightarrow> task_wf (lease_task e k token t)"
  using random_token_nonempty by (auto simp: task_wf_def lease_task_def terminal_states_def)

lemma dispatch_evolves:
  assumes "dispatch e n i (tasks s) = (ts', queued, ok)"
  shows "store_evolves s (s\<lparr>tasks := ts'\<rparr>)" and "store_wf s \<Longrightarrow> store_wf (s\<lparr>tasks := ts'\<rparr>)"
proof -
  note d = dispatch_result [OF assms]
  have "list_all2 task_evolves (tasks s) ts'"
    by (rule list_all2_mono [OF d]) (auto intro: lease_task_evolves task_table.evolve_refl)
  then show "store_evolves s (s\<lparr>tasks := ts'\<rparr>)"
    by (intro evolves_tasks task_table.grows_same_length)
  show "store_wf (s\<lparr>tasks := ts'\<rparr>)" if "store_wf s"
  proof (rule wf_tasks [OF that])
    have "list_all task_wf (tasks s)" using that by (simp add: store_wf_def)
    then show "list_all task_wf ts'" using d
      by (auto simp: list_all_length list_all2_conv_all_nth) (metis lease_task_wf)
  qed
qed

lemma dispatch_nothing: "dispatch e n i ts = (ts', [], True) \<Longrightarrow> ts' = ts"
  by (induction e n i ts arbitrary: ts' rule: dispatch.induct)
     (auto split: if_splits option.splits prod.splits simp: Let_def)

lemma agent_tasks_ok: "handler_ok e st (map_prod Done id (agent_tasks path e st))"
proof -
  have "handler_ok e st (map_prod Done id (case dispatch e n 0 (tasks (store st)) of (ts, queued, ok) \<Rightarrow>
      (let st1 = st\<lparr>store := (store st)\<lparr>tasks := ts\<rparr>\<rparr>; r = (''200 OK'', json_list (map task_json queued))
       in if \<not> ok then (secure_random_unavailable, st1)
          else if queued = [] then (r, st1)
          else persist_or_rollback e (store st) r
                 (push_audit e (1 + 2 * length ts) ''task.dispatched'' (Some n) None (Some n) st1))))" for n
  proof -
    obtain ts queued ok where d: "dispatch e n 0 (tasks (store st)) = (ts, queued, ok)" by (metis prod_cases3)
    note v = dispatch_evolves [OF d]
    show ?thesis
    proof (cases "ok \<and> queued = []")
      case True
      then have "ts = tasks (store st)" using d dispatch_nothing by auto
      then show ?thesis using True by (simp add: d handler_ok_same)
    next
      case False
      then show ?thesis
        unfolding d prod.case Let_def
        using v by (auto intro!: handler_ok_refused handler_ok_persist evolves_push_audit)
    qed
  qed
  then show ?thesis
    unfolding agent_tasks_def by (intro handler_splits)
qed

lemma complete_task_wf:
  "task_wf t \<Longrightarrow> s \<in> terminal_states \<Longrightarrow> task_wf (complete_task s out digest code t)"
  using truncate_utf8_length [of out "min (tk_output_limit t) MAX_PERSISTED_OUTPUT_BYTES"]
  by (auto simp: task_wf_def complete_task_def Let_def terminal_states_def)

lemma complete_task_evolves:
  "tk_state t = ''dispatched'' \<Longrightarrow> s \<in> terminal_states \<Longrightarrow> task_evolves t (complete_task s out digest code t)"
  by (auto simp: task_evolves_def complete_task_def Let_def task_rank_def terminal_states_def)

lemma accept_result_ok:
  "handler_ok e st (map_prod Done id (accept_result tid nid rid lease new_state out digest code e st))"
  unfolding accept_result_def Let_def
  by (intro handler_splits handler_ok_persist)
     (auto intro!: evolves_push_audit evolves_update_task wf_update_task complete_task_wf complete_task_evolves
        simp: terminal_states_def)

lemma agent_result_ok: "handler_ok e st (map_prod Done id (agent_result path body e st))"
  unfolding agent_result_def Let_def by (intro handler_splits accept_result_ok)

interpretation create_approval: handler "returning (\<lambda>(body, actor). create_approval_as body actor)"
  by unfold_locales (auto simp: returning_def create_approval_ok)

interpretation create_task: handler "returning (\<lambda>(body, actor). create_task_as body actor)"
  by unfold_locales (auto simp: returning_def create_task_ok)

interpretation cancel_tasks: handler "returning (\<lambda>(path, actor). cancel_task_as path actor)"
  by unfold_locales (auto simp: returning_def cancel_task_ok)

interpretation lease_tasks: handler "returning agent_tasks"
  by unfold_locales (simp add: returning_def agent_tasks_ok)

interpretation results: handler "returning (\<lambda>(path, body). agent_result path body)"
  by unfold_locales (auto simp: returning_def agent_result_ok)

end
