(* ===== verification/Ws_Frames.thy ===== *)
theory Ws_Frames
  imports Crypto
begin

text \<open>
  WebSocket framing: the server side (\<open>websocket_read_frame\<close>, \<open>websocket_write_frame\<close> of
  \<open>control-plane/src/main.rs\<close>, masked client frames in, unmasked frames out) and the agent side
  (\<open>node-runtime/src/main.rs\<close>, unmasked frames in, masked frames out).

  A stream is the list of bytes still to come; \<open>read_exact\<close> fails when fewer are left. A read
  returns the frame, or \<open>None\<close> at the end of the stream, with the rest of the stream.
\<close>

section \<open>Common parts\<close>

type_synonym frame = "u8 \<times> bytes"

definition read_exact :: "nat \<Rightarrow> bytes \<Rightarrow> (bytes \<times> bytes) option" where
  "read_exact n s = (if length s < n then None else Some (take n s, drop n s))"

definition eof_error :: string where
  "eof_error = ''failed to fill whole buffer''"

definition client_read_error :: string where
  "client_read_error = ''websocket frame read failed: '' @ eof_error"

definition be_bytes16 :: "16 word \<Rightarrow> bytes" where
  "be_bytes16 n = map (\<lambda>k. ucast (drop_bit k n)) [8, 0]"

definition max_frame :: nat where
  "max_frame = 1024 * 1024"

definition frame_too_large :: "u8 \<Rightarrow> nat \<Rightarrow> bool" where
  "frame_too_large opcode len \<longleftrightarrow> max_frame < len \<or> (8 \<le> opcode \<and> 125 < len)"

text \<open>The \<open>match length_code\<close> of the readers: the extended length fields.\<close>

definition read_length :: "u8 \<Rightarrow> bytes \<Rightarrow> (nat \<times> bytes) option" where
  "read_length code s =
     (if code = 126 then
        map_option (\<lambda>(b, r). (unat (from_be_bytes b :: 16 word), r)) (read_exact 2 s)
      else if code = 127 then
        map_option (\<lambda>(b, r). (unat (from_be_bytes b :: u64), r)) (read_exact 8 s)
      else Some (unat code, s))"

text \<open>The \<open>match payload.len()\<close> of the writers; the flag is the mask bit.\<close>

definition length_field :: "u8 \<Rightarrow> nat \<Rightarrow> bytes" where
  "length_field flag len =
     (if len \<le> 125 then [flag OR word_of_nat len]
      else if len \<le> 65535 then (flag OR 126) # be_bytes16 (word_of_nat len)
      else (flag OR 127) # be_bytes64 (word_of_nat len))"

text \<open>\<open>*byte ^= mask[index % 4]\<close> over a payload.\<close>

definition apply_mask :: "bytes \<Rightarrow> bytes \<Rightarrow> bytes" where
  "apply_mask mk payload =
     map (\<lambda>i. payload ! i XOR mk ! (i mod 4)) [0..<length payload]"

section \<open>The control plane\<close>

definition server_read_frame :: "bytes \<Rightarrow> string + (frame option \<times> bytes)" where
  "server_read_frame stream =
     (case stream of
        [] \<Rightarrow> Inr (None, [])
      | [first] \<Rightarrow> Inl eof_error
      | first # second # s \<Rightarrow>
          if first AND 0x80 = 0 then Inl ''fragmented websocket frames are not supported''
          else if first AND 0x70 \<noteq> 0 then Inl ''websocket extensions are not negotiated''
          else (let opcode = first AND 0x0F in
            if second AND 0x80 = 0 then Inl ''client websocket frames must be masked''
            else (case read_length (second AND 0x7F) s of
                    None \<Rightarrow> Inl eof_error
                  | Some (len, s) \<Rightarrow>
                      if frame_too_large opcode len then Inl ''websocket frame too large''
                      else (case read_exact 4 s of
                              None \<Rightarrow> Inl eof_error
                            | Some (mk, s) \<Rightarrow>
                                (case read_exact len s of
                                   None \<Rightarrow> Inl eof_error
                                 | Some (payload, s) \<Rightarrow>
                                     Inr (Some (opcode, apply_mask mk payload), s))))))"

definition server_write_frame :: "u8 \<Rightarrow> bytes \<Rightarrow> string + bytes" where
  "server_write_frame opcode payload =
     (if frame_too_large opcode (length payload) then Inl ''websocket frame too large''
      else Inr ((0x80 OR (opcode AND 0x0F)) # length_field 0 (length payload) @ payload))"

section \<open>The agent\<close>

definition client_read_frame :: "bytes \<Rightarrow> string + (frame option \<times> bytes)" where
  "client_read_frame stream =
     (case stream of
        [] \<Rightarrow> Inr (None, [])
      | [first] \<Rightarrow> Inl client_read_error
      | first # second # s \<Rightarrow>
          if first AND 0x80 = 0 then Inl ''fragmented websocket frames are not supported''
          else if first AND 0x70 \<noteq> 0 then Inl ''websocket extensions are not negotiated''
          else if second AND 0x80 \<noteq> 0 then Inl ''server websocket frames must not be masked''
          else (case read_length (second AND 0x7F) s of
                  None \<Rightarrow> Inl client_read_error
                | Some (len, s) \<Rightarrow>
                    (let opcode = first AND 0x0F in
                     if frame_too_large opcode len then Inl ''websocket frame too large''
                     else (case read_exact len s of
                             None \<Rightarrow> Inl client_read_error
                           | Some (payload, s) \<Rightarrow> Inr (Some (opcode, payload), s)))))"

text \<open>The mask is what \<open>/dev/urandom\<close> returned; \<open>None\<close> when it could not be read.\<close>

definition client_write_frame :: "bytes option \<Rightarrow> u8 \<Rightarrow> bytes \<Rightarrow> string + bytes" where
  "client_write_frame random opcode payload =
     (if frame_too_large opcode (length payload) then Inl ''websocket frame too large''
      else (case random of
              None \<Rightarrow> Inl ''secure random source unavailable''
            | Some mk \<Rightarrow>
                Inr ((0x80 OR (opcode AND 0x0F)) # length_field 0x80 (length payload)
                     @ mk @ apply_mask mk payload)))"

section \<open>Round trips\<close>

lemma be_step:
  "push_bit 8 (drop_bit (k + 8) n) OR ucast (ucast (drop_bit k n) :: u8) = drop_bit k n"
  for n :: "'a::len word"
  by (rule bit_word_eqI) (auto simp: bit_simps add.commute add.left_commute not_less
      dest: bit_imp_le_length)

lemma from_be_bytes64 [codec_simps]: "from_be_bytes (be_bytes64 n) = n"
proof -
  have z: "drop_bit 64 n = 0" by (rule bit_word_eqI) (auto simp: bit_simps dest: bit_imp_le_length)
  show ?thesis
    using be_step [of 56 n] be_step [of 48 n] be_step [of 40 n] be_step [of 32 n] be_step [of 24 n]
      be_step [of 16 n] be_step [of 8 n] be_step [of 0 n]
    by (simp add: from_be_bytes_def be_bytes64_def z)
qed

lemma from_be_bytes16 [codec_simps]: "from_be_bytes (be_bytes16 n) = n"
proof -
  have z: "drop_bit 16 n = 0" by (rule bit_word_eqI) (auto simp: bit_simps dest: bit_imp_le_length)
  show ?thesis using be_step [of 8 n] be_step [of 0 n]
    by (simp add: from_be_bytes_def be_bytes16_def z)
qed

lemma read_exact_append [codec_simps]: "n = length a \<Longrightarrow> read_exact n (a @ s) = Some (a, s)"
  by (simp add: read_exact_def)

lemma length_be [simp]: "length (be_bytes64 n) = 8" "length (be_bytes16 m) = 2"
  by (simp_all add: be_bytes64_def be_bytes16_def)

lemma apply_mask_twice [codec_simps]: "apply_mask mk (apply_mask mk p) = p"
  by (rule nth_equalityI) (simp_all add: apply_mask_def xor.assoc)

lemma length_apply_mask [simp]: "length (apply_mask mk p) = length p"
  by (simp add: apply_mask_def)

lemma seven_bits: "len \<le> 127 \<Longrightarrow> \<not> bit (word_of_nat len :: u8) 7"
proof -
  assume "len \<le> 127"
  then have "unat (word_of_nat len :: u8) < 2 ^ 7" by (simp add: unat_of_nat)
  then have "take_bit 7 (unat (word_of_nat len :: u8)) = unat (word_of_nat len :: u8)"
    by (rule take_bit_nat_eq_self)
  then have "take_bit 7 (word_of_nat len :: u8) = word_of_nat len"
    by (metis unsigned_take_bit_eq unsigned_word_eqI)
  then show ?thesis by (metis bit_take_bit_iff less_irrefl)
qed

lemma length_byte:
  assumes "len \<le> 127" and "flag = 0 \<or> flag = 0x80"
  shows "(flag OR word_of_nat len) AND 0x80 = (flag :: u8)"
    and "(flag OR word_of_nat len) AND 0x7F = (word_of_nat len :: u8)"
  using assms(2) seven_bits [OF assms(1)]
  by (auto intro!: u8_eqI simp: bit_simps)

lemma opcode_byte:
  assumes "opcode < 16"
  shows "(0x80 OR (opcode AND 0x0F)) AND 0x80 \<noteq> (0 :: u8)"
    and "(0x80 OR (opcode AND 0x0F)) AND 0x70 = (0 :: u8)"
    and "(0x80 OR (opcode AND 0x0F)) AND 0x0F = (opcode :: u8)"
proof -
  have "opcode AND 0x0F = opcode"
  proof -
    have "unat opcode < 2 ^ 4" using assms by (simp add: word_less_nat_alt)
    then have "take_bit 4 (unat opcode) = unat opcode" by (rule take_bit_nat_eq_self)
    then have "take_bit 4 opcode = opcode" by (metis unsigned_take_bit_eq unsigned_word_eqI)
    then show ?thesis by (simp add: take_bit_eq_mask mask_eq_exp_minus_1)
  qed
  then have "bit opcode n = bit (opcode AND 0x0F) n" for n by simp
  from this [of 4] this [of 5] this [of 6] this [of 7]
  have h: "bit opcode 4 = False" "bit opcode 5 = False" "bit opcode 6 = False" "bit opcode 7 = False"
    by (simp_all add: bit_simps)
  show "(0x80 OR (opcode AND 0x0F)) AND 0x80 \<noteq> (0 :: u8)"
  proof
    assume "(0x80 OR (opcode AND 0x0F)) AND 0x80 = (0 :: u8)"
    then have "bit ((0x80 OR (opcode AND 0x0F)) AND 0x80) 7 = bit (0 :: u8) 7" by simp
    then show False by (simp add: bit_simps)
  qed
  show "(0x80 OR (opcode AND 0x0F)) AND 0x70 = (0 :: u8)"
    by (rule u8_eqI) (auto simp: bit_simps)
  show "(0x80 OR (opcode AND 0x0F)) AND 0x0F = (opcode :: u8)"
    by (rule u8_eqI) (use h in \<open>auto simp: bit_simps\<close>)
qed

text \<open>The length field written for a payload is read back, with its mask flag.\<close>

lemma read_length_field:
  assumes "len \<le> max_frame" and "flag = 0 \<or> flag = 0x80"
  shows "\<exists>b bs. length_field flag len = b # bs \<and> b AND 0x80 = flag
       \<and> read_length (b AND 0x7F) (bs @ s) = Some (len, s)"
proof -
  consider "len \<le> 125" | "125 < len" "len \<le> 65535" | "65535 < len" by linarith
  then show ?thesis
  proof cases
    case 1
    then have u: "unat (word_of_nat len :: u8) = len" by (simp add: unat_of_nat)
    then have "(word_of_nat len :: u8) \<noteq> 126 \<and> (word_of_nat len :: u8) \<noteq> 127"
      using 1 by (auto dest: arg_cong [where f = unat])
    then show ?thesis using 1 u length_byte [of len flag] assms(2)
      by (simp add: length_field_def read_length_def)
  next
    case 2
    then have "unat (word_of_nat len :: 16 word) = len" by (simp add: unat_of_nat)
    then show ?thesis using 2 length_byte [of 126 flag] assms(2)
      by (simp add: length_field_def read_length_def from_be_bytes16 read_exact_append)
  next
    case 3
    then have "unat (word_of_nat len :: u64) = len"
      using assms(1) by (simp add: unat_of_nat max_frame_def)
    then show ?thesis using 3 length_byte [of 127 flag] assms(2)
      by (simp add: length_field_def read_length_def from_be_bytes64 read_exact_append)
  qed
qed

lemma server_frame_read:
  assumes "opcode < 16" and "server_write_frame opcode payload = Inr wire"
  shows "client_read_frame (wire @ rest) = Inr (Some (opcode, payload), rest)"
proof -
  from assms(2) have ok: "\<not> frame_too_large opcode (length payload)"
    and w: "wire = (0x80 OR (opcode AND 0x0F)) # length_field 0 (length payload) @ payload"
    by (auto simp: server_write_frame_def split: if_splits)
  then have "length payload \<le> max_frame" by (simp add: frame_too_large_def)
  then obtain b bs where b: "length_field 0 (length payload) = b # bs" "b AND 0x80 = 0"
      "read_length (b AND 0x7F) (bs @ payload @ rest) = Some (length payload, payload @ rest)"
    using read_length_field [of "length payload" 0] by blast
  show ?thesis
    using ok b opcode_byte [OF assms(1)]
    by (simp add: client_read_frame_def w read_exact_append Let_def)
qed

lemma client_frame_read:
  assumes "opcode < 16" and "length mk = 4" and "client_write_frame (Some mk) opcode payload = Inr wire"
  shows "server_read_frame (wire @ rest) = Inr (Some (opcode, payload), rest)"
proof -
  from assms(3) have ok: "\<not> frame_too_large opcode (length payload)"
    and w: "wire = (0x80 OR (opcode AND 0x0F)) # length_field 0x80 (length payload) @ mk
                   @ apply_mask mk payload"
    by (auto simp: client_write_frame_def split: if_splits)
  then have "length payload \<le> max_frame" by (simp add: frame_too_large_def)
  then obtain b bs where b: "length_field 0x80 (length payload) = b # bs" "b AND 0x80 = 0x80"
      "read_length (b AND 0x7F) (bs @ mk @ apply_mask mk payload @ rest)
       = Some (length payload, mk @ apply_mask mk payload @ rest)"
    using read_length_field [of "length payload" "0x80"] by blast
  show ?thesis
    using ok b opcode_byte [OF assms(1)] assms(2)
    by (simp add: server_read_frame_def w read_exact_append Let_def apply_mask_twice)
qed

text \<open>C14: Agent to control plane. A frame the agent writes, whatever its four mask bytes, is read by
  the control plane as the same opcode and payload, and the reader stops exactly at the end of the
  frame, so the next frame of the stream is read from its start.\<close>

theorem client_frames_reach_server:
  assumes "opcode < 16" and "length mk = 4"
    and "client_write_frame (Some mk) opcode payload = Inr wire"
  shows "server_read_frame (wire @ rest) = Inr (Some (opcode, payload), rest)
       \<and> length payload \<le> 1024 * 1024 \<and> (8 \<le> opcode \<longrightarrow> length payload \<le> 125)"
  using client_frame_read [OF assms] assms(3)
  by (auto simp: client_write_frame_def frame_too_large_def max_frame_def split: if_splits)

theorem client_frames_reach_server_witness:
  "\<exists>wire. client_write_frame (Some [1, 2, 3, 4]) 1 [72, 105] = Inr wire
        \<and> server_read_frame (wire @ [7]) = Inr (Some (1, [72, 105]), [7])"
proof -
  obtain wire where w: "client_write_frame (Some [1, 2, 3, 4]) 1 [72, 105] = Inr wire"
    by (simp add: client_write_frame_def frame_too_large_def max_frame_def)
  then show ?thesis using client_frames_reach_server [OF _ _ w, of "[7]"] by simp
qed

text \<open>Control plane to agent: a frame the control plane writes is read by the agent as the same
  opcode and payload, up to the start of the next frame.\<close>

theorem server_frames_reach_client:
  assumes "opcode < 16" and "server_write_frame opcode payload = Inr wire"
  shows "client_read_frame (wire @ rest) = Inr (Some (opcode, payload), rest)"
  using assms by (rule server_frame_read)

theorem server_frames_reach_client_witness:
  "\<exists>wire. server_write_frame 0xA [1, 2] = Inr wire
        \<and> client_read_frame (wire @ [7]) = Inr (Some (0xA, [1, 2]), [7])"
proof -
  obtain wire where w: "server_write_frame 0xA [1, 2] = Inr wire"
    by (simp add: server_write_frame_def frame_too_large_def max_frame_def)
  then show ?thesis using server_frames_reach_client [OF _ w, of "[7]"] by simp
qed

text \<open>Whatever arrives, an accepted frame is within the limits.\<close>

lemma server_read_bounded:
  "server_read_frame s = Inr (Some (opcode, payload), rest) \<Longrightarrow>
   \<not> frame_too_large opcode (length payload) \<and> length rest < length s"
  by (auto simp: server_read_frame_def read_exact_def read_length_def Let_def
      split: list.splits if_splits option.splits)

end
