(* ===== verification/Router.thy ===== *)
theory Router
  imports Task_Handlers Ws_Frames
begin

text \<open>
  The front of the control plane (\<open>control-plane/src/main.rs\<close>): authentication by administrator
  token, node credential or OIDC token, the routing table, and the WebSocket channel of the agents.

  One call to the server sees one outside world; the clock reading of the authentication is place 0,
  the handler that follows counts from place 1 (\<open>later\<close>).
\<close>

section \<open>Authentication\<close>

record auth_context =
  au_authorized :: bool
  au_admin :: bool
  au_node :: bool
  au_actor :: "string option"

definition no_auth :: auth_context where
  "no_auth = \<lparr>au_authorized = False, au_admin = False, au_node = False, au_actor = None\<rparr>"

definition credential_authorized :: "env \<Rightarrow> store \<Rightarrow> string \<Rightarrow> string \<Rightarrow> string \<Rightarrow> bool" where
  "credential_authorized e s path body presented =
     (case (case json_field (parse_json e) body ''node_id'' of
              None \<Rightarrow> query_field path ''node_id'' | Some v \<Rightarrow> Some v) of
        None \<Rightarrow> False
      | Some node_id \<Rightarrow>
          list_ex (\<lambda>n. nd_id n = node_id \<and> constant_time_eq (nd_credential n) presented \<and> \<not> nd_revoked n)
            (nodes s))"

record oidc_claims =
  cl_subject :: string
  cl_groups :: "string list"

definition jwt_audience_matches :: "env \<Rightarrow> string \<Rightarrow> string \<Rightarrow> bool" where
  "jwt_audience_matches e payload aud =
     (if json_field (parse_json e) payload ''aud'' = Some aud then True
      else list_ex (\<lambda>v. v = aud) (json_string_array (parse_json e) payload ''aud''))"

text \<open>The checks on the decoded payload, at \<open>now_seconds\<close>.\<close>

definition validate_claims :: "env \<Rightarrow> string \<Rightarrow> oidc_config \<Rightarrow> oidc_claims option" where
  "validate_claims e payload config =
     (if json_field (parse_json e) payload ''iss'' \<noteq> Some (issuer config)
       \<or> \<not> jwt_audience_matches e payload (audience config) then None
      else (let now_seconds = clk e 0 div 1000 in
        case json_number (parse_json e) payload ''exp'' of
          None \<Rightarrow> None
        | Some expires_at \<Rightarrow>
            if expires_at \<le> now_seconds then None
            else if (case json_number (parse_json e) payload ''nbf'' of
                       None \<Rightarrow> False
                     | Some not_before \<Rightarrow> saturating_add now_seconds 30 < not_before)
            then None
            else (case json_field (parse_json e) payload ''sub'' of
                    None \<Rightarrow> None
                  | Some subject \<Rightarrow>
                      if \<not> valid_actor_id subject then None
                      else Some \<lparr>cl_subject = subject,
                                 cl_groups = json_string_array (parse_json e) payload (group_claim config)\<rparr>)))"

text \<open>\<open>String::from_utf8(base64url_decode(part)?).ok()?\<close>.\<close>

definition decode_part :: "string \<Rightarrow> string option" where
  "decode_part part = Option.bind (base64url_decode part) from_utf8"

definition validate_oidc_token :: "env \<Rightarrow> string \<Rightarrow> oidc_config \<Rightarrow> oidc_claims option" where
  "validate_oidc_token e token config =
     (case str_split token CHR ''.'' of
        [header_part, payload_part, signature_part] \<Rightarrow>
          (case decode_part header_part of
             None \<Rightarrow> None
           | Some header \<Rightarrow>
               if json_field (parse_json e) header ''alg'' \<noteq> Some ''HS256'' then None
               else if json_field (parse_json e) header ''typ'' \<noteq> Some ''JWT'' then None
               else (case base64url_decode signature_part of
                       None \<Rightarrow> None
                     | Some signature \<Rightarrow>
                         if length signature \<noteq> 32
                          \<or> \<not> constant_time_eq_bytes signature
                               (hmac_sha256 (hmac_secret config)
                                  (as_bytes (header_part @ ''.'' @ payload_part)))
                         then None
                         else (case decode_part payload_part of
                                 None \<Rightarrow> None
                               | Some payload \<Rightarrow> validate_claims e payload config)))
      | _ \<Rightarrow> None)"

definition authenticate_request :: "env \<Rightarrow> state \<Rightarrow> string \<Rightarrow> string \<Rightarrow> string \<Rightarrow> auth_context" where
  "authenticate_request e st path body presented =
     (if constant_time_eq presented (admin_token st)
      then \<lparr>au_authorized = True, au_admin = True, au_node = False, au_actor = Some ''admin''\<rparr>
      else if credential_authorized e (store st) path body presented
      then \<lparr>au_authorized = True, au_admin = False, au_node = True, au_actor = None\<rparr>
      else (case oidc st of
              None \<Rightarrow> no_auth
            | Some config \<Rightarrow>
                (case validate_oidc_token e presented config of
                   None \<Rightarrow> no_auth
                 | Some claims \<Rightarrow>
                     \<lparr>au_authorized = True, au_admin = admin_group config \<in> set (cl_groups claims),
                      au_node = False, au_actor = Some (cl_subject claims)\<rparr>)))"

section \<open>Routing\<close>

definition ADMIN_UI_HTML :: string where
  \<open>ADMIN_UI_HTML =
    ''<!doctype html><html><head><meta charset="utf-8"><meta name="viewport" '' @
     ''content="width=device-width,initial-scale=1"><title>NodeWe Control Plan'' @
     ''e</title><style>body{font:16px system-ui;max-width:960px;margin:2rem au'' @
     ''to;padding:0 1rem;background:#f6f7f9;color:#17202a}button{padding:.5rem'' @
     '' 1rem}pre{background:white;padding:1rem;border-radius:8px;overflow:auto'' @
     ''}</style></head><body><h1>NodeWe</h1><p>Control Plane '' @
     [CHR 0xE7, CHR 0xAE, CHR 0xA1, CHR 0xE7, CHR 0x90, CHR 0x86, CHR 0xE5, CHR 0x8F, CHR 0xB0] @
     ''</p><button onclick="load()">'' @
     [CHR 0xE5, CHR 0x88, CHR 0xB7, CHR 0xE6, CHR 0x96, CHR 0xB0, CHR 0xE8, CHR 0x8A, CHR 0x82, CHR 0xE7, CHR 0x82, CHR 0xB9] @
     ''</button><pre id="out">'' @
     [CHR 0xE8, CHR 0xAF, CHR 0xB7, CHR 0xE8, CHR 0xBE, CHR 0x93, CHR 0xE5, CHR 0x85, CHR 0xA5] @
     '' Bearer Token '' @
     [CHR 0xE5, CHR 0x90, CHR 0x8E, CHR 0xE5, CHR 0x88, CHR 0xB7, CHR 0xE6, CHR 0x96, CHR 0xB0] @
     ''</pre><script>async function load(){const token=prompt('' @ [CHR 0x27] @
     ''Admin Bearer Token'' @ [CHR 0x27] @ '');if(!token)return;const r=await fetch('' @
     [CHR 0x27] @ ''/v1/nodes'' @ [CHR 0x27] @ '',{headers:{Authorization:'' @ [CHR 0x27] @
     ''Bearer '' @ [CHR 0x27] @ ''+token}});document.querySelector('' @ [CHR 0x27] @ ''#out'' @
     [CHR 0x27] @ '').textContent=await r.text()}</script></body></html>''\<close>

definition health_json :: string where
  \<open>health_json = ''{"status":"ok","protocol_version":1,"service":"nodewe-control-plane"}''\<close>

definition admin_required :: response where
  "admin_required = error_response ''403 Forbidden'' ''admin_required''"

definition not_found :: response where
  "not_found = error_response ''404 Not Found'' ''not_found''"

definition unauthenticated :: response where
  "unauthenticated = error_response ''401 Unauthorized'' ''unauthenticated''"

definition list_nodes :: "env \<Rightarrow> state \<Rightarrow> response" where
  "list_nodes e st = (''200 OK'', json_list (map (\<lambda>(k, n). node_json e k n) (enumerate 0 (nodes (store st)))))"

definition list_approvals :: "state \<Rightarrow> response" where
  "list_approvals st = (''200 OK'', json_list (map approval_json (approvals (store st))))"

definition list_tasks :: "state \<Rightarrow> response" where
  "list_tasks st = (''200 OK'', json_list (map task_json (tasks (store st))))"

definition list_audit :: "state \<Rightarrow> response" where
  "list_audit st = (''200 OK'',
     json_list (map (sealed_activity_json (audit (store st))) [0..<length (audit (store st))]))"

text \<open>\<open>path.starts_with(a) && path.ends_with(b)\<close>.\<close>

definition path_between :: "string \<Rightarrow> string \<Rightarrow> string \<Rightarrow> bool" where
  "path_between a b path \<longleftrightarrow> str_starts_with path a \<and> str_ends_with path b"

text \<open>The arms of the routing table that only administrators may use, in their order; \<open>None\<close> when
  no arm matches.\<close>

definition returned :: "response \<times> state \<Rightarrow> response exec \<times> state" where
  "returned out = map_prod Done id out"

definition route_nodes_grants ::
    "string \<Rightarrow> string \<Rightarrow> string \<Rightarrow> string option \<Rightarrow> env \<Rightarrow> state \<Rightarrow> (response exec \<times> state) option" where
  "route_nodes_grants method path body actor e st =
     (if method = ''GET'' \<and> path = ''/v1/nodes'' then Some (Done (list_nodes e st), st)
      else if method = ''POST'' \<and> path = ''/v1/nodes'' then Some (returned (create_node_as body actor e st))
      else if method = ''POST'' \<and> path = ''/v1/grants'' then Some (create_grant_as actor e st)
      else if method = ''GET'' \<and> path = ''/v1/grants'' then Some (Done (list_grants st), st)
      else if method = ''POST'' \<and> path_between ''/v1/grants/'' ''/revoke'' path
      then Some (returned (revoke_grant_as path actor e st))
      else None)"

definition route_tasks_admin ::
    "string \<Rightarrow> string \<Rightarrow> string \<Rightarrow> string option \<Rightarrow> env \<Rightarrow> state \<Rightarrow> (response exec \<times> state) option" where
  "route_tasks_admin method path body actor e st =
     (if method = ''GET'' \<and> path = ''/v1/tasks'' then Some (Done (list_tasks st), st)
      else if method = ''GET'' \<and> str_starts_with path ''/v1/tasks/'' then Some (Done (get_task path st), st)
      else if method = ''POST'' \<and> path = ''/v1/tasks'' then Some (returned (create_task_as body actor e st))
      else None)"

definition route_node_changes ::
    "string \<Rightarrow> string \<Rightarrow> string option \<Rightarrow> env \<Rightarrow> state \<Rightarrow> (response exec \<times> state) option" where
  "route_node_changes method path actor e st =
     (if method = ''POST'' \<and> path_between ''/v1/nodes/'' ''/revoke'' path
      then Some (returned (revoke_node_as (path_argument ''/v1/nodes/'' ''/revoke'' path) actor e st))
      else if method = ''POST'' \<and> path_between ''/v1/nodes/'' ''/rotate'' path
      then Some (returned (rotate_node_as (path_argument ''/v1/nodes/'' ''/rotate'' path) actor e st))
      else None)"

text \<open>An arm with an administrator guard, followed by the same arm answering 403.\<close>

definition guarded ::
    "bool \<Rightarrow> state \<Rightarrow> (response exec \<times> state) option \<Rightarrow> response exec \<times> state \<Rightarrow> response exec \<times> state" where
  "guarded admin st arm next_arms =
     (case arm of None \<Rightarrow> next_arms | Some out \<Rightarrow> if admin then out else (Done admin_required, st))"

definition route_authorized ::
    "string \<Rightarrow> string \<Rightarrow> string \<Rightarrow> bool \<Rightarrow> string option \<Rightarrow> env \<Rightarrow> state \<Rightarrow> response exec \<times> state" where
  "route_authorized method path body admin actor e st =
     guarded admin st (route_nodes_grants method path body actor e st)
     (if method = ''POST'' \<and> path = ''/v1/approvals'' \<and> admin
      then returned (create_approval_as body actor e st)
      else if method = ''GET'' \<and> path = ''/v1/approvals'' \<and> admin then (Done (list_approvals st), st)
      else guarded admin st (route_tasks_admin method path body actor e st)
     (if method = ''POST'' \<and> path_between ''/v1/tasks/'' ''/cancel'' path then
        (if admin then returned (cancel_task_as path None e st)
         else (case actor of
                 Some a \<Rightarrow> returned (cancel_task_as path (Some a) e st)
               | None \<Rightarrow> (Done admin_required, st)))
      else if method = ''POST'' \<and> path = ''/v1/agent/heartbeat'' then returned (heartbeat body e st)
      else if method = ''GET'' \<and> str_starts_with path ''/v1/agent/tasks'' then returned (agent_tasks path e st)
      else if method = ''POST'' \<and> path_between ''/v1/agent/tasks/'' ''/result'' path
      then returned (agent_result path body e st)
      else if method = ''GET'' \<and> path = ''/v1/audit'' \<and> admin then (Done (list_audit st), st)
      else if method = ''GET'' \<and> (case split_once path CHR ''?'' of None \<Rightarrow> path | Some (b, _) \<Rightarrow> b)
                = ''/v1/audit/export'' \<and> admin
      then (Done (export_audit path (audit (store st))), st)
      else if method = ''GET'' \<and> path = ''/v1/audit'' then (Done admin_required, st)
      else guarded admin st (route_node_changes method path actor e st) (Done not_found, st)))"

definition route_with_actor ::
    "string \<Rightarrow> string \<Rightarrow> string \<Rightarrow> bool \<Rightarrow> bool \<Rightarrow> string option \<Rightarrow> env \<Rightarrow> state \<Rightarrow> response exec \<times> state" where
  "route_with_actor method path body authorized admin actor e st =
     (if path = ''/health'' \<and> method = ''GET'' then (Done (''200 OK'', health_json), st)
      else if path = ''/'' \<and> method = ''GET'' then (Done (''200 OK'', ADMIN_UI_HTML), st)
      else if method = ''POST'' \<and> path = ''/v1/grants/redeem'' then redeem_grant body e st
      else if \<not> authorized then (Done unauthenticated, st)
      else route_authorized method path body admin actor e st)"

section \<open>The WebSocket channel\<close>

definition later :: "env \<Rightarrow> env" where
  "later e = e\<lparr>clk := (\<lambda>k. clk e (k + 1))\<rparr>"

definition VERSION :: string where
  "VERSION = ''0.1.3''"

definition websocket_envelope :: "string \<Rightarrow> string \<Rightarrow> string \<Rightarrow> string \<Rightarrow> string" where
  \<open>websocket_envelope node_id request_id message_type payload =
     ''{"protocol_version":1,"agent_version":"'' @ VERSION @ ''","node_id":'' @ quoted node_id
     @ '',"request_id":'' @ quoted request_id @ '',"type":'' @ quoted message_type
     @ '',"payload":'' @ payload @ ''}''\<close>

text \<open>The \<open>match\<close> on the message type: an error code, or the response type with status and payload.\<close>

definition websocket_call :: "string \<Rightarrow> string \<Rightarrow> env \<Rightarrow> state \<Rightarrow> (string + string \<times> response) \<times> state" where
  "websocket_call message expected_node e st =
     (let message_type = field_or (parse_json e) message ''type'' [] in
      if message_type = ''heartbeat'' then
        map_prod (\<lambda>r. Inr (''heartbeat.ack'', r)) id (heartbeat message e st)
      else if message_type = ''tasks.request'' then
        map_prod (\<lambda>r. Inr (''tasks.available'', r)) id
          (agent_tasks (''/v1/agent/tasks?node_id='' @ expected_node) e st)
      else if message_type = ''task.result'' then
        (case json_field (parse_json e) message ''task_id'' of
           None \<Rightarrow> (Inl ''task_id_required'', st)
         | Some task_id \<Rightarrow>
             map_prod (\<lambda>r. Inr (''task.result.ack'', r)) id
               (agent_result (''/v1/agent/tasks/'' @ task_id @ ''/result'') message e st))
      else (Inl ''unsupported_message_type'', st))"

definition websocket_payload :: "response \<Rightarrow> string" where
  \<open>websocket_payload r =
     (if str_starts_with (fst r) ''2'' then snd r
      else ''{"code":"websocket_request_failed","http_status":"'' @ replace_chars {CHR '' ''} ''_'' (fst r)
           @ ''","detail":'' @ snd r @ ''}'')\<close>

definition websocket_message :: "string \<Rightarrow> string \<Rightarrow> string \<Rightarrow> env \<Rightarrow> state \<Rightarrow> string \<times> state" where
  "websocket_message message expected_node presented e st =
     (let (request_id, st1) = (case json_field (parse_json e) message ''request_id'' of
             Some r \<Rightarrow> (r, st) | None \<Rightarrow> take_id e 0 ''request'' st);
          node_id = field_or (parse_json e) message ''node_id'' [] in
      if node_id \<noteq> expected_node \<or> \<not> valid_node_id request_id
       \<or> \<not> credential_authorized e (store st1) message message presented
      then (websocket_envelope node_id request_id ''error'' (code_body ''unauthenticated''), st1)
      else (case websocket_call message expected_node (later e) st1 of
              (Inl code, st2) \<Rightarrow>
                (websocket_envelope expected_node request_id ''error'' (code_body code), st2)
            | (Inr (response_type, r), st2) \<Rightarrow>
                (websocket_envelope expected_node request_id response_type (websocket_payload r), st2)))"

text \<open>\<open>websocket_accept\<close>; the SHA-1 of \<open>ring\<close> is a parameter.\<close>

definition websocket_accept :: "(bytes \<Rightarrow> bytes) \<Rightarrow> string \<Rightarrow> string" where
  "websocket_accept sha1 key =
     base64_encode (sha1 (as_bytes key @ as_bytes ''258EAFA5-E914-47DA-95CA-C5AB0DC85B11''))"

text \<open>How a channel ends: the peer closed or sent end of file, or an error that drops the connection.\<close>

datatype channel_end = Closed | Dropped string

text \<open>The loop of \<open>handle_websocket\<close> over the bytes the client sends; \<open>es\<close> is the outside world of
  each message. Result: the bytes written, the state, and how the channel ended.\<close>

function websocket_loop ::
    "(nat \<Rightarrow> env) \<Rightarrow> string \<Rightarrow> string \<Rightarrow> bytes \<Rightarrow> state \<Rightarrow> bytes \<times> state \<times> channel_end" where
  "websocket_loop es node_id presented stream st =
     (case server_read_frame stream of
        Inl err \<Rightarrow> ([], st, Dropped err)
      | Inr (None, _) \<Rightarrow> ([], st, Closed)
      | Inr (Some (opcode, payload), rest) \<Rightarrow>
          if opcode = 1 then
            (case from_utf8 payload of
               None \<Rightarrow> ([], st, Dropped ''websocket payload is not UTF-8'')
             | Some message \<Rightarrow>
                 (case websocket_message message node_id presented (es 0) st of
                    (response, st') \<Rightarrow>
                      (case server_write_frame 1 (as_bytes response) of
                         Inl err \<Rightarrow> ([], st', Dropped err)
                       | Inr out \<Rightarrow>
                           (case websocket_loop (\<lambda>k. es (Suc k)) node_id presented rest st' of
                              (outs, st'', fin) \<Rightarrow> (out @ outs, st'', fin)))))
          else if opcode = 8 then
            (case server_write_frame 8 [] of
               Inl err \<Rightarrow> ([], st, Dropped err) | Inr out \<Rightarrow> (out, st, Closed))
          else if opcode = 9 then
            (case server_write_frame 10 payload of
               Inl err \<Rightarrow> ([], st, Dropped err)
             | Inr out \<Rightarrow>
                 (case websocket_loop (\<lambda>k. es (Suc k)) node_id presented rest st of
                    (outs, st'', fin) \<Rightarrow> (out @ outs, st'', fin)))
          else if opcode = 10 then websocket_loop (\<lambda>k. es (Suc k)) node_id presented rest st
          else (case server_write_frame 8 (be_bytes16 1002) of
                  Inl err \<Rightarrow> ([], st, Dropped err) | Inr out \<Rightarrow> (out, st, Closed)))"
  by pat_completeness auto
termination
  by (relation "measure (\<lambda>(es, node_id, presented, stream, st). length stream)")
     (auto dest: server_read_bounded)

declare websocket_loop.simps [simp del]

definition switching_protocols :: "string \<Rightarrow> string" where
  "switching_protocols accept_key =
     (let line = (\<lambda>l. l @ [CR, NL]) in
      line ''HTTP/1.1 101 Switching Protocols'' @ line ''Upgrade: websocket'' @ line ''Connection: Upgrade''
      @ line (''Sec-WebSocket-Accept: '' @ accept_key) @ [CR, NL])"

definition handle_websocket ::
    "(bytes \<Rightarrow> bytes) \<Rightarrow> (nat \<Rightarrow> env) \<Rightarrow> string \<Rightarrow> string \<Rightarrow> string \<Rightarrow> bytes \<Rightarrow> state
     \<Rightarrow> bytes \<times> state \<times> channel_end" where
  "handle_websocket sha1 es header path presented stream st =
     (let refuse = (\<lambda>code. (as_bytes (write_response ''400 Bad Request'' (code_body code)), st, Closed)) in
      case header_value header ''sec-websocket-key'' of
        None \<Rightarrow> refuse ''websocket_key_required''
      | Some key \<Rightarrow>
          if length key \<noteq> 24 \<or> \<not> list_all is_ascii_graphic key then refuse ''invalid_websocket_key''
          else (case query_field path ''node_id'' of
                  None \<Rightarrow> refuse ''node_id_required''
                | Some node_id \<Rightarrow>
                    if \<not> valid_node_id node_id then refuse ''invalid_node''
                    else (case websocket_loop es node_id presented stream st of
                            (outs, st', fin) \<Rightarrow>
                              (as_bytes (switching_protocols (websocket_accept sha1 key)) @ outs, st', fin))))"

section \<open>One connection\<close>

text \<open>\<open>handle\<close>: the request, then the route or the channel. A panicking handler writes nothing.\<close>

definition handle ::
    "(bytes \<Rightarrow> bytes) \<Rightarrow> env \<Rightarrow> (nat \<Rightarrow> env) \<Rightarrow> bytes list \<Rightarrow> state \<Rightarrow> bytes \<times> state" where
  "handle sha1 e es chunks st =
     (case read_request chunks of
        (Refused status body, _) \<Rightarrow> (as_bytes (write_response status body), st)
      | (Request header method path body presented, rest) \<Rightarrow>
          (let auth = authenticate_request e st path body presented in
           if method = ''GET'' \<and> websocket_path path \<and> has_header header ''upgrade'' ''websocket''
            \<and> has_header_token header ''connection'' ''upgrade''
           then (if \<not> au_node auth \<or> au_admin auth
                 then (as_bytes (write_response (fst unauthenticated) (snd unauthenticated)), st)
                 else (case handle_websocket sha1 es header path presented
                               (concat (takeWhile (\<lambda>chunk. chunk \<noteq> []) rest)) st of
                         (out, st', _) \<Rightarrow> (out, st')))
           else (case route_with_actor method path body (au_authorized auth) (au_admin auth)
                        (au_actor auth) (later e) st of
                   (Done (status, response), st') \<Rightarrow> (as_bytes (write_response status response), st')
                 | (Panic, st') \<Rightarrow> ([], st'))))"

section \<open>The contract of the server\<close>

lemma later_simps [simp]:
  "parse_json (later e) = parse_json e" "persist (later e) = persist e" "clk (later e) k = clk e (k + 1)"
  by (simp_all add: later_def)

lemma handler_ok_later: "handler_ok (later e) st out = handler_ok e st out"
  by (cases out; cases "fst out") (simp_all add: handler_ok_def)

lemma ok_guarded:
  "(\<And>out. arm = Some out \<Longrightarrow> handler_ok e st out) \<Longrightarrow> handler_ok e st rest \<Longrightarrow>
   handler_ok e st (guarded admin st arm rest)"
  by (auto simp: guarded_def split: option.splits)

lemmas handlers_ok = create_node_ok create_grant_ok revoke_grant_ok redeem_grant_ok revoke_node_ok
  rotate_node_ok heartbeat_ok create_approval_ok create_task_ok cancel_task_ok agent_tasks_ok agent_result_ok

lemma admin_arms_ok:
  "route_nodes_grants m p b a e st = Some out \<Longrightarrow> handler_ok e st out"
  "route_tasks_admin m p b a e st = Some out \<Longrightarrow> handler_ok e st out"
  "route_node_changes m p a e st = Some out \<Longrightarrow> handler_ok e st out"
  by (auto simp: route_nodes_grants_def route_tasks_admin_def route_node_changes_def returned_def
      split: if_splits intro: handlers_ok)

lemmas guarded_arms_ok = ok_guarded [OF admin_arms_ok(1)] ok_guarded [OF admin_arms_ok(2)]
  ok_guarded [OF admin_arms_ok(3)]

lemma route_ok: "handler_ok e st (route_with_actor m p b authorized admin a e st)"
  unfolding route_with_actor_def route_authorized_def returned_def
  by (intro handler_splits handlers_ok guarded_arms_ok)

interpretation routes: handler "\<lambda>(m, p, b, authorized, admin, a). route_with_actor m p b authorized admin a"
  by unfold_locales (auto intro: route_ok)

text \<open>The channel calls the same handlers, so it has the same contract.\<close>

definition call_ok :: "env \<Rightarrow> state \<Rightarrow> (string + string \<times> response) \<times> state \<Rightarrow> bool" where
  "call_ok e st out \<longleftrightarrow> (case out of
       (Inl code, st') \<Rightarrow> st' = st | (Inr (kind, r), st') \<Rightarrow> handler_ok e st (Done r, st'))"

lemma call_ok_map: "handler_ok e st (map_prod Done id out) \<Longrightarrow> call_ok e st (map_prod (\<lambda>r. Inr (k, r)) id out)"
  by (cases out) (simp add: call_ok_def)

lemma websocket_call_ok: "call_ok e st (websocket_call message n e st)"
proof -
  have "call_ok e st (Inl code, st)" for code by (simp add: call_ok_def)
  then show ?thesis
    unfolding websocket_call_def Let_def
    by (intro if_cases [where Q = "call_ok e st"] option_cases [where Q = "call_ok e st"] call_ok_map handlers_ok)
qed

definition state_ok :: "state \<Rightarrow> state \<Rightarrow> bool" where
  "state_ok st st' \<longleftrightarrow> same_config st st' \<and> store_evolves (store st) (store st')
     \<and> (store_wf (store st) \<longrightarrow> store_wf (store st'))"

lemma state_ok_refl [simp]: "state_ok st st"
  by (simp add: state_ok_def)

lemma state_ok_trans: "state_ok a b \<Longrightarrow> state_ok b c \<Longrightarrow> state_ok a c"
  by (auto simp: state_ok_def intro: same_config_trans store_evolves_trans)

lemma handler_ok_state: "handler_ok e st (r, st') \<Longrightarrow> state_ok st st'"
  by (simp add: handler_ok_def state_ok_def)

lemma websocket_message_cases:
  assumes "websocket_message message n presented e st = (text, st')"
  obtains (refused) st1 where "st' = st1" "same_config st st1" "store st1 = store st"
    | (called) st1 out where "field_or (parse_json e) message ''node_id'' [] = n"
       "credential_authorized e (store st) message message presented"
       "same_config st st1" "store st1 = store st" "websocket_call message n (later e) st1 = (out, st')"
proof -
  obtain r st1 where r: "(case json_field (parse_json e) message ''request_id'' of
      Some r \<Rightarrow> (r, st) | None \<Rightarrow> take_id e 0 ''request'' st) = (r, st1)" by force
  have c: "same_config st st1" "store st1 = store st"
    using r by (auto simp: take_id_def split: option.splits)
  show thesis
  proof (cases "field_or (parse_json e) message ''node_id'' [] \<noteq> n \<or> \<not> valid_node_id r
       \<or> \<not> credential_authorized e (store st) message message presented")
    case True
    then have "st' = st1" using assms c unfolding websocket_message_def r Let_def prod.case by auto
    then show thesis using refused c by blast
  next
    case False
    obtain out st2 where o: "websocket_call message n (later e) st1 = (out, st2)" by force
    have "st' = st2" using assms False c unfolding websocket_message_def r Let_def prod.case
      by (auto simp: o split: sum.splits prod.splits)
    then show thesis using called [of st1 out] False c o by blast
  qed
qed

lemma state_ok_read: "same_config st st1 \<Longrightarrow> store st1 = store st \<Longrightarrow> state_ok st st1"
  by (simp add: state_ok_def)

lemma websocket_message_ok:
  assumes "websocket_message message n presented e st = (text, st')"
  shows "state_ok st st'"
  using assms
proof (cases rule: websocket_message_cases)
  case (called st1 out)
  have "state_ok st1 st'"
    using websocket_call_ok [of "later e" st1 message n] called(5)
    by (auto simp: call_ok_def split: sum.splits intro: handler_ok_state)
  then show ?thesis using state_ok_read [OF called(3,4)] state_ok_trans by blast
qed (auto intro: state_ok_read)

section \<open>Runs of the server\<close>

text \<open>The transitions of the shared state: one routed request, authenticated in the state it finds, or
  one message of an open channel. Any number of connections interleave as sequences of these.\<close>

inductive server_step :: "state \<Rightarrow> state \<Rightarrow> bool" where
  request: "auth = authenticate_request e st path body presented \<Longrightarrow>
     route_with_actor method path body (au_authorized auth) (au_admin auth) (au_actor auth) (later e) st = (r, st')
     \<Longrightarrow> server_step st st'"
| message: "websocket_message text node_id presented e st = (reply, st') \<Longrightarrow> server_step st st'"

inductive reachable :: "state \<Rightarrow> state \<Rightarrow> bool" where
  start: "reachable st st"
| step: "reachable st st1 \<Longrightarrow> server_step st1 st2 \<Longrightarrow> reachable st st2"

inductive_cases server_stepE: "server_step st st'"

declare reachable.start [simp, intro]

lemma reachable_trans:
  assumes "reachable b c" and "reachable a b"
  shows "reachable a c"
  using assms
proof (induction rule: reachable.induct)
  case (step st st1 st2)
  then show ?case by (blast intro: reachable.step)
qed simp

lemma server_step_ok: "server_step st st' \<Longrightarrow> state_ok st st'"
proof (erule server_stepE)
  fix auth e path body presented r verb
  assume "route_with_actor verb path body (au_authorized auth) (au_admin auth) (au_actor auth) (later e) st = (r, st')"
  then show "state_ok st st'" using route_ok handler_ok_state by metis
qed (rule websocket_message_ok)

lemma reachable_ok: "reachable st st' \<Longrightarrow> state_ok st st'"
  by (induction rule: reachable.induct) (auto intro: state_ok_trans server_step_ok)

end
