(* ===== verification/Server_Frames.thy ===== *)
theory Server_Frames
  imports Router
begin

text \<open>
  What a request without administrator rights can change: one frame for the handlers of agents and users,
  with the nodes, tasks and audit records it may touch as parameters, and one for redeeming a grant. The
  safety properties of the control plane are read off from these.
\<close>

section \<open>Frames\<close>

text \<open>From \<open>a\<close> to \<open>b\<close> nodes and tasks are kept in place; those in \<open>N\<close> and \<open>T\<close> may change, nodes in
  liveness, platform and abilities only and unless revoked, tasks only forward. Grants and approvals are
  kept, and the audit trail gets at most one record, which is in \<open>A\<close>.\<close>

definition change_frame :: "(node \<Rightarrow> bool) \<Rightarrow> (task \<Rightarrow> bool) \<Rightarrow> (activity \<Rightarrow> bool) \<Rightarrow> store \<Rightarrow> store \<Rightarrow> bool" where
  "change_frame N T A a b \<longleftrightarrow>
     list_all2 (\<lambda>x y. y = x \<or> N x \<and> \<not> nd_revoked x \<and> keeps_identity x y) (nodes a) (nodes b)
   \<and> list_all2 (\<lambda>x y. y = x \<or> T x \<and> task_evolves x y) (tasks a) (tasks b)
   \<and> grants b = grants a \<and> approvals b = approvals a
   \<and> (\<exists>rs. audit b = audit a @ rs \<and> length rs \<le> 1 \<and> list_all A rs)"

text \<open>The events of agents and owners.\<close>

definition agent_event :: "activity \<Rightarrow> bool" where
  "agent_event r \<longleftrightarrow> ac_event r \<in> {''node.heartbeat'', ''task.dispatched'', ''task.completed'', ''task.cancelled''}"

definition agent_frame :: "store \<Rightarrow> store \<Rightarrow> bool" where
  "agent_frame = change_frame (\<lambda>_. True) (\<lambda>_. True) agent_event"

text \<open>What one node does in its own name.\<close>

definition own_event :: "string \<Rightarrow> activity \<Rightarrow> bool" where
  "own_event i r \<longleftrightarrow> ac_actor r = Some i \<and> ac_node_id r = Some i
     \<and> ac_event r \<in> {''node.heartbeat'', ''task.dispatched'', ''task.completed''}"

definition node_frame :: "string \<Rightarrow> store \<Rightarrow> store \<Rightarrow> bool" where
  "node_frame i = change_frame (\<lambda>n. nd_id n = i) (\<lambda>t. tk_node_id t = i) (own_event i)"

lemma change_frame_refl [simp]: "change_frame N T A s s"
  by (simp add: change_frame_def list_all2_same)

lemma node_frame_refl [simp]: "node_frame i s s"
  by (simp add: node_frame_def)

lemma agent_frame_refl [simp]: "agent_frame s s"
  by (simp add: agent_frame_def)

lemma change_frame_mono:
  assumes "change_frame N T A a b" and "\<And>x. N x \<Longrightarrow> N' x" and "\<And>x. T x \<Longrightarrow> T' x" and "\<And>x. A x \<Longrightarrow> A' x"
  shows "change_frame N' T' A' a b"
proof -
  have n: "list_all2 (\<lambda>x y. y = x \<or> N' x \<and> \<not> nd_revoked x \<and> keeps_identity x y) (nodes a) (nodes b)"
    using assms(1,2) unfolding change_frame_def by (blast intro: list_all2_mono)
  have t: "list_all2 (\<lambda>x y. y = x \<or> T' x \<and> task_evolves x y) (tasks a) (tasks b)"
    using assms(1,3) unfolding change_frame_def by (blast intro: list_all2_mono)
  obtain rs where r: "audit b = audit a @ rs" "length rs \<le> 1" "list_all A rs"
    using assms(1) by (auto simp: change_frame_def)
  have "list_all A' rs" using r(3) assms(4) by (auto simp: list_all_iff)
  then show ?thesis using n t r assms(1) by (auto simp: change_frame_def)
qed

lemma node_frame_agent: "node_frame i a b \<Longrightarrow> agent_frame a b"
  unfolding node_frame_def agent_frame_def
  by (erule change_frame_mono) (auto simp: own_event_def agent_event_def)

section \<open>The handlers of agents and owners\<close>

lemma frame_persist:
  "change_frame N T A (store st) (store st1) \<Longrightarrow>
   change_frame N T A (store st) (store (snd (persist_or_rollback e (store st) ok st1)))"
  by (simp add: persist_or_rollback_cases)

lemma frame_nodes:
  assumes "list_all2 (\<lambda>x y. y = x \<or> N x \<and> \<not> nd_revoked x \<and> keeps_identity x y) (nodes (store st)) (nodes (store st1))"
    and "tasks (store st1) = tasks (store st)" and "grants (store st1) = grants (store st)"
    and "approvals (store st1) = approvals (store st)" and "audit (store st1) = audit (store st)"
  shows "change_frame N T A (store st) (store st1)"
    and "A (with_actor e k (next_seq st1) ev n t a) \<Longrightarrow> change_frame N T A (store st) (store (push_audit e k ev n t a st1))"
  using assms by (simp_all add: change_frame_def list_all2_same push_audit_def)

lemma frame_tasks:
  assumes "list_all2 (\<lambda>x y. y = x \<or> T x \<and> task_evolves x y) (tasks (store st)) (tasks (store st1))"
    and "nodes (store st1) = nodes (store st)" and "grants (store st1) = grants (store st)"
    and "approvals (store st1) = approvals (store st)" and "audit (store st1) = audit (store st)"
  shows "change_frame N T A (store st) (store st1)"
    and "A (with_actor e k (next_seq st1) ev n t a) \<Longrightarrow> change_frame N T A (store st) (store (push_audit e k ev n t a st1))"
  using assms by (simp_all add: change_frame_def list_all2_same push_audit_def)

lemma heartbeat_node_frame: "node_frame (field_or (parse_json e) body ''node_id'' []) (store st) (store (snd (heartbeat body e st)))"
proof -
  let ?i = "field_or (parse_json e) body ''node_id'' []"
  have upd: "list_all2 (\<lambda>x y. y = x \<or> nd_id x = ?i \<and> \<not> nd_revoked x \<and> keeps_identity x y)
        (nodes (store st)) (nodes (store (update_node ?i f st)))"
    if "find (\<lambda>n. nd_id n = ?i) (nodes (store st)) = Some m" "\<not> nd_revoked m" "\<And>n. keeps_identity n (f n)" for f m
    by simp (rule list_all2_update_first; use that in auto)
  have same: "tasks (store (update_node ?i f st)) = tasks (store st)" "grants (store (update_node ?i f st)) = grants (store st)"
    "approvals (store (update_node ?i f st)) = approvals (store st)" "audit (store (update_node ?i f st)) = audit (store st)" for f
    by (simp_all add: update_node_def)
  have seen: "node_frame ?i (store st) (store (update_node ?i f st))"
    and ack: "node_frame ?i (store st) (store (snd (heartbeat_ack ?i m f e st)))"
    if "find (\<lambda>n. nd_id n = ?i) (nodes (store st)) = Some m" "\<not> nd_revoked m" "\<And>n. keeps_identity n (f n)" for f m
    using frame_nodes [OF upd [OF that] same]
    by (auto simp: node_frame_def heartbeat_ack_def own_event_def with_actor_def intro!: frame_persist)
  have "node_frame ?i (store st) (store (snd (heartbeat_node body ?i m e st)))"
    if "find (\<lambda>n. nd_id n = ?i) (nodes (store st)) = Some m" "\<not> nd_revoked m" for m
    unfolding heartbeat_node_def using seen [OF that] ack [OF that] heartbeat_writes
    by (auto split: option.splits)
  then show ?thesis using heartbeat_cases [of body e st] by auto
qed

lemma agent_tasks_frame:
  assumes "query_field path ''node_id'' = Some i"
  shows "node_frame i (store st) (store (snd (agent_tasks path e st)))"
proof -
  obtain ts queued ok where d: "dispatch e i 0 (tasks (store st)) = (ts, queued, ok)" by (metis prod_cases3)
  let ?st1 = "st\<lparr>store := (store st)\<lparr>tasks := ts\<rparr>\<rparr>"
  have "list_all2 (\<lambda>x y. y = x \<or> tk_node_id x = i \<and> task_evolves x y) (tasks (store st)) (tasks (store ?st1))"
  proof -
    have "tk_node_id x = i" if "lease_due e i k x" for k x using that by (simp add: lease_due_def)
    then have "list_all2 (\<lambda>x y. y = x \<or> tk_node_id x = i \<and> task_evolves x y) (tasks (store st)) ts"
      using lease_task_evolves by (intro list_all2_mono [OF dispatch_result [OF d]]) metis
    then show ?thesis by simp
  qed
  note f = frame_tasks [OF this, where N = "\<lambda>n. nd_id n = i" and A = "own_event i"]
  have plain: "node_frame i (store st) (store ?st1)" unfolding node_frame_def by (rule f(1)) simp_all
  have told: "node_frame i (store st) (store (snd (persist_or_rollback e (store st) r
      (push_audit e k ''task.dispatched'' (Some i) None (Some i) ?st1))))" for r k
    unfolding node_frame_def by (intro frame_persist f(2)) (simp_all add: own_event_def with_actor_def)
  show ?thesis
    using plain told unfolding agent_tasks_def assms d option.case prod.case Let_def by simp
qed

lemma agent_result_frame:
  "node_frame (field_or (parse_json e) body ''node_id'' []) (store st) (store (snd (agent_result path body e st)))"
proof -
  define Q where "Q out \<longleftrightarrow> node_frame (field_or (parse_json e) body ''node_id'' []) (store st) (store (snd out))"
    for out :: "response \<times> state"
  have base: "Q (r, st)" for r by (simp add: Q_def)
  have accept: "Q (accept_result tid (field_or (parse_json e) body ''node_id'' []) rid lease s out digest code e st)"
    for tid rid lease s out digest code
  proof -
    let ?i = "field_or (parse_json e) body ''node_id'' []"
    let ?here = "\<lambda>t. tk_id t = tid \<and> tk_node_id t = ?i"
    have ok: "Q (persist_or_rollback e (store st) r (push_audit e k ''task.completed'' (Some ?i) (Some tid) (Some ?i)
        (update_task ?here (complete_task s out digest code) st)))"
      if "find ?here (tasks (store st)) = Some t" "tk_state t = ''dispatched''" "s \<in> {''succeeded'', ''failed'', ''cancelled'', ''timed_out''}" for t r k
    proof -
      have "list_all2 (\<lambda>x y. y = x \<or> tk_node_id x = ?i \<and> task_evolves x y) (tasks (store st))
          (tasks (store (update_task ?here (complete_task s out digest code) st)))"
        using that complete_task_evolves [of _ s] unfolding terminal_states_def
        by simp (rule list_all2_update_first; auto)
      from frame_tasks(2) [OF this, where N = "\<lambda>n. nd_id n = ?i" and A = "own_event ?i"] show ?thesis
        unfolding Q_def node_frame_def by (intro frame_persist) (auto simp: own_event_def with_actor_def)
    qed
    show ?thesis unfolding accept_result_def Let_def
      by (intro if_cases [where Q = Q] option_cases [where Q = Q] base ok) auto
  qed
  have "Q (agent_result path body e st)"
    unfolding agent_result_def Let_def
    by (intro if_cases [where Q = Q] option_cases [where Q = Q] base accept)
  then show ?thesis by (simp add: Q_def)
qed

lemma cancel_frame: "agent_frame (store st) (store (snd (cancel_task_as path actor e st)))"
proof -
  define i where "i = path_argument ''/v1/tasks/'' ''/cancel'' path"
  let ?here = "\<lambda>t. tk_id t = i"
  have "agent_frame (store st) (store (snd (persist_or_rollback e (store st) r
      (push_audit e 0 ''task.cancelled'' n (Some i) a (update_task ?here cancel_task st)))))"
    if "find ?here (tasks (store st)) = Some t" "tk_state t \<notin> terminal_states" for t r n a
  proof -
    have "list_all2 (\<lambda>x y. y = x \<or> True \<and> task_evolves x y) (tasks (store st)) (tasks (store (update_task ?here cancel_task st)))"
      using that cancel_task_evolves by simp (rule list_all2_update_first; auto)
    from frame_tasks(2) [OF this, where N = "\<lambda>_. True" and A = agent_event] show ?thesis
      unfolding agent_frame_def by (intro frame_persist) (auto simp: agent_event_def with_actor_def)
  qed
  then show ?thesis
    unfolding cancel_task_as_def Let_def i_def [symmetric] by (auto split: option.split)
qed

section \<open>Redeeming\<close>

text \<open>Redeeming touches no task and no approval. It uses up at most one grant, a live one, and without that
  nothing changes; with it at most one node joins, at the end and with an audit record.\<close>

definition redeem_frame :: "store \<Rightarrow> store \<Rightarrow> bool" where
  "redeem_frame a b \<longleftrightarrow> tasks b = tasks a \<and> approvals b = approvals a
   \<and> (b = a \<or> (\<exists>k < length (grants a). \<not> gr_used (grants a ! k) \<and> \<not> gr_revoked (grants a ! k)
        \<and> grants b = (grants a)[k := (grants a ! k)\<lparr>gr_used := True\<rparr>]
        \<and> (nodes b = nodes a \<and> audit b = audit a
           \<or> (\<exists>n r. nodes b = nodes a @ [n] \<and> audit b = audit a @ [r] \<and> ac_event r = ''grant.redeemed''
                \<and> ac_node_id r = Some (nd_id n)))))"

lemma mark_used_frame:
  assumes "find_exec (redeemable e secret code signature) (grants (store st)) = Done (Some g)"
  shows "\<exists>k < length (grants (store st)). \<not> gr_used (grants (store st) ! k) \<and> \<not> gr_revoked (grants (store st) ! k)
    \<and> grants (store (mark_used (redeemable e secret code signature) st))
      = (grants (store st))[k := (grants (store st) ! k)\<lparr>gr_used := True\<rparr>]"
proof -
  let ?p = "redeemable e secret code signature"
  obtain k where k: "k < length (grants (store st))" "grants (store st) ! k = g" "?p g = Done True"
      "update_first (\<lambda>g. ?p g = Done True) (\<lambda>g. g\<lparr>gr_used := True\<rparr>) (grants (store st))
       = (grants (store st))[k := g\<lparr>gr_used := True\<rparr>]"
    using update_first_at [OF find_exec_Some [OF assms], of "\<lambda>g. g\<lparr>gr_used := True\<rparr>"] by blast
  have "\<not> gr_used g \<and> \<not> gr_revoked g"
    using k(3) by (cases "verify_grant e (gr_code g) (gr_expires_at g) (gr_signature g) secret")
      (auto simp: redeemable_def split: if_splits)
  then show ?thesis using k by (auto simp: mark_used_def)
qed

lemma redeem_framed: "redeem_frame (store st) (store (snd (redeem_grant body e st)))"
proof -
  define Q where "Q out \<longleftrightarrow> redeem_frame (store st) (store (snd out))" for out :: "response exec \<times> state"
  have base: "Q (r, st)" for r by (simp add: Q_def redeem_frame_def)
  have "Q (redeem_node i name md code signature e st)" for i name md code signature
  proof (cases "find_exec (redeemable e (grant_secret st) code signature) (grants (store st))")
    case (Done found)
    show ?thesis
    proof (cases found)
      case (Some g)
      show ?thesis
        using mark_used_frame [of e "grant_secret st" code signature st g] Done Some
        by (auto simp: redeem_node_def Let_def Q_def redeem_frame_def persist_or_rollback_cases push_audit_def
            with_actor_def fresh_node_def push_node_def mark_used_def split: option.split)
    qed (use Done in \<open>simp add: redeem_node_def base Let_def\<close>)
  qed (simp add: redeem_node_def base Let_def)
  then have "Q (redeem_grant body e st)"
    unfolding redeem_grant_def Let_def by (intro if_cases [where Q = Q] base)
  then show ?thesis by (simp add: Q_def)
qed

end
