(* ===== verification/Task_Safety.thy ===== *)
theory Task_Safety
  imports Task_Handlers
begin

text \<open>
  What the task handlers guarantee: dispatch leases exactly the due tasks, nothing is enqueued that
  was not admitted, retries do not enqueue twice, results need the lease and count once, users cancel
  only their own tasks.
\<close>

section \<open>Dispatch\<close>

text \<open>The loop against its specification: with random bytes for every due task, all due tasks are
  leased, the others are untouched, and the leased ones are returned in table order.\<close>

definition leased :: "env \<Rightarrow> nat \<times> task \<Rightarrow> task" where
  "leased e = (\<lambda>(k, t). lease_task e k (the (random_token e k)) t)"

lemma dispatch_exact:
  "dispatch e n i ts = (ts', queued, True) \<Longrightarrow>
   ts' = map (\<lambda>(k, t). if lease_due e n k t then leased e (k, t) else t) (enumerate i ts)
   \<and> queued = map (leased e) (filter (\<lambda>(k, t). lease_due e n k t) (enumerate i ts))
   \<and> (\<forall>(k, t) \<in> set (enumerate i ts). lease_due e n k t \<longrightarrow> random_token e k \<noteq> None)"
proof (induction e n i ts arbitrary: ts' queued rule: dispatch.induct)
  case (2 e n i t ts)
  obtain us qs ok where d: "dispatch e n (i + 1) ts = (us, qs, ok)" by (metis prod_cases3)
  show ?case
  proof (cases "lease_due e n i t")
    case True
    then obtain token where r: "random_token e i = Some token" "ok = True"
      using "2.prems" d by (auto split: option.splits simp: Let_def)
    have IH: "us = map (\<lambda>(k, t). if lease_due e n k t then leased e (k, t) else t) (enumerate (i + 1) ts)"
      "qs = map (leased e) (filter (\<lambda>(k, t). lease_due e n k t) (enumerate (i + 1) ts))"
      "\<forall>(k, t) \<in> set (enumerate (i + 1) ts). lease_due e n k t \<longrightarrow> random_token e k \<noteq> None"
      using "2.IH"(1) [OF True r(1)] d r(2) by auto
    then show ?thesis using "2.prems" True d r by (auto simp: Let_def leased_def)
  next
    case False
    then have ok: "ok = True" using "2.prems" d by (simp add: Let_def)
    have IH: "us = map (\<lambda>(k, t). if lease_due e n k t then leased e (k, t) else t) (enumerate (i + 1) ts)"
      "qs = map (leased e) (filter (\<lambda>(k, t). lease_due e n k t) (enumerate (i + 1) ts))"
      "\<forall>(k, t) \<in> set (enumerate (i + 1) ts). lease_due e n k t \<longrightarrow> random_token e k \<noteq> None"
      using "2.IH"(2) [OF False] d ok by auto
    then show ?thesis using "2.prems" False d by (auto simp: Let_def)
  qed
qed simp

text \<open>C12: Dispatch is leasing. When an agent is given tasks, the node it names in the query is
  registered, not revoked and fresh; the answer lists exactly the tasks that were due for that node
  (queued, or dispatched with a lease that is over), each now dispatched under a new random token
  with a lease of at least the default time; every other task - in particular one under a running
  lease, a finished one, or another node's - is as it was.\<close>

theorem agent_tasks_leases:
  assumes "agent_tasks path e st = ((''200 OK'', b), st')"
  shows "\<exists>n. query_field path ''node_id'' = Some n
     \<and> (\<exists>m \<in> set (nodes (store st)). nd_id m = n \<and> \<not> nd_revoked m \<and> node_is_fresh e 0 m)
     \<and> tasks (store st') = map (\<lambda>(k, t). if lease_due e n k t then leased e (k, t) else t)
                              (enumerate 0 (tasks (store st)))
     \<and> b = json_list (map task_json (map (leased e)
             (filter (\<lambda>(k, t). lease_due e n k t) (enumerate 0 (tasks (store st))))))
     \<and> (\<forall>(k, t) \<in> set (enumerate 0 (tasks (store st))). lease_due e n k t \<longrightarrow> random_token e k \<noteq> None)"
proof -
  obtain n where n: "query_field path ''node_id'' = Some n"
    using assms by (cases "query_field path ''node_id''") (auto simp: agent_tasks_def)
  have fresh: "\<exists>m \<in> set (nodes (store st)). nd_id m = n \<and> \<not> nd_revoked m \<and> node_is_fresh e 0 m"
    using assms by (auto simp: agent_tasks_def n list_ex_iff split: if_splits)
  obtain ts queued ok where d: "dispatch e n 0 (tasks (store st)) = (ts, queued, ok)" by (metis prod_cases3)
  have ok: "ok" and r: "b = json_list (map task_json queued)" "tasks (store st') = ts"
    using assms
    by (auto simp: agent_tasks_def n d Let_def secure_random_unavailable_def storage_unavailable_def
        persist_or_rollback_cases split: if_splits)
  show ?thesis using dispatch_exact [of e n 0 "tasks (store st)" ts queued] d ok r n fresh by simp
qed

theorem agent_tasks_leases_witness:
  "\<exists>b st'. agent_tasks ''/v1/agent/tasks?node_id=n1'' (sample_env (\<lambda>_. None) (\<lambda>_. Inl []) (\<lambda>_. None))
        (sample_state [sample_queued] []) = ((''200 OK'', b), st')
     \<and> tasks (store st') = [leased (sample_env (\<lambda>_. None) (\<lambda>_. Inl []) (\<lambda>_. None)) (0, sample_queued)]"
proof -
  let ?e = "sample_env (\<lambda>_. None) (\<lambda>_. Inl []) (\<lambda>_. None)" and ?p = "''/v1/agent/tasks?node_id=n1''"
  have q: "query_field ?p ''node_id'' = Some ''n1''"
    by (simp add: query_field_def split_once_def str_split_def)
  have due: "lease_due ?e ''n1'' 0 sample_queued" by (simp add: lease_due_def sample_queued_def)
  have r: "random_token ?e 0 \<noteq> None" by (simp add: random_token_def sample_env_def)
  have f: "node_is_fresh ?e 0 sample_node"
    by (simp add: node_is_fresh_def sample_node_def sample_env_def saturating_add_def node_online_ttl_ms_def
        env_var_def word_le_nat_alt)
  have pers: "persist ?e s = Inr ()" for s by (simp add: sample_env_def)
  obtain b st' where a: "agent_tasks ?p ?e (sample_state [sample_queued] []) = ((''200 OK'', b), st')"
    using r f due pers
    by (auto simp: agent_tasks_def q sample_state_def sample_node_def persist_or_rollback_cases Let_def)
  show ?thesis using agent_tasks_leases [OF a] a q due by (auto simp: sample_state_def)
qed

section \<open>Admission\<close>

lemma resolve_actor_authenticated: "resolve_actor e body (Some a) = Some r \<Longrightarrow> r = a"
  by (auto simp: resolve_actor_def split: option.splits if_splits)

lemma read_task_request_fields:
  assumes "read_task_request body actor e st = (Inr rq, st1)"
  shows "resolve_actor e body actor = Some (rq_actor rq)"
    and "rq_node_id rq = field_or (parse_json e) body ''node_id'' []"
    and "rq_idempotency_key rq = field_or (parse_json e) body ''idempotency_key'' []"
    and "rq_approval_id rq = json_field (parse_json e) body ''approval_id''"
proof -
  define Q where "Q out \<longleftrightarrow> (\<forall>rq st1. out = (Inr rq, st1) \<longrightarrow> resolve_actor e body actor = Some (rq_actor rq)
      \<and> rq_node_id rq = field_or (parse_json e) body ''node_id'' []
      \<and> rq_idempotency_key rq = field_or (parse_json e) body ''idempotency_key'' []
      \<and> rq_approval_id rq = json_field (parse_json e) body ''approval_id'')"
    for out :: "(response + task_request) \<times> state"
  obtain r st1 where r: "(case json_field (parse_json e) body ''request_id'' of
      Some r \<Rightarrow> (r, st) | None \<Rightarrow> take_id e 0 ''request'' st) = (r, st1)" by force
  have bad: "Q (Inl x, y)" for x y by (simp add: Q_def)
  have "Q (read_task_request body actor e st)"
    unfolding read_task_request_def Let_def r prod.case
    by (intro if_cases [where Q = Q] option_cases [where Q = Q] bad) (simp add: Q_def)
  then show "resolve_actor e body actor = Some (rq_actor rq)"
    "rq_node_id rq = field_or (parse_json e) body ''node_id'' []"
    "rq_idempotency_key rq = field_or (parse_json e) body ''idempotency_key'' []"
    "rq_approval_id rq = json_field (parse_json e) body ''approval_id''"
    using assms by (simp_all add: Q_def)
qed

text \<open>The stages that an accepted task has passed.\<close>

lemma create_task_stages:
  assumes "create_task_as body actor e st = ((''202 Accepted'', b), st')"
  obtains rq st1 st2 t where "read_task_request body actor e st = (Inr rq, st1)"
    and "idempotent_replay rq (tasks (store st1)) = None"
    and "admission_refusal e (policy st1) (nodes (store st1)) rq = None"
    and "check_approval body rq e st1 = Inr st2" and "enqueue_task e rq st2 = (t, st')"
    and "b = task_json t"
proof -
  obtain x st1 where x: "read_task_request body actor e st = (x, st1)" by force
  obtain rq where rq: "x = Inr rq"
    using assms read_task_request_ok [of st body actor e]
    by (cases x) (auto simp: create_task_as_def x read_only_result_def)
  have none: "idempotent_replay rq (tasks (store st1)) = None"
    using assms by (cases "idempotent_replay rq (tasks (store st1))")
      (auto simp: create_task_as_def x rq dest: idempotent_replay_status)
  have adm: "admission_refusal e (policy st1) (nodes (store st1)) rq = None"
    using assms by (cases "admission_refusal e (policy st1) (nodes (store st1)) rq")
      (auto simp: create_task_as_def x rq none dest: admission_refusal_status)
  obtain st2 where c: "check_approval body rq e st1 = Inr st2"
    using assms by (rule_tac check_approval_cases [OF refl, of body rq e st1])
      (auto simp: create_task_as_def x rq none adm)
  obtain t st3 where t: "enqueue_task e rq st2 = (t, st3)" by force
  have "b = task_json t \<and> st' = st3"
    using assms persisted_same_status [of e "store st1" "(''202 Accepted'', task_json t)" st3 "(''202 Accepted'', b)" st']
    by (auto simp: create_task_as_def x rq none adm c t)
  then show thesis using that [of rq st1 st2 t] x rq none adm c t by simp
qed

lemma no_task_with_key:
  assumes "idempotent_replay rq ts = None" and "rq_idempotency_key rq \<noteq> []" and "t \<in> set ts"
  shows "tk_idempotency_key t \<noteq> rq_idempotency_key rq"
proof -
  have "find (\<lambda>t. tk_idempotency_key t = rq_idempotency_key rq) ts = None"
    using assms(1,2) by (auto simp: idempotent_replay_def split: option.splits if_splits)
  then show ?thesis using assms(3) by (auto simp: find_None_iff)
qed

text \<open>What the admission checks establish, and what the approval step consumed.\<close>

definition admitted :: "env \<Rightarrow> policy \<Rightarrow> node list \<Rightarrow> task \<Rightarrow> bool" where
  "admitted e p ns t \<longleftrightarrow>
     (\<exists>n \<in> set ns. nd_id n = tk_node_id t \<and> node_is_fresh e 1 n)
   \<and> (\<exists>n \<in> set ns. nd_id n = tk_node_id t \<and> tk_ability t \<in> set (str_split (nd_abilities n) CHR '',''))
   \<and> tk_ability t \<in> set SUPPORTED_ABILITIES \<inter> set (allowed_abilities p)
   \<and> (allowed_actors p \<noteq> [] \<longrightarrow> tk_actor t \<in> set (allowed_actors p))
   \<and> (tk_ability t = ''task.exec'' \<and> allowed_commands p \<noteq> [] \<longrightarrow> tk_program t \<in> set (allowed_commands p))
   \<and> (tk_ability t \<in> {''file.read'', ''file.write''} \<longrightarrow> policy_allows_path (tk_program t) (allowed_paths p))
   \<and> (\<exists>n \<in> set ns. nd_id n = tk_node_id t
        \<and> (allowed_data_classes p \<noteq> [] \<longrightarrow> nd_data_class n \<in> set (allowed_data_classes p)))"

lemma admission_admits:
  assumes "admission_refusal e p ns rq = None"
  shows "admitted e p ns (queued_task i rq)"
proof -
  obtain m where m: "find (\<lambda>n. nd_id n = rq_node_id rq) ns = Some m"
    using assms by (cases "find (\<lambda>n. nd_id n = rq_node_id rq) ns")
      (auto simp: admission_refusal_def find_None_iff list_ex_iff split: if_splits)
  have "\<exists>n \<in> set ns. nd_id n = rq_node_id rq \<and> (allowed_data_classes p \<noteq> [] \<longrightarrow> nd_data_class n \<in> set (allowed_data_classes p))"
    using assms find_SomeD [OF m] by (intro bexI [of _ m]) (auto simp: admission_refusal_def m split: if_splits)
  moreover have "rq_ability rq \<in> set SUPPORTED_ABILITIES" using assms by (rule admission_supported)
  ultimately show ?thesis
    using assms
    by (auto simp: admitted_def queued_task_def admission_refusal_def list_ex_iff policy_denied_def split: if_splits)
qed

definition approved :: "env \<Rightarrow> string \<Rightarrow> state \<Rightarrow> task \<Rightarrow> string option \<Rightarrow> approval list \<Rightarrow> bool" where
  "approved e body st t approval_id after \<longleftrightarrow>
     (if require_approval_records st then
        (\<exists>k < length (approvals (store st)). let a = approvals (store st) ! k in
           approval_id = Some (ap_id a) \<and> ap_node_id a = tk_node_id t \<and> ap_ability a = tk_ability t
         \<and> ap_program a = tk_program t \<and> ap_argument a = tk_argument t \<and> ap_actor a = tk_actor t
         \<and> \<not> ap_used a \<and> clk e 2 < ap_expires_at a
         \<and> after = (approvals (store st))[k := a\<lparr>ap_used := True\<rparr>])
      else json_true (parse_json e) body ''approved'')"

lemma check_approval_approves:
  assumes "check_approval body rq e st = Inr st2" and "needs_approval (policy st) rq"
  shows "approved e body st (queued_task i rq) (rq_approval_id rq) (approvals (store st2))"
proof (cases "require_approval_records st")
  case True
  then obtain j a where j: "rq_approval_id rq = Some j"
      "find (approval_matches e rq j) (approvals (store st)) = Some a"
    using assms by (auto simp: check_approval_def split: option.splits)
  obtain k where k: "k < length (approvals (store st))" "approvals (store st) ! k = a" "approval_matches e rq j a"
      "update_first (approval_matches e rq j) (\<lambda>a. a\<lparr>ap_used := True\<rparr>) (approvals (store st))
       = (approvals (store st))[k := a\<lparr>ap_used := True\<rparr>]"
    using update_first_at [OF j(2), of "\<lambda>a. a\<lparr>ap_used := True\<rparr>"] by blast
  have "approvals (store st2) = (approvals (store st))[k := a\<lparr>ap_used := True\<rparr>]"
    using assms True j k(4) by (auto simp: check_approval_def)
  then show ?thesis using True k j(1)
    by (auto simp: approved_def approval_matches_def queued_task_def Let_def)
next
  case False
  then show ?thesis using assms by (auto simp: check_approval_def approved_def split: if_splits)
qed

text \<open>C9: Nothing is enqueued that was not admitted. When creating a task answers 202, exactly one
  task was appended, queued and unleased; its actor is the authenticated one; its node is registered
  and fresh and offers the ability; abilities, actors, commands, paths and data classes of the policy
  all allow it; no earlier task has its idempotency key; and if it runs a command, or the policy asks
  for approval of its ability, a matching unexpired approval was unused and is now spent (or, without
  approval records, the request said \<open>approved\<close>). Node records are untouched.\<close>

theorem create_task_admission:
  assumes "create_task_as body actor e st = ((''202 Accepted'', b), st')"
  shows "\<exists>t. tasks (store st') = tasks (store st) @ [t] \<and> b = task_json t
     \<and> tk_state t = ''queued'' \<and> tk_lease_token t = [] \<and> tk_lease_until t = 0
     \<and> (case actor of None \<Rightarrow> True | Some a \<Rightarrow> tk_actor t = a)
     \<and> admitted e (policy st) (nodes (store st)) t
     \<and> (\<forall>s \<in> set (tasks (store st)). tk_idempotency_key s = tk_idempotency_key t \<longrightarrow> tk_idempotency_key t = [])
     \<and> (tk_ability t = ''task.exec'' \<or> tk_ability t \<in> set (approval_required (policy st)) \<longrightarrow>
          approved e body st t (json_field (parse_json e) body ''approval_id'') (approvals (store st')))
     \<and> nodes (store st') = nodes (store st)"
proof -
  obtain rq st1 st2 t where s: "read_task_request body actor e st = (Inr rq, st1)"
    "idempotent_replay rq (tasks (store st1)) = None"
    "admission_refusal e (policy st1) (nodes (store st1)) rq = None"
    "check_approval body rq e st1 = Inr st2" "enqueue_task e rq st2 = (t, st')" "b = task_json t"
    using create_task_stages [OF assms] by blast
  note cfg = read_task_request_InrD [OF s(1)] and f = read_task_request_fields [OF s(1)]
    and tk = enqueue_task_ok [OF s(5)]
  have st1: "policy st1 = policy st" "require_approval_records st1 = require_approval_records st"
    using cfg(2) by (cases st; cases st1; simp add: same_config_def)+
  have st2: "tasks (store st2) = tasks (store st1)" "nodes (store st2) = nodes (store st1)"
    using s(4) by (rule_tac check_approval_cases [OF refl, of body rq e st1]; auto)+
  have t: "tk_actor t = rq_actor rq" "tk_ability t = rq_ability rq" "tk_idempotency_key t = rq_idempotency_key rq"
    "tk_state t = ''queued''" "tk_lease_token t = []" "tk_lease_until t = 0"
    by (subst tk(1), simp add: queued_task_def)+
  have adm: "admitted e (policy st) (nodes (store st)) t"
    using admission_admits [OF s(3), of "tk_id t"] tk(1) st1(1) cfg(3) by simp
  have keys: "\<forall>s \<in> set (tasks (store st)). tk_idempotency_key s = tk_idempotency_key t \<longrightarrow> tk_idempotency_key t = []"
    using no_task_with_key [OF s(2)] cfg(3) t(3) by auto
  have app: "approved e body st t (json_field (parse_json e) body ''approval_id'') (approvals (store st'))"
    if "tk_ability t = ''task.exec'' \<or> tk_ability t \<in> set (approval_required (policy st))"
  proof -
    have "needs_approval (policy st1) rq" using that t(2) st1(1) by (simp add: needs_approval_def)
    moreover have "approved e body st1 x y z = approved e body st x y z" for x y z
      by (simp add: approved_def st1 cfg(3))
    ultimately show ?thesis
      using check_approval_approves [OF s(4), of "tk_id t"] by (simp only: tk(1) [symmetric] tk(5) f(4))
  qed
  have act: "case actor of None \<Rightarrow> True | Some a \<Rightarrow> tk_actor t = a"
    using f(1) t(1) resolve_actor_authenticated by (auto split: option.splits)
  show ?thesis
    using tk(3,4) st2 cfg(3) s(6) t adm keys app act by (intro exI [of _ t]) simp
qed

definition sample_task_env :: env where
  "sample_task_env = sample_env (\<lambda>_. None) (\<lambda>_. Inl []) (\<lambda>_. Some (JObject
     [(''node_id'', JString ''n1''), (''ability'', JString ''task.exec''), (''approved'', JBool True),
      (''request_id'', JString ''r1''), (''idempotency_key'', JString ''k1'')]))"

lemma sample_task_fields:
  "json_types_valid (parse_json sample_task_env) [] [''node_id'', ''request_id'', ''actor'', ''ability'',
      ''idempotency_key'', ''program'', ''argument'', ''approval_id''] [''timeout_ms'', ''output_limit''] [''approved'']"
  "json_field (parse_json sample_task_env) [] ''request_id'' = Some ''r1''"
  "json_field (parse_json sample_task_env) [] ''actor'' = None"
  "number_or sample_task_env [] ''timeout_ms'' d = Some d" "number_or sample_task_env [] ''output_limit'' d = Some d"
  "json_field (parse_json sample_task_env) [] ''node_id'' = Some ''n1''"
  "json_field (parse_json sample_task_env) [] ''ability'' = Some ''task.exec''"
  "json_field (parse_json sample_task_env) [] ''idempotency_key'' = Some ''k1''"
  "json_field (parse_json sample_task_env) [] ''program'' = None"
  "json_field (parse_json sample_task_env) [] ''argument'' = None"
  "json_field (parse_json sample_task_env) [] ''approval_id'' = None"
  "json_true (parse_json sample_task_env) [] ''approved''"
  by (simp_all add: sample_task_env_def sample_env_def json_types_valid_def none_or_def
      json_field_def parse_json_object_def number_or_def json_key_present_def json_true_def) blast

lemma sample_read_task: "read_task_request [] None sample_task_env st = (Inr
     \<lparr>rq_node_id = ''n1'', rq_request_id = ''r1'', rq_actor = ''admin'', rq_ability = ''task.exec'',
      rq_idempotency_key = ''k1'', rq_program = ''echo'', rq_argument = [], rq_approval_id = None,
      rq_timeout_ms = DEFAULT_TASK_TIMEOUT_MS, rq_output_limit = MAX_TASK_OUTPUT_LIMIT\<rparr>, st)"
proof -
  have n: "unat (word_of_nat MAX_TASK_OUTPUT_LIMIT :: u64) = MAX_TASK_OUTPUT_LIMIT"
    by (simp add: MAX_TASK_OUTPUT_LIMIT_def unat_of_nat)
  have v: "valid_node_id ''r1''" "valid_node_id ''admin''" "0 < MAX_TASK_OUTPUT_LIMIT"
    "\<not> MAX_TASK_TIMEOUT_MS < DEFAULT_TASK_TIMEOUT_MS" "DEFAULT_TASK_TIMEOUT_MS \<noteq> 0"
    by (simp_all add: valid_node_id_def ascii_simps MAX_TASK_OUTPUT_LIMIT_def MAX_TASK_TIMEOUT_MS_def
        DEFAULT_TASK_TIMEOUT_MS_def)
  show ?thesis
    by (simp add: read_task_request_def sample_task_fields resolve_actor_def n v field_or_def)
qed

lemma sample_create_task:
  "\<exists>b st'. create_task_as [] None sample_task_env (sample_state [] []) = ((''202 Accepted'', b), st')"
proof -
  have f: "node_is_fresh sample_task_env 1 sample_node"
    by (simp add: node_is_fresh_def sample_node_def sample_task_env_def sample_env_def saturating_add_def
        node_online_ttl_ms_def env_var_def word_le_nat_alt)
  have sp: "str_split ''task.exec'' CHR '','' = [''task.exec'']" by (simp add: str_split_def)
  have pers: "persist sample_task_env s = Inr ()" for s by (simp add: sample_task_env_def sample_env_def)
  show ?thesis
    unfolding create_task_as_def sample_read_task
    using f sp pers sample_task_fields(12)
    by (auto simp: sample_state_def sample_node_def idempotent_replay_def admission_refusal_def
        default_policy_def SUPPORTED_ABILITIES_def check_approval_def needs_approval_def
        persist_or_rollback_cases split: prod.splits)
qed

theorem create_task_admission_witness:
  "\<exists>b st' t. create_task_as [] None sample_task_env (sample_state [] []) = ((''202 Accepted'', b), st')
     \<and> tasks (store st') = [t] \<and> admitted sample_task_env default_policy [sample_node] t"
proof -
  obtain b st' where r: "create_task_as [] None sample_task_env (sample_state [] []) = ((''202 Accepted'', b), st')"
    using sample_create_task by blast
  show ?thesis using create_task_admission [OF r] r by (auto simp: sample_state_def)
qed

section \<open>Retries and results\<close>

text \<open>Reading the same body again gives the same request, up to a generated request identifier.\<close>

lemma read_task_request_again:
  assumes "read_task_request body actor e st = (Inr rq, st1)" and pj: "parse_json e2 = parse_json e"
  shows "\<exists>r st3. read_task_request body actor e2 st2 = (Inr (rq\<lparr>rq_request_id := r\<rparr>), st3) \<and> store st3 = store st2"
proof -
  have act: "resolve_actor e2 = resolve_actor e" and num: "number_or e2 = number_or e"
    by (simp_all add: fun_eq_iff resolve_actor_def number_or_def pj)
  define r where "r = (case json_field (parse_json e) body ''request_id'' of
      Some r \<Rightarrow> r | None \<Rightarrow> new_id e2 0 ''request'' (next_seq st2))"
  define st3 where "st3 = (case json_field (parse_json e) body ''request_id'' of
      Some r \<Rightarrow> st2 | None \<Rightarrow> snd (take_id e2 0 ''request'' st2))"
  have tid: "(case json_field (parse_json e) body ''request_id'' of
      Some r \<Rightarrow> (r, st2) | None \<Rightarrow> take_id e2 0 ''request'' st2) = (r, st3)"
    by (auto simp: r_def st3_def take_id_def split: option.splits)
  obtain r0 where r0: "(case json_field (parse_json e) body ''request_id'' of
      Some r \<Rightarrow> (r, st) | None \<Rightarrow> take_id e 0 ''request'' st) = (r0, st1)"
    and v0: "valid_node_id r0" and same: "json_field (parse_json e) body ''request_id'' = Some r0
        \<or> json_field (parse_json e) body ''request_id'' = None"
    using assms(1) by (auto simp: read_task_request_def Let_def split: if_splits option.splits prod.splits)
  have v: "valid_node_id r"
    using v0 same new_id_valid [of "''request''" e2 0 "next_seq st2"] by (auto simp: r_def ascii_simps)
  have "read_task_request body actor e2 st2 = (Inr (rq\<lparr>rq_request_id := r\<rparr>), st3)"
    using assms(1) v unfolding read_task_request_def pj act num tid r0 Let_def prod.case
    by (auto split: if_splits option.splits)
  moreover have "store st3 = store st2" by (simp add: st3_def split: option.splits)
  ultimately show ?thesis by blast
qed

text \<open>A retried request is not enqueued twice. Once a request with an idempotency key has been
  accepted, the same body from the same caller, at any later time and whatever has happened to the
  store in between, is answered 200 with that task as it is then, and leaves the store alone.\<close>

theorem create_task_retry:
  assumes "create_task_as body actor e st = ((''202 Accepted'', b), st')"
    and "field_or (parse_json e) body ''idempotency_key'' [] \<noteq> []"
    and "parse_json e2 = parse_json e" and "store_evolves (store st') (store st2)"
  shows "length (tasks (store st)) < length (tasks (store st2))
     \<and> task_evolves (last (tasks (store st'))) (tasks (store st2) ! length (tasks (store st)))
     \<and> fst (create_task_as body actor e2 st2)
         = (''200 OK'', task_json (tasks (store st2) ! length (tasks (store st))))
     \<and> store (snd (create_task_as body actor e2 st2)) = store st2"
proof -
  obtain rq st1 sta t where s: "read_task_request body actor e st = (Inr rq, st1)"
    "idempotent_replay rq (tasks (store st1)) = None"
    "admission_refusal e (policy st1) (nodes (store st1)) rq = None"
    "check_approval body rq e st1 = Inr sta" "enqueue_task e rq sta = (t, st')" "b = task_json t"
    using create_task_stages [OF assms(1)] by blast
  note cfg = read_task_request_InrD [OF s(1)] and tk = enqueue_task_ok [OF s(5)]
  have key: "rq_idempotency_key rq \<noteq> []" using read_task_request_fields(3) [OF s(1)] assms(2) by simp
  have "tasks (store sta) = tasks (store st1)"
    using s(4) by (rule_tac check_approval_cases [OF refl, of body rq e st1]; auto)
  then have ts: "tasks (store st') = tasks (store st) @ [t]" using tk(3) cfg(3) by simp
  let ?i = "length (tasks (store st))" and ?ts = "tasks (store st2)"
  have g: "length (tasks (store st')) \<le> length ?ts"
    "\<forall>j < length (tasks (store st')). task_evolves (tasks (store st') ! j) (?ts ! j)"
    using assms(4) by (auto simp: store_evolves_def task_table.grows_nth)
  have i: "?i < length ?ts" using g(1) ts by simp
  have tf: "tk_node_id t = rq_node_id rq" "tk_actor t = rq_actor rq" "tk_ability t = rq_ability rq"
    "tk_program t = rq_program rq" "tk_argument t = rq_argument rq" "tk_timeout_ms t = rq_timeout_ms rq"
    "tk_idempotency_key t = rq_idempotency_key rq"
    by (subst tk(1), simp add: queued_task_def)+
  have ti: "task_evolves t (?ts ! ?i)" using g(2) ts by (auto simp: nth_append)
  then have new: "tk_node_id (?ts ! ?i) = rq_node_id rq" "tk_actor (?ts ! ?i) = rq_actor rq"
    "tk_ability (?ts ! ?i) = rq_ability rq" "tk_program (?ts ! ?i) = rq_program rq"
    "tk_argument (?ts ! ?i) = rq_argument rq" "tk_timeout_ms (?ts ! ?i) = rq_timeout_ms rq"
    "tk_idempotency_key (?ts ! ?i) = rq_idempotency_key rq"
    using tf by (simp_all add: task_evolves_def)
  have old: "tk_idempotency_key (?ts ! j) \<noteq> rq_idempotency_key rq" if "j < ?i" for j
  proof -
    have "task_evolves (tasks (store st) ! j) (?ts ! j)" using g(2) [rule_format, of j] that ts by (simp add: nth_append)
    moreover have "tk_idempotency_key (tasks (store st) ! j) \<noteq> rq_idempotency_key rq"
      using no_task_with_key [OF s(2) key] that cfg(3) by simp
    ultimately show ?thesis by (simp add: task_evolves_def)
  qed
  have f: "find (\<lambda>t. tk_idempotency_key t = rq_idempotency_key rq) ?ts = Some (?ts ! ?i)"
    using i new(7) old by (auto simp: find_Some_iff)
  obtain r st3 where r: "read_task_request body actor e2 st2 = (Inr (rq\<lparr>rq_request_id := r\<rparr>), st3)"
    "store st3 = store st2" using read_task_request_again [OF s(1) assms(3)] by blast
  have "idempotent_replay (rq\<lparr>rq_request_id := r\<rparr>) ?ts = Some (''200 OK'', task_json (?ts ! ?i))"
    using key new by (simp add: idempotent_replay_def f)
  then show ?thesis using i ti r ts by (simp add: create_task_as_def)
qed

theorem create_task_retry_witness:
  "\<exists>b st' b2. create_task_as [] None sample_task_env (sample_state [] []) = ((''202 Accepted'', b), st')
     \<and> fst (create_task_as [] None sample_task_env st') = (''200 OK'', b2)"
proof -
  obtain b st' where r: "create_task_as [] None sample_task_env (sample_state [] []) = ((''202 Accepted'', b), st')"
    using sample_create_task by blast
  have "field_or (parse_json sample_task_env) [] ''idempotency_key'' [] \<noteq> []"
    by (simp add: field_or_def sample_task_fields)
  from create_task_retry [OF r this refl store_evolves_refl] show ?thesis using r by simp
qed

text \<open>The stages that an accepted result has passed.\<close>

lemma agent_result_stages:
  assumes "agent_result path body e st = ((''200 OK'', b), st')"
  obtains t digest where
    "find (\<lambda>t. tk_id t = path_argument ''/v1/agent/tasks/'' ''/result'' path
        \<and> tk_node_id t = field_or (parse_json e) body ''node_id'' []) (tasks (store st)) = Some t"
    and "tk_state t = ''dispatched''" and "clk e 0 \<le> tk_lease_until t" and "tk_lease_token t \<noteq> []"
    and "constant_time_eq (tk_lease_token t) (field_or (parse_json e) body ''lease_token'' [])"
    and "field_or (parse_json e) body ''state'' ''failed'' \<in> terminal_states"
    and "checked_digest e body (field_or (parse_json e) body ''output'' []) = Some digest"
    and "none_or (\<lambda>r. r = tk_request_id t) (json_field (parse_json e) body ''request_id'')"
    and "st' = push_audit e 1 ''task.completed'' (Some (field_or (parse_json e) body ''node_id'' []))
           (Some (path_argument ''/v1/agent/tasks/'' ''/result'' path))
           (Some (field_or (parse_json e) body ''node_id'' []))
           (update_task (\<lambda>t. tk_id t = path_argument ''/v1/agent/tasks/'' ''/result'' path
               \<and> tk_node_id t = field_or (parse_json e) body ''node_id'' [])
             (complete_task (field_or (parse_json e) body ''state'' ''failed'')
               (field_or (parse_json e) body ''output'' []) digest
               (Option.bind (json_field (parse_json e) body ''exit_code'') parse_i32)) st)"
    and "b = task_json (complete_task (field_or (parse_json e) body ''state'' ''failed'')
               (field_or (parse_json e) body ''output'' []) digest
               (Option.bind (json_field (parse_json e) body ''exit_code'') parse_i32) t)"
proof -
  obtain digest where d: "checked_digest e body (field_or (parse_json e) body ''output'' []) = Some digest"
    and a: "accept_result (path_argument ''/v1/agent/tasks/'' ''/result'' path)
       (field_or (parse_json e) body ''node_id'' []) (json_field (parse_json e) body ''request_id'')
       (field_or (parse_json e) body ''lease_token'' []) (field_or (parse_json e) body ''state'' ''failed'')
       (field_or (parse_json e) body ''output'' []) digest
       (Option.bind (json_field (parse_json e) body ''exit_code'') parse_i32) e st = ((''200 OK'', b), st')"
    using assms by (auto simp: agent_result_def Let_def split: if_splits option.splits)
  show thesis
    using a d that
    by (auto simp: accept_result_def Let_def terminal_states_def none_or_def not_less
        split: if_splits option.splits dest!: persisted_same_status)
qed

text \<open>C10: Only the holder of the lease finishes a task, and only in time. When a result is accepted,
  the task named by the path and the node was dispatched under a lease that is not over, the request
  presented its lease token (and its request identifier, if any), the reported state is a final one,
  and a reported digest was the SHA-256 of the output; exactly that task changes: it takes the state,
  the digest of the full output, the longest whole-character preview within its own limit and 4 KiB,
  and says whether something was cut.\<close>

theorem agent_result_fenced:
  assumes "agent_result path body e st = ((''200 OK'', b), st')"
  shows "\<exists>k < length (tasks (store st)). let t = tasks (store st) ! k;
       output = field_or (parse_json e) body ''output'' [];
       limit = min (tk_output_limit t) MAX_PERSISTED_OUTPUT_BYTES;
       t' = t\<lparr>tk_state := field_or (parse_json e) body ''state'' ''failed'',
              tk_output := truncate_utf8 output limit,
              tk_output_sha256 := hex_encode_bytes (sha256 (as_bytes output)),
              tk_output_truncated := limit < length output,
              tk_exit_code := Option.bind (json_field (parse_json e) body ''exit_code'') parse_i32\<rparr> in
       tk_id t = path_argument ''/v1/agent/tasks/'' ''/result'' path
     \<and> tk_node_id t = field_or (parse_json e) body ''node_id'' []
     \<and> tk_state t = ''dispatched'' \<and> clk e 0 \<le> tk_lease_until t
     \<and> tk_lease_token t \<noteq> [] \<and> constant_time_eq (tk_lease_token t) (field_or (parse_json e) body ''lease_token'' [])
     \<and> none_or (\<lambda>r. r = tk_request_id t) (json_field (parse_json e) body ''request_id'')
     \<and> none_or (\<lambda>v. constant_time_eq (to_ascii_lowercase v) (tk_output_sha256 t')) (json_field (parse_json e) body ''output_sha256'')
     \<and> tk_state t' \<in> terminal_states \<and> b = task_json t'
     \<and> tasks (store st') = (tasks (store st))[k := t'] \<and> nodes (store st') = nodes (store st)"
proof (rule agent_result_stages [OF assms])
  fix t digest
  let ?here = "\<lambda>t. tk_id t = path_argument ''/v1/agent/tasks/'' ''/result'' path
        \<and> tk_node_id t = field_or (parse_json e) body ''node_id'' []"
  assume s: "find ?here (tasks (store st)) = Some t" "tk_state t = ''dispatched''" "clk e 0 \<le> tk_lease_until t"
    "tk_lease_token t \<noteq> []" "constant_time_eq (tk_lease_token t) (field_or (parse_json e) body ''lease_token'' [])"
    "field_or (parse_json e) body ''state'' ''failed'' \<in> terminal_states"
    "checked_digest e body (field_or (parse_json e) body ''output'' []) = Some digest"
    "none_or (\<lambda>r. r = tk_request_id t) (json_field (parse_json e) body ''request_id'')"
    "st' = push_audit e 1 ''task.completed'' (Some (field_or (parse_json e) body ''node_id'' []))
           (Some (path_argument ''/v1/agent/tasks/'' ''/result'' path))
           (Some (field_or (parse_json e) body ''node_id'' []))
           (update_task ?here (complete_task (field_or (parse_json e) body ''state'' ''failed'')
               (field_or (parse_json e) body ''output'' []) digest
               (Option.bind (json_field (parse_json e) body ''exit_code'') parse_i32)) st)"
    "b = task_json (complete_task (field_or (parse_json e) body ''state'' ''failed'')
               (field_or (parse_json e) body ''output'' []) digest
               (Option.bind (json_field (parse_json e) body ''exit_code'') parse_i32) t)"
  have dg: "digest = hex_encode_bytes (sha256 (as_bytes (field_or (parse_json e) body ''output'' [])))"
    "none_or (\<lambda>v. constant_time_eq (to_ascii_lowercase v) digest) (json_field (parse_json e) body ''output_sha256'')"
    using s(7) by (auto simp: checked_digest_def Let_def none_or_def split: option.splits if_splits)
  obtain k where "k < length (tasks (store st))" "tasks (store st) ! k = t" "?here t"
    "\<forall>f. update_first ?here f (tasks (store st)) = (tasks (store st))[k := f t]"
    using update_first_position [OF s(1)] by blast
  then show ?thesis using s dg
    by (intro exI [of _ k]) (simp add: Let_def complete_task_def)
qed

definition sample_leased :: task where
  "sample_leased = sample_queued\<lparr>tk_state := ''dispatched'', tk_lease_until := 200, tk_lease_token := ''tok''\<rparr>"

definition sample_result_env :: env where
  "sample_result_env = sample_env (\<lambda>_. None) (\<lambda>_. Inl []) (\<lambda>_. Some (JObject
     [(''node_id'', JString ''n1''), (''lease_token'', JString ''tok''), (''state'', JString ''succeeded''),
      (''output'', JString ''hi'')]))"

lemma sample_result_fields:
  "json_types_valid (parse_json sample_result_env) [] [''node_id'', ''request_id'', ''lease_token'', ''state'',
      ''output'', ''output_sha256'', ''exit_code''] [] []"
  "json_field (parse_json sample_result_env) [] ''request_id'' = None"
  "json_field (parse_json sample_result_env) [] ''output_sha256'' = None"
  "json_field (parse_json sample_result_env) [] ''exit_code'' = None"
  "field_or (parse_json sample_result_env) [] ''node_id'' d = ''n1''"
  "field_or (parse_json sample_result_env) [] ''lease_token'' d = ''tok''"
  "field_or (parse_json sample_result_env) [] ''state'' d = ''succeeded''"
  by (simp_all add: sample_result_env_def sample_env_def json_types_valid_def none_or_def
      json_field_def parse_json_object_def field_or_def)

lemma sample_result_path: "path_argument ''/v1/agent/tasks/'' ''/result'' ''/v1/agent/tasks/t1/result'' = ''t1''"
proof -
  have a: "trim_start_matches ''/v1/agent/tasks/'' ''/v1/agent/tasks/t1/result'' = ''t1/result''"
    using trim_start_matches_step [of "''/v1/agent/tasks/''" "''t1/result''"]
    by (simp add: trim_start_matches_stop)
  have b: "trim_end_matches ''/result'' ''t1/result'' = ''t1''"
    using trim_end_matches_step [of "''/result''" "''t1''"] by (simp add: trim_end_matches_stop suffix_def)
  have c: "trim_end_matches ''/'' ''t1'' = ''t1''" by (simp add: trim_end_matches_stop suffix_def)
  show ?thesis by (simp add: path_argument_def a b c)
qed

lemma sample_result:
  "\<exists>b st'. agent_result ''/v1/agent/tasks/t1/result'' [] sample_result_env (sample_state [sample_leased] [])
     = ((''200 OK'', b), st')"
proof -
  have c: "checked_digest sample_result_env [] x \<noteq> None" for x
    by (simp add: checked_digest_def sample_result_fields Let_def)
  have t: "constant_time_eq ''tok'' ''tok''" by (rule constant_time_eq_same) simp
  have k: "clk sample_result_env k = 100" "persist sample_result_env s = Inr ()" for k s
    by (simp_all add: sample_result_env_def sample_env_def)
  show ?thesis
    using c [of "field_or (parse_json sample_result_env) [] ''output'' []"] t k
    by (auto simp: agent_result_def Let_def sample_result_path sample_result_fields accept_result_def
        sample_state_def sample_leased_def sample_queued_def persist_or_rollback_cases)
qed

theorem agent_result_fenced_witness:
  "\<exists>b st'. agent_result ''/v1/agent/tasks/t1/result'' [] sample_result_env (sample_state [sample_leased] [])
       = ((''200 OK'', b), st')
     \<and> map tk_state (tasks (store st')) = [''succeeded'']"
proof -
  obtain b st' where r: "agent_result ''/v1/agent/tasks/t1/result'' [] sample_result_env
      (sample_state [sample_leased] []) = ((''200 OK'', b), st')" using sample_result by blast
  show ?thesis using agent_result_fenced [OF r] r
    by (auto simp: sample_state_def Let_def sample_result_fields)
qed

text \<open>C11: A result counts once. After a result for a task has been accepted, no result for the same
  task and node is ever accepted again, whatever happens to the store in between and whatever lease
  token it presents.\<close>

theorem agent_result_once:
  assumes "agent_result path body e st = ((''200 OK'', b), st')"
    and "store_evolves (store st') (store st2)"
    and "path_argument ''/v1/agent/tasks/'' ''/result'' path2 = path_argument ''/v1/agent/tasks/'' ''/result'' path"
    and "field_or (parse_json e2) body2 ''node_id'' [] = field_or (parse_json e) body ''node_id'' []"
  shows "fst (fst (agent_result path2 body2 e2 st2)) \<noteq> ''200 OK''"
proof
  assume "fst (fst (agent_result path2 body2 e2 st2)) = ''200 OK''"
  then obtain b2 st3 where again: "agent_result path2 body2 e2 st2 = ((''200 OK'', b2), st3)"
    by (metis prod.collapse)
  define here :: "task \<Rightarrow> bool" where "here = (\<lambda>t. tk_id t = path_argument ''/v1/agent/tasks/'' ''/result'' path
        \<and> tk_node_id t = field_or (parse_json e) body ''node_id'' [])"
  obtain t c where t: "find here (tasks (store st)) = Some t"
    "tasks (store st') = update_first here c (tasks (store st))"
    "tk_state (c t) \<in> terminal_states" "here (c t) = here t"
    by (rule agent_result_stages [OF assms(1)], fold here_def)
       (auto simp: complete_task_def Let_def here_def intro!: that)
  obtain u where u: "find here (tasks (store st2)) = Some u" "tk_state u = ''dispatched''"
    using agent_result_stages [OF again] unfolding assms(3,4) here_def by blast
  obtain k where k: "k < length (tasks (store st))" "tasks (store st) ! k = t" "here t"
    "\<forall>j < k. \<not> here (tasks (store st) ! j)" "tasks (store st') = (tasks (store st))[k := c t]"
    using update_first_position [OF t(1)] t(2) by auto
  have g: "task_evolves (tasks (store st') ! j) (tasks (store st2) ! j)"
      "j < length (tasks (store st2))" if "j \<le> k" for j
    using assms(2) that k(1,5) by (auto simp: store_evolves_def task_table.grows_nth)
  have stable: "here y = here x" if "task_evolves x y" for x y
    using that by (simp add: task_evolves_def here_def)
  have at_k: "tasks (store st2) ! k = c t"
    using g(1) [of k] k(1,5) t(3) by (simp add: task_evolves_def)
  have "\<not> here (tasks (store st2) ! j)" if "j < k" for j
    using stable [OF g(1), of j] k(4,5) that by simp
  then have "find here (tasks (store st2)) = Some (c t)"
    using at_k g(2) [of k] t(4) k(3) by (auto simp: find_Some_iff)
  then show False using u t(3) by (auto simp: terminal_states_def)
qed

theorem agent_result_once_witness:
  "\<exists>b st'. agent_result ''/v1/agent/tasks/t1/result'' [] sample_result_env (sample_state [sample_leased] [])
       = ((''200 OK'', b), st')
     \<and> fst (fst (agent_result ''/v1/agent/tasks/t1/result'' [] sample_result_env st')) \<noteq> ''200 OK''"
proof -
  obtain b st' where r: "agent_result ''/v1/agent/tasks/t1/result'' [] sample_result_env
      (sample_state [sample_leased] []) = ((''200 OK'', b), st')" using sample_result by blast
  from agent_result_once [OF r store_evolves_refl refl refl] r show ?thesis by blast
qed

text \<open>Cancelling is for the owner and is final. A user can only cancel a task of their own that is
  not finished; then exactly that task is cancelled and its lease ended, and no result for it is
  accepted any more in the state this leaves.\<close>

theorem cancel_task_own:
  assumes "cancel_task_as path actor e st = ((''200 OK'', b), st')"
  shows "\<exists>k < length (tasks (store st)). let t = tasks (store st) ! k in
       tk_id t = path_argument ''/v1/tasks/'' ''/cancel'' path
     \<and> (case actor of None \<Rightarrow> True | Some a \<Rightarrow> tk_actor t = a)
     \<and> tk_state t \<notin> terminal_states \<and> b = task_json (cancel_task t)
     \<and> tasks (store st') = (tasks (store st))[k := t\<lparr>tk_state := ''cancelled'', tk_lease_until := 0\<rparr>]"
proof -
  let ?here = "\<lambda>t. tk_id t = path_argument ''/v1/tasks/'' ''/cancel'' path"
  obtain t where t: "find ?here (tasks (store st)) = Some t"
    "case actor of None \<Rightarrow> True | Some a \<Rightarrow> tk_actor t = a" "tk_state t \<notin> terminal_states"
    "b = task_json (cancel_task t)" "tasks (store st') = update_first ?here cancel_task (tasks (store st))"
    using assms
    by (auto simp: cancel_task_as_def Let_def split: if_splits option.splits dest!: persisted_same_status)
  then show ?thesis
    using update_first_position [OF t(1)] by (auto simp: Let_def cancel_task_def)
qed

theorem cancel_task_own_witness:
  "\<exists>b st'. cancel_task_as ''t1'' (Some ''admin'') sample_task_env (sample_state [sample_leased] [])
       = ((''200 OK'', b), st') \<and> map tk_state (tasks (store st')) = [''cancelled'']"
proof -
  have p: "path_argument ''/v1/tasks/'' ''/cancel'' ''t1'' = ''t1''"
    by (simp add: path_argument_def trim_start_matches_stop trim_end_matches_stop suffix_def)
  have "persist sample_task_env s = Inr ()" for s by (simp add: sample_task_env_def sample_env_def)
  then obtain b st' where r: "cancel_task_as ''t1'' (Some ''admin'') sample_task_env (sample_state [sample_leased] [])
       = ((''200 OK'', b), st')"
    by (auto simp: cancel_task_as_def p Let_def sample_state_def sample_leased_def sample_queued_def
        terminal_states_def persist_or_rollback_cases)
  show ?thesis using cancel_task_own [OF r] r by (auto simp: sample_state_def Let_def)
qed

end
