(* ===== verification/Server_Safety.thy ===== *)
theory Server_Safety
  imports Server_Frames Task_Safety
begin

text \<open>
  What the control plane guarantees as a whole, over the runs of \<open>Router\<close>: connections are runs,
  history is kept, only credentials act, agents cannot administer, revoked nodes stay out, tokens are
  authentic, answers tell the truth about durability.
\<close>

section \<open>Connections are runs\<close>

lemma message_reachable:
  "websocket_message msg n presented e st = (reply, st1) \<Longrightarrow> reachable st st1"
  by (rule reachable.step [OF reachable.start server_step.message])

lemma websocket_loop_reachable: "reachable st (fst (snd (websocket_loop es n presented stream st)))"
proof (induction "length stream" arbitrary: es stream st rule: less_induct)
  case less
  define Q where "Q x \<longleftrightarrow> reachable st (fst (snd x))" for x :: "bytes \<times> state \<times> channel_end"
  have stop: "Q (out, st, fin)" for out fin by (simp add: Q_def)
  have sent: "Q (out, st1, fin)" if "websocket_message msg n presented e st = (reply, st1)" for out fin msg e reply st1
    using message_reachable [OF that] by (simp add: Q_def)
  have on: "Q (websocket_loop es2 n presented rest st)" if "server_read_frame stream = Inr (Some (opcode, payload), rest)"
    for es2 opcode payload rest
    using less server_read_bounded [OF that] by (simp add: Q_def)
  have on1: "Q (out, st2, fin)" if "server_read_frame stream = Inr (Some (opcode, payload), rest)"
      "websocket_loop es2 n presented rest st = (outs, st2, fin)" for es2 opcode payload rest out outs st2 fin
    using less [of rest st es2] server_read_bounded [OF that(1)] that(2) by (simp add: Q_def)
  have on2: "Q (out, st2, fin)" if "server_read_frame stream = Inr (Some (opcode, payload), rest)"
      "websocket_message msg n presented e st = (reply, st1)"
      "websocket_loop es2 n presented rest st1 = (outs, st2, fin)"
    for es2 opcode payload rest out outs st1 st2 fin msg e reply
    using less [of rest st1 es2] server_read_bounded [OF that(1)] that(3) reachable_trans [OF _ message_reachable [OF that(2)]]
    by (simp add: Q_def)
  have "Q (websocket_loop es n presented stream st)"
    unfolding websocket_loop.simps [of es n presented stream st]
    by (intro if_cases [where Q = Q] option_cases [where Q = Q] sum_cases [where Q = Q] pair_cases [where Q = Q])
       (simp_all only: stop, (blast intro: stop sent on on1 on2)+)
  then show ?case by (simp add: Q_def)
qed

lemma handle_websocket_reachable:
  "handle_websocket sha1 es header path presented stream st = (out, st', fin) \<Longrightarrow> reachable st st'"
  using websocket_loop_reachable
  by (auto simp: handle_websocket_def Let_def split: option.splits if_splits prod.splits) (metis fst_conv snd_conv)

text \<open>The text frames a stream holds, with their position among all frames, up to the first frame that ends a
  channel; and the messages taken one after the other.\<close>

function text_frames :: "nat \<Rightarrow> bytes \<Rightarrow> (nat \<times> string) list" where
  "text_frames k stream =
     (case server_read_frame stream of
        Inl err \<Rightarrow> []
      | Inr (None, _) \<Rightarrow> []
      | Inr (Some (opcode, payload), rest) \<Rightarrow>
          if opcode = 1 then
            (case from_utf8 payload of None \<Rightarrow> [] | Some text \<Rightarrow> (k, text) # text_frames (Suc k) rest)
          else if opcode = 9 \<or> opcode = 10 then text_frames (Suc k) rest else [])"
  by pat_completeness auto
termination
  by (relation "measure (\<lambda>(k, stream). length stream)") (auto dest: server_read_bounded)

declare text_frames.simps [simp del]

definition take_messages :: "string \<Rightarrow> string \<Rightarrow> (nat \<Rightarrow> env) \<Rightarrow> (nat \<times> string) list \<Rightarrow> state \<Rightarrow> state" where
  "take_messages node presented es msgs st =
     foldl (\<lambda>s (k, text). snd (websocket_message text node presented (es k) s)) st msgs"

lemma take_messages_step:
  "take_messages node presented es ((k, text) # msgs) st
   = take_messages node presented es msgs (snd (websocket_message text node presented (es k) st))"
  by (simp add: take_messages_def)

text \<open>A channel takes the messages of its text frames, in order, none twice and none left out before the last.\<close>

lemma websocket_loop_messages:
  "\<exists>n. fst (snd (websocket_loop (\<lambda>j. es (k + j)) node presented stream st))
     = take_messages node presented es (take n (text_frames k stream)) st"
proof (induction "length stream" arbitrary: k stream st rule: less_induct)
  case less
  define Q where "Q x \<longleftrightarrow> (\<exists>n. fst (snd x) = take_messages node presented es (take n (text_frames k stream)) st)"
    for x :: "bytes \<times> state \<times> channel_end"
  have stop: "Q (out, st, fin)" for out fin
    unfolding Q_def by (rule exI [of _ 0]) (simp add: take_messages_def)
  have on: "Q (out, snd (websocket_loop (\<lambda>j. es (Suc (k + j))) node presented rest st))"
    and same: "Q (websocket_loop (\<lambda>j. es (Suc (k + j))) node presented rest st)"
    if "server_read_frame stream = Inr (Some (opcode, payload), rest)" "opcode = 9 \<or> opcode = 10" for opcode payload rest out
  proof -
    have "text_frames k stream = text_frames (Suc k) rest" using that by (subst text_frames.simps) auto
    then have "\<exists>n. fst (snd (websocket_loop (\<lambda>j. es (Suc (k + j))) node presented rest st))
        = take_messages node presented es (take n (text_frames k stream)) st"
      using less [of rest "Suc k" st] server_read_bounded [OF that(1)] by simp
    then show "Q (out, snd (websocket_loop (\<lambda>j. es (Suc (k + j))) node presented rest st))"
      "Q (websocket_loop (\<lambda>j. es (Suc (k + j))) node presented rest st)" by (simp_all add: Q_def)
  qed
  have one: "Q (out, snd (websocket_message msg node presented (es k) st), fin)"
    and more: "Q (out, snd (websocket_loop (\<lambda>j. es (Suc (k + j))) node presented rest
        (snd (websocket_message msg node presented (es k) st))))"
    if "server_read_frame stream = Inr (Some (1, payload), rest)" "from_utf8 payload = Some msg" for payload rest msg out fin
  proof -
    note frame = that
    have f: "text_frames k stream = (k, msg) # text_frames (Suc k) rest" using that by (subst text_frames.simps) simp
    show "Q (out, snd (websocket_message msg node presented (es k) st), fin)"
      unfolding Q_def f by (rule exI [of _ 1]) (simp add: take_messages_def)
    obtain n where "fst (snd (websocket_loop (\<lambda>j. es (Suc (k + j))) node presented rest
        (snd (websocket_message msg node presented (es k) st))))
      = take_messages node presented es (take n (text_frames (Suc k) rest)) (snd (websocket_message msg node presented (es k) st))"
      using less [of rest "Suc k" "snd (websocket_message msg node presented (es k) st)"] server_read_bounded [OF frame(1)] by auto
    then show "Q (out, snd (websocket_loop (\<lambda>j. es (Suc (k + j))) node presented rest
        (snd (websocket_message msg node presented (es k) st))))"
      unfolding Q_def f by (intro exI [of _ "Suc n"]) (simp add: take_messages_step)
  qed
  have "Q (websocket_loop (\<lambda>j. es (k + j)) node presented stream st)"
  proof (cases "server_read_frame stream")
    case (Inr r)
    show ?thesis
    proof (cases "fst r")
      case (Some f)
      obtain opcode payload where f: "server_read_frame stream = Inr (Some (opcode, payload), snd r)"
        using Inr Some by (cases f; cases r) auto
      show ?thesis
        using one [of payload "snd r"] more [of payload "snd r"] on [of opcode payload "snd r"] same [of opcode payload "snd r"] stop f
        unfolding websocket_loop.simps [of "\<lambda>j. es (k + j)" node presented stream st]
        by (auto simp: split_beta split: option.split sum.split)
    qed (use Inr stop in \<open>cases r; simp add: websocket_loop.simps [of _ node presented stream]\<close>)
  qed (simp add: stop websocket_loop.simps [of _ node presented stream])
  then show ?case by (simp add: Q_def)
qed

lemma channel_admitted:
  assumes "au_node (authenticate_request e st path body presented)" and "\<not> au_admin (authenticate_request e st path body presented)"
  shows "credential_authorized e (store st) path body presented \<and> \<not> constant_time_eq presented (admin_token st)"
  using assms by (auto simp: authenticate_request_def no_auth_def split: if_splits option.splits)

lemma handle_reachable: "reachable st (snd (handle sha1 e es chunks st))"
proof -
  obtain x rest where x: "read_request chunks = (x, rest)" by force
  show ?thesis
  proof (cases x)
    case (Refused status body)
    then show ?thesis by (simp add: handle_def x)
  next
    case (Request header verb path body presented)
    let ?a = "authenticate_request e st path body presented"
    obtain r st1 where r: "route_with_actor verb path body (au_authorized ?a) (au_admin ?a) (au_actor ?a) (later e) st = (r, st1)"
      by force
    have "reachable st st1" by (rule reachable.step [OF reachable.start server_step.request [OF refl r]])
    moreover obtain out st2 fin where w: "handle_websocket sha1 es header path presented
        (concat (takeWhile (\<lambda>chunk. chunk \<noteq> []) rest)) st = (out, st2, fin)" by (metis prod_cases3)
    moreover note handle_websocket_reachable [OF w]
    ultimately show ?thesis
      by (auto simp: handle_def x Request Let_def r split: exec.splits)
  qed
qed

text \<open>C8: What a connection does, whatever bytes a client sends. A request that is refused while it is read
  is answered and changes nothing. A plain request is one call of the router, with the rights its token has in
  the state it finds, and the answer is the router's. A request for a channel changes the state only if the
  token is the credential of an unrevoked node the request names, not the administrator's, and the path names
  a valid node; then the effect is that of the messages in the text frames the client sends, for that node
  and with that token, in their order up to some point. Everything a connection does is a run.\<close>

theorem connections_are_runs:
  "(case handle sha1 e es chunks st of (out, st') \<Rightarrow>
      reachable st st'
    \<and> (case fst (read_request chunks) of
         Refused status body \<Rightarrow> out = as_bytes (write_response status body) \<and> st' = st
       | Request header method path body presented \<Rightarrow>
           (if method = ''GET'' \<and> websocket_path path \<and> has_header header ''upgrade'' ''websocket''
             \<and> has_header_token header ''connection'' ''upgrade''
            then st' = st
              \<or> credential_authorized e (store st) path body presented \<and> \<not> constant_time_eq presented (admin_token st)
                \<and> (\<exists>node n. query_field path ''node_id'' = Some node \<and> valid_node_id node
                    \<and> st' = take_messages node presented es
                        (take n (text_frames 0 (concat (takeWhile (\<lambda>chunk. chunk \<noteq> []) (snd (read_request chunks)))))) st)
            else (let auth = authenticate_request e st path body presented in
                  \<exists>r. route_with_actor method path body (au_authorized auth) (au_admin auth) (au_actor auth) (later e) st = (r, st')
                    \<and> out = (case r of Done (status, response) \<Rightarrow> as_bytes (write_response status response) | Panic \<Rightarrow> [])))))"
proof -
  obtain x rest where x: "read_request chunks = (x, rest)" by force
  obtain out st' where h: "handle sha1 e es chunks st = (out, st')" by force
  have run: "reachable st st'" using handle_reachable [of st sha1 e es chunks] by (simp add: h)
  show ?thesis
  proof (cases x)
    case (Refused status body)
    then show ?thesis using h by (auto simp: handle_def x)
  next
    case (Request header verb path body presented)
    let ?a = "authenticate_request e st path body presented"
    let ?stream = "concat (takeWhile (\<lambda>chunk. chunk \<noteq> []) rest)"
    have ch: "\<exists>node n. query_field path ''node_id'' = Some node \<and> valid_node_id node
        \<and> st2 = take_messages node presented es (take n (text_frames 0 ?stream)) st"
      if "handle_websocket sha1 es header path presented ?stream st = (out2, st2, fin)" "st2 \<noteq> st" for out2 st2 fin
      using that websocket_loop_messages [of es 0 _ presented ?stream st]
      by (auto simp: handle_websocket_def Let_def split: option.splits if_splits prod.splits) (metis fst_conv snd_conv)
    show ?thesis
      unfolding h prod.case x fst_conv snd_conv Request request_outcome.case
      using run h ch channel_admitted [of e st path body presented]
      by (auto simp: handle_def x Request Let_def split: if_splits exec.splits prod.splits)
  qed
qed

section \<open>History is kept\<close>

text \<open>C1: No run rewrites history. After any number of requests and messages by anyone: the audit trail
  has only grown at its end; nodes, tasks, grants and approvals are never removed or reordered; a
  revoked node is still revoked and has its old credential; what a task asks for is unchanged, its
  state has not gone back, and a finished task is as it was; used or revoked grants and used approvals
  are still so; the configuration is the same; and a well-formed store (unique valid node identifiers,
  bounded tasks and outputs, known states, leases with tokens) is still well formed.\<close>

theorem server_history:
  assumes "reachable st st'"
  shows "take (length (audit (store st))) (audit (store st')) = audit (store st)
     \<and> (\<forall>k < length (nodes (store st)). k < length (nodes (store st'))
          \<and> node_evolves (nodes (store st) ! k) (nodes (store st') ! k))
     \<and> (\<forall>k < length (tasks (store st)). k < length (tasks (store st'))
          \<and> task_evolves (tasks (store st) ! k) (tasks (store st') ! k))
     \<and> (\<forall>k < length (grants (store st)). k < length (grants (store st'))
          \<and> grant_evolves (grants (store st) ! k) (grants (store st') ! k))
     \<and> (\<forall>k < length (approvals (store st)). k < length (approvals (store st'))
          \<and> approval_evolves (approvals (store st) ! k) (approvals (store st') ! k))
     \<and> st' = st\<lparr>store := store st', next_seq := next_seq st'\<rparr>
     \<and> (store_wf (store st) \<longrightarrow> store_wf (store st'))"
proof -
  have ok: "same_config st st'" "store_evolves (store st) (store st')" "store_wf (store st) \<longrightarrow> store_wf (store st')"
    using reachable_ok [OF assms] by (simp_all add: state_ok_def)
  have a: "take (length (audit (store st))) (audit (store st')) = audit (store st)"
    using ok(2) by (simp add: store_evolves_def grows_def list_all2_eq [symmetric] eq_commute)
  show ?thesis
    using ok a
    by (auto simp: store_evolves_def node_table.grows_nth task_table.grows_nth grant_table.grows_nth
        approval_table.grows_nth same_config_def)
qed

lemma sample_message_reachable:
  "reachable (sample_state [sample_queued] [])
     (snd (websocket_message [] ''n1'' ''c'' (sample_env (\<lambda>_. None) (\<lambda>_. Inl []) (\<lambda>_. None))
        (sample_state [sample_queued] [])))"
  by (rule reachable.step [OF reachable.start server_step.message]) (rule surjective_pairing)

theorem server_history_witness:
  "store_wf (store (snd (websocket_message [] ''n1'' ''c'' (sample_env (\<lambda>_. None) (\<lambda>_. Inl []) (\<lambda>_. None))
        (sample_state [sample_queued] []))))"
  using server_history [OF sample_message_reachable] sample_wf by blast

section \<open>Who can act\<close>

lemma authenticated_cases:
  "au_authorized (authenticate_request e st path body presented) \<Longrightarrow>
   constant_time_eq presented (admin_token st) \<or> credential_authorized e (store st) path body presented
   \<or> (\<exists>config claims. oidc st = Some config \<and> validate_oidc_token e presented config = Some claims)"
  by (auto simp: authenticate_request_def no_auth_def split: if_splits option.splits)

lemma node_auth_cases:
  "au_node (authenticate_request e st path body presented) \<Longrightarrow> credential_authorized e (store st) path body presented"
  by (auto simp: authenticate_request_def no_auth_def split: if_splits option.splits)

text \<open>C2: Only credentials act. If a connection changes the store at all, its request either redeems a
  bootstrap grant, or carries the administrator token, the credential of an unrevoked node that it
  names, or an OIDC token that validates.\<close>

theorem only_credentials_act:
  "store (snd (handle sha1 e es chunks st)) = store st
   \<or> (\<exists>header method path body presented rest.
        read_request chunks = (Request header method path body presented, rest)
      \<and> ((method = ''POST'' \<and> path = ''/v1/grants/redeem'')
         \<or> constant_time_eq presented (admin_token st)
         \<or> credential_authorized e (store st) path body presented
         \<or> (\<exists>config claims. oidc st = Some config \<and> validate_oidc_token e presented config = Some claims)))"
proof -
  obtain x rest where x: "read_request chunks = (x, rest)" by force
  show ?thesis
  proof (cases x)
    case (Refused status body)
    then show ?thesis by (simp add: handle_def x)
  next
    case (Request header verb path body presented)
    let ?a = "authenticate_request e st path body presented"
    show ?thesis
    proof (cases "au_authorized ?a \<or> au_node ?a \<or> (verb = ''POST'' \<and> path = ''/v1/grants/redeem'')")
      case True
      then have "(verb = ''POST'' \<and> path = ''/v1/grants/redeem'')
         \<or> constant_time_eq presented (admin_token st)
         \<or> credential_authorized e (store st) path body presented
         \<or> (\<exists>config claims. oidc st = Some config \<and> validate_oidc_token e presented config = Some claims)"
        using authenticated_cases node_auth_cases by metis
      then show ?thesis using x Request by blast
    next
      case False
      then have "store (snd (route_with_actor verb path body (au_authorized ?a) (au_admin ?a) (au_actor ?a) (later e) st)) = store st"
        by (auto simp: route_with_actor_def)
      then have "store (snd (handle sha1 e es chunks st)) = store st"
        using False by (auto simp: handle_def x Request Let_def split: exec.splits prod.splits)
      then show ?thesis ..
    qed
  qed
qed

text \<open>C3: Agents and users cannot administer. A routed request without administrator rights, whoever
  sends it and whatever its method, path and body, adds no node, grant, approval or task, uses up no grant or
  approval, and leaves names, credentials, revocation and scheduling metadata of all nodes alone; existing
  tasks only move forward, and at most one audit record is appended, of a heartbeat, a dispatch, a result or a
  cancellation. The exception is redeeming a grant, which anyone may do: it touches no task and no approval,
  and unless it changes nothing it uses up one live grant, for at most one new node.\<close>

theorem agents_cannot_administer:
  "(let st' = snd (route_with_actor m p b authorized False actor e st) in
    if m = ''POST'' \<and> p = ''/v1/grants/redeem''
    then redeem_frame (store st) (store st') else agent_frame (store st) (store st'))"
proof (cases "m = ''POST'' \<and> p = ''/v1/grants/redeem''")
  case False
  define Q where "Q out \<longleftrightarrow> agent_frame (store st) (store (snd out))" for out :: "response exec \<times> state"
  have base: "Q (r, st)" for r by (simp add: Q_def)
  have ret: "Q (returned out)" if "agent_frame (store st) (store (snd out))" for out
    using that by (simp add: Q_def returned_def)
  have arm: "Q (guarded False st a rest)" if "Q rest" for a rest
    using that by (auto simp: guarded_def base split: option.splits)
  have tasks: "agent_frame (store st) (store (snd (agent_tasks p e st)))"
    using agent_tasks_frame [THEN node_frame_agent, of p] by (cases "query_field p ''node_id''") (auto simp: agent_tasks_def)
  have "Q (route_authorized m p b False actor e st)"
    unfolding route_authorized_def simp_thms if_False
    by (intro if_cases [where Q = Q] option_cases [where Q = Q] arm base ret tasks cancel_frame
        node_frame_agent [OF heartbeat_node_frame] node_frame_agent [OF agent_result_frame])
  then show ?thesis using False by (auto simp: route_with_actor_def Q_def Let_def)
qed (simp add: route_with_actor_def redeem_framed Let_def)

section \<open>Revoked nodes\<close>

definition named_node :: "env \<Rightarrow> string \<Rightarrow> string \<Rightarrow> string option" where
  "named_node e path body = (case json_field (parse_json e) body ''node_id'' of
     None \<Rightarrow> query_field path ''node_id'' | Some v \<Rightarrow> Some v)"

lemma revoked_stays:
  assumes "store_wf s" and "store_evolves s s'" and "store_wf s'"
    and "n \<in> set (nodes s)" and "nd_revoked n" and "m \<in> set (nodes s')" and "nd_id m = nd_id n"
  shows "nd_revoked m"
proof -
  obtain k where k: "k < length (nodes s)" "nodes s ! k = n" using assms(4) by (auto simp: in_set_conv_nth)
  have g: "k < length (nodes s')" "node_evolves n (nodes s' ! k)"
    using assms(2) k by (auto simp: store_evolves_def node_table.grows_nth)
  obtain j where j: "j < length (nodes s')" "nodes s' ! j = m" using assms(6) by (auto simp: in_set_conv_nth)
  have "distinct (map nd_id (nodes s'))" using assms(3) by (simp add: store_wf_def)
  moreover have "nd_id (nodes s' ! k) = nd_id n" using g(2) by (simp add: node_evolves_def)
  then have "map nd_id (nodes s') ! k = map nd_id (nodes s') ! j" using g(1) j assms(7) by simp
  ultimately have "k = j"
    using g(1) j(1) nth_eq_iff_index_eq [of "map nd_id (nodes s')" k j] by simp
  then show ?thesis using g(2) j assms(5) by (simp add: node_evolves_def)
qed

text \<open>C4: Revocation is for good. Once a node of a well-formed store is revoked, no run leads to a
  state in which a credential is accepted for it, in a request that names it or in a message on a
  channel it still has open: such a message is refused and leaves the store alone.\<close>

theorem revoked_node_locked_out:
  assumes "store_wf (store st)" and "n \<in> set (nodes (store st))" and "nd_revoked n" and "reachable st st2"
  shows "(named_node e path body = Some (nd_id n) \<longrightarrow> \<not> credential_authorized e (store st2) path body presented)
     \<and> store (snd (websocket_message message (nd_id n) presented e st2)) = store st2"
proof -
  have ok: "store_evolves (store st) (store st2)" "store_wf (store st2)"
    using reachable_ok [OF assms(4)] assms(1) by (simp_all add: state_ok_def)
  have out: "\<not> credential_authorized e (store st2) p b presented" if "named_node e p b = Some (nd_id n)" for p b
    using that revoked_stays [OF assms(1) ok assms(2,3)]
    by (auto simp: credential_authorized_def named_node_def list_ex_iff split: option.splits)
  have "store (snd (websocket_message message (nd_id n) presented e st2)) = store st2"
  proof -
    obtain reply st3 where m: "websocket_message message (nd_id n) presented e st2 = (reply, st3)" by force
    have "store st3 = store st2"
      using m
    proof (cases rule: websocket_message_cases)
      case (called st1 out')
      have "valid_node_id (nd_id n)" using assms(1,2) by (auto simp: store_wf_def list_all_iff node_wf_def)
      then have "json_field (parse_json e) message ''node_id'' = Some (nd_id n)"
        using called(1) by (auto simp: field_or_def valid_node_id_def split: option.splits)
      then show ?thesis using out [of message message] called(2) by (simp add: named_node_def)
    qed simp
    then show ?thesis by (simp add: m)
  qed
  then show ?thesis using out by blast
qed

theorem revoked_node_locked_out_witness:
  "\<not> credential_authorized sample_result_env
       (store ((sample_state [] [])\<lparr>store := \<lparr>nodes = [sample_node\<lparr>nd_revoked := True, nd_online := False\<rparr>],
          tasks = [], audit = [], grants = [], approvals = []\<rparr>\<rparr>)) [] [] ''c''"
proof -
  let ?n = "sample_node\<lparr>nd_revoked := True, nd_online := False\<rparr>"
  let ?st = "(sample_state [] [])\<lparr>store := \<lparr>nodes = [?n], tasks = [], audit = [], grants = [], approvals = []\<rparr>\<rparr>"
  have wf: "store_wf (store ?st)"
    by (simp add: store_wf_def sample_node_def node_wf_def valid_node_id_def ascii_simps)
  have f: "named_node sample_result_env [] [] = Some (nd_id ?n)"
    by (simp add: named_node_def sample_result_env_def sample_env_def json_field_def parse_json_object_def sample_node_def)
  show ?thesis using revoked_node_locked_out [OF wf _ _ reachable.start, of ?n] f by simp
qed

section \<open>OIDC tokens\<close>

lemma constant_time_eq_bytes_32:
  "length a = 32 \<Longrightarrow> length b = 32 \<Longrightarrow> constant_time_eq_bytes a b \<longleftrightarrow> a = b"
  by (simp add: constant_time_eq_bytes_iff)

lemma split_three:
  assumes "str_split token CHR ''.'' = [h, p, s]"
  shows "token = h @ ''.'' @ p @ ''.'' @ s"
  using str_join_split [of "CHR ''.''" token] by (simp add: assms)

text \<open>C5: An accepted token is authentic and in time. If \<open>validate_oidc_token\<close> yields claims, the token
  has three parts, its header says HS256 and JWT, its signature is the HMAC-SHA-256 of the first two
  parts under the configured secret, and its payload names the configured issuer and audience, has an
  expiry in the future and no start more than 30 seconds ahead, and a subject that is a safe actor
  identifier; the claims are that subject and the groups of the configured claim.\<close>

theorem oidc_token_authentic:
  assumes "validate_oidc_token e token config = Some claims"
  shows "\<exists>h p s header payload. token = h @ ''.'' @ p @ ''.'' @ s
     \<and> decode_part h = Some header \<and> json_field (parse_json e) header ''alg'' = Some ''HS256''
     \<and> json_field (parse_json e) header ''typ'' = Some ''JWT''
     \<and> base64url_decode s = Some (hmac_sha256 (hmac_secret config) (as_bytes (h @ ''.'' @ p)))
     \<and> decode_part p = Some payload
     \<and> json_field (parse_json e) payload ''iss'' = Some (issuer config)
     \<and> (json_field (parse_json e) payload ''aud'' = Some (audience config)
        \<or> audience config \<in> set (json_string_array (parse_json e) payload ''aud''))
     \<and> (\<exists>t. json_number (parse_json e) payload ''exp'' = Some t \<and> clk e 0 div 1000 < t)
     \<and> none_or (\<lambda>t. t \<le> saturating_add (clk e 0 div 1000) 30) (json_number (parse_json e) payload ''nbf'')
     \<and> json_field (parse_json e) payload ''sub'' = Some (cl_subject claims) \<and> valid_actor_id (cl_subject claims)
     \<and> cl_groups claims = json_string_array (parse_json e) payload (group_claim config)"
proof -
  obtain h p s header sig payload where t: "str_split token CHR ''.'' = [h, p, s]"
    and d: "decode_part h = Some header" "json_field (parse_json e) header ''alg'' = Some ''HS256''"
      "json_field (parse_json e) header ''typ'' = Some ''JWT''"
    and sig: "base64url_decode s = Some sig" "length sig = 32"
      "constant_time_eq_bytes sig (hmac_sha256 (hmac_secret config) (as_bytes (h @ ''.'' @ p)))"
    and p: "decode_part p = Some payload" "validate_claims e payload config = Some claims"
    using assms by (auto simp: validate_oidc_token_def split: list.splits option.splits if_splits)
  have s: "sig = hmac_sha256 (hmac_secret config) (as_bytes (h @ ''.'' @ p))"
    using sig(2,3) constant_time_eq_bytes_32 by simp
  have c: "json_field (parse_json e) payload ''iss'' = Some (issuer config)"
    "jwt_audience_matches e payload (audience config)"
    "\<exists>t. json_number (parse_json e) payload ''exp'' = Some t \<and> clk e 0 div 1000 < t"
    "none_or (\<lambda>t. t \<le> saturating_add (clk e 0 div 1000) 30) (json_number (parse_json e) payload ''nbf'')"
    "json_field (parse_json e) payload ''sub'' = Some (cl_subject claims)" "valid_actor_id (cl_subject claims)"
    "cl_groups claims = json_string_array (parse_json e) payload (group_claim config)"
    using p(2) by (auto simp: validate_claims_def Let_def none_or_def not_le not_less split: option.splits if_splits)
  have aud: "json_field (parse_json e) payload ''aud'' = Some (audience config)
      \<or> audience config \<in> set (json_string_array (parse_json e) payload ''aud'')"
    using c(2) by (auto simp: jwt_audience_matches_def list_ex_iff split: if_splits)
  show ?thesis
    by (intro exI [of _ h] exI [of _ p] exI [of _ s] exI [of _ header] exI [of _ payload] conjI
        split_three [OF t] d p(1) c(1,3-7) aud) (simp only: sig(1) s)
qed

text \<open>Minting: the token an identity gateway makes of a header and a payload text.\<close>

definition mint :: "bytes \<Rightarrow> string \<Rightarrow> string \<Rightarrow> string" where
  "mint secret header payload =
     (let signed = base64url_encode (as_bytes header) @ ''.'' @ base64url_encode (as_bytes payload)
      in signed @ ''.'' @ base64url_encode (hmac_sha256 secret (as_bytes signed)))"

lemma url_loop_chars: "base64url_loop cs acc bits out = Some r \<Longrightarrow> c \<in> set cs \<Longrightarrow> base64url_digit c \<noteq> None"
proof (induction cs arbitrary: acc bits out)
  case (Cons a cs)
  then obtain acc2 bits2 out2 where "base64url_digit a \<noteq> None" "base64url_loop cs acc2 bits2 out2 = Some r"
    by (fastforce simp: Let_def split: option.splits if_splits)
  then show ?case using Cons by auto
qed simp

lemma no_dot: "bs \<noteq> [] \<Longrightarrow> CHR ''.'' \<notin> set (base64url_encode bs)"
proof
  assume b: "bs \<noteq> []" and "CHR ''.'' \<in> set (base64url_encode bs)"
  moreover have "base64url_digit CHR ''.'' = None" by (simp add: base64url_digit_def ascii_simps)
  ultimately show False using base64url_decode_encode [OF b] url_loop_chars
    by (fastforce simp: base64url_decode_def split: if_splits option.splits)
qed

lemma decode_part_encode: "s \<noteq> [] \<Longrightarrow> valid_utf8 s \<Longrightarrow> decode_part (base64url_encode (as_bytes s)) = Some s"
proof -
  assume "s \<noteq> []" and v: "valid_utf8 s"
  then have "as_bytes s \<noteq> []" by (metis length_0_conv length_as_bytes)
  then show "decode_part (base64url_encode (as_bytes s)) = Some s"
    using v by (simp add: decode_part_def from_utf8_def base64url_decode_encode)
qed

lemma mint_validates:
  assumes "header \<noteq> []" and "payload \<noteq> []" and "valid_utf8 header" and "valid_utf8 payload"
    and "json_field (parse_json e) header ''alg'' = Some ''HS256''"
    and "json_field (parse_json e) header ''typ'' = Some ''JWT''"
  shows "validate_oidc_token e (mint (hmac_secret config) header payload) config = validate_claims e payload config"
proof -
  let ?h = "base64url_encode (as_bytes header)" and ?p = "base64url_encode (as_bytes payload)"
  let ?m = "hmac_sha256 (hmac_secret config) (as_bytes (?h @ ''.'' @ ?p))"
  have ne: "as_bytes header \<noteq> []" "as_bytes payload \<noteq> []" "?m \<noteq> []"
    using assms(1,2) length_hmac [of "hmac_secret config" "as_bytes (?h @ ''.'' @ ?p)"]
    by (auto simp: as_bytes_def simp del: length_hmac)
  have "str_split (mint (hmac_secret config) header payload) CHR ''.'' = [?h, ?p, base64url_encode ?m]"
    using no_dot [OF ne(1)] no_dot [OF ne(2)] no_dot [OF ne(3)]
    by (simp add: mint_def Let_def str_split_append str_split_none)
  moreover have "base64url_decode (base64url_encode ?m) = Some ?m" by (rule base64url_decode_encode [OF ne(3)])
  ultimately show ?thesis
    using assms constant_time_eq_bytes_32 [of ?m ?m]
    by (simp add: validate_oidc_token_def decode_part_encode)
qed

text \<open>Tokens that are minted properly are accepted: for any header text saying HS256 and JWT, and
  any payload text, the token signed with the configured secret is accepted exactly when its payload
  passes the claim checks, and yields its claims.\<close>

theorem minted_token_accepted:
  assumes "header \<noteq> []" and "payload \<noteq> []" and "valid_utf8 header" and "valid_utf8 payload"
    and "json_field (parse_json e) header ''alg'' = Some ''HS256''"
    and "json_field (parse_json e) header ''typ'' = Some ''JWT''"
  shows "validate_oidc_token e (mint (hmac_secret config) header payload) config = validate_claims e payload config"
  using assms by (rule mint_validates)

definition sample_oidc :: oidc_config where
  "sample_oidc = \<lparr>issuer = ''https://id'', audience = ''nodewe'', hmac_secret = replicate 32 7,
     admin_group = ''ops'', group_claim = ''groups''\<rparr>"

definition sample_oidc_env :: env where
  "sample_oidc_env = sample_env (\<lambda>_. None) (\<lambda>_. Inl []) (\<lambda>body. Some (JObject
     (if body = ''h'' then [(''alg'', JString ''HS256''), (''typ'', JString ''JWT'')]
      else [(''iss'', JString ''https://id''), (''aud'', JString ''nodewe''), (''exp'', JU64 5),
            (''sub'', JString ''ada''), (''groups'', JArray [JString ''ops''])])))"

lemma sample_claims: "validate_claims sample_oidc_env ''p'' sample_oidc
    = Some \<lparr>cl_subject = ''ada'', cl_groups = [''ops'']\<rparr>"
proof -
  have d: "(100 :: u64) div 1000 = 0" by (simp add: word_div_def)
  show ?thesis
    by (simp add: validate_claims_def sample_oidc_env_def sample_env_def json_field_def parse_json_object_def
        jwt_audience_matches_def json_number_def json_string_array_def sample_oidc_def valid_actor_id_def
        ascii_simps d)
qed

lemma sample_minted: "validate_oidc_token sample_oidc_env (mint (hmac_secret sample_oidc) ''h'' ''p'') sample_oidc
    = Some \<lparr>cl_subject = ''ada'', cl_groups = [''ops'']\<rparr>"
  by (subst mint_validates)
     (simp_all add: sample_claims byte_def,
      simp_all add: sample_oidc_env_def sample_env_def json_field_def parse_json_object_def)

theorem oidc_token_authentic_witness:
  "\<exists>h p s. mint (hmac_secret sample_oidc) ''h'' ''p'' = h @ ''.'' @ p @ ''.'' @ s
     \<and> base64url_decode s = Some (hmac_sha256 (hmac_secret sample_oidc) (as_bytes (h @ ''.'' @ p)))"
  using oidc_token_authentic [OF sample_minted] by blast

theorem minted_token_accepted_witness:
  "validate_oidc_token sample_oidc_env (mint (hmac_secret sample_oidc) ''h'' ''p'') sample_oidc
     = Some \<lparr>cl_subject = ''ada'', cl_groups = [''ops'']\<rparr>"
  by (subst minted_token_accepted)
     (simp_all add: sample_claims byte_def,
      simp_all add: sample_oidc_env_def sample_env_def json_field_def parse_json_object_def)

section \<open>Truthful answers\<close>

text \<open>C6: Answers tell the truth about durability. When any route answers with a success status, the
  store is the one there was or one that the storage backend has accepted; when it answers 503, and
  when the handler panics, the store is the one there was.\<close>

theorem route_answers_durable:
  assumes "route_with_actor m p b authorized admin actor e st = (r, st')"
  shows "case r of
     Panic \<Rightarrow> store st' = store st
   | Done resp \<Rightarrow> (str_starts_with (fst resp) ''2'' \<longrightarrow> store st' = store st \<or> persist e (store st') = Inr ())
       \<and> (fst resp = ''503 Service Unavailable'' \<longrightarrow> store st' = store st)"
  using route_ok [of e st m p b authorized admin actor] assms
  by (auto simp: handler_ok_def success_def split: exec.splits)

theorem route_answers_durable_witness:
  "\<exists>b st'. route_with_actor ''POST'' ''/v1/tasks'' [] True True None sample_task_env (sample_state [] [])
       = (Done (''202 Accepted'', b), st')
     \<and> (store st' = store (sample_state [] []) \<or> persist sample_task_env (store st') = Inr ())"
proof -
  obtain b st' where "create_task_as [] None sample_task_env (sample_state [] []) = ((''202 Accepted'', b), st')"
    using sample_create_task by blast
  then have r: "route_with_actor ''POST'' ''/v1/tasks'' [] True True None sample_task_env (sample_state [] [])
       = (Done (''202 Accepted'', b), st')"
    by (simp add: route_with_actor_def route_authorized_def guarded_def route_nodes_grants_def
        route_tasks_admin_def returned_def path_between_def str_starts_with_def)
  show ?thesis using route_answers_durable [OF r] r by (auto simp: str_starts_with_def)
qed

section \<open>The channel\<close>

lemma own_tasks:
  assumes "valid_node_id node"
  shows "query_field (''/v1/agent/tasks?node_id='' @ node) ''node_id'' = Some node"
proof -
  have "CHR ''&'' \<notin> set node" using assms by (auto simp: valid_node_id_def node_id_char_def list_all_iff)
  then show ?thesis using query_field_first [of "''/v1/agent/tasks''" "''node_id''" node] by simp
qed

text \<open>C7: A channel speaks for one node. If a message changes the store, it names the node the channel was
  opened for and presents that node's current credential, unrevoked in the state the message finds,
  and it is a heartbeat, a task request or a task result. Even then it changes only that node's liveness,
  platform and abilities and tasks of that node, which only move forward; all other nodes and tasks, the
  grants and the approvals stay as they are, and the one audit record it may append is in that node's name.\<close>

theorem channel_speaks_for_its_node:
  assumes "websocket_message message node presented e st = (reply, st')" and "store st' \<noteq> store st"
    and "valid_node_id node"
  shows "json_field (parse_json e) message ''node_id'' = Some node
     \<and> (\<exists>n \<in> set (nodes (store st)). nd_id n = node \<and> constant_time_eq (nd_credential n) presented \<and> \<not> nd_revoked n)
     \<and> json_field (parse_json e) message ''type'' \<in> {Some ''heartbeat'', Some ''tasks.request'', Some ''task.result''}
     \<and> node_frame node (store st) (store st')"
  using assms(1)
proof (cases rule: websocket_message_cases)
  case (called st1 out)
  have f: "json_field (parse_json e) message ''node_id'' = Some node"
    using called(1) assms(3) by (auto simp: field_or_def valid_node_id_def split: option.splits)
  have c: "\<exists>n \<in> set (nodes (store st)). nd_id n = node \<and> constant_time_eq (nd_credential n) presented \<and> \<not> nd_revoked n"
    using called(2) f by (auto simp: credential_authorized_def list_ex_iff)
  have t: "field_or (parse_json e) message ''type'' [] \<in> {''heartbeat'', ''tasks.request'', ''task.result''}"
    using called(4,5) assms(2) by (auto simp: websocket_call_def Let_def split: if_splits)
  then have "json_field (parse_json e) message ''type'' \<in> {Some ''heartbeat'', Some ''tasks.request'', Some ''task.result''}"
    by (auto simp: field_or_def split: option.splits)
  moreover have "node_frame node (store st1) (store st')"
  proof -
    define Q where "Q x \<longleftrightarrow> node_frame node (store st1) (store (snd x))" for x :: "(string + string \<times> response) \<times> state"
    have base: "Q (x, st1)" for x by (simp add: Q_def)
    have call: "Q (map_prod g id r)" if "node_frame node (store st1) (store (snd r))" for g r
      using that by (simp add: Q_def)
    have own: "field_or (parse_json (later e)) message ''node_id'' [] = node" using called(1) by simp
    have "Q (websocket_call message node (later e) st1)"
      unfolding websocket_call_def Let_def
      by (intro if_cases [where Q = Q] option_cases [where Q = Q] base call agent_tasks_frame [OF own_tasks [OF assms(3)]]
          heartbeat_node_frame [of "later e" message st1, unfolded own] agent_result_frame [of "later e" message st1, unfolded own])
    then show ?thesis using called(5) by (simp add: Q_def)
  qed
  ultimately show ?thesis using f c called(4) by simp
qed (use assms(2) in simp)

definition sample_channel_env :: env where
  "sample_channel_env = sample_env (\<lambda>_. None) (\<lambda>_. Inl []) (\<lambda>_. Some (JObject
     [(''node_id'', JString ''n1''), (''request_id'', JString ''r1''), (''type'', JString ''tasks.request'')]))"

lemma sample_channel:
  "store (snd (websocket_message [] ''n1'' ''c'' sample_channel_env (sample_state [sample_queued] [])))
     \<noteq> store (sample_state [sample_queued] [])"
proof -
  let ?st = "sample_state [sample_queued] []"
  have f: "json_field (parse_json sample_channel_env) [] ''request_id'' = Some ''r1''"
    "json_field (parse_json sample_channel_env) [] ''node_id'' = Some ''n1''"
    "json_field (parse_json sample_channel_env) [] ''type'' = Some ''tasks.request''"
    by (simp_all add: sample_channel_env_def sample_env_def json_field_def parse_json_object_def)
  have v: "valid_node_id ''r1''" by (simp add: valid_node_id_def ascii_simps)
  have ct: "constant_time_eq ''c'' ''c''" by (rule constant_time_eq_same) simp
  have c: "credential_authorized sample_channel_env (store ?st) [] [] ''c''"
    by (simp add: credential_authorized_def f sample_state_def sample_node_def ct)
  have q: "query_field ''/v1/agent/tasks?node_id=n1'' ''node_id'' = Some ''n1''"
    by (simp add: query_field_def split_once_def str_split_def)
  have fr: "node_is_fresh (later sample_channel_env) 0 sample_node"
    by (simp add: node_is_fresh_def sample_node_def sample_channel_env_def sample_env_def later_def
        saturating_add_def node_online_ttl_ms_def env_var_def word_le_nat_alt)
  have due: "lease_due e ''n1'' 0 sample_queued" for e by (simp add: lease_due_def sample_queued_def)
  obtain tok where r: "random_token (later sample_channel_env) 0 = Some tok"
    by (simp add: random_token_def sample_channel_env_def sample_env_def later_def)
  have per: "persist sample_channel_env s = Inr ()" for s by (simp add: sample_channel_env_def sample_env_def)
  have t: "tasks (store (snd (agent_tasks ''/v1/agent/tasks?node_id=n1'' (later sample_channel_env) ?st)))
       = [lease_task (later sample_channel_env) 0 tok sample_queued]"
    using fr due r per
    by (simp add: agent_tasks_def q sample_state_def sample_node_def persist_or_rollback_cases Let_def)
  have w: "snd (websocket_message [] ''n1'' ''c'' sample_channel_env ?st)
      = snd (agent_tasks ''/v1/agent/tasks?node_id=n1'' (later sample_channel_env) ?st)"
    using c v
    by (cases "agent_tasks ''/v1/agent/tasks?node_id=n1'' (later sample_channel_env) ?st")
       (simp add: websocket_message_def f field_or_def websocket_call_def Let_def)
  have "tk_state (lease_task (later sample_channel_env) 0 tok sample_queued) \<noteq> tk_state sample_queued"
    by (simp add: lease_task_def sample_queued_def)
  moreover have "tasks (store ?st) = [sample_queued]" by (simp add: sample_state_def)
  ultimately show ?thesis using w t by auto
qed

theorem channel_speaks_for_its_node_witness:
  "json_field (parse_json sample_channel_env) [] ''node_id'' = Some ''n1''
     \<and> store (snd (websocket_message [] ''n1'' ''c'' sample_channel_env (sample_state [sample_queued] [])))
        \<noteq> store (sample_state [sample_queued] [])"
  using channel_speaks_for_its_node [OF surjective_pairing sample_channel] sample_channel
  by (simp add: valid_node_id_def ascii_simps)

section \<open>Two gaps\<close>

text \<open>A node credential is checked against the \<open>node_id\<close> of the body, while the task route serves the
  \<open>node_id\<close> of the query: a node that sends its own name in the body and another's in the query is
  handed the other node's tasks with their lease tokens.\<close>

lemma agent_query_confusion:
  assumes "json_field (parse_json e) body ''node_id'' = Some own"
    and "\<exists>n \<in> set (nodes (store st)). nd_id n = own \<and> constant_time_eq (nd_credential n) presented \<and> \<not> nd_revoked n"
    and "\<not> constant_time_eq presented (admin_token st)"
  shows "au_authorized (authenticate_request e st path body presented)
     \<and> au_node (authenticate_request e st path body presented)
     \<and> au_actor (authenticate_request e st path body presented) = None"
    and "route_with_actor ''GET'' (''/v1/agent/tasks?node_id='' @ other) body True False None e st
       = returned (agent_tasks (''/v1/agent/tasks?node_id='' @ other) e st)"
proof -
  have "credential_authorized e (store st) path body presented"
    using assms(1,2) by (auto simp: credential_authorized_def list_ex_iff)
  then show "au_authorized (authenticate_request e st path body presented)
     \<and> au_node (authenticate_request e st path body presented)
     \<and> au_actor (authenticate_request e st path body presented) = None"
    using assms(3) by (simp add: authenticate_request_def)
  show "route_with_actor ''GET'' (''/v1/agent/tasks?node_id='' @ other) body True False None e st
       = returned (agent_tasks (''/v1/agent/tasks?node_id='' @ other) e st)"
    by (simp add: route_with_actor_def route_authorized_def guarded_def route_nodes_grants_def
        route_tasks_admin_def path_between_def str_starts_with_def)
qed

text \<open>The agent routes only ask for an authorized caller, so any user with a valid OIDC token, in no
  group at all, can take tasks of any node.\<close>

lemma user_takes_tasks:
  "route_with_actor ''GET'' (''/v1/agent/tasks?node_id='' @ any) body True False (Some user) e st
     = returned (agent_tasks (''/v1/agent/tasks?node_id='' @ any) e st)"
  by (simp add: route_with_actor_def route_authorized_def guarded_def route_nodes_grants_def
      route_tasks_admin_def path_between_def str_starts_with_def)

end
