(* ===== verification/Snapshot.thy ===== *)
theory Snapshot
  imports Audit_Chain Policy_Config
begin

text \<open>
  The text the control plane keeps its store in (\<open>snapshot_text\<close>, \<open>parse_snapshot\<close> and the readers of
  single lines in \<open>control-plane/src/main.rs\<close>): a header, five sections, one line per record, the
  audit log as sealed JSON records. The readers use \<open>hex_decode\<close>, which can panic, so they return an
  \<^typ>\<open>'a exec\<close>. The main result is that a store is read back as it was written.
\<close>

section \<open>Writing\<close>

definition clean :: "string \<Rightarrow> string" where
  "clean value = replace_chars {TAB, NL, CR} '' '' value"

definition node_line :: "node \<Rightarrow> string" where
  "node_line n = str_join [TAB]
     [clean (nd_id n), clean (nd_name n),
      if nd_revoked n then ''revoked'' else if nd_online n then ''online'' else ''offline'',
      clean (nd_credential n), clean (nd_abilities n),
      hex_encode (nd_platform n), hex_encode (nd_architecture n), hex_encode (nd_version n),
      hex_encode (nd_labels n), hex_encode (nd_region n), hex_encode (nd_data_class n),
      hex_encode (nd_capacity n), show_u64 (nd_last_seen n)]"

definition task_line :: "task \<Rightarrow> string" where
  "task_line t = str_join [TAB]
     [clean (tk_id t), clean (tk_node_id t), clean (tk_ability t), clean (tk_state t),
      clean (tk_idempotency_key t), show_u64 (tk_lease_until t),
      hex_encode (tk_program t), hex_encode (tk_argument t), hex_encode (tk_output t),
      clean (tk_output_sha256 t),
      if tk_output_truncated t then ''truncated'' else ''complete'',
      case tk_exit_code t of None \<Rightarrow> [] | Some code \<Rightarrow> show_int code,
      hex_encode (tk_request_id t), hex_encode (tk_lease_token t), hex_encode (tk_actor t),
      show_u64 (tk_timeout_ms t), dec (tk_output_limit t)]"

definition grant_line :: "grant \<Rightarrow> string" where
  "grant_line g = str_join [TAB]
     [clean (gr_code g), clean (gr_signature g), show_u64 (gr_expires_at g),
      if gr_used g then ''used'' else ''unused'',
      if gr_revoked g then ''revoked'' else ''active'']"

definition approval_line :: "approval \<Rightarrow> string" where
  "approval_line a = str_join [TAB]
     [clean (ap_id a), clean (ap_node_id a), clean (ap_ability a), hex_encode (ap_program a),
      hex_encode (ap_argument a), clean (ap_actor a), show_u64 (ap_expires_at a),
      if ap_used a then ''used'' else ''unused'']"

text \<open>One line per record, each ended by a newline.\<close>

definition table_text :: "('a \<Rightarrow> string) \<Rightarrow> 'a list \<Rightarrow> string" where
  "table_text line xs = concat (map (\<lambda>x. line x @ [NL]) xs)"

definition SNAPSHOT_HEADER :: string where
  "SNAPSHOT_HEADER = ''NODEWE-SNAPSHOT-V1'' @ [NL]"

definition snapshot_text :: "store \<Rightarrow> string" where
  "snapshot_text s =
     SNAPSHOT_HEADER
     @ ''[NODES]'' @ [NL] @ table_text node_line (nodes s)
     @ ''[TASKS]'' @ [NL] @ table_text task_line (tasks s)
     @ ''[GRANTS]'' @ [NL] @ table_text grant_line (grants s)
     @ ''[APPROVALS]'' @ [NL] @ table_text approval_line (approvals s)
     @ ''[AUDIT]'' @ [NL] @ audit_jsonl (audit s)"

section \<open>Reading\<close>

definition empty_store :: store where
  "empty_store = \<lparr>nodes = [], tasks = [], audit = [], grants = [], approvals = []\<rparr>"

text \<open>\<open>fields.get(i)\<close>, also the \<open>i\<close>-th \<open>fields.next()\<close>; \<open>unwrap_or\<close>; an optional hexadecimal
  field with its default; a number in a range with its default.\<close>

definition field :: "string list \<Rightarrow> nat \<Rightarrow> string option" where
  "field fs i = (if i < length fs then Some (fs ! i) else None)"

definition unwrap_or :: "'a \<Rightarrow> 'a option \<Rightarrow> 'a" where
  "unwrap_or d v = (case v of None \<Rightarrow> d | Some x \<Rightarrow> x)"

definition decode_or :: "string option \<Rightarrow> string \<Rightarrow> string exec" where
  "decode_or value d =
     (case value of None \<Rightarrow> Done d | Some v \<Rightarrow> exec_map (unwrap_or d) (hex_decode v))"

definition within :: "'a::linorder \<Rightarrow> 'a \<Rightarrow> 'a option \<Rightarrow> 'a option" where
  "within lo hi v = Option.bind v (\<lambda>x. if lo < x \<and> x \<le> hi then Some x else None)"

definition all_abilities :: string where
  "all_abilities = ''file.read,file.write,task.exec,system.inspect''"

text \<open>A node from the fields of its line; \<open>now\<close> is the clock reading for a missing or bad last
  column.\<close>

definition node_of_fields :: "u64 \<Rightarrow> string list \<Rightarrow> store \<Rightarrow> store exec" where
  "node_of_fields now fs st =
     (if length fs < 3 then Done st
      else
        exec_bind (decode_or (field fs 5) ''unknown'') (\<lambda>platform.
        exec_bind (decode_or (field fs 6) ''unknown'') (\<lambda>architecture.
        exec_bind (decode_or (field fs 7) ''unknown'') (\<lambda>version.
        exec_bind (decode_or (field fs 8) []) (\<lambda>labels.
        exec_bind (decode_or (field fs 9) ''unknown'') (\<lambda>region.
        exec_bind (decode_or (field fs 10) ''unclassified'') (\<lambda>data_class.
        exec_bind (decode_or (field fs 11) []) (\<lambda>capacity.
        Done (st\<lparr>nodes := nodes st @
          [\<lparr>nd_id = fs ! 0, nd_name = fs ! 1, nd_online = (fs ! 2 = ''online''),
            nd_revoked = (fs ! 2 = ''revoked''), nd_credential = unwrap_or [] (field fs 3),
            nd_abilities = unwrap_or all_abilities (field fs 4), nd_platform = platform,
            nd_architecture = architecture, nd_version = version, nd_labels = labels,
            nd_region = region, nd_data_class = data_class, nd_capacity = capacity,
            nd_last_seen = unwrap_or now (Option.bind (field fs 12) parse_u64)\<rparr>]\<rparr>)))))))))"

definition parse_node_line :: "u64 \<Rightarrow> string \<Rightarrow> store \<Rightarrow> store exec" where
  "parse_node_line now line st = node_of_fields now (str_splitn 13 TAB line) st"

definition parse_exit_code :: "string option \<Rightarrow> int option" where
  "parse_exit_code value =
     Option.bind value (\<lambda>v. if v = [] then None else parse_i32 v)"

definition parse_task_line :: "string \<Rightarrow> store \<Rightarrow> store exec" where
  "parse_task_line line st =
     (let fs = str_split line TAB in
      if length fs < 14 then Done st
      else
        exec_bind (decode_or (Some (fs ! 6)) ''echo'') (\<lambda>program.
        exec_bind (decode_or (Some (fs ! 7)) []) (\<lambda>argument.
        exec_bind (decode_or (Some (fs ! 8)) []) (\<lambda>output.
        let has_output_metadata =
              (16 \<le> length fs \<and> (fs ! 10 = ''truncated'' \<or> fs ! 10 = ''complete''));
            (output_sha256, output_truncated, exit_index) =
              (if has_output_metadata then (fs ! 9, fs ! 10 = ''truncated'', 11) else ([], False, 9));
            request_index = exit_index + 1
        in
        exec_bind (decode_or (field fs request_index) (fs ! 0)) (\<lambda>request_id.
        exec_bind (decode_or (field fs (request_index + 1)) []) (\<lambda>lease_token.
        exec_bind (decode_or (field fs (request_index + 2)) ''admin'') (\<lambda>actor.
        Done (st\<lparr>tasks := tasks st @
          [\<lparr>tk_id = fs ! 0, tk_request_id = request_id, tk_actor = actor, tk_node_id = fs ! 1,
            tk_ability = fs ! 2, tk_state = fs ! 3, tk_idempotency_key = fs ! 4,
            tk_program = program, tk_argument = argument, tk_output = output,
            tk_output_sha256 = output_sha256, tk_output_truncated = output_truncated,
            tk_output_limit = unwrap_or MAX_TASK_OUTPUT_LIMIT
              (within 0 MAX_TASK_OUTPUT_LIMIT (Option.bind (field fs (request_index + 4)) parse_usize)),
            tk_exit_code = parse_exit_code (field fs exit_index),
            tk_lease_until = unwrap_or 0 (parse_u64 (fs ! 5)), tk_lease_token = lease_token,
            tk_timeout_ms = unwrap_or DEFAULT_TASK_TIMEOUT_MS
              (within 0 MAX_TASK_TIMEOUT_MS (Option.bind (field fs (request_index + 3)) parse_u64))\<rparr>]\<rparr>))))))))"

definition parse_grant_line :: "string \<Rightarrow> store \<Rightarrow> store" where
  "parse_grant_line line st =
     (let fs = str_splitn 5 TAB line in
      if length fs < 4 then st
      else (case parse_u64 (fs ! 2) of
              None \<Rightarrow> st
            | Some expires_at \<Rightarrow>
                st\<lparr>grants := grants st @
                  [\<lparr>gr_code = fs ! 0, gr_signature = fs ! 1, gr_expires_at = expires_at,
                    gr_used = (fs ! 3 = ''used''), gr_revoked = (field fs 4 = Some ''revoked'')\<rparr>]\<rparr>))"

definition parse_approval_line :: "string \<Rightarrow> store \<Rightarrow> store exec" where
  "parse_approval_line line st =
     (let fs = str_splitn 8 TAB line in
      if length fs < 8 then Done st
      else
        exec_bind (hex_decode (fs ! 3)) (\<lambda>program.
        exec_bind (hex_decode (fs ! 4)) (\<lambda>argument.
        Done (case (program, argument, parse_u64 (fs ! 6)) of
            (Some program, Some argument, Some expires_at) \<Rightarrow>
              st\<lparr>approvals := approvals st @
                [\<lparr>ap_id = fs ! 0, ap_node_id = fs ! 1, ap_ability = fs ! 2, ap_program = program,
                  ap_argument = argument, ap_actor = fs ! 5, ap_expires_at = expires_at,
                  ap_used = (fs ! 7 = ''used'')\<rparr>]\<rparr>
          | _ \<Rightarrow> st))))"

definition parse_activity_line :: "json_parser \<Rightarrow> string \<Rightarrow> store \<Rightarrow> store" where
  "parse_activity_line pj line st =
     (case (json_field pj line ''activity_id'', json_field pj line ''event'',
            json_number pj line ''timestamp'') of
        (Some i, Some event, Some timestamp) \<Rightarrow>
          st\<lparr>audit := audit st @
            [\<lparr>ac_id = i, ac_event = event, ac_node_id = json_field pj line ''node_id'',
              ac_task_id = json_field pj line ''task_id'', ac_actor = json_field pj line ''actor'',
              ac_timestamp = timestamp, ac_prev_hash = field_or pj line ''prev_hash'' [],
              ac_hash = field_or pj line ''hash'' []\<rparr>]\<rparr>
      | _ \<Rightarrow> st)"

text \<open>The body of the loop over the lines; a node line reads the clock at a place of its own: even for the
  snapshot, odd for the older tables.\<close>

definition parse_section_line :: "env \<Rightarrow> string \<Rightarrow> string \<Rightarrow> store \<Rightarrow> store exec" where
  "parse_section_line e sec line st =
     (if sec = ''[NODES]'' then parse_node_line (clk e (2 * length (nodes st))) line st
      else if sec = ''[TASKS]'' then parse_task_line line st
      else if sec = ''[GRANTS]'' then Done (parse_grant_line line st)
      else if sec = ''[APPROVALS]'' then parse_approval_line line st
      else if sec = ''[AUDIT]'' then Done (parse_activity_line (parse_json e) line st)
      else Done st)"

definition is_section :: "string \<Rightarrow> bool" where
  "is_section line \<longleftrightarrow> str_starts_with line ''['' \<and> str_ends_with line '']''"

fun parse_lines :: "env \<Rightarrow> string \<Rightarrow> string list \<Rightarrow> store \<Rightarrow> store exec" where
  "parse_lines e sec [] st = Done st"
| "parse_lines e sec (line # rest) st =
     (if is_section line then parse_lines e line rest st
      else exec_bind (parse_section_line e sec line st) (parse_lines e sec rest))"

definition parse_snapshot :: "env \<Rightarrow> string \<Rightarrow> store option exec" where
  "parse_snapshot e contents =
     (if \<not> str_starts_with contents SNAPSHOT_HEADER then Done None
      else exec_map (\<lambda>st. if audit_chain_valid (audit st) then Some st else None)
             (parse_lines e [] (drop 1 (str_lines contents)) empty_store))"

section \<open>Lines are read as they were written\<close>

text \<open>The contract between the writer and the reader of one section: a record that may be stored is
  written on one line that is not a section header, and reading the line appends the record, up to
  the cleaning of \<open>restore\<close>.\<close>

locale stored_table =
  fixes read :: "string \<Rightarrow> store \<Rightarrow> store exec" and line :: "'a \<Rightarrow> string" and ok :: "'a \<Rightarrow> bool"
    and put :: "'a list \<Rightarrow> store \<Rightarrow> store"
  assumes read_line: "ok x \<Longrightarrow> read (line x) st = Done (put [x] st)"
    and one_line: "ok x \<Longrightarrow> NL \<notin> set (line x) \<and> CR \<notin> set (line x)"
    and no_section: "ok x \<Longrightarrow> \<not> is_section (line x)"
    and put_Nil: "put [] st = st"
    and put_append: "put ys (put xs st) = put (xs @ ys) st"
begin

lemma table_lines:
  "list_all ok xs \<Longrightarrow> str_lines (table_text line xs @ rest) = map line xs @ str_lines rest"
proof -
  assume a: "list_all ok xs"
  have "\<forall>l \<in> set (map line xs). NL \<notin> set l \<and> CR \<notin> set l"
    using a one_line by (auto simp: list_all_iff)
  then show ?thesis
    using str_lines_concat [of "map line xs" rest] by (simp add: table_text_def comp_def)
qed

lemma read_table:
  "list_all ok xs \<Longrightarrow> (\<And>l s. parse_section_line e sec l s = read l s) \<Longrightarrow>
   parse_lines e sec (map line xs @ rest) st = parse_lines e sec rest (put xs st)"
  by (induction xs arbitrary: st) (simp_all add: read_line no_section put_Nil put_append)

end

lemma clean_free: "c \<in> {TAB, NL, CR} \<Longrightarrow> c \<notin> set (clean s)"
  using replace_chars_gone [of "'' ''" "{TAB, NL, CR}" s] by (auto simp: clean_def)

lemma clean_clean [simp]: "clean (clean s) = clean s"
  using clean_free [of _ s] unfolding clean_def [of "clean s"]
  by (intro replace_chars_id) blast

lemma hex_text_free: "\<not> is_ascii_digit c \<Longrightarrow> \<not> is_ascii_lowercase c \<Longrightarrow> c \<notin> set (hex_encode s)"
  by (simp add: hex_encode_as_bytes hex_encode_free)

lemma show_int_free: "\<not> is_ascii_digit c \<Longrightarrow> c \<noteq> CHR ''-'' \<Longrightarrow> c \<notin> set (show_int i)"
  by (auto simp: show_int_def dec_free)

lemma control_classes:
  "\<not> is_ascii_digit TAB" "\<not> is_ascii_digit NL" "\<not> is_ascii_digit CR" "\<not> is_ascii_lowercase TAB"
  "\<not> is_ascii_lowercase NL" "\<not> is_ascii_lowercase CR" "\<not> is_ascii_digit CHR '']''"
  "\<not> is_ascii_digit CHR ''[''"
  by (simp_all add: ascii_simps)

lemmas field_free = clean_free hex_text_free show_int_free dec_free control_classes

text \<open>The fields of a joined line, and its last character.\<close>

lemma set_str_join: "set (str_join [c] ws) \<subseteq> insert c (\<Union> (set ` set ws))"
proof (induction ws)
  case (Cons w ws)
  then show ?case by (cases ws) auto
qed simp

lemma suffix_str_join: "ws \<noteq> [] \<Longrightarrow> suffix (last ws) (str_join sep ws)"
proof (induction ws)
  case (Cons w ws)
  then show ?case by (cases ws) (simp_all add: suffix_appendI)
qed simp

lemma not_section_last:
  assumes "ws \<noteq> []" and "last ws \<noteq> []" and "last (last ws) \<noteq> CHR '']''"
  shows "\<not> is_section (str_join sep ws)"
proof -
  obtain u where "str_join sep ws = u @ last ws"
    using suffix_str_join [OF assms(1)] by (auto simp: suffix_def)
  then have "str_join sep ws = (u @ butlast (last ws)) @ [last (last ws)]" using assms(2) by simp
  then show ?thesis using assms(3) by (auto simp: is_section_def str_ends_with_def suffix_def)
qed

lemma last_dec: "last (dec n) \<noteq> CHR '']''"
proof -
  have "is_ascii_digit (last (dec n))"
    using dec_digits [of n] last_in_set [OF dec_nonempty [of n]] unfolding list_all_iff by blast
  with control_classes(7) show ?thesis by metis
qed

lemma show_int_nonempty [simp]: "show_int i \<noteq> []"
  by (simp add: show_int_def)

lemma decode_or_encode [simp]: "valid_utf8 s \<Longrightarrow> decode_or (Some (hex_encode s)) d = Done s"
  by (simp add: decode_or_def hex_decode_encode unwrap_or_def)

lemma field_Cons [simp]:
  "field (x # xs) 0 = Some x" "field (x # xs) (Suc i) = field xs i" "field [] i = None"
  by (simp_all add: field_def)

lemma field_numeral [simp]: "field (x # xs) (numeral k) = field xs (pred_numeral k)"
  by (simp add: numeral_eq_Suc)

section \<open>What comes back\<close>

text \<open>The store a reader gets: identifiers with tabs and line breaks replaced by blanks, a revoked
  node no longer online, the audit log sealed.\<close>

definition restored_node :: "node \<Rightarrow> node" where
  "restored_node n = n\<lparr>nd_id := clean (nd_id n), nd_name := clean (nd_name n),
     nd_online := (nd_online n \<and> \<not> nd_revoked n), nd_credential := clean (nd_credential n),
     nd_abilities := clean (nd_abilities n)\<rparr>"

definition restored_task :: "task \<Rightarrow> task" where
  "restored_task t = t\<lparr>tk_id := clean (tk_id t), tk_node_id := clean (tk_node_id t),
     tk_ability := clean (tk_ability t), tk_state := clean (tk_state t),
     tk_idempotency_key := clean (tk_idempotency_key t),
     tk_output_sha256 := clean (tk_output_sha256 t)\<rparr>"

definition restored_grant :: "grant \<Rightarrow> grant" where
  "restored_grant g = g\<lparr>gr_code := clean (gr_code g), gr_signature := clean (gr_signature g)\<rparr>"

definition restored_approval :: "approval \<Rightarrow> approval" where
  "restored_approval a = a\<lparr>ap_id := clean (ap_id a), ap_node_id := clean (ap_node_id a),
     ap_ability := clean (ap_ability a), ap_actor := clean (ap_actor a)\<rparr>"

definition restored :: "store \<Rightarrow> store" where
  "restored s = \<lparr>nodes = map restored_node (nodes s), tasks = map restored_task (tasks s),
     audit = seal (audit s), grants = map restored_grant (grants s),
     approvals = map restored_approval (approvals s)\<rparr>"

text \<open>What a store must satisfy to come back: text fields are UTF-8 (Rust's \<open>String\<close>), numbers are in
  the ranges the handlers check.\<close>

definition storable_node :: "node \<Rightarrow> bool" where
  "storable_node n \<longleftrightarrow> list_all valid_utf8
     [nd_id n, nd_name n, nd_credential n, nd_abilities n, nd_platform n, nd_architecture n,
      nd_version n, nd_labels n, nd_region n, nd_data_class n, nd_capacity n]"

definition storable_task :: "task \<Rightarrow> bool" where
  "storable_task t \<longleftrightarrow> list_all valid_utf8
     [tk_id t, tk_node_id t, tk_ability t, tk_state t, tk_idempotency_key t, tk_program t,
      tk_argument t, tk_output t, tk_output_sha256 t, tk_request_id t, tk_lease_token t, tk_actor t]
   \<and> 0 < tk_timeout_ms t \<and> tk_timeout_ms t \<le> MAX_TASK_TIMEOUT_MS
   \<and> 0 < tk_output_limit t \<and> tk_output_limit t \<le> MAX_TASK_OUTPUT_LIMIT
   \<and> none_or (\<lambda>code. - (2 ^ 31) \<le> code \<and> code < 2 ^ 31) (tk_exit_code t)"

definition storable_grant :: "grant \<Rightarrow> bool" where
  "storable_grant g \<longleftrightarrow> valid_utf8 (gr_code g) \<and> valid_utf8 (gr_signature g)"

definition storable_approval :: "approval \<Rightarrow> bool" where
  "storable_approval a \<longleftrightarrow> list_all valid_utf8
     [ap_id a, ap_node_id a, ap_ability a, ap_program a, ap_argument a, ap_actor a]"

definition record_line :: "activity \<Rightarrow> string" where
  "record_line r = activity_json_with_chain r (ac_prev_hash r) (ac_hash r)"

text \<open>The document a JSON parser finds in the line of an audit record.\<close>

definition json_opt :: "string option \<Rightarrow> json" where
  "json_opt v = (case v of None \<Rightarrow> JNull | Some s \<Rightarrow> JString s)"

definition record_document :: "activity \<Rightarrow> json" where
  "record_document r = JObject
     [(''activity_id'', JString (ac_id r)), (''event'', JString (ac_event r)),
      (''node_id'', json_opt (ac_node_id r)), (''task_id'', json_opt (ac_task_id r)),
      (''actor'', json_opt (ac_actor r)), (''timestamp'', JU64 (ac_timestamp r)),
      (''prev_hash'', JString (ac_prev_hash r)), (''hash'', JString (ac_hash r))]"

definition utf8_record :: "activity \<Rightarrow> bool" where
  "utf8_record r \<longleftrightarrow> valid_utf8 (ac_id r) \<and> valid_utf8 (ac_event r) \<and> none_or valid_utf8 (ac_node_id r)
     \<and> none_or valid_utf8 (ac_task_id r) \<and> none_or valid_utf8 (ac_actor r)
     \<and> valid_utf8 (ac_prev_hash r) \<and> valid_utf8 (ac_hash r)"

definition storable_record :: "json_parser \<Rightarrow> activity \<Rightarrow> bool" where
  "storable_record pj r \<longleftrightarrow> utf8_record r \<and> pj (record_line r) = Some (record_document r)"

lemma node_fields_line:
  assumes "\<forall>w \<in> set ws. TAB \<notin> set w" and "ws \<noteq> []"
  shows "str_split (str_join [TAB] ws) TAB = ws"
    and "length ws \<le> n \<Longrightarrow> str_splitn n TAB (str_join [TAB] ws) = ws"
  using assms by (simp_all add: str_split_join str_splitn_join)

lemma line_free:
  assumes "\<forall>w \<in> set ws. NL \<notin> set w \<and> CR \<notin> set w"
  shows "NL \<notin> set (str_join [TAB] ws) \<and> CR \<notin> set (str_join [TAB] ws)"
  using assms set_str_join [of TAB ws] by auto

interpretation nodes: stored_table "parse_section_line e ''[NODES]''" node_line storable_node
    "\<lambda>xs st. st\<lparr>nodes := nodes st @ map restored_node xs\<rparr>" for e
proof unfold_locales
  fix n st assume ok: "storable_node n"
  show "parse_section_line e ''[NODES]'' (node_line n) st = Done (st\<lparr>nodes := nodes st @ map restored_node [n]\<rparr>)"
    using ok unfolding parse_section_line_def parse_node_line_def node_line_def
    by (subst node_fields_line(2))
      (auto simp: field_free show_u64_def node_of_fields_def storable_node_def restored_node_def
        unwrap_or_def parse_u64_dec)
  show "NL \<notin> set (node_line n) \<and> CR \<notin> set (node_line n)" unfolding node_line_def
    by (rule line_free) (auto simp: field_free show_u64_def)
  show "\<not> is_section (node_line n)" unfolding node_line_def
    by (rule not_section_last) (simp_all add: show_u64_def last_dec)
qed simp_all

interpretation tasks: stored_table "parse_section_line e ''[TASKS]''" task_line storable_task
    "\<lambda>xs st. st\<lparr>tasks := tasks st @ map restored_task xs\<rparr>" for e
proof unfold_locales
  fix t st assume ok: "storable_task t"
  have code: "parse_exit_code (Some (case tk_exit_code t of None \<Rightarrow> [] | Some code \<Rightarrow> show_int code)) = tk_exit_code t"
    using ok by (cases "tk_exit_code t")
      (simp_all add: storable_task_def none_or_def parse_exit_code_def parse_i32_show)
  have "tk_output_limit t < 2 ^ 64"
    using ok by (simp add: storable_task_def MAX_TASK_OUTPUT_LIMIT_def)
  with ok code show "parse_section_line e ''[TASKS]'' (task_line t) st = Done (st\<lparr>tasks := tasks st @ map restored_task [t]\<rparr>)"
    unfolding parse_section_line_def parse_task_line_def task_line_def
    by (subst node_fields_line(1))
      (auto simp: field_free show_u64_def storable_task_def restored_task_def Let_def
        unwrap_or_def parse_u64_dec parse_usize_dec within_def split: option.splits)
  show "NL \<notin> set (task_line t) \<and> CR \<notin> set (task_line t)" unfolding task_line_def
    by (rule line_free) (auto simp: field_free show_u64_def split: option.splits)
  show "\<not> is_section (task_line t)" unfolding task_line_def
    by (rule not_section_last) (simp_all add: last_dec)
qed simp_all

interpretation grants: stored_table "parse_section_line e ''[GRANTS]''" grant_line storable_grant
    "\<lambda>xs st. st\<lparr>grants := grants st @ map restored_grant xs\<rparr>" for e
proof unfold_locales
  fix g st
  show "parse_section_line e ''[GRANTS]'' (grant_line g) st
      = Done (st\<lparr>grants := grants st @ map restored_grant [g]\<rparr>)"
    unfolding parse_section_line_def parse_grant_line_def grant_line_def
    by (subst node_fields_line(2))
      (auto simp: field_free show_u64_def restored_grant_def Let_def parse_u64_dec)
  show "NL \<notin> set (grant_line g) \<and> CR \<notin> set (grant_line g)" unfolding grant_line_def
    by (rule line_free) (auto simp: field_free show_u64_def)
  show "\<not> is_section (grant_line g)" unfolding grant_line_def
    by (rule not_section_last) simp_all
qed simp_all

interpretation approvals: stored_table "parse_section_line e ''[APPROVALS]''" approval_line
    storable_approval "\<lambda>xs st. st\<lparr>approvals := approvals st @ map restored_approval xs\<rparr>" for e
proof unfold_locales
  fix a st assume ok: "storable_approval a"
  show "parse_section_line e ''[APPROVALS]'' (approval_line a) st
      = Done (st\<lparr>approvals := approvals st @ map restored_approval [a]\<rparr>)"
    using ok unfolding parse_section_line_def parse_approval_line_def approval_line_def
    by (subst node_fields_line(2))
      (auto simp: field_free show_u64_def restored_approval_def storable_approval_def Let_def
        parse_u64_dec hex_decode_encode)
  show "NL \<notin> set (approval_line a) \<and> CR \<notin> set (approval_line a)" unfolding approval_line_def
    by (rule line_free) (auto simp: field_free show_u64_def)
  show "\<not> is_section (approval_line a)" unfolding approval_line_def
    by (rule not_section_last) simp_all
qed simp_all

text \<open>Escaped text holds no line breaks, so a JSON record is one line.\<close>

lemma esc_char_free: "wf_char ch \<Longrightarrow> NL \<notin> set (esc_char ch) \<and> CR \<notin> set (esc_char ch)"
proof (cases "is_control ch")
  case True
  have "c \<notin> set (hex4 n)" if "c \<in> {NL, CR}" for c n
    using that hex_chars [of n] by (auto simp: hex4_def list_all_iff ascii_simps)
  then show ?thesis using True by (auto simp: esc_char_def)
next
  case False
  assume "wf_char ch"
  then have "list_all (\<lambda>c. 32 \<le> byte c) ch" if "ch \<noteq> [DQUOTE]" "ch \<noteq> [BACKSLASH]"
    using wf_char_plain [of ch] False that unfolding list_all_iff by blast
  then have "NL \<notin> set ch \<and> CR \<notin> set ch" if "ch \<noteq> [DQUOTE]" "ch \<noteq> [BACKSLASH]"
    using that by (auto simp: list_all_iff byte_def)
  then show ?thesis using False by (auto simp: esc_char_def)
qed

lemma quoted_free: "valid_utf8 s \<Longrightarrow> NL \<notin> set (quoted s) \<and> CR \<notin> set (quoted s)"
  using valid_utf8_chars [of s] esc_char_free by (auto simp: quoted_def esc_def list_all_iff)

lemma opt_quoted_free: "none_or valid_utf8 v \<Longrightarrow> NL \<notin> set (opt_quoted v) \<and> CR \<notin> set (opt_quoted v)"
  by (cases v) (simp_all add: opt_quoted_def none_or_def quoted_free)

lemma record_line_free: "utf8_record r \<Longrightarrow> NL \<notin> set (record_line r) \<and> CR \<notin> set (record_line r)"
  unfolding record_line_def activity_json_with_chain_def utf8_record_def
  by (simp add: quoted_free opt_quoted_free show_u64_def dec_free control_classes)

lemma json_opt_str [simp]: "as_str (json_opt v) = v"
  by (cases v) (simp_all add: json_opt_def)

interpretation records: stored_table "parse_section_line e ''[AUDIT]''" record_line
    "storable_record (parse_json e)" "\<lambda>xs st. st\<lparr>audit := audit st @ xs\<rparr>" for e
proof unfold_locales
  fix r st assume ok: "storable_record (parse_json e) r"
  then have p: "parse_json_object (parse_json e) (record_line r)
      = Some [(''activity_id'', JString (ac_id r)), (''event'', JString (ac_event r)),
      (''node_id'', json_opt (ac_node_id r)), (''task_id'', json_opt (ac_task_id r)),
      (''actor'', json_opt (ac_actor r)), (''timestamp'', JU64 (ac_timestamp r)),
      (''prev_hash'', JString (ac_prev_hash r)), (''hash'', JString (ac_hash r))]"
    by (simp add: storable_record_def parse_json_object_def record_document_def)
  show "parse_section_line e ''[AUDIT]'' (record_line r) st = Done (st\<lparr>audit := audit st @ [r]\<rparr>)"
    by (simp add: parse_section_line_def parse_activity_line_def json_field_def json_number_def
        field_or_def p)
  show "NL \<notin> set (record_line r) \<and> CR \<notin> set (record_line r)"
    using ok record_line_free unfolding storable_record_def by blast
  have "\<not> prefix ''['' (record_line r)" by (simp add: record_line_def activity_json_with_chain_def)
  then show "\<not> is_section (record_line r)" by (simp add: is_section_def str_starts_with_def)
qed simp_all

section \<open>Snapshots are UTF-8\<close>

named_theorems utf8_intro \<open>well-formed UTF-8 is closed under the writers\<close>

lemma valid_utf8_append [utf8_intro]: "valid_utf8 a \<Longrightarrow> valid_utf8 b \<Longrightarrow> valid_utf8 (a @ b)"
  by (induction a rule: valid_utf8.induct) (auto split: if_splits list.splits)

lemma valid_utf8_Cons [utf8_intro]: "byte c < 0x80 \<Longrightarrow> valid_utf8 s \<Longrightarrow> valid_utf8 (c # s)"
  by simp

lemma valid_utf8_concat [utf8_intro]: "list_all valid_utf8 ws \<Longrightarrow> valid_utf8 (concat ws)"
  by (induction ws) (auto intro: valid_utf8_append)

lemma valid_utf8_join [utf8_intro]: "valid_utf8 sep \<Longrightarrow> list_all valid_utf8 ws \<Longrightarrow> valid_utf8 (str_join sep ws)"
proof (induction ws)
  case (Cons w ws)
  then show ?case by (cases ws) (auto intro!: valid_utf8_append)
qed simp

lemma clean_map: "clean s = map (\<lambda>c. if c \<in> {TAB, NL, CR} then CHR '' '' else c) s"
  by (induction s) (simp_all add: clean_def replace_chars_def)

lemma high_byte: "128 \<le> byte c \<Longrightarrow> c \<notin> {TAB, NL, CR}"
  by (auto simp: byte_def)

lemma valid_utf8_clean [utf8_intro]: "valid_utf8 s \<Longrightarrow> valid_utf8 (clean s)"
  unfolding clean_map
proof (induction s rule: utf8_induct)
  case (one a r)
  then show ?case by (simp add: byte_def)
next
  case (two a b r)
  then show ?case using high_byte [of a] high_byte [of b] by (simp add: is_cont_def)
next
  case (three a b c r)
  then show ?case using high_byte [of a] high_byte [of b] high_byte [of c] by (simp add: is_cont_def)
next
  case (four a b c d r)
  then show ?case using high_byte [of a] high_byte [of b] high_byte [of c] high_byte [of d]
    by (simp add: is_cont_def)
qed simp

lemma valid_utf8_pieces: "valid_utf8 s \<Longrightarrow> list_all valid_utf8 (chars_of s)"
  by (induction s rule: utf8_induct) (simp_all add: utf8_width_def eval_nat_numeral)

lemma alnum_utf8: "list_all (\<lambda>c. is_ascii_digit c \<or> is_ascii_lowercase c) s \<Longrightarrow> valid_utf8 s"
  by (rule valid_utf8_ascii) (auto simp: list_all_iff ascii_simps dest!: bspec)

lemma ascii_digits_utf8 [utf8_intro]:
  "valid_utf8 (dec n)" "valid_utf8 (hex n)" "valid_utf8 (hex_encode s)" "valid_utf8 (hex_encode_bytes bs)"
proof -
  show "valid_utf8 (dec n)" using dec_digits [of n] by (intro alnum_utf8) (auto simp: list_all_iff)
qed (simp_all add: alnum_utf8 hex_chars hex_encode_chars hex_encode_as_bytes)

lemma show_int_utf8 [utf8_intro]: "valid_utf8 (show_int i)"
  unfolding show_int_def by (auto intro!: utf8_intro simp: byte_def simp del: valid_utf8.simps)

lemma show_u64_utf8 [utf8_intro]: "valid_utf8 (show_u64 n)"
  unfolding show_u64_def by (rule utf8_intro)

lemma esc_char_utf8: "valid_utf8 ch \<Longrightarrow> valid_utf8 (esc_char ch)"
proof -
  have "valid_utf8 (hex4 n)" for n
    using hex_chars [of n] by (intro alnum_utf8) (auto simp: hex4_def list_all_iff ascii_simps)
  then show "valid_utf8 ch \<Longrightarrow> ?thesis" by (simp add: esc_char_def byte_def)
qed

lemma quoted_utf8 [utf8_intro]: "valid_utf8 s \<Longrightarrow> valid_utf8 (quoted s)"
proof -
  assume "valid_utf8 s"
  then have "list_all valid_utf8 (map esc_char (chars_of s))"
    using valid_utf8_pieces esc_char_utf8 by (auto simp: list_all_iff)
  then have "valid_utf8 (esc s)" unfolding esc_def by (rule valid_utf8_concat)
  then show ?thesis unfolding quoted_def
    by (intro utf8_intro) (simp_all add: byte_def)
qed

lemma opt_quoted_utf8 [utf8_intro]: "none_or valid_utf8 v \<Longrightarrow> valid_utf8 (opt_quoted v)"
  by (cases v) (simp_all add: opt_quoted_def none_or_def quoted_utf8 byte_def)

lemma table_text_utf8:
  "list_all ok xs \<Longrightarrow> (\<And>x. ok x \<Longrightarrow> valid_utf8 (line x)) \<Longrightarrow> valid_utf8 (table_text line xs)"
  unfolding table_text_def
  by (rule valid_utf8_concat) (auto simp: list_all_iff byte_def intro!: valid_utf8_append)

section \<open>The round trip\<close>

lemma join_terminated:
  "str_join [NL] ls @ (if ls = [] then [] else [NL]) = concat (map (\<lambda>l. l @ [NL]) ls)"
proof (induction ls)
  case (Cons l ls)
  then show ?case by (cases ls) auto
qed simp

lemma audit_jsonl_records: "audit_jsonl trail = table_text record_line (seal trail)"
proof -
  have "map (sealed_activity_json trail) [0..<length trail] = map record_line (seal trail)"
    by (intro nth_equalityI) (simp_all add: seal_def sealed_activity_json_def sealed_from_seal record_line_def)
  moreover have "trail = [] \<longleftrightarrow> map record_line (seal trail) = []"
    by (cases trail) (simp_all add: seal_def)
  ultimately show ?thesis
    using join_terminated [of "map record_line (seal trail)"]
    by (simp add: audit_jsonl_def table_text_def comp_def)
qed

lemma seal_from_seal [simp]: "seal_from p (seal_from p xs) = seal_from p xs"
  by (induction xs arbitrary: p) simp_all

lemma seal_seal [simp]: "seal (seal trail) = seal trail"
  by (simp add: seal_def)

definition storable :: "json_parser \<Rightarrow> store \<Rightarrow> bool" where
  "storable pj s \<longleftrightarrow> list_all storable_node (nodes s) \<and> list_all storable_task (tasks s)
     \<and> list_all storable_grant (grants s) \<and> list_all storable_approval (approvals s)
     \<and> list_all (storable_record pj) (seal (audit s))"

definition snapshot_lines :: "store \<Rightarrow> string list" where
  "snapshot_lines s =
     ''NODEWE-SNAPSHOT-V1'' # ''[NODES]'' # map node_line (nodes s)
     @ ''[TASKS]'' # map task_line (tasks s)
     @ ''[GRANTS]'' # map grant_line (grants s)
     @ ''[APPROVALS]'' # map approval_line (approvals s)
     @ ''[AUDIT]'' # map record_line (seal (audit s))"

lemma header_line:
  "NL \<notin> set l \<Longrightarrow> CR \<notin> set l \<Longrightarrow> str_lines (l @ NL # rest) = l # str_lines rest"
  by (simp add: str_lines_terminated chop_cr_id)

lemma snapshot_text_lines:
  fixes e :: env
  assumes "storable (parse_json e) s"
  shows "str_lines (snapshot_text s) = snapshot_lines s"
proof -
  have ok: "list_all storable_node (nodes s)" "list_all storable_task (tasks s)"
      "list_all storable_grant (grants s)" "list_all storable_approval (approvals s)"
      "list_all (storable_record (parse_json e)) (seal (audit s))"
    using assms by (simp_all add: storable_def list_all_iff)
  have h: "str_lines (''NODEWE-SNAPSHOT-V1'' @ NL # r) = ''NODEWE-SNAPSHOT-V1'' # str_lines r"
    "str_lines (''[NODES]'' @ NL # r) = ''[NODES]'' # str_lines r"
    "str_lines (''[TASKS]'' @ NL # r) = ''[TASKS]'' # str_lines r"
    "str_lines (''[GRANTS]'' @ NL # r) = ''[GRANTS]'' # str_lines r"
    "str_lines (''[APPROVALS]'' @ NL # r) = ''[APPROVALS]'' # str_lines r"
    "str_lines (''[AUDIT]'' @ NL # r) = ''[AUDIT]'' # str_lines r" for r
    by (rule header_line; simp)+
  have last: "str_lines (table_text record_line (seal (audit s))) = map record_line (seal (audit s))"
    using records.table_lines [OF ok(5), of "[]"] by simp
  have t: "snapshot_text s = ''NODEWE-SNAPSHOT-V1'' @ NL # ''[NODES]'' @ NL # table_text node_line (nodes s)
     @ ''[TASKS]'' @ NL # table_text task_line (tasks s) @ ''[GRANTS]'' @ NL # table_text grant_line (grants s)
     @ ''[APPROVALS]'' @ NL # table_text approval_line (approvals s)
     @ ''[AUDIT]'' @ NL # table_text record_line (seal (audit s))"
    by (simp only: snapshot_text_def SNAPSHOT_HEADER_def audit_jsonl_records append_assoc append_Cons append_Nil)
  show ?thesis
    unfolding t snapshot_lines_def
    by (simp only: h last nodes.table_lines [OF ok(1)] tasks.table_lines [OF ok(2)]
        grants.table_lines [OF ok(3)] approvals.table_lines [OF ok(4)])
qed

lemma parse_lines_section: "is_section l \<Longrightarrow> parse_lines e sec (l # rest) st = parse_lines e l rest st"
  by simp

lemma snapshot_sections:
  "is_section ''[NODES]''" "is_section ''[TASKS]''" "is_section ''[GRANTS]''"
  "is_section ''[APPROVALS]''" "is_section ''[AUDIT]''"
  by (simp_all add: is_section_def str_starts_with_def str_ends_with_def suffix_to_prefix)

lemma parse_snapshot_text:
  assumes "storable (parse_json e) s"
  shows "parse_snapshot e (snapshot_text s) = Done (Some (restored s))"
proof -
  have ok: "list_all storable_node (nodes s)" "list_all storable_task (tasks s)"
      "list_all storable_grant (grants s)" "list_all storable_approval (approvals s)"
      "list_all (storable_record (parse_json e)) (seal (audit s))"
    using assms by (simp_all add: storable_def list_all_iff)
  have "parse_lines e [] (drop 1 (str_lines (snapshot_text s))) empty_store = Done (restored s)"
    unfolding snapshot_text_lines [OF assms] snapshot_lines_def
    using records.read_table [OF ok(5), of e "''[AUDIT]''" "[]"]
    by (simp add: snapshot_sections nodes.read_table [OF ok(1)] tasks.read_table [OF ok(2)]
        grants.read_table [OF ok(3)] approvals.read_table [OF ok(4)] empty_store_def restored_def)
  moreover have "str_starts_with (snapshot_text s) SNAPSHOT_HEADER"
    by (simp add: snapshot_text_def str_starts_with_def)
  moreover have "audit_chain_valid (audit (restored s))"
    using seal_from_valid [of GENESIS "audit s"]
    by (simp add: restored_def audit_chain_valid_def seal_def)
  ultimately show ?thesis by (simp add: parse_snapshot_def)
qed

lemma node_line_utf8: "storable_node n \<Longrightarrow> valid_utf8 (node_line n)"
  unfolding node_line_def storable_node_def
  by (rule valid_utf8_join) (auto intro: utf8_intro simp: byte_def)

lemma task_line_utf8: "storable_task t \<Longrightarrow> valid_utf8 (task_line t)"
  unfolding task_line_def storable_task_def
  by (rule valid_utf8_join) (auto intro: utf8_intro simp: byte_def split: option.splits)

lemma grant_line_utf8: "storable_grant g \<Longrightarrow> valid_utf8 (grant_line g)"
  unfolding grant_line_def storable_grant_def
  by (rule valid_utf8_join) (auto intro: utf8_intro simp: byte_def)

lemma approval_line_utf8: "storable_approval a \<Longrightarrow> valid_utf8 (approval_line a)"
  unfolding approval_line_def storable_approval_def
  by (rule valid_utf8_join) (auto intro: utf8_intro simp: byte_def)

lemma record_line_utf8: "storable_record pj r \<Longrightarrow> valid_utf8 (record_line r)"
  unfolding storable_record_def utf8_record_def record_line_def activity_json_with_chain_def
  by (intro valid_utf8_append utf8_intro) (simp_all add: byte_def)

lemma snapshot_text_utf8: "storable pj s \<Longrightarrow> valid_utf8 (snapshot_text s)"
  unfolding storable_def snapshot_text_def SNAPSHOT_HEADER_def audit_jsonl_records
  by (intro valid_utf8_append)
     (auto intro: table_text_utf8 node_line_utf8 task_line_utf8 grant_line_utf8 approval_line_utf8
        record_line_utf8 simp: byte_def)

text \<open>C21: A store survives its own snapshot. Reading the text \<open>snapshot_text\<close> writes gives every
  node, task, grant, approval and audit record back, in order and with all fields; identifiers come
  back with tabs and line breaks blanked, a revoked node comes back offline, and the audit log comes
  back sealed with a chain that passes the check. Writing and reading again changes nothing more.\<close>

theorem snapshot_roundtrip:
  assumes "storable (parse_json e) s"
  shows "parse_snapshot e (snapshot_text s) = Done (Some (restored s))
    \<and> audit_chain_valid (audit (restored s)) \<and> restored (restored s) = restored s"
proof -
  have "restored_node \<circ> restored_node = restored_node" "restored_task \<circ> restored_task = restored_task"
    "restored_grant \<circ> restored_grant = restored_grant"
    "restored_approval \<circ> restored_approval = restored_approval"
    by (auto simp: fun_eq_iff restored_node_def restored_task_def restored_grant_def restored_approval_def)
  then have "restored (restored s) = restored s" by (simp add: restored_def)
  moreover have "audit_chain_valid (audit (restored s))"
    using seal_from_valid [of GENESIS "audit s"]
    by (simp add: restored_def audit_chain_valid_def seal_def)
  ultimately show ?thesis using parse_snapshot_text [OF assms] by blast
qed

lemma hash_utf8: "valid_utf8 (activity_hash item p)"
proof -
  have "list_all (\<lambda>c. byte c < 128) (hex_encode_bytes bs)" for bs
    using hex_encode_chars [of bs] by (auto simp: list_all_iff ascii_simps)
  then show ?thesis unfolding activity_hash_def by (rule valid_utf8_ascii)
qed

text \<open>A store with one record of each kind, and a parser that reads its audit record.\<close>

definition kept_store :: store where
  "kept_store = \<lparr>nodes = [\<lparr>nd_id = ''n1'', nd_name = ''lab'' @ [TAB] @ ''pc'', nd_online = False, nd_revoked = True,
       nd_credential = ''c'', nd_abilities = ''task.exec'', nd_platform = ''linux'', nd_architecture = [],
       nd_version = [], nd_labels = [NL], nd_region = [], nd_data_class = [], nd_capacity = [],
       nd_last_seen = 90\<rparr>],
     tasks = [\<lparr>tk_id = ''t1'', tk_request_id = ''r1'', tk_actor = ''admin'', tk_node_id = ''n1'',
       tk_ability = ''task.exec'', tk_state = ''failed'', tk_idempotency_key = [], tk_program = ''echo'',
       tk_argument = ''hi'', tk_output = [], tk_output_sha256 = [], tk_output_truncated = False,
       tk_output_limit = 100, tk_exit_code = Some (- 1), tk_lease_until = 0, tk_lease_token = [],
       tk_timeout_ms = 1000\<rparr>],
     audit = [sample_activity],
     grants = [\<lparr>gr_code = ''g'', gr_signature = ''s'', gr_expires_at = 5, gr_used = True, gr_revoked = False\<rparr>],
     approvals = [\<lparr>ap_id = ''a'', ap_node_id = ''n1'', ap_ability = ''task.exec'', ap_program = ''echo'',
       ap_argument = [], ap_actor = ''admin'', ap_expires_at = 9, ap_used = False\<rparr>]\<rparr>"

definition kept_parser :: json_parser where
  "kept_parser line = (let r = hd (seal [sample_activity]) in
     if line = record_line r then Some (record_document r) else None)"

lemma kept_storable: "storable kept_parser kept_store"
proof -
  let ?r = "sample_activity\<lparr>ac_prev_hash := GENESIS, ac_hash := activity_hash sample_activity GENESIS\<rparr>"
  have r: "seal [sample_activity] = [?r]" by (simp add: seal_def)
  have u: "utf8_record ?r" unfolding utf8_record_def
    by (simp add: hash_utf8) (simp add: sample_activity_def GENESIS_def none_or_def byte_def)
  have a: "list_all (storable_record kept_parser) (seal (audit kept_store))"
    using u by (simp add: kept_store_def r storable_record_def kept_parser_def Let_def del: seal_seal)
  have n: "list_all storable_node (nodes kept_store)"
    by (simp add: kept_store_def storable_node_def byte_def)
  have t: "list_all storable_task (tasks kept_store)"
    by (simp add: kept_store_def storable_task_def byte_def none_or_def MAX_TASK_TIMEOUT_MS_def
        MAX_TASK_OUTPUT_LIMIT_def word_le_nat_alt word_less_nat_alt)
  have p: "list_all storable_approval (approvals kept_store)"
    by (simp add: kept_store_def storable_approval_def byte_def)
  have g: "list_all storable_grant (grants kept_store)"
    by (simp add: kept_store_def storable_grant_def byte_def)
  show ?thesis using a n t p g by (simp add: storable_def)
qed

theorem snapshot_roundtrip_witness:
  "parse_snapshot (sample_env Map.empty (\<lambda>_. Inl []) kept_parser) (snapshot_text kept_store)
     = Done (Some (restored kept_store))
   \<and> audit_chain_valid (audit (restored kept_store)) \<and> restored (restored kept_store) = restored kept_store"
  by (rule snapshot_roundtrip) (simp add: sample_env_def kept_storable)

end
