(* ===== verification/Storage.thy ===== *)
theory Storage
  imports Snapshot Control_State
begin

text \<open>
  Where the store is kept (\<open>control-plane/src/main.rs\<close>): encryption at rest, the files of the data
  directory and the order in which they are replaced, the checks at startup, and the readers of the
  snapshot, of the older tables, and of the rows of the database backends.

  The operating system and \<open>ring\<close> are parameters (\<open>vault\<close>): AES-256-GCM sealing and opening on a key,
  a nonce and a text, and reading of a file by its path. The data directory itself is a map from
  paths to contents that the writers return updated. A system call of a write can fail, before or
  after it had an effect (\<open>write_fault\<close>); a crash in the middle of a write leaves the same files as
  the failing call.
\<close>

section \<open>The outside world\<close>

record vault =
  world :: env
  aes_seal :: "bytes \<Rightarrow> bytes \<Rightarrow> bytes \<Rightarrow> bytes option"
  aes_open :: "bytes \<Rightarrow> bytes \<Rightarrow> bytes \<Rightarrow> bytes option"

type_synonym files = "string \<Rightarrow> bytes option"

definition dir_join :: "string \<Rightarrow> string \<Rightarrow> string" where
  "dir_join dir name = (if dir = [] \<or> last dir = CHR ''/'' then dir @ name else dir @ ''/'' @ name)"

text \<open>\<open>Path::with_extension\<close> of a path whose file name has an extension.\<close>

definition with_extension :: "string \<Rightarrow> string \<Rightarrow> string" where
  "with_extension path ext =
     (case rsplit_once path CHR ''.'' of None \<Rightarrow> path @ ''.'' @ ext | Some (stem, _) \<Rightarrow> stem @ ''.'' @ ext)"

text \<open>\<open>fs::read\<close>.\<close>

definition fs_read :: "files \<Rightarrow> string \<Rightarrow> string + bytes" where
  "fs_read fs path =
     (case fs path of None \<Rightarrow> Inl ''No such file or directory (os error 2)'' | Some bs \<Rightarrow> Inr bs)"

section \<open>Encryption at rest\<close>

definition STORE_MAGIC :: bytes where
  "STORE_MAGIC = as_bytes ''NWENC1''"

definition NONCE_LEN :: nat where
  "NONCE_LEN = 12"

text \<open>\<open>store_key\<close>: slices of two bytes, so a multi-byte character in the key text panics.\<close>

definition store_key :: "env \<Rightarrow> (string + bytes option) exec" where
  "store_key e =
     (case load_secret_value e ''NODEWE_STORE_KEY'' ''NODEWE_STORE_KEY_FILE'' of
        Inl err \<Rightarrow> Done (Inl err)
      | Inr None \<Rightarrow> Done (Inr None)
      | Inr (Some v) \<Rightarrow>
          if length (str_trim v) \<noteq> 64
          then Done (Inl ''NODEWE_STORE_KEY must contain exactly 64 hex characters'')
          else exec_map (\<lambda>key. case key of
                   None \<Rightarrow> Inl ''NODEWE_STORE_KEY must contain only hexadecimal characters''
                 | Some bs \<Rightarrow> Inr (Some bs)) (hex_pairs (str_trim v)))"

text \<open>\<open>encrypt_store\<close>, with the nonce from the \<open>k\<close>-th read of \<open>/dev/urandom\<close>. \<open>UnboundKey::new\<close> fails
  only on keys that are not 32 bytes long.\<close>

definition encrypt_store :: "vault \<Rightarrow> nat \<Rightarrow> bytes \<Rightarrow> bytes \<Rightarrow> string + bytes" where
  "encrypt_store v k plaintext key =
     (if length key \<noteq> 32 then Inl ''invalid store key''
      else case rnd (world v) k of
        None \<Rightarrow> Inl ''secure random source unavailable''
      | Some bs \<Rightarrow>
          if length bs < NONCE_LEN then Inl ''secure random source unavailable''
          else (case aes_seal v key (take NONCE_LEN bs) plaintext of
                  None \<Rightarrow> Inl ''store encryption failed''
                | Some encrypted \<Rightarrow> Inr (STORE_MAGIC @ take NONCE_LEN bs @ encrypted)))"

definition decrypt_store :: "vault \<Rightarrow> bytes \<Rightarrow> bytes \<Rightarrow> string + bytes" where
  "decrypt_store v ciphertext key =
     (if length ciphertext < length STORE_MAGIC + NONCE_LEN \<or> \<not> prefix STORE_MAGIC ciphertext
      then Inl ''invalid encrypted store header''
      else if length key \<noteq> 32 then Inl ''invalid store key''
      else (case aes_open v key (take NONCE_LEN (drop (length STORE_MAGIC) ciphertext))
                   (drop (length STORE_MAGIC + NONCE_LEN) ciphertext) of
              None \<Rightarrow> Inl ''store authentication failed''
            | Some plaintext \<Rightarrow> Inr plaintext))"

definition encode_store_bytes :: "vault \<Rightarrow> nat \<Rightarrow> bytes \<Rightarrow> (string + bytes) exec" where
  "encode_store_bytes v k contents =
     exec_map (\<lambda>key. case key of
         Inl err \<Rightarrow> Inl err
       | Inr (Some key) \<Rightarrow> encrypt_store v k contents key
       | Inr None \<Rightarrow> Inr contents) (store_key (world v))"

definition decode_store_bytes :: "vault \<Rightarrow> bytes \<Rightarrow> (string + bytes) exec" where
  "decode_store_bytes v bs =
     (if prefix STORE_MAGIC bs then
        exec_map (\<lambda>key. case key of
            Inl err \<Rightarrow> Inl err
          | Inr None \<Rightarrow> Inl ''encrypted store requires NODEWE_STORE_KEY''
          | Inr (Some key) \<Rightarrow> decrypt_store v bs key) (store_key (world v))
      else Done (Inr bs))"

definition read_store_text :: "vault \<Rightarrow> files \<Rightarrow> string \<Rightarrow> (string + string) exec" where
  "read_store_text v fs path =
     (case fs_read fs path of
        Inl err \<Rightarrow> Done (Inl err)
      | Inr bs \<Rightarrow>
          exec_map (\<lambda>plain. case plain of
              Inl err \<Rightarrow> Inl err
            | Inr plaintext \<Rightarrow>
                (case from_utf8 plaintext of
                   None \<Rightarrow> Inl ''store is not valid UTF-8'' | Some s \<Rightarrow> Inr s))
          (if prefix STORE_MAGIC bs then
             exec_map (\<lambda>key. case key of
                 Inl err \<Rightarrow> Inl err
               | Inr None \<Rightarrow> Inl ''encrypted store requires NODEWE_STORE_KEY''
               | Inr (Some key) \<Rightarrow> decrypt_store v bs key) (store_key (world v))
           else Done (Inr bs)))"

section \<open>Writing\<close>

datatype write_fault =
  CreateFails string
| WriteFails string nat
| RenameFails string

text \<open>A file is written beside its target, flushed, and renamed over it. \<open>WriteFails err n\<close>: the
  write or the flush fails with \<open>n\<close> bytes in the temporary file.\<close>

definition replace_file :: "write_fault option \<Rightarrow> string \<Rightarrow> string \<Rightarrow> bytes \<Rightarrow> files \<Rightarrow> (string + unit) \<times> files" where
  "replace_file fault temporary path contents fs =
     (case fault of
        Some (CreateFails err) \<Rightarrow> (Inl err, fs)
      | Some (WriteFails err n) \<Rightarrow> (Inl err, fs(temporary \<mapsto> take n contents))
      | Some (RenameFails err) \<Rightarrow> (Inl err, fs(temporary \<mapsto> contents))
      | None \<Rightarrow> (Inr (), fs(temporary := None, path \<mapsto> contents)))"

definition pid_tmp :: "env \<Rightarrow> string" where
  "pid_tmp e = dec (unat (pid e)) @ ''.tmp''"

definition atomic_write ::
    "vault \<Rightarrow> write_fault option \<Rightarrow> nat \<Rightarrow> string \<Rightarrow> string \<Rightarrow> files \<Rightarrow> ((string + unit) \<times> files) exec" where
  "atomic_write v fault k path contents fs =
     exec_map (\<lambda>key. case (case key of
           Inl err \<Rightarrow> Inl err
         | Inr (Some key) \<Rightarrow> encrypt_store v k (as_bytes contents) key
         | Inr None \<Rightarrow> Inr (as_bytes contents)) of
         Inl err \<Rightarrow> (Inl err, fs)
       | Inr encoded \<Rightarrow> replace_file fault (with_extension path (pid_tmp (world v))) path encoded fs)
     (store_key (world v))"

text \<open>The backup step: the current snapshot is copied aside, encrypted if a key is configured and it
  is not encrypted yet. Random place \<open>k\<close>. The fault \<open>CreateFails\<close> stands for a failing read of the
  existing file as well: both end the step with their error and leave the files as they are.\<close>

definition write_backup ::
    "vault \<Rightarrow> write_fault option \<Rightarrow> nat \<Rightarrow> string \<Rightarrow> files \<Rightarrow> ((string + unit) \<times> files) exec" where
  "write_backup v fault k path fs =
     (case fs_read fs path of
        Inl err \<Rightarrow> Done (Inr (), fs)
      | Inr existing \<Rightarrow>
          let backup = with_extension path ''snapshot.bak'';
              temporary = with_extension backup (''bak.'' @ pid_tmp (world v)) in
          exec_map (\<lambda>key. case (case key of
                Inl err \<Rightarrow> Inl err
              | Inr (Some key) \<Rightarrow>
                  if prefix STORE_MAGIC existing then Inr existing
                  else encrypt_store v k existing key
              | Inr None \<Rightarrow> Inr existing) of
              Inl err \<Rightarrow> (Inl err, fs)
            | Inr backup_contents \<Rightarrow> replace_file fault temporary backup backup_contents fs)
          (store_key (world v)))"

text \<open>One fallible step after another on the files; an error stops, and says which step it was.\<close>

definition then_write ::
    "((string + unit) \<times> files) exec \<Rightarrow> string \<Rightarrow> (files \<Rightarrow> ((string + unit) \<times> files) exec)
       \<Rightarrow> ((string + unit) \<times> files) exec" where
  "then_write m context_text step =
     exec_bind m (\<lambda>(r, fs). case r of
         Inl err \<Rightarrow> Done (Inl err, fs)
       | Inr _ \<Rightarrow> exec_map (\<lambda>(r', fs'). (case r' of Inl err \<Rightarrow> Inl (context_text @ err) | Inr _ \<Rightarrow> Inr (), fs'))
                    (step fs))"

definition atomic_write_with_backup ::
    "vault \<Rightarrow> (nat \<Rightarrow> write_fault option) \<Rightarrow> nat \<Rightarrow> string \<Rightarrow> string \<Rightarrow> files \<Rightarrow> ((string + unit) \<times> files) exec" where
  "atomic_write_with_backup v faults k path contents fs =
     then_write (write_backup v (faults k) k path fs) []
       (atomic_write v (faults (k + 1)) (k + 1) path contents)"

text \<open>\<open>persist_snapshot\<close>: the tables, the snapshot with its backup, the tables again. Writes are numbered
  from 0; \<open>mkdir\<close> tells whether the directory can be created.\<close>

definition persist_snapshot ::
    "vault \<Rightarrow> bool \<Rightarrow> (nat \<Rightarrow> write_fault option) \<Rightarrow> string option \<Rightarrow> store \<Rightarrow> files
       \<Rightarrow> ((string + unit) \<times> files) exec" where
  "persist_snapshot v mkdir faults data_dir s fs =
     (case data_dir of
        None \<Rightarrow> Done (Inr (), fs)
      | Some dir \<Rightarrow>
          if \<not> mkdir then Done (Inl ''cannot create data directory'', fs)
          else
            let file = dir_join dir;
                write = (\<lambda>k name contents. atomic_write v (faults k) k (file name) contents);
                w0 = then_write (Done (Inr (), fs)) ''nodes write failed: ''
                       (write 0 ''nodes.tsv'' (table_text node_line (nodes s)));
                w1 = then_write w0 ''tasks write failed: ''
                       (write 1 ''tasks.tsv'' (table_text task_line (tasks s)));
                w2 = then_write w1 ''store snapshot write failed: ''
                       (atomic_write_with_backup v faults 2 (file ''store.snapshot'') (snapshot_text s));
                w3 = then_write w2 ''grants write failed: ''
                       (write 4 ''grants.tsv'' (table_text grant_line (grants s)));
                w4 = then_write w3 ''approvals write failed: ''
                       (write 5 ''approvals.tsv'' (table_text approval_line (approvals s)))
            in then_write w4 ''audit write failed: '' (write 6 ''audit.jsonl'' (audit_jsonl (audit s))))"

section \<open>Reading the older tables\<close>

text \<open>\<open>load_legacy_store\<close> reads tables that were written before snapshots: a task line has fifteen
  columns there, with the exit code right after the output.\<close>

definition legacy_node_line :: "u64 \<Rightarrow> string \<Rightarrow> store \<Rightarrow> store exec" where
  "legacy_node_line now line st = node_of_fields now (str_splitn 15 TAB line) st"

definition legacy_task_line :: "string \<Rightarrow> store \<Rightarrow> store exec" where
  "legacy_task_line line st =
     (let fs = str_splitn 15 TAB line in
      if length fs < 4 then Done st
      else
        exec_bind (decode_or (field fs 6) ''echo'') (\<lambda>program.
        exec_bind (decode_or (field fs 7) []) (\<lambda>argument.
        exec_bind (decode_or (field fs 8) []) (\<lambda>output.
        exec_bind (decode_or (field fs 10) (fs ! 0)) (\<lambda>request_id.
        exec_bind (decode_or (field fs 11) []) (\<lambda>lease_token.
        exec_bind (decode_or (field fs 12) ''admin'') (\<lambda>actor.
        Done (st\<lparr>tasks := tasks st @
          [\<lparr>tk_id = fs ! 0, tk_request_id = request_id, tk_actor = actor, tk_node_id = fs ! 1,
            tk_ability = fs ! 2, tk_state = fs ! 3, tk_idempotency_key = unwrap_or [] (field fs 4),
            tk_program = program, tk_argument = argument, tk_output = output,
            tk_output_sha256 = [], tk_output_truncated = False,
            tk_output_limit = MAX_TASK_OUTPUT_LIMIT,
            tk_exit_code = parse_exit_code (field fs 9),
            tk_lease_until = unwrap_or 0 (Option.bind (field fs 5) parse_u64),
            tk_lease_token = lease_token,
            tk_timeout_ms = unwrap_or DEFAULT_TASK_TIMEOUT_MS
              (within 0 MAX_TASK_TIMEOUT_MS (Option.bind (field fs 13) parse_u64))\<rparr>]\<rparr>))))))))"

fun fold_lines :: "(string \<Rightarrow> store \<Rightarrow> store exec) \<Rightarrow> string list \<Rightarrow> store \<Rightarrow> store exec" where
  "fold_lines step [] st = Done st"
| "fold_lines step (line # rest) st = exec_bind (step line st) (fold_lines step rest)"

definition read_table ::
    "vault \<Rightarrow> files \<Rightarrow> string \<Rightarrow> (string \<Rightarrow> store \<Rightarrow> store exec) \<Rightarrow> store \<Rightarrow> store exec" where
  "read_table v fs path step st =
     exec_bind (read_store_text v fs path) (\<lambda>r. case r of
         Inl _ \<Rightarrow> Done st | Inr contents \<Rightarrow> fold_lines step (str_lines contents) st)"

definition load_legacy_store :: "vault \<Rightarrow> string \<Rightarrow> files \<Rightarrow> store exec" where
  "load_legacy_store v dir fs =
     exec_bind (read_table v fs (dir_join dir ''nodes.tsv'')
       (\<lambda>line st. legacy_node_line (clk (world v) (2 * length (nodes st) + 1)) line st) empty_store) (\<lambda>s1.
     exec_bind (read_table v fs (dir_join dir ''tasks.tsv'') legacy_task_line s1) (\<lambda>s2.
     exec_bind (read_table v fs (dir_join dir ''grants.tsv'')
       (\<lambda>line st. Done (parse_grant_line line st)) s2) (\<lambda>s3.
     read_table v fs (dir_join dir ''approvals.tsv'') parse_approval_line s3)))"

section \<open>Loading\<close>

definition load_store :: "vault \<Rightarrow> string \<Rightarrow> files \<Rightarrow> store exec" where
  "load_store v dir fs =
     exec_bind (read_store_text v fs (dir_join dir ''store.snapshot'')) (\<lambda>r. case r of
         Inl _ \<Rightarrow> load_legacy_store v dir fs
       | Inr contents \<Rightarrow>
           exec_bind (parse_snapshot (world v) contents) (\<lambda>parsed. case parsed of
               Some st \<Rightarrow> Done st
             | None \<Rightarrow> load_legacy_store v dir fs))"

definition STORE_FILES :: "string list" where
  "STORE_FILES = [''store.snapshot'', ''store.snapshot.bak'', ''nodes.tsv'', ''tasks.tsv'',
     ''grants.tsv'', ''approvals.tsv'', ''audit.jsonl'']"

text \<open>The loop of \<open>validate_store_startup\<close>.\<close>

fun startup_files ::
    "vault \<Rightarrow> string \<Rightarrow> files \<Rightarrow> bool \<Rightarrow> bytes option \<Rightarrow> string list \<Rightarrow> (string + unit) exec" where
  "startup_files v dir fs require_encrypted key [] = Done (Inr ())"
| "startup_files v dir fs require_encrypted key (name # rest) =
     (let path = dir_join dir name in
      case fs_read fs path of
        Inl _ \<Rightarrow> startup_files v dir fs require_encrypted key rest
      | Inr bs \<Rightarrow>
          if require_encrypted \<and> \<not> prefix STORE_MAGIC bs
          then Done (Inl (''plaintext store file is not allowed: '' @ path))
          else case (if prefix STORE_MAGIC bs
                     then (case key of
                             None \<Rightarrow> Inl (''encrypted store requires NODEWE_STORE_KEY: '' @ path)
                           | Some key \<Rightarrow> decrypt_store v bs key)
                     else Inr bs) of
            Inl err \<Rightarrow> Done (Inl err)
          | Inr plaintext \<Rightarrow>
              if name = ''store.snapshot'' then
                (case from_utf8 plaintext of
                   None \<Rightarrow> Done (Inl (''store snapshot is not UTF-8: '' @ path))
                 | Some contents \<Rightarrow>
                     exec_bind (parse_snapshot (world v) contents) (\<lambda>parsed.
                       if parsed = None
                       then Done (Inl (''store snapshot integrity check failed: '' @ path))
                       else startup_files v dir fs require_encrypted key rest))
              else startup_files v dir fs require_encrypted key rest)"

definition require_encrypted_store :: "env \<Rightarrow> bool" where
  "require_encrypted_store e \<longleftrightarrow> env_var e ''NODEWE_REQUIRE_ENCRYPTED_STORE'' = Some ''1''"

definition validate_store_startup :: "vault \<Rightarrow> string \<Rightarrow> files \<Rightarrow> (string + unit) exec" where
  "validate_store_startup v dir fs =
     exec_bind (store_key (world v)) (\<lambda>key. case key of
         Inl err \<Rightarrow> Done (Inl err)
       | Inr key \<Rightarrow>
           if require_encrypted_store (world v) \<and> key = None
           then Done (Inl ''NODEWE_STORE_KEY is required when encrypted storage is enforced'')
           else startup_files v dir fs (require_encrypted_store (world v)) key STORE_FILES)"

section \<open>Database backends\<close>

text \<open>A database hands back one row: \<open>row\<close> is the error of opening it, or the error of the query, or
  the bytes of the snapshot column.\<close>

definition validate_sqlite_startup :: "vault \<Rightarrow> bool \<Rightarrow> string + (string + bytes) \<Rightarrow> (string + unit) exec" where
  "validate_sqlite_startup v present row =
     (if \<not> present then Done (Inr ())
      else case row of
        Inl err \<Rightarrow> Done (Inl (''sqlite open failed: '' @ err))
      | Inr (Inl err) \<Rightarrow> Done (Inl (''sqlite state read failed: '' @ err))
      | Inr (Inr snapshot) \<Rightarrow>
          if require_encrypted_store (world v) \<and> \<not> prefix STORE_MAGIC snapshot
          then Done (Inl ''plaintext SQLite store is not allowed'')
          else exec_bind (decode_store_bytes v snapshot) (\<lambda>r. case r of
              Inl err \<Rightarrow> Done (Inl err)
            | Inr bs \<Rightarrow>
                (case from_utf8 bs of
                   None \<Rightarrow> Done (Inl ''sqlite snapshot is not UTF-8'')
                 | Some contents \<Rightarrow>
                     exec_map (\<lambda>parsed. if parsed = None then Inl ''sqlite snapshot integrity check failed''
                                        else Inr ()) (parse_snapshot (world v) contents))))"

definition load_sqlite_store :: "vault \<Rightarrow> string + (string + bytes) \<Rightarrow> store exec" where
  "load_sqlite_store v row =
     (case row of
        Inr (Inr snapshot) \<Rightarrow>
          exec_bind (decode_store_bytes v snapshot) (\<lambda>r. case r of
              Inl _ \<Rightarrow> Done empty_store
            | Inr bs \<Rightarrow>
                (case from_utf8 bs of
                   None \<Rightarrow> Done empty_store
                 | Some contents \<Rightarrow> exec_map (unwrap_or empty_store) (parse_snapshot (world v) contents)))
      | _ \<Rightarrow> Done empty_store)"

text \<open>For PostgreSQL the failures of connecting, of the schema and of the query come with their
  message, and the row may be missing.\<close>

definition load_postgres_store :: "vault \<Rightarrow> string + bytes option \<Rightarrow> (string + store) exec" where
  "load_postgres_store v row =
     (case row of
        Inl err \<Rightarrow> Done (Inl err)
      | Inr None \<Rightarrow> Done (Inr empty_store)
      | Inr (Some bs) \<Rightarrow>
          exec_bind (decode_store_bytes v bs) (\<lambda>r. case r of
              Inl err \<Rightarrow> Done (Inl (''postgres snapshot decode failed: '' @ err))
            | Inr plain \<Rightarrow>
                (case from_utf8 plain of
                   None \<Rightarrow> Done (Inl ''postgres snapshot is not UTF-8: '')
                 | Some contents \<Rightarrow>
                     exec_map (\<lambda>parsed. case parsed of
                         None \<Rightarrow> Inl ''postgres snapshot is invalid'' | Some st \<Rightarrow> Inr st)
                       (parse_snapshot (world v) contents))))"

text \<open>What both backends put into the row.\<close>

definition backend_snapshot :: "vault \<Rightarrow> nat \<Rightarrow> store \<Rightarrow> (string + bytes) exec" where
  "backend_snapshot v k s = encode_store_bytes v k (as_bytes (snapshot_text s))"

section \<open>Sealing and opening\<close>

text \<open>What the code relies on of AES-256-GCM: opening with the same key and nonce undoes sealing.\<close>

definition opens_sealed :: "vault \<Rightarrow> bool" where
  "opens_sealed v \<longleftrightarrow> (\<forall>key nonce plain sealed.
     aes_seal v key nonce plain = Some sealed \<longrightarrow> aes_open v key nonce sealed = Some plain)"

lemma decrypt_encrypt:
  assumes "opens_sealed v" and "encrypt_store v k plain key = Inr bs"
  shows "decrypt_store v bs key = Inr plain \<and> prefix STORE_MAGIC bs"
proof -
  obtain rs c where r: "length key = 32" "NONCE_LEN \<le> length rs"
      "aes_seal v key (take NONCE_LEN rs) plain = Some c" "bs = STORE_MAGIC @ take NONCE_LEN rs @ c"
    using assms(2) unfolding encrypt_store_def
    by (cases "rnd (world v) k"; cases "aes_seal v key (take NONCE_LEN (the (rnd (world v) k))) plain")
      (force split: if_splits)+
  then have "aes_open v key (take NONCE_LEN rs) c = Some plain"
    using assms(1) unfolding opens_sealed_def by blast
  then show ?thesis using r by (simp add: decrypt_store_def)
qed

lemma decode_encode:
  assumes "opens_sealed v" and "encode_store_bytes v k contents = Done (Inr bs)"
    and "\<not> prefix STORE_MAGIC contents"
  shows "decode_store_bytes v bs = Done (Inr contents)"
proof (cases "store_key (world v)")
  case (Done key)
  then show ?thesis
    using assms decrypt_encrypt [OF assms(1)]
    by (auto simp: encode_store_bytes_def decode_store_bytes_def split: sum.splits option.splits)
qed (use assms in \<open>simp add: encode_store_bytes_def\<close>)

lemma read_store_text_decode:
  "read_store_text v fs path =
     (case fs_read fs path of
        Inl err \<Rightarrow> Done (Inl err)
      | Inr bs \<Rightarrow> exec_map (\<lambda>plain. case plain of
            Inl err \<Rightarrow> Inl err
          | Inr plaintext \<Rightarrow>
              (case from_utf8 plaintext of None \<Rightarrow> Inl ''store is not valid UTF-8'' | Some s \<Rightarrow> Inr s))
          (decode_store_bytes v bs))"
  by (cases "fs_read fs path") (simp_all add: read_store_text_def decode_store_bytes_def)

lemma atomic_write_encode:
  "atomic_write v fault k path contents fs =
     exec_map (\<lambda>encoded. case encoded of
         Inl err \<Rightarrow> (Inl err, fs)
       | Inr encoded \<Rightarrow> replace_file fault (with_extension path (pid_tmp (world v))) path encoded fs)
     (encode_store_bytes v k (as_bytes contents))"
  by (cases "store_key (world v)") (simp_all add: atomic_write_def encode_store_bytes_def)

lemma header_not_magic: "\<not> prefix STORE_MAGIC (as_bytes (snapshot_text s))"
proof
  assume "prefix STORE_MAGIC (as_bytes (snapshot_text s))"
  then have "take 6 (as_bytes (snapshot_text s)) = STORE_MAGIC"
    by (auto simp: prefix_def STORE_MAGIC_def as_bytes_def)
  then show False
    by (simp add: snapshot_text_def SNAPSHOT_HEADER_def as_bytes_def STORE_MAGIC_def byte_def)
qed

lemma decode_snapshot:
  assumes "opens_sealed v" and "encode_store_bytes v k (as_bytes (snapshot_text s)) = Done (Inr bs)"
    and "storable (parse_json (world v)) s"
  shows "decode_store_bytes v bs = Done (Inr (as_bytes (snapshot_text s)))"
    and "from_utf8 (as_bytes (snapshot_text s)) = Some (snapshot_text s)"
    and "parse_snapshot (world v) (snapshot_text s) = Done (Some (restored s))"
  using decode_encode [OF assms(1,2) header_not_magic] snapshot_text_utf8 [OF assms(3)]
    parse_snapshot_text [OF assms(3)]
  by (simp_all add: from_utf8_def)

lemma load_snapshot:
  assumes "opens_sealed v" and "encode_store_bytes v k (as_bytes (snapshot_text s)) = Done (Inr bs)"
    and "storable (parse_json (world v)) s"
    and "fs (dir_join dir ''store.snapshot'') = Some bs"
  shows "load_store v dir fs = Done (restored s)"
  using assms decode_snapshot [OF assms(1-3)]
  by (simp add: load_store_def read_store_text_decode fs_read_def)

text \<open>Every backend gives the store back. What the SQLite and the PostgreSQL backend put into their
  row, encrypted under the configured key or plain without one, passes the SQLite check, unless it
  is plain and encryption is enforced, and both loaders read the same store from it, the one the
  snapshot stands for. The hypotheses are the law of AES-GCM and the ranges of \<open>storable\<close>.\<close>

theorem backend_roundtrip:
  assumes "opens_sealed v" and "storable (parse_json (world v)) s"
    and "backend_snapshot v k s = Done (Inr row)"
    and "require_encrypted_store (world v) \<longrightarrow> prefix STORE_MAGIC row"
  shows "validate_sqlite_startup v True (Inr (Inr row)) = Done (Inr ())
    \<and> load_sqlite_store v (Inr (Inr row)) = Done (restored s)
    \<and> load_postgres_store v (Inr (Some row)) = Done (Inr (restored s))"
  using assms(4) decode_snapshot [OF assms(1) assms(3) [unfolded backend_snapshot_def] assms(2)]
  by (simp add: validate_sqlite_startup_def load_sqlite_store_def load_postgres_store_def unwrap_or_def)

section \<open>Replacing the files\<close>

lemma dir_join_inject [simp]: "dir_join dir a = dir_join dir b \<longleftrightarrow> a = b"
  by (simp add: dir_join_def)

lemma with_extension_file:
  "CHR ''.'' \<notin> set ext \<Longrightarrow>
   with_extension (dir_join dir (stem @ CHR ''.'' # ext)) new = dir_join dir (stem @ CHR ''.'' # new)"
  by (simp add: with_extension_def rsplit_once_def dir_join_def split_once_append [of "CHR ''.''" "rev ext"])

lemma temporary_name: "last b \<noteq> CHR ''p'' \<Longrightarrow> a @ pid_tmp e \<noteq> b"
  by (auto simp: pid_tmp_def)

lemma temporary_of:
  "with_extension (dir_join dir ''nodes.tsv'') x = dir_join dir (''nodes.'' @ x)"
  "with_extension (dir_join dir ''tasks.tsv'') x = dir_join dir (''tasks.'' @ x)"
  "with_extension (dir_join dir ''grants.tsv'') x = dir_join dir (''grants.'' @ x)"
  "with_extension (dir_join dir ''approvals.tsv'') x = dir_join dir (''approvals.'' @ x)"
  "with_extension (dir_join dir ''audit.jsonl'') x = dir_join dir (''audit.'' @ x)"
  "with_extension (dir_join dir ''store.snapshot'') x = dir_join dir (''store.'' @ x)"
  "with_extension (dir_join dir ''store.snapshot.bak'') x = dir_join dir (''store.snapshot.'' @ x)"
  using with_extension_file [of "''tsv''" dir "''nodes''" x]
    with_extension_file [of "''tsv''" dir "''tasks''" x]
    with_extension_file [of "''tsv''" dir "''grants''" x]
    with_extension_file [of "''tsv''" dir "''approvals''" x]
    with_extension_file [of "''jsonl''" dir "''audit''" x]
    with_extension_file [of "''snapshot''" dir "''store''" x]
    with_extension_file [of "''bak''" dir "''store.snapshot''" x]
  by simp_all

lemma temporary_names:
  "''store.'' @ pid_tmp e \<noteq> ''store.snapshot''" "''grants.'' @ pid_tmp e \<noteq> ''store.snapshot''"
  "''store.'' @ pid_tmp e \<noteq> ''store.snapshot.bak''"
  "''store.snapshot.bak.'' @ pid_tmp e \<noteq> ''store.snapshot.bak''"
  "''store.snapshot.bak.'' @ pid_tmp e \<noteq> ''store.snapshot''"
  by (rule temporary_name; simp)+

lemma replace_file_frame:
  "replace_file fault tmp path bs fs = (r, fs') \<Longrightarrow> p \<noteq> tmp \<Longrightarrow> p \<noteq> path \<Longrightarrow> fs' p = fs p"
  by (auto simp: replace_file_def split: option.splits write_fault.splits)

lemma replace_file_target:
  "replace_file fault tmp path bs fs = (r, fs') \<Longrightarrow> tmp \<noteq> path \<Longrightarrow>
   (fs' path = (if r = Inr () then Some bs else fs path))"
  by (auto simp: replace_file_def split: option.splits write_fault.splits)

lemma atomic_write_frame:
  assumes "atomic_write v fault k path contents fs = Done (r, fs')"
    and "p \<noteq> with_extension path (pid_tmp (world v))" and "p \<noteq> path"
  shows "fs' p = fs p"
  using assms unfolding atomic_write_encode
  by (cases "encode_store_bytes v k (as_bytes contents)")
     (auto split: sum.splits dest: replace_file_frame)

text \<open>A file is the old one or the new one, whole; a success means the new one.\<close>

lemma atomic_write_target:
  assumes "atomic_write v fault k path contents fs = Done (r, fs')"
    and "with_extension path (pid_tmp (world v)) \<noteq> path"
  shows "if r = Inr () then \<exists>bs. encode_store_bytes v k (as_bytes contents) = Done (Inr bs) \<and> fs' path = Some bs
         else fs' path = fs path"
  using assms unfolding atomic_write_encode
  by (cases "encode_store_bytes v k (as_bytes contents)")
     (auto split: sum.splits dest: replace_file_target)

lemma then_write_cases:
  assumes "then_write m context_text step = Done (r, fs')"
  obtains (failed) err where "m = Done (Inl err, fs')" "r = Inl err"
  | (stepped) fs0 r1 where "m = Done (Inr (), fs0)" "step fs0 = Done (r1, fs')"
      "r = Inr () \<longleftrightarrow> r1 = Inr ()"
proof (cases m)
  case (Done x)
  obtain r0 fs0 where x: "x = (r0, fs0)" by (cases x)
  show ?thesis
  proof (cases r0)
    case (Inl err)
    have "Inl err = r \<and> fs0 = fs'" using assms Done x Inl by (simp add: then_write_def)
    then show ?thesis using failed [of err] Done x Inl by blast
  next
    case (Inr u)
    obtain r1 fs1 where s: "step fs0 = Done (r1, fs1)"
      using assms Done x Inr by (cases "step fs0") (auto simp: then_write_def)
    show ?thesis
      by (rule stepped [of fs0 r1]) (use assms Done x Inr s in \<open>auto simp: then_write_def split: sum.splits\<close>)
  qed
qed (use assms in \<open>simp add: then_write_def\<close>)

lemma then_write_frame:
  assumes "then_write m context_text step = Done (r, fs')"
    and "\<And>fs r fs'. step fs = Done (r, fs') \<Longrightarrow> R fs' fs" and "R fs' fs'"
  obtains r0 fs0 where "m = Done (r0, fs0)" "R fs' fs0" "r = Inr () \<longrightarrow> r0 = Inr ()"
  using assms(1) by (cases rule: then_write_cases) (auto dest: assms(2) intro: that assms(3))

text \<open>The snapshot step: the snapshot file is the old or the new one, and when it is new, the old one
  is in the backup file, as it was or encrypted.\<close>

lemma write_backup_target:
  assumes "write_backup v fault k (dir_join dir ''store.snapshot'') fs = Done (r, fs')"
  defines "snap \<equiv> dir_join dir ''store.snapshot''" and "bak \<equiv> dir_join dir ''store.snapshot.bak''"
  shows "fs' snap = fs snap
    \<and> (r = Inr () \<longrightarrow> (\<forall>old. fs snap = Some old \<longrightarrow>
          (\<exists>b. fs' bak = Some b \<and> (b = old \<or> (\<exists>key. encrypt_store v k old key = Inr b)))))"
proof (cases "fs snap")
  case (Some old)
  have b: "with_extension snap ''snapshot.bak'' = bak"
    unfolding snap_def bak_def temporary_of by simp
  have t: "with_extension bak (''bak.'' @ pid_tmp (world v)) = dir_join dir (''store.snapshot.bak.'' @ pid_tmp (world v))"
    unfolding bak_def temporary_of by simp
  show ?thesis
  proof (cases "store_key (world v)")
    case (Done key)
    define c where "c = (case key of
         Inl err \<Rightarrow> Inl err
       | Inr None \<Rightarrow> Inr old
       | Inr (Some key) \<Rightarrow> if prefix STORE_MAGIC old then Inr old else encrypt_store v k old key)"
    have w: "(case c of Inl err \<Rightarrow> (Inl err, fs)
        | Inr bc \<Rightarrow> replace_file fault (dir_join dir (''store.snapshot.bak.'' @ pid_tmp (world v))) bak bc fs) = (r, fs')"
      using assms(1) Some Done
      unfolding write_backup_def fs_read_def Let_def snap_def [symmetric] b t c_def by simp
    show ?thesis
    proof (cases c)
      case (Inr bc)
      then have f: "replace_file fault (dir_join dir (''store.snapshot.bak.'' @ pid_tmp (world v))) bak bc fs = (r, fs')"
        using w by simp
      have "bc = old \<or> (\<exists>key. encrypt_store v k old key = Inr bc)"
        using Inr unfolding c_def by (auto split: sum.splits option.splits if_splits)
      moreover have "fs' snap = fs snap"
        using replace_file_frame [OF f, of snap] temporary_names(5) [of "world v"]
        by (simp add: snap_def bak_def)
      moreover have "r = Inr () \<longrightarrow> fs' bak = Some bc"
        using replace_file_target [OF f] temporary_names(4) [of "world v"] by (simp add: bak_def)
      ultimately show ?thesis using Some by (cases "r = Inr ()") auto
    qed (use w in auto)
  qed (use assms Some in \<open>simp add: write_backup_def fs_read_def Let_def snap_def\<close>)
qed (use assms in \<open>simp add: write_backup_def fs_read_def\<close>)

lemma snapshot_write_target:
  assumes "atomic_write_with_backup v faults k (dir_join dir ''store.snapshot'') contents fs = Done (r, fs')"
  defines "snap \<equiv> dir_join dir ''store.snapshot''" and "bak \<equiv> dir_join dir ''store.snapshot.bak''"
  shows "(if r = Inr ()
     then (\<exists>bs. encode_store_bytes v (k + 1) (as_bytes contents) = Done (Inr bs) \<and> fs' snap = Some bs)
        \<and> (\<forall>old. fs snap = Some old \<longrightarrow>
             (\<exists>b. fs' bak = Some b \<and> (b = old \<or> (\<exists>key. encrypt_store v k old key = Inr b))))
     else fs' snap = fs snap)"
  using assms(1) unfolding atomic_write_with_backup_def
proof (cases rule: then_write_cases)
  case (failed err)
  then show ?thesis using write_backup_target [of v "faults k" k dir fs "Inl err" fs'] by (simp add: snap_def)
next
  case (stepped fs0 r1)
  have old: "fs0 snap = fs snap" "\<forall>old. fs snap = Some old \<longrightarrow>
      (\<exists>b. fs0 bak = Some b \<and> (b = old \<or> (\<exists>key. encrypt_store v k old key = Inr b)))"
    using write_backup_target [OF stepped(1)] unfolding snap_def bak_def by blast+
  have t: "with_extension snap (pid_tmp (world v)) = dir_join dir (''store.'' @ pid_tmp (world v))"
    unfolding snap_def temporary_of by simp
  have "with_extension snap (pid_tmp (world v)) \<noteq> snap"
    unfolding t unfolding snap_def dir_join_inject by (rule temporary_names)
  from atomic_write_target [OF stepped(2) [folded snap_def] this]
  have new: "if r1 = Inr () then \<exists>bs. encode_store_bytes v (k + 1) (as_bytes contents) = Done (Inr bs) \<and> fs' snap = Some bs
      else fs' snap = fs0 snap" .
  have "bak \<noteq> with_extension snap (pid_tmp (world v))" "bak \<noteq> snap"
    unfolding t unfolding bak_def snap_def dir_join_inject
    using temporary_names(3) [of "world v"] by (metis, simp)
  then have "fs' bak = fs0 bak" by (rule atomic_write_frame [OF stepped(2) [folded snap_def]])
  then show ?thesis using old new stepped(3) by (simp split: if_splits)
qed

text \<open>The tables live beside the snapshot and never touch it or its backup.\<close>

lemma table_write_frame:
  assumes "atomic_write v fault k (dir_join dir (stem @ CHR ''.'' # ext)) contents fs = Done (r, fs')"
    and "CHR ''.'' \<notin> set ext" and "hd stem \<noteq> CHR ''s''" and "stem \<noteq> []" and "hd n = CHR ''s''" and "n \<noteq> []"
  shows "fs' (dir_join dir n) = fs (dir_join dir n)"
proof -
  have "n \<noteq> stem @ x" for x
    using assms(3-6) by (cases stem; cases n; simp)
  then show ?thesis
    by (intro atomic_write_frame [OF assms(1)]) (simp_all add: with_extension_file [OF assms(2)])
qed

lemma tables_frame:
  assumes "atomic_write v f k (dir_join dir name) c fs = Done (r, fs')"
    and "name \<in> {''nodes.tsv'', ''tasks.tsv'', ''grants.tsv'', ''approvals.tsv'', ''audit.jsonl''}"
    and "hd n = CHR ''s''" and "n \<noteq> []"
  shows "fs' (dir_join dir n) = fs (dir_join dir n)"
  using assms table_write_frame [of v f k dir "''nodes''" "''tsv''" c fs r fs' n]
    table_write_frame [of v f k dir "''tasks''" "''tsv''" c fs r fs' n]
    table_write_frame [of v f k dir "''grants''" "''tsv''" c fs r fs' n]
    table_write_frame [of v f k dir "''approvals''" "''tsv''" c fs r fs' n]
    table_write_frame [of v f k dir "''audit''" "''jsonl''" c fs r fs' n]
  by auto

lemma persist_snapshot_cases:
  assumes "persist_snapshot v mkdir faults (Some dir) s fs = Done (r, fs')"
  defines "snap \<equiv> dir_join dir ''store.snapshot''" and "bak \<equiv> dir_join dir ''store.snapshot.bak''"
  shows "(\<exists>bs. encode_store_bytes v 3 (as_bytes (snapshot_text s)) = Done (Inr bs) \<and> fs' snap = Some bs)
        \<and> (\<forall>old. fs snap = Some old \<longrightarrow>
             (\<exists>b. fs' bak = Some b \<and> (b = old \<or> (\<exists>key. encrypt_store v 2 old key = Inr b))))
     \<or> r \<noteq> Inr () \<and> fs' snap = fs snap"
proof (cases mkdir)
  case True
  define same where "same a b \<longleftrightarrow> a snap = b snap \<and> a bak = b bak" for a b :: files
  have frame: "same fs' fs" if "atomic_write v f k (dir_join dir name) c fs = Done (r, fs')"
      "name \<in> {''nodes.tsv'', ''tasks.tsv'', ''grants.tsv'', ''approvals.tsv'', ''audit.jsonl''}"
    for f k name c fs r fs'
    using tables_frame [OF that, of "''store.snapshot''"] tables_frame [OF that, of "''store.snapshot.bak''"]
    by (simp add: same_def snap_def bak_def)
  have refl: "same a a" for a by (simp add: same_def)
  let ?w0 = "then_write (Done (Inr (), fs)) ''nodes write failed: ''
      (atomic_write v (faults 0) 0 (dir_join dir ''nodes.tsv'') (table_text node_line (nodes s)))"
  let ?w1 = "then_write ?w0 ''tasks write failed: ''
      (atomic_write v (faults 1) 1 (dir_join dir ''tasks.tsv'') (table_text task_line (tasks s)))"
  let ?w2 = "then_write ?w1 ''store snapshot write failed: ''
      (atomic_write_with_backup v faults 2 (dir_join dir ''store.snapshot'') (snapshot_text s))"
  let ?w3 = "then_write ?w2 ''grants write failed: ''
      (atomic_write v (faults 4) 4 (dir_join dir ''grants.tsv'') (table_text grant_line (grants s)))"
  let ?w4 = "then_write ?w3 ''approvals write failed: ''
      (atomic_write v (faults 5) 5 (dir_join dir ''approvals.tsv'') (table_text approval_line (approvals s)))"
  have 5: "then_write ?w4 ''audit write failed: ''
      (atomic_write v (faults 6) 6 (dir_join dir ''audit.jsonl'') (audit_jsonl (audit s))) = Done (r, fs')"
    using assms(1) True unfolding persist_snapshot_def Let_def by simp
  obtain r4 f4 where 4: "?w4 = Done (r4, f4)" "same fs' f4" "r = Inr () \<longrightarrow> r4 = Inr ()"
    by (rule then_write_frame [where R=same, OF 5 _ refl]) ((rule frame, assumption, simp), (rule that; assumption))
  obtain r3 f3 where 3: "?w3 = Done (r3, f3)" "same f4 f3" "r4 = Inr () \<longrightarrow> r3 = Inr ()"
    by (rule then_write_frame [where R=same, OF 4(1) _ refl]) ((rule frame, assumption, simp), (rule that; assumption))
  obtain r2 f2 where 2: "?w2 = Done (r2, f2)" "same f3 f2" "r3 = Inr () \<longrightarrow> r2 = Inr ()"
    by (rule then_write_frame [where R=same, OF 3(1) _ refl]) ((rule frame, assumption, simp), (rule that; assumption))
  have kept: "same fs1 fs" if w1: "?w1 = Done (r1, fs1)" for r1 fs1
  proof -
    obtain r0 f0 where 0: "?w0 = Done (r0, f0)" "same fs1 f0"
      by (rule then_write_frame [where R=same, OF w1 _ refl]) ((rule frame, assumption, simp), (rule that; assumption))
    from 0(1) have "same f0 fs"
    proof (cases rule: then_write_cases)
      case (stepped f r1)
      then show ?thesis using frame [of "faults 0" 0 "''nodes.tsv''"] by auto
    qed simp
    then show ?thesis using 0(2) by (simp add: same_def)
  qed
  have last: "same fs' f2" using 2(2) 3(2) 4(2) by (simp add: same_def)
  from 2(1) show ?thesis
  proof (cases rule: then_write_cases)
    case (failed err)
    then show ?thesis using kept [OF failed(1)] last 2(3) 3(3) 4(3) by (auto simp: same_def)
  next
    case (stepped f1 rb)
    have "same f1 fs" by (rule kept [OF stepped(1)])
    then show ?thesis
      using snapshot_write_target [OF stepped(2)] stepped(3) last 2(3) 3(3) 4(3)
      by (auto simp: same_def snap_def bak_def split: if_splits)
  qed
qed (use assms in \<open>auto simp: persist_snapshot_def\<close>)

text \<open>Nothing that is persisted touches the lock of the directory.\<close>

lemma write_backup_frame:
  assumes "write_backup v fault k path fs = Done (r, fs')"
    and "p \<noteq> with_extension path ''snapshot.bak''"
    and "p \<noteq> with_extension (with_extension path ''snapshot.bak'') (''bak.'' @ pid_tmp (world v))"
  shows "fs' p = fs p"
  using assms unfolding write_backup_def fs_read_def Let_def
  by (cases "fs path"; cases "store_key (world v)")
     (auto split: sum.splits option.splits if_splits dest: replace_file_frame)

lemma persist_frame:
  assumes "persist_snapshot v mkdir faults (Some dir) s fs = Done (r, fs')"
    and table: "\<And>f k name c fs r fs'. atomic_write v f k (dir_join dir name) c fs = Done (r, fs') \<Longrightarrow>
      name \<in> {''nodes.tsv'', ''tasks.tsv'', ''grants.tsv'', ''approvals.tsv'', ''audit.jsonl''} \<Longrightarrow> fs' p = fs p"
    and snapshot: "\<And>c fs r fs'. atomic_write_with_backup v faults 2 (dir_join dir ''store.snapshot'') c fs = Done (r, fs')
      \<Longrightarrow> fs' p = fs p"
  shows "fs' p = fs p"
proof -
  define same where "same a b \<longleftrightarrow> a p = b p" for a b :: files
  have refl: "same a a" for a by (simp add: same_def)
  have step: "fs'' p = fs p" if "then_write m c w = Done (r, fs'')"
      "\<And>fs r fs'. w fs = Done (r, fs') \<Longrightarrow> fs' p = fs p" "\<And>r0 fs0. m = Done (r0, fs0) \<Longrightarrow> fs0 p = fs p"
    for m c w r fs''
    using then_write_frame [of m c w r fs'' same] that unfolding same_def by metis
  show ?thesis
  proof (cases mkdir)
    case True
    with assms(1) have "then_write (then_write (then_write (then_write (then_write (then_write (Done (Inr (), fs))
        ''nodes write failed: '' (atomic_write v (faults 0) 0 (dir_join dir ''nodes.tsv'') (table_text node_line (nodes s))))
        ''tasks write failed: '' (atomic_write v (faults 1) 1 (dir_join dir ''tasks.tsv'') (table_text task_line (tasks s))))
        ''store snapshot write failed: '' (atomic_write_with_backup v faults 2 (dir_join dir ''store.snapshot'') (snapshot_text s)))
        ''grants write failed: '' (atomic_write v (faults 4) 4 (dir_join dir ''grants.tsv'') (table_text grant_line (grants s))))
        ''approvals write failed: '' (atomic_write v (faults 5) 5 (dir_join dir ''approvals.tsv'') (table_text approval_line (approvals s))))
        ''audit write failed: '' (atomic_write v (faults 6) 6 (dir_join dir ''audit.jsonl'') (audit_jsonl (audit s)))
        = Done (r, fs')"
      unfolding persist_snapshot_def Let_def by simp
    then show ?thesis
      by (elim step) (erule table, simp | erule snapshot | elim step | simp)+
  qed (use assms(1) in \<open>simp add: persist_snapshot_def\<close>)
qed

lemma persist_keeps_lock:
  assumes "persist_snapshot v mkdir faults (Some dir) s fs = Done (r, fs')"
  shows "fs' (dir_join dir ''store.lock'') = fs (dir_join dir ''store.lock'')"
proof (rule persist_frame [OF assms])
  have names: "''store.lock'' \<noteq> ''store.'' @ pid_tmp e" "''store.lock'' \<noteq> ''store.snapshot.bak.'' @ pid_tmp e" for e
    by (rule not_sym, rule temporary_name, simp)+
  fix c fs r fs'
  assume "atomic_write_with_backup v faults 2 (dir_join dir ''store.snapshot'') c fs = Done (r, fs')"
  then show "fs' (dir_join dir ''store.lock'') = fs (dir_join dir ''store.lock'')"
    unfolding atomic_write_with_backup_def
  proof (cases rule: then_write_cases)
    case (failed err)
    then show ?thesis using names(2) [of "world v"]
      by (intro write_backup_frame) (auto simp: temporary_of)
  next
    case (stepped fs0 r1)
    have "fs0 (dir_join dir ''store.lock'') = fs (dir_join dir ''store.lock'')"
      using names(2) [of "world v"] by (intro write_backup_frame [OF stepped(1)]) (auto simp: temporary_of)
    moreover have "fs' (dir_join dir ''store.lock'') = fs0 (dir_join dir ''store.lock'')"
      using names(1) [of "world v"] by (intro atomic_write_frame [OF stepped(2)]) (auto simp: temporary_of)
    ultimately show ?thesis by simp
  qed
qed (rule tables_frame; simp)

section \<open>Persisting and loading\<close>

text \<open>C20: The snapshot file is never torn, and a success is durable. Whatever system call fails while
  the store is persisted, the snapshot file afterwards is the one from before, untouched, or the new
  one, whole, with the one from before in the backup file; when \<open>persist_snapshot\<close> succeeds it is the
  new one, and loading the directory gives the store that was persisted.\<close>

theorem persist_snapshot_atomic:
  assumes "persist_snapshot v mkdir faults (Some dir) s fs = Done (r, fs')" and "opens_sealed v"
    and "storable (parse_json (world v)) s"
  shows "(r = Inr () \<longrightarrow> load_store v dir fs' = Done (restored s))
    \<and> (fs' (dir_join dir ''store.snapshot'') = fs (dir_join dir ''store.snapshot'')
       \<or> load_store v dir fs' = Done (restored s)
         \<and> (\<forall>old. fs (dir_join dir ''store.snapshot'') = Some old \<longrightarrow>
              (\<exists>b. fs' (dir_join dir ''store.snapshot.bak'') = Some b
                 \<and> (b = old \<or> (\<exists>key. encrypt_store v 2 old key = Inr b)))))"
  using persist_snapshot_cases [OF assms(1)]
    load_snapshot [OF assms(2) _ assms(3), of 3 _ fs' dir] by blast

lemma then_write_success:
  "then_write m c step = Done (Inr (), fs') \<longleftrightarrow>
     (\<exists>fs0. m = Done (Inr (), fs0) \<and> step fs0 = Done (Inr (), fs'))"
proof
  assume "then_write m c step = Done (Inr (), fs')"
  then show "\<exists>fs0. m = Done (Inr (), fs0) \<and> step fs0 = Done (Inr (), fs')"
    by (cases rule: then_write_cases) auto
qed (auto simp: then_write_def)

lemma then_write_failed [simp]: "then_write (Done (Inl err, fs)) c step = Done (Inl err, fs)"
  by (simp add: then_write_def)

text \<open>A failed persist can be durable. \<open>persist_snapshot\<close> replaces the snapshot before the last
  three tables; if then the write of \<open>grants.tsv\<close> fails, it returns an error, so the handler answers
  503 and rolls the store in memory back, but loading the directory gives the new store: after a
  restart the refused change is there.\<close>

theorem failed_persist_durable:
  assumes "persist_snapshot v True (\<lambda>_. None) (Some dir) s fs = Done (Inr (), fs1)" and "opens_sealed v"
    and "storable (parse_json (world v)) s"
  shows "\<exists>fs'. persist_snapshot v True (\<lambda>k. if k = 4 then Some (CreateFails err) else None) (Some dir) s fs
         = Done (Inl (''grants write failed: '' @ err), fs')
       \<and> load_store v dir fs' = Done (restored s)"
proof -
  let ?w0 = "then_write (Done (Inr (), fs)) ''nodes write failed: ''
      (atomic_write v None 0 (dir_join dir ''nodes.tsv'') (table_text node_line (nodes s)))"
  let ?w1 = "then_write ?w0 ''tasks write failed: ''
      (atomic_write v None 1 (dir_join dir ''tasks.tsv'') (table_text task_line (tasks s)))"
  let ?w2 = "then_write ?w1 ''store snapshot write failed: ''
      (atomic_write_with_backup v (\<lambda>_. None) 2 (dir_join dir ''store.snapshot'') (snapshot_text s))"
  let ?grants = "\<lambda>fault. atomic_write v fault 4 (dir_join dir ''grants.tsv'') (table_text grant_line (grants s))"
  obtain f1 f2 f3 where 1: "?w1 = Done (Inr (), f1)"
    and 2: "atomic_write_with_backup v (\<lambda>_. None) 2 (dir_join dir ''store.snapshot'') (snapshot_text s) f1
      = Done (Inr (), f2)" and 3: "?grants None f2 = Done (Inr (), f3)"
    using assms(1) unfolding persist_snapshot_def Let_def by (auto simp: then_write_success)
  have w2: "?w2 = Done (Inr (), f2)" using 1 2 by (simp add: then_write_def)
  have "?grants (Some (CreateFails err)) f2 = Done (Inl err, f2)"
    using 3 unfolding atomic_write_encode
    by (cases "encode_store_bytes v 4 (as_bytes (table_text grant_line (grants s)))")
       (auto simp: replace_file_def split: sum.splits)
  then have w3: "then_write ?w2 ''grants write failed: '' (?grants (Some (CreateFails err)))
      = Done (Inl (''grants write failed: '' @ err), f2)"
    unfolding w2 by (simp add: then_write_def)
  have b: "atomic_write_with_backup v (\<lambda>k. if k = 4 then Some (CreateFails err) else None) 2
      = atomic_write_with_backup v (\<lambda>_. None) 2"
    by (intro ext) (simp add: atomic_write_with_backup_def)
  have "persist_snapshot v True (\<lambda>k. if k = 4 then Some (CreateFails err) else None) (Some dir) s fs
      = Done (Inl (''grants write failed: '' @ err), f2)"
    unfolding persist_snapshot_def Let_def using w3 by (simp add: b)
  moreover have "load_store v dir f2 = Done (restored s)"
    using snapshot_write_target [OF 2] load_snapshot [OF assms(2) _ assms(3)] by auto
  ultimately show ?thesis by blast
qed

section \<open>The check at startup\<close>

lemma parse_snapshot_chain:
  "parse_snapshot e contents = Done (Some st) \<Longrightarrow> audit_chain_valid (audit st)"
  by (cases "parse_lines e [] (drop 1 (str_lines contents)) empty_store")
     (auto simp: parse_snapshot_def split: if_splits)

lemma startup_files_checked:
  assumes "startup_files v dir fs require_encrypted key names = Done (Inr ())" and "name \<in> set names"
    and "fs (dir_join dir name) = Some bs"
  shows "(require_encrypted \<longrightarrow> prefix STORE_MAGIC bs)
    \<and> (\<exists>plain. (if prefix STORE_MAGIC bs
                then \<exists>k. key = Some k \<and> decrypt_store v bs k = Inr plain else plain = bs)
        \<and> (name = ''store.snapshot'' \<longrightarrow> (\<exists>contents st. from_utf8 plain = Some contents
             \<and> parse_snapshot (world v) contents = Done (Some st))))"
  using assms
proof (induction names)
  case (Cons n names)
  show ?case
  proof (cases "n = name")
    case True
    define plain where "plain = (if prefix STORE_MAGIC bs
        then (case key of None \<Rightarrow> Inl (''encrypted store requires NODEWE_STORE_KEY: '' @ dir_join dir name)
                        | Some key \<Rightarrow> decrypt_store v bs key) else Inr bs)"
    have r: "require_encrypted \<longrightarrow> prefix STORE_MAGIC bs"
      using Cons.prems True by (cases "prefix STORE_MAGIC bs") (auto simp: fs_read_def Let_def)
    then have nr: "\<not> (require_encrypted \<and> \<not> prefix STORE_MAGIC bs)" by blast
    have p: "(case plain of Inl err \<Rightarrow> Done (Inl err) | Inr plaintext \<Rightarrow>
        if name = ''store.snapshot'' then
          (case from_utf8 plaintext of
             None \<Rightarrow> Done (Inl (''store snapshot is not UTF-8: '' @ dir_join dir name))
           | Some contents \<Rightarrow> exec_bind (parse_snapshot (world v) contents) (\<lambda>parsed.
               if parsed = None then Done (Inl (''store snapshot integrity check failed: '' @ dir_join dir name))
               else startup_files v dir fs require_encrypted key names))
        else startup_files v dir fs require_encrypted key names) = Done (Inr ())"
      using Cons.prems(1)
      by (simp only: startup_files.simps Let_def fs_read_def Cons.prems(3) option.case sum.case
          if_not_P [OF nr] plain_def True)
    then obtain plaintext where pt: "plain = Inr plaintext" by (cases plain) auto
    then have k: "if prefix STORE_MAGIC bs
                then \<exists>k. key = Some k \<and> decrypt_store v bs k = Inr plaintext else plaintext = bs"
      by (auto simp: plain_def split: if_splits option.splits)
    have "\<exists>contents st. from_utf8 plaintext = Some contents \<and> parse_snapshot (world v) contents = Done (Some st)"
      if "name = ''store.snapshot''"
    proof (cases "from_utf8 plaintext")
      case (Some contents)
      show ?thesis
      proof (cases "parse_snapshot (world v) contents")
        case (Done parsed)
        then show ?thesis using p pt Some that True by (cases parsed) auto
      qed (use p pt Some that True in simp)
    qed (use p pt that True in simp)
    then show ?thesis using r k by blast
  next
    case False
    define Q where "Q x \<longleftrightarrow> (x = Done (Inr ()) \<longrightarrow>
        startup_files v dir fs require_encrypted key names = Done (Inr ()))" for x :: "(string + unit) exec"
    have "Q (startup_files v dir fs require_encrypted key (n # names))"
      unfolding startup_files.simps Let_def
      by (intro if_cases [where Q=Q] option_cases [where Q=Q] sum_cases [where Q=Q] exec_cases [where Q=Q])
         (simp_all add: Q_def)
    then have "startup_files v dir fs require_encrypted key names = Done (Inr ())"
      using Cons.prems(1) unfolding Q_def by blast
    then show ?thesis using Cons False by simp
  qed
qed simp

lemma startup_check:
  assumes "validate_store_startup v dir fs = Done (Inr ())"
  shows "(\<exists>key. store_key (world v) = Done (Inr key)
       \<and> (\<forall>name \<in> set STORE_FILES. \<forall>bs. fs (dir_join dir name) = Some bs \<longrightarrow>
            (require_encrypted_store (world v) \<longrightarrow> prefix STORE_MAGIC bs)
          \<and> (prefix STORE_MAGIC bs \<longrightarrow> (\<exists>k plain. key = Some k \<and> decrypt_store v bs k = Inr plain))))
    \<and> (fs (dir_join dir ''store.snapshot'') \<noteq> None \<longrightarrow>
         (\<exists>contents st. read_store_text v fs (dir_join dir ''store.snapshot'') = Done (Inr contents)
            \<and> parse_snapshot (world v) contents = Done (Some st)
            \<and> load_store v dir fs = Done st \<and> audit_chain_valid (audit st)))"
proof -
  obtain key where k: "store_key (world v) = Done (Inr key)"
    and f: "startup_files v dir fs (require_encrypted_store (world v)) key STORE_FILES = Done (Inr ())"
    using assms unfolding validate_store_startup_def
    by (cases "store_key (world v)") (auto split: sum.splits if_splits)
  note checked = startup_files_checked [OF f]
  have "\<exists>contents st. read_store_text v fs (dir_join dir ''store.snapshot'') = Done (Inr contents)
            \<and> parse_snapshot (world v) contents = Done (Some st)
            \<and> load_store v dir fs = Done st \<and> audit_chain_valid (audit st)"
    if snap: "fs (dir_join dir ''store.snapshot'') = Some bs" for bs
  proof -
    have "''store.snapshot'' \<in> set STORE_FILES" by (simp add: STORE_FILES_def)
    from checked [OF this snap] obtain plain contents st where
      p: "if prefix STORE_MAGIC bs then \<exists>k. key = Some k \<and> decrypt_store v bs k = Inr plain else plain = bs"
      and c: "from_utf8 plain = Some contents" "parse_snapshot (world v) contents = Done (Some st)" by blast
    from p have "decode_store_bytes v bs = Done (Inr plain)"
      using k by (auto simp: decode_store_bytes_def split: if_splits)
    then have r: "read_store_text v fs (dir_join dir ''store.snapshot'') = Done (Inr contents)"
      using snap c by (simp add: read_store_text_decode fs_read_def)
    then show ?thesis using c parse_snapshot_chain [OF c(2)] by (auto simp: load_store_def)
  qed
  moreover have "(require_encrypted_store (world v) \<longrightarrow> prefix STORE_MAGIC bs)
          \<and> (prefix STORE_MAGIC bs \<longrightarrow> (\<exists>k plain. key = Some k \<and> decrypt_store v bs k = Inr plain))"
    if "name \<in> set STORE_FILES" "fs (dir_join dir name) = Some bs" for name bs
    using checked [OF that] by auto
  ultimately show ?thesis using k by blast
qed

lemma startup_encrypted:
  "validate_store_startup v dir fs = Done (Inr ()) \<Longrightarrow> require_encrypted_store (world v) \<Longrightarrow>
   name \<in> set STORE_FILES \<Longrightarrow> fs (dir_join dir name) = Some bs \<Longrightarrow> prefix STORE_MAGIC bs"
  using startup_check by blast

text \<open>The startup check means what it says. When it passes and encryption is enforced, every file
  of the store that is present is encrypted, and each of them opens under the configured key; and
  when the snapshot file is present, loading the directory gives the store it holds, with a valid
  audit chain: the server never falls back to older tables behind a damaged snapshot.\<close>

theorem startup_check_sound:
  assumes "validate_store_startup v dir fs = Done (Inr ())"
  shows "(\<exists>key. store_key (world v) = Done (Inr key)
       \<and> (\<forall>name \<in> set STORE_FILES. \<forall>bs. fs (dir_join dir name) = Some bs \<longrightarrow>
            (require_encrypted_store (world v) \<longrightarrow> prefix STORE_MAGIC bs)
          \<and> (prefix STORE_MAGIC bs \<longrightarrow> (\<exists>k plain. key = Some k \<and> decrypt_store v bs k = Inr plain))))
    \<and> (fs (dir_join dir ''store.snapshot'') \<noteq> None \<longrightarrow>
         (\<exists>contents st. read_store_text v fs (dir_join dir ''store.snapshot'') = Done (Inr contents)
            \<and> parse_snapshot (world v) contents = Done (Some st)
            \<and> load_store v dir fs = Done st \<and> audit_chain_valid (audit st)))"
  using assms by (rule startup_check)

section \<open>What the older reader makes of the tables\<close>

lemma str_splitn_more:
  "\<forall>w \<in> set (a # ws). c \<notin> set w \<Longrightarrow> rest \<noteq> [] \<Longrightarrow>
   str_splitn (Suc (Suc (length ws))) c (str_join [c] ((a # ws) @ rest)) = (a # ws) @ [str_join [c] rest]"
proof (induction ws arbitrary: a)
  case Nil
  then show ?case by (simp add: str_join_Cons)
next
  case (Cons b ws)
  then show ?case
    using str_splitn_append [of c a "Suc (length ws)" "str_join [c] ((b # ws) @ rest)"] Cons.IH [of b]
    by (simp add: str_join_Cons)
qed

text \<open>A task line has seventeen columns, the older reader knows fifteen: it takes the request id for the
  actor, and loses the digest, the request id and the exit code.\<close>

lemma legacy_reader_misreads:
  assumes "storable_task t" and "tk_exit_code t = None" and "tk_output_sha256 t = []"
  shows "\<exists>t'. legacy_task_line (task_line t) st = Done (st\<lparr>tasks := tasks st @ [t']\<rparr>)
     \<and> tk_actor t' = tk_request_id t \<and> tk_request_id t' = clean (tk_id t) \<and> tk_lease_token t' = []"
proof -
  let ?head = "[clean (tk_node_id t), clean (tk_ability t), clean (tk_state t),
      clean (tk_idempotency_key t), show_u64 (tk_lease_until t),
      hex_encode (tk_program t), hex_encode (tk_argument t), hex_encode (tk_output t),
      [], if tk_output_truncated t then ''truncated'' else ''complete'', [],
      hex_encode (tk_request_id t), hex_encode (tk_lease_token t)]"
  let ?rest = "[hex_encode (tk_actor t), show_u64 (tk_timeout_ms t), dec (tk_output_limit t)]"
  have c: "clean [] = []" by (simp add: clean_def replace_chars_def)
  have "str_splitn (Suc (Suc (length ?head))) TAB (str_join [TAB] ((clean (tk_id t) # ?head) @ ?rest))
      = (clean (tk_id t) # ?head) @ [str_join [TAB] ?rest]"
    by (rule str_splitn_more) (auto simp: field_free show_u64_def)
  then have f: "str_splitn 15 TAB (task_line t) = (clean (tk_id t) # ?head) @ [str_join [TAB] ?rest]"
    using assms(2,3) by (simp add: task_line_def c eval_nat_numeral)
  have e: "decode_or (Some []) d = Done []" for d
    by (simp add: decode_or_def hex_decode_def from_utf8_def unwrap_or_def of_bytes_def)
  have m: "decode_or (Some (if b then ''truncated'' else ''complete'')) d = Done d" for b d
    by (simp add: decode_or_def hex_decode_def is_cont_def byte_def parse_uint_def digit_of_def
        ascii_simps unwrap_or_def)
  show ?thesis
    using assms(1) unfolding legacy_task_line_def f
    by (simp add: e m storable_task_def) (intro exI conjI, rule refl, simp_all)
qed

text \<open>The older tables have no reader for the audit log: a directory loaded from them starts with an
  empty one.\<close>

lemma fold_lines_audit:
  assumes "\<And>line st st'. step line st = Done st' \<Longrightarrow> audit st' = audit st"
  shows "fold_lines step ls st = Done st' \<Longrightarrow> audit st' = audit st"
proof (induction ls arbitrary: st)
  case (Cons l ls)
  then show ?case using assms by (cases "step l st") auto
qed simp

lemma read_table_audit:
  assumes "\<And>line st st'. step line st = Done st' \<Longrightarrow> audit st' = audit st"
  shows "read_table v fs path step st = Done st' \<Longrightarrow> audit st' = audit st"
  unfolding read_table_def using fold_lines_audit [of step, OF assms]
  by (cases "read_store_text v fs path") (auto split: sum.splits)

lemma exec_bind_Done: "exec_bind m f = Done y \<longleftrightarrow> (\<exists>x. m = Done x \<and> f x = Done y)"
  by (cases m) auto

lemma legacy_drops_audit:
  assumes "load_legacy_store v dir fs = Done st"
  shows "audit st = []"
proof -
  have n: "audit s' = audit s" if "legacy_node_line now l s = Done s'" for now l s s'
    using that by (auto simp: legacy_node_line_def node_of_fields_def exec_bind_Done split: if_splits)
  have t: "audit s' = audit s" if "legacy_task_line l s = Done s'" for l s s'
    using that by (auto simp: legacy_task_line_def exec_bind_Done Let_def split: if_splits)
  have g: "audit s' = audit s" if "Done (parse_grant_line l s) = Done s'" for l s s'
    using that by (auto simp: parse_grant_line_def Let_def split: if_splits option.splits)
  have a: "audit s' = audit s" if "parse_approval_line l s = Done s'" for l s s'
  proof (cases "length (str_splitn 8 TAB l) < 8")
    case False
    let ?fs = "str_splitn 8 TAB l"
    from that False obtain p q where "hex_decode (?fs ! 3) = Done p" "hex_decode (?fs ! 4) = Done q"
      by (auto simp: parse_approval_line_def exec_bind_Done Let_def)
    then show ?thesis using that False
      by (cases p; cases q; cases "parse_u64 (?fs ! 6)") (auto simp: parse_approval_line_def Let_def)
  qed (use that in \<open>simp add: parse_approval_line_def Let_def\<close>)
  from assms obtain s1 s2 s3 where
    "read_table v fs (dir_join dir ''nodes.tsv'')
       (\<lambda>line st. legacy_node_line (clk (world v) (2 * length (nodes st) + 1)) line st) empty_store = Done s1"
    "read_table v fs (dir_join dir ''tasks.tsv'') legacy_task_line s1 = Done s2"
    "read_table v fs (dir_join dir ''grants.tsv'') (\<lambda>line st. Done (parse_grant_line line st)) s2 = Done s3"
    "read_table v fs (dir_join dir ''approvals.tsv'') parse_approval_line s3 = Done st"
    by (auto simp: load_legacy_store_def exec_bind_Done)
  from read_table_audit [OF _ this(1)] read_table_audit [OF _ this(2)]
    read_table_audit [OF _ this(3)] read_table_audit [OF _ this(4)]
  show ?thesis using n t g a by (simp add: empty_store_def)
qed

section \<open>A vault to try it on\<close>

definition sample_key :: string where
  "sample_key = hex_encode_bytes (replicate 32 0)"

definition sample_vault :: vault where
  "sample_vault = \<lparr>world = sample_env [''NODEWE_STORE_KEY'' \<mapsto> sample_key,
       ''NODEWE_REQUIRE_ENCRYPTED_STORE'' \<mapsto> ''1'', ''NODEWE_ENV'' \<mapsto> ''production'',
       ''NODEWE_REQUIRE_SIGNED_GRANTS'' \<mapsto> ''1'', ''NODEWE_REQUIRE_APPROVAL_RECORDS'' \<mapsto> ''1'',
       ''NODEWE_DATA_DIR'' \<mapsto> ''d'', ''NODEWE_TLS_PROXY_APPROVED'' \<mapsto> ''1'',
       ''NODEWE_GRANT_SIGNING_KEY'' \<mapsto> ''01'', ''NODEWE_ADMIN_TOKEN'' \<mapsto> ''adm'',
       ''NODEWE_GRANT_SECRET'' \<mapsto> ''s''] (\<lambda>_. Inl []) kept_parser,
     aes_seal = (\<lambda>_ _ plain. Some plain), aes_open = (\<lambda>_ _ sealed. Some sealed)\<rparr>"

lemma sample_opens: "opens_sealed sample_vault"
  by (simp add: opens_sealed_def sample_vault_def)

lemma sample_storable: "storable (parse_json (world sample_vault)) kept_store"
  by (simp add: sample_vault_def sample_env_def kept_storable)

lemma sample_store_key: "store_key (world sample_vault) = Done (Inr (Some (replicate 32 0)))"
proof -
  have "list_all is_ascii_graphic sample_key" unfolding sample_key_def
    using hex_encode_chars by (rule list.pred_mono_strong) (auto simp: ascii_simps)
  then have "str_trim sample_key = sample_key" by (rule str_trim_graphic)
  moreover have "valid_utf8 sample_key" by (simp add: sample_key_def ascii_digits_utf8)
  moreover have "length sample_key = 64" by (simp add: sample_key_def)
  moreover have "hex_pairs sample_key = Done (Some (replicate 32 0))"
    unfolding sample_key_def by (rule hex_pairs_encode)
  ultimately show ?thesis
    by (simp add: store_key_def load_secret_value_def sample_vault_def sample_env_def)
qed

definition sample_sealed :: "bytes \<Rightarrow> bytes" where
  "sample_sealed contents = STORE_MAGIC @ replicate 12 0 @ contents"

lemma sample_encode: "encode_store_bytes sample_vault k contents = Done (Inr (sample_sealed contents))"
  by (simp add: encode_store_bytes_def sample_store_key encrypt_store_def sample_sealed_def)
     (simp add: sample_vault_def sample_env_def NONCE_LEN_def)

lemma sample_required: "require_encrypted_store (world sample_vault)"
  by (simp add: require_encrypted_store_def env_var_def sample_vault_def sample_env_def byte_def)

theorem backend_roundtrip_witness:
  "validate_sqlite_startup sample_vault True (Inr (Inr (sample_sealed (as_bytes (snapshot_text kept_store))))) = Done (Inr ())
    \<and> load_sqlite_store sample_vault (Inr (Inr (sample_sealed (as_bytes (snapshot_text kept_store))))) = Done (restored kept_store)
    \<and> load_postgres_store sample_vault (Inr (Some (sample_sealed (as_bytes (snapshot_text kept_store)))))
      = Done (Inr (restored kept_store))"
  by (rule backend_roundtrip [OF sample_opens sample_storable, of 0])
     (simp_all add: backend_snapshot_def sample_encode sample_sealed_def)

lemma sample_persist: "\<exists>fs'. persist_snapshot sample_vault True (\<lambda>_. None) (Some ''d'') kept_store Map.empty = Done (Inr (), fs')"
proof -
  have w: "atomic_write sample_vault None k path contents fs
      = Done (Inr (), fs(with_extension path (pid_tmp (world sample_vault)) := None,
          path \<mapsto> sample_sealed (as_bytes contents)))" for k path contents fs
    by (simp add: atomic_write_encode sample_encode replace_file_def)
  show ?thesis
    by (simp add: persist_snapshot_def Let_def w then_write_def atomic_write_with_backup_def
        write_backup_def fs_read_def)
qed

definition sample_files :: files where
  "sample_files = (case persist_snapshot sample_vault True (\<lambda>_. None) (Some ''d'') kept_store Map.empty of
     Done (r, fs) \<Rightarrow> fs | Panic \<Rightarrow> Map.empty)"

lemma sample_persisted:
  "persist_snapshot sample_vault True (\<lambda>_. None) (Some ''d'') kept_store Map.empty = Done (Inr (), sample_files)"
  using sample_persist by (auto simp: sample_files_def)

theorem persist_snapshot_atomic_witness: "load_store sample_vault ''d'' sample_files = Done (restored kept_store)"
  using persist_snapshot_atomic [OF sample_persisted sample_opens sample_storable] by simp

theorem failed_persist_durable_witness:
  "\<exists>fs'. persist_snapshot sample_vault True (\<lambda>k. if k = 4 then Some (CreateFails ''disk full'') else None)
       (Some ''d'') kept_store Map.empty = Done (Inl (''grants write failed: '' @ ''disk full''), fs')
     \<and> load_store sample_vault ''d'' fs' = Done (restored kept_store)"
  by (rule failed_persist_durable [OF sample_persisted sample_opens sample_storable])

theorem startup_check_sound_witness:
  "\<exists>contents st. read_store_text sample_vault [dir_join ''d'' ''store.snapshot'' \<mapsto> sample_sealed (as_bytes (snapshot_text kept_store))]
       (dir_join ''d'' ''store.snapshot'') = Done (Inr contents)
     \<and> parse_snapshot (world sample_vault) contents = Done (Some st) \<and> audit_chain_valid (audit st)"
proof -
  let ?fs = "[dir_join ''d'' ''store.snapshot'' \<mapsto> sample_sealed (as_bytes (snapshot_text kept_store))]"
  have d: "decrypt_store sample_vault (sample_sealed c) (replicate 32 0) = Inr c" for c
    by (simp add: decrypt_store_def sample_sealed_def NONCE_LEN_def) (simp add: sample_vault_def)
  have "from_utf8 (as_bytes (snapshot_text kept_store)) = Some (snapshot_text kept_store)"
    using snapshot_text_utf8 [OF kept_storable] by (simp add: from_utf8_def)
  moreover have "prefix STORE_MAGIC (sample_sealed c)" for c by (simp add: sample_sealed_def)
  ultimately have "validate_store_startup sample_vault ''d'' ?fs = Done (Inr ())"
    by (simp add: validate_store_startup_def sample_store_key STORE_FILES_def fs_read_def d Let_def
        parse_snapshot_text [OF sample_storable])
  from startup_check_sound [OF this] show ?thesis by auto
qed


text \<open>Of the database backends only the SQLite check of an existing database looks at
  \<open>NODEWE_REQUIRE_ENCRYPTED_STORE\<close>: without a key, whatever that variable says, the rows are written
  as plain text, the PostgreSQL loader reads them back, and a SQLite start without a database
  passes.\<close>

lemma plaintext_row_kept:
  assumes "store_key (world v) = Done (Inr None)" and "storable (parse_json (world v)) s"
  shows "backend_snapshot v k s = Done (Inr (as_bytes (snapshot_text s)))"
    and "load_postgres_store v (Inr (Some (as_bytes (snapshot_text s)))) = Done (Inr (restored s))"
    and "validate_sqlite_startup v False row = Done (Inr ())"
proof -
  show "backend_snapshot v k s = Done (Inr (as_bytes (snapshot_text s)))"
    using assms(1) by (simp add: backend_snapshot_def encode_store_bytes_def)
  have "decode_store_bytes v (as_bytes (snapshot_text s)) = Done (Inr (as_bytes (snapshot_text s)))"
    using header_not_magic by (simp add: decode_store_bytes_def)
  moreover have "from_utf8 (as_bytes (snapshot_text s)) = Some (snapshot_text s)"
    using snapshot_text_utf8 [OF assms(2)] by (simp add: from_utf8_def)
  ultimately show "load_postgres_store v (Inr (Some (as_bytes (snapshot_text s)))) = Done (Inr (restored s))"
    using parse_snapshot_text [OF assms(2)] by (simp add: load_postgres_store_def)
  show "validate_sqlite_startup v False row = Done (Inr ())"
    by (simp add: validate_sqlite_startup_def)
qed

end
