(* ===== verification/Server_Tls.thy ===== *)
theory Server_Tls
  imports Policy_Config
begin

text \<open>
  The TLS configuration of the control plane, \<open>load_tls_config\<close> of \<open>control-plane/src/main.rs\<close>. Reading PEM
  files and building the configuration is the work of \<open>rustls\<close>; which certificates are asked for, in what
  order, and when there is no TLS at all is the code's.
\<close>

section \<open>The configuration\<close>

text \<open>What \<open>rustls\<close> makes of files, certificates and keys: the certificates of a file, each readable or not;
  its private key; whether a certificate can be trusted, given the ones before; and whether the verifier
  and the configuration can be built.\<close>

record tls_material =
  pem_certificates :: "string \<Rightarrow> string + (string + bytes) list"
  pem_private_key :: "string \<Rightarrow> string + bytes"
  add_root :: "bytes list \<Rightarrow> bytes \<Rightarrow> string + unit"
  build_verifier :: "bytes list \<Rightarrow> string + unit"
  single_cert :: "bytes list \<Rightarrow> bytes \<Rightarrow> string + unit"

record server_tls =
  client_roots :: "bytes list"
  certificate_chain :: "bytes list"
  server_key :: bytes

fun collect_certificates :: "(string + bytes) list \<Rightarrow> string + bytes list" where
  "collect_certificates [] = Inr []"
| "collect_certificates (Inl err # cs) = Inl err"
| "collect_certificates (Inr c # cs) =
     (case collect_certificates cs of Inl err \<Rightarrow> Inl err | Inr rest \<Rightarrow> Inr (c # rest))"

fun add_roots :: "tls_material \<Rightarrow> (string + bytes) list \<Rightarrow> bytes list \<Rightarrow> string + bytes list" where
  "add_roots m [] roots = Inr roots"
| "add_roots m (Inl err # cs) roots = Inl (''cannot parse NODEWE_TLS_CLIENT_CA: '' @ err)"
| "add_roots m (Inr c # cs) roots =
     (case add_root m roots c of
        Inl err \<Rightarrow> Inl (''invalid client CA certificate: '' @ err)
      | Inr _ \<Rightarrow> add_roots m cs (roots @ [c]))"

definition build_server_tls :: "tls_material \<Rightarrow> string \<Rightarrow> string \<Rightarrow> string \<Rightarrow> string + server_tls" where
  "build_server_tls m certificate private_key client_ca =
     (case pem_certificates m certificate of
        Inl err \<Rightarrow> Inl (''cannot read NODEWE_TLS_CERT: '' @ err)
      | Inr items \<Rightarrow>
     (case collect_certificates items of
        Inl err \<Rightarrow> Inl (''cannot parse NODEWE_TLS_CERT: '' @ err)
      | Inr certificates \<Rightarrow>
          if certificates = [] then Inl ''NODEWE_TLS_CERT contains no certificates'' else
     (case pem_private_key m private_key of
        Inl err \<Rightarrow> Inl (''cannot parse NODEWE_TLS_KEY: '' @ err)
      | Inr key \<Rightarrow>
     (case pem_certificates m client_ca of
        Inl err \<Rightarrow> Inl (''cannot read NODEWE_TLS_CLIENT_CA: '' @ err)
      | Inr items \<Rightarrow>
     (case add_roots m items [] of
        Inl err \<Rightarrow> Inl err
      | Inr roots \<Rightarrow>
          if roots = [] then Inl ''NODEWE_TLS_CLIENT_CA contains no certificates'' else
     (case build_verifier m roots of
        Inl err \<Rightarrow> Inl (''cannot build mTLS verifier: '' @ err)
      | Inr _ \<Rightarrow>
     (case single_cert m certificates key of
        Inl err \<Rightarrow> Inl (''cannot build TLS server config: '' @ err)
      | Inr _ \<Rightarrow> Inr \<lparr>client_roots = roots, certificate_chain = certificates, server_key = key\<rparr>)))))))"

definition load_tls_config :: "tls_material \<Rightarrow> env \<Rightarrow> string + server_tls option" where
  "load_tls_config m e =
     (let certificate = environ e ''NODEWE_TLS_CERT''; private_key = environ e ''NODEWE_TLS_KEY'';
          client_ca = environ e ''NODEWE_TLS_CLIENT_CA''
      in if certificate = None \<and> private_key = None \<and> client_ca = None then Inr None
         else case certificate of
           None \<Rightarrow> Inl ''NODEWE_TLS_CERT is required when TLS is enabled''
         | Some certificate \<Rightarrow>
        (case private_key of
           None \<Rightarrow> Inl ''NODEWE_TLS_KEY is required when TLS is enabled''
         | Some private_key \<Rightarrow>
        (case client_ca of
           None \<Rightarrow> Inl ''NODEWE_TLS_CLIENT_CA is required for mTLS''
         | Some client_ca \<Rightarrow>
        (case build_server_tls m certificate private_key client_ca of Inl err \<Rightarrow> Inl err | Inr c \<Rightarrow> Inr (Some c)))))"

section \<open>What it trusts\<close>

text \<open>The certificates of a file that is read to its end are those of the file, in order.\<close>

lemma collected_certificates: "collect_certificates items = Inr cs \<Longrightarrow> items = map Inr cs"
  by (induction items arbitrary: cs rule: collect_certificates.induct) (auto split: sum.splits)

lemma added_roots: "add_roots m items roots = Inr all_roots \<Longrightarrow> \<exists>cs. items = map Inr cs \<and> all_roots = roots @ cs"
proof (induction m items roots rule: add_roots.induct)
  case (3 m c cs roots)
  then obtain more where "cs = map Inr more" "all_roots = (roots @ [c]) @ more"
    by (auto split: sum.splits)
  then show ?case by (intro exI [of _ "c # more"]) simp
qed auto

text \<open>TLS with clients verified: the chain and the key are those of the files, and the clients are checked
  against all certificates of the third file, of which there is at least one.\<close>

definition verifies_clients :: "tls_material \<Rightarrow> env \<Rightarrow> server_tls \<Rightarrow> bool" where
  "verifies_clients m e c \<longleftrightarrow>
     (\<exists>certificate private_key client_ca.
        environ e ''NODEWE_TLS_CERT'' = Some certificate \<and> environ e ''NODEWE_TLS_KEY'' = Some private_key
      \<and> environ e ''NODEWE_TLS_CLIENT_CA'' = Some client_ca
      \<and> pem_certificates m certificate = Inr (map Inr (certificate_chain c)) \<and> certificate_chain c \<noteq> []
      \<and> pem_private_key m private_key = Inr (server_key c)
      \<and> pem_certificates m client_ca = Inr (map Inr (client_roots c)) \<and> client_roots c \<noteq> [])"

lemma built_server_tls:
  assumes "build_server_tls m certificate private_key client_ca = Inr c"
  shows "pem_certificates m certificate = Inr (map Inr (certificate_chain c)) \<and> certificate_chain c \<noteq> []
    \<and> pem_private_key m private_key = Inr (server_key c)
    \<and> pem_certificates m client_ca = Inr (map Inr (client_roots c)) \<and> client_roots c \<noteq> []"
proof -
  from assms obtain items cs key ca roots where
    "pem_certificates m certificate = Inr items" "collect_certificates items = Inr cs" "cs \<noteq> []"
    "pem_private_key m private_key = Inr key"
    "pem_certificates m client_ca = Inr ca" "add_roots m ca [] = Inr roots" "roots \<noteq> []"
    "c = \<lparr>client_roots = roots, certificate_chain = cs, server_key = key\<rparr>"
    unfolding build_server_tls_def by (auto split: sum.splits if_splits)
  then show ?thesis using collected_certificates [of items cs] added_roots [of m ca "[]" roots] by auto
qed

lemma loaded_tls:
  assumes "load_tls_config m e = Inr (Some c)"
  shows "verifies_clients m e c"
proof -
  from assms obtain certificate private_key client_ca where
    env: "environ e ''NODEWE_TLS_CERT'' = Some certificate" "environ e ''NODEWE_TLS_KEY'' = Some private_key"
      "environ e ''NODEWE_TLS_CLIENT_CA'' = Some client_ca" and
    c: "build_server_tls m certificate private_key client_ca = Inr c"
    by (auto simp: load_tls_config_def Let_def split: if_splits option.splits sum.splits)
  show ?thesis unfolding verifies_clients_def using env built_server_tls [OF c] by blast
qed

lemma no_tls:
  "load_tls_config m e = Inr None \<longleftrightarrow>
     environ e ''NODEWE_TLS_CERT'' = None \<and> environ e ''NODEWE_TLS_KEY'' = None \<and> environ e ''NODEWE_TLS_CLIENT_CA'' = None"
  by (auto simp: load_tls_config_def Let_def split: option.splits sum.splits)

end
