(* ===== verification/Startup.thy ===== *)
theory Startup
  imports Server_Safety Storage Server_Tls
begin

text \<open>
  From the command line to a serving state: the lock on the data directory (\<open>acquire_store_lock\<close>,
  \<open>StoreLock\<close>) and the part of \<open>main\<close> of \<open>control-plane/src/main.rs\<close> before the accept loop. Every
  \<open>expect\<close> and \<open>panic!\<close> of it is \<^const>\<open>Panic\<close>. Whether the listener can be bound and
  what the TLS files hold are answers of the outside world. The last section closes the circle: a state the server was serving,
  persisted and started again.
\<close>

section \<open>The lock\<close>

datatype lock_fault =
  OpenFails string
| LockWriteFails string nat
| SyncFails string

text \<open>\<open>create_new\<close> refuses a file that is there; a failing write leaves the file behind. The clock place
  is \<open>k\<close>.\<close>

definition lock_text :: "env \<Rightarrow> nat \<Rightarrow> string" where
  "lock_text e k = ''pid='' @ dec (unat (pid e)) @ [NL] @ ''started_ms='' @ show_u64 (clk e k) @ [NL]"

definition acquire_store_lock ::
    "env \<Rightarrow> nat \<Rightarrow> (string + unit) \<Rightarrow> lock_fault option \<Rightarrow> string \<Rightarrow> files \<Rightarrow> (string + string) \<times> files" where
  "acquire_store_lock e k mkdir fault dir fs =
     (case mkdir of
        Inl err \<Rightarrow> (Inl (''cannot create data directory: '' @ err), fs)
      | Inr _ \<Rightarrow>
          let path = dir_join dir ''store.lock'' in
          if fs path \<noteq> None
          then (Inl (''NodeWe data directory is already locked: '' @ path
                  @ ''; use a shared transactional database for HA''), fs)
          else (case fault of
              Some (OpenFails err) \<Rightarrow> (Inl (''cannot create store lock '' @ path @ '': '' @ err), fs)
            | Some (LockWriteFails err n) \<Rightarrow>
                (Inl (''cannot write store lock: '' @ err), fs(path \<mapsto> as_bytes (take n (lock_text e k))))
            | Some (SyncFails err) \<Rightarrow>
                (Inl (''cannot sync store lock: '' @ err), fs(path \<mapsto> as_bytes (lock_text e k)))
            | None \<Rightarrow> (Inr path, fs(path \<mapsto> as_bytes (lock_text e k)))))"

text \<open>\<open>impl Drop for StoreLock\<close>.\<close>

definition drop_store_lock :: "string \<Rightarrow> files \<Rightarrow> files" where
  "drop_store_lock path fs = fs(path := None)"

section \<open>Starting\<close>

text \<open>What a start meets: the arguments, the machine, the data directory (created or not, with the fault
  of the lock), the row of a database backend, the listener and the TLS files.\<close>

record launch =
  arguments :: "string list"
  machine :: vault
  made_dir :: "string + unit"
  lock_io :: "lock_fault option"
  sqlite_present :: bool
  sqlite_row :: "string + (string + bytes)"
  postgres_row :: "string + bytes option"
  listens :: bool
  tls_files :: tls_material

definition expect :: "'e + 'a \<Rightarrow> ('a \<Rightarrow> 'b exec) \<Rightarrow> 'b exec" where
  "expect r f = (case r of Inl _ \<Rightarrow> Panic | Inr x \<Rightarrow> f x)"

definition require_some :: "'a option \<Rightarrow> ('a \<Rightarrow> 'b exec) \<Rightarrow> 'b exec" where
  "require_some r f = (case r of None \<Rightarrow> Panic | Some x \<Rightarrow> f x)"

definition assert_that :: "bool \<Rightarrow> 'b exec \<Rightarrow> 'b exec" where
  "assert_that c m = (if c then m else Panic)"

definition data_directory :: "env \<Rightarrow> string" where
  "data_directory e = var_or e ''NODEWE_DATA_DIR'' ''.nodewe-control-plane''"

text \<open>\<open>NODEWE_STORAGE_BACKEND\<close>; a value that is not UTF-8 counts as unset.\<close>

datatype backend = SnapshotBackend | SqliteBackend | PostgresBackend

definition storage_backend :: "env \<Rightarrow> backend option" where
  "storage_backend e =
     (case env_var e ''NODEWE_STORAGE_BACKEND'' of
        None \<Rightarrow> Some SnapshotBackend
      | Some v \<Rightarrow>
          if v = ''sqlite'' then Some SqliteBackend
          else if v = ''snapshot'' then Some SnapshotBackend
          else if v = ''postgres'' then Some PostgresBackend else None)"

text \<open>The grant keys: every configured key must be usable, a previous key needs an active one, and
  signed grants can be enforced.\<close>

definition check_grant_keys :: "env \<Rightarrow> 'b exec \<Rightarrow> 'b exec" where
  "check_grant_keys e m =
     exec_bind (configured_grant_signing_key e) (\<lambda>r. expect r (\<lambda>active.
     exec_bind (configured_grant_verification_keys e) (\<lambda>r. expect r (\<lambda>keys.
       assert_that (list_all (ed_key_ok e) keys)
       (assert_that (\<not> (active = None \<and> keys \<noteq> []))
       (assert_that (\<not> (env_var e ''NODEWE_REQUIRE_SIGNED_GRANTS'' = Some ''1'' \<and> active = None)) m))))))"

text \<open>The store of the chosen backend: the startup check, then the loader.\<close>

definition open_store :: "launch \<Rightarrow> backend \<Rightarrow> string \<Rightarrow> files \<Rightarrow> store exec" where
  "open_store l b dir fs =
     (let v = machine l in
      case b of
        SqliteBackend \<Rightarrow>
          exec_bind (validate_sqlite_startup v (sqlite_present l) (sqlite_row l)) (\<lambda>r. expect r (\<lambda>_.
            load_sqlite_store v (sqlite_row l)))
      | PostgresBackend \<Rightarrow>
          assert_that (env_var (world v) ''NODEWE_DATABASE_URL'' \<noteq> None)
            (exec_bind (load_postgres_store v (postgres_row l)) (\<lambda>r. expect r Done))
      | SnapshotBackend \<Rightarrow>
          exec_bind (validate_store_startup v dir fs) (\<lambda>r. expect r (\<lambda>_. load_store v dir fs)))"

text \<open>\<open>main\<close> up to the accept loop: \<open>None\<close> for \<open>--version\<close> and \<open>--help\<close>, else the serving state and the
  files, with the lock taken.\<close>

definition startup :: "launch \<Rightarrow> files \<Rightarrow> (state \<times> files) option exec" where
  "startup l fs =
     (let v = machine l; e = world v in
      if list_ex (\<lambda>a. a = ''--version'' \<or> a = ''-V'') (arguments l)
       \<or> list_ex (\<lambda>a. a = ''--help'' \<or> a = ''-h'') (arguments l) then Done None
      else
        expect (enforce_production_mode e) (\<lambda>_.
        expect (validate_node_online_ttl e) (\<lambda>_.
        expect (ensure_bind_safe e (var_or e ''NODEWE_BIND'' ''127.0.0.1:8787'')) (\<lambda>_.
        expect (load_secret_value e ''NODEWE_ADMIN_TOKEN'' ''NODEWE_ADMIN_TOKEN_FILE'') (\<lambda>r. require_some r (\<lambda>token.
        expect (load_secret_value e ''NODEWE_GRANT_SECRET'' ''NODEWE_GRANT_SECRET_FILE'') (\<lambda>r. require_some r (\<lambda>secret.
        check_grant_keys e (
        require_some (storage_backend e) (\<lambda>b.
        case acquire_store_lock e 0 (made_dir l) (lock_io l) (data_directory e) fs of (locked, fs1) \<Rightarrow>
        expect locked (\<lambda>_.
        expect (load_policy e) (\<lambda>pol.
        expect (load_oidc_config e) (\<lambda>oidc_conf.
        exec_bind (open_store l b (data_directory e) fs1) (\<lambda>st.
        assert_that (listens l) (
        expect (load_tls_config (tls_files l) e) (\<lambda>_.
          Done (Some (\<lparr>admin_token = token, grant_secret = secret,
             require_approval_records = (env_var e ''NODEWE_REQUIRE_APPROVAL_RECORDS'' = Some ''1''),
             policy = pol, oidc = oidc_conf, store = st, next_seq = 1\<rparr>, fs1))))))))))))))))))"

section \<open>What has started\<close>

lemma expect_Done: "expect r f = Done y \<longleftrightarrow> (\<exists>x. r = Inr x \<and> f x = Done y)"
  by (cases r) (simp_all add: expect_def)

lemma require_some_Done: "require_some r f = Done y \<longleftrightarrow> (\<exists>x. r = Some x \<and> f x = Done y)"
  by (cases r) (simp_all add: require_some_def)

lemma assert_that_Done: "assert_that c m = Done y \<longleftrightarrow> c \<and> m = Done y"
  by (simp add: assert_that_def)

lemmas started = expect_Done require_some_Done assert_that_Done exec_bind_Done

text \<open>All that a successful start has passed, in one place.\<close>

lemma startup_passed:
  assumes "startup l fs = Done (Some (st, fs'))"
  defines "e \<equiv> world (machine l)"
  obtains "enforce_production_mode e = Inr ()" and "ensure_bind_safe e (var_or e ''NODEWE_BIND'' ''127.0.0.1:8787'') = Inr ()"
    and "load_secret_value e ''NODEWE_ADMIN_TOKEN'' ''NODEWE_ADMIN_TOKEN_FILE'' = Inr (Some (admin_token st))"
    and "load_secret_value e ''NODEWE_GRANT_SECRET'' ''NODEWE_GRANT_SECRET_FILE'' = Inr (Some (grant_secret st))"
    and "check_grant_keys e (Done ()) = Done ()"
    and "\<exists>path. acquire_store_lock e 0 (made_dir l) (lock_io l) (data_directory e) fs = (Inr path, fs')"
    and "load_policy e = Inr (policy st)" and "load_oidc_config e = Inr (oidc st)"
    and "\<exists>b. storage_backend e = Some b \<and> open_store l b (data_directory e) fs' = Done (store st)"
    and "require_approval_records st \<longleftrightarrow> env_var e ''NODEWE_REQUIRE_APPROVAL_RECORDS'' = Some ''1''"
    and "next_seq st = 1" and "\<exists>tls. load_tls_config (tls_files l) e = Inr tls"
proof -
  have g: "check_grant_keys e m = Done y \<Longrightarrow> m = Done y \<and> check_grant_keys e (Done ()) = Done ()"
    for m :: "(state \<times> files) option exec" and y
    by (simp add: check_grant_keys_def started) metis
  obtain locked fs1 where a: "acquire_store_lock e 0 (made_dir l) (lock_io l) (data_directory e) fs = (locked, fs1)"
    by fastforce
  from assms(1) show ?thesis
    unfolding startup_def Let_def e_def [symmetric] a prod.case
    by (auto simp: started a split: if_splits dest!: g intro!: that)
qed

text \<open>While a server runs it persists stores, with whatever faults: the states of the directory.\<close>

inductive persisted :: "string \<Rightarrow> files \<Rightarrow> files \<Rightarrow> bool" for dir where
  start: "persisted dir fs fs"
| persist: "persisted dir fs fs1 \<Longrightarrow> persist_snapshot v mkdir faults (Some dir) s fs1 = Done (r, fs2)
    \<Longrightarrow> persisted dir fs fs2"

lemma persisted_keeps_lock:
  "persisted dir fs fs' \<Longrightarrow> fs' (dir_join dir ''store.lock'') = fs (dir_join dir ''store.lock'')"
  by (induction rule: persisted.induct) (simp_all add: persist_keeps_lock)

lemma locked_files:
  assumes "acquire_store_lock e k mkdir fault dir fs = (Inr path, fs')"
  shows "fs (dir_join dir ''store.lock'') = None \<and> fs' (dir_join dir ''store.lock'') \<noteq> None
    \<and> (\<forall>p. p \<noteq> dir_join dir ''store.lock'' \<longrightarrow> fs' p = fs p)"
  using assms by (auto simp: acquire_store_lock_def Let_def split: sum.splits if_splits option.splits lock_fault.splits)

text \<open>One server per directory. A server starts only on a directory without a lock and leaves the lock
  there; however often it then persists its store, and whatever writes fail, no second start on the
  same directory gets past the lock.\<close>

theorem one_server_per_directory:
  assumes "startup l fs = Done (Some (st, fs1))"
    and "persisted (data_directory (world (machine l))) fs1 fs2"
    and "data_directory (world (machine l2)) = data_directory (world (machine l))"
  shows "fs (dir_join (data_directory (world (machine l))) ''store.lock'') = None
    \<and> (\<nexists>st2 fs3. startup l2 fs2 = Done (Some (st2, fs3)))"
proof -
  let ?lock = "dir_join (data_directory (world (machine l))) ''store.lock''"
  from assms(1) have a: "fs ?lock = None" "fs1 ?lock \<noteq> None"
    by (auto elim!: startup_passed dest!: locked_files)
  then have "fs2 ?lock \<noteq> None" using persisted_keeps_lock [OF assms(2)] by simp
  have "\<nexists>st2 fs3. startup l2 fs2 = Done (Some (st2, fs3))"
  proof (rule notI, elim exE)
    fix st2 fs3
    assume "startup l2 fs2 = Done (Some (st2, fs3))"
    then have "fs2 ?lock = None" using assms(3) by (auto elim!: startup_passed dest!: locked_files)
    with \<open>fs2 ?lock \<noteq> None\<close> show False by contradiction
  qed
  then show ?thesis using a(1) by simp
qed

text \<open>What a successful start shows of the grant keys, and of the store where encryption is enforced.\<close>

lemma signing_key_required:
  assumes "check_grant_keys e (Done ()) = Done ()" and "env_var e ''NODEWE_REQUIRE_SIGNED_GRANTS'' = Some ''1''"
  shows "\<exists>key. configured_grant_signing_key e = Done (Inr (Some key)) \<and> ed_key_ok e key"
proof -
  from assms(1) obtain active keys where k: "configured_grant_signing_key e = Done (Inr active)" "active \<noteq> None"
    "configured_grant_verification_keys e = Done (Inr keys)" "list_all (ed_key_ok e) keys"
    using assms(2) by (auto simp: check_grant_keys_def started)
  then obtain key where "active = Some key" by blast
  then show ?thesis using k
    by (cases "configured_signing_key_value e ''NODEWE_GRANT_SIGNING_KEY_PREVIOUS''
          ''NODEWE_GRANT_SIGNING_KEY_PREVIOUS_FILE''")
       (auto simp: configured_grant_verification_keys_def exec_bind_Done option_list_def split: sum.splits)
qed

lemma encrypt_store_magic: "encrypt_store v k bs key = Inr out \<Longrightarrow> prefix STORE_MAGIC out"
  by (auto simp: encrypt_store_def split: if_splits option.splits)

text \<open>On the snapshot backend: a usable key is configured, the files that are there are encrypted, and so is
  everything the server then writes.\<close>

definition store_encrypted :: "vault \<Rightarrow> string \<Rightarrow> files \<Rightarrow> bool" where
  "store_encrypted v dir fs \<longleftrightarrow>
     (\<exists>key. store_key (world v) = Done (Inr (Some key)))
   \<and> (\<forall>name \<in> set STORE_FILES. \<forall>bs. fs (dir_join dir name) = Some bs \<longrightarrow> prefix STORE_MAGIC bs)
   \<and> (\<forall>k text bs. encode_store_bytes v k text = Done (Inr bs) \<longrightarrow> prefix STORE_MAGIC bs)"

lemma encryption_enforced:
  assumes "validate_store_startup v dir fs = Done (Inr ())" and "require_encrypted_store (world v)"
  shows "store_encrypted v dir fs"
proof -
  obtain r where r: "store_key (world v) = Done r"
    using assms unfolding validate_store_startup_def by (auto simp: exec_bind_Done)
  then have "\<exists>key. r = Inr (Some key)"
    using assms by (cases r; cases "\<exists>key. r = Inr (Some key)") (auto simp: validate_store_startup_def exec_bind_Done split: if_splits)
  then obtain key where key: "store_key (world v) = Done (Inr (Some key))" using r by blast
  have "prefix STORE_MAGIC bs" if "encode_store_bytes v k contents = Done (Inr bs)" for k contents bs
    using that encrypt_store_magic by (simp add: encode_store_bytes_def key)
  then show ?thesis using key startup_encrypted [OF assms] by (auto simp: store_encrypted_def)
qed

lemma sqlite_encrypted:
  assumes "validate_sqlite_startup v True (Inr (Inr row)) = Done (Inr ())" and "require_encrypted_store (world v)"
  shows "prefix STORE_MAGIC row"
  using assms by (simp add: validate_sqlite_startup_def split: if_splits)

text \<open>C19: What production mode guarantees. A server that starts with \<open>NODEWE_ENV=production\<close> demands
  approval records, signs grants with a usable Ed25519 key, has a well-formed policy, and an OIDC profile
  if that is the mode of authentication. On the snapshot backend a store key is configured, every file of the
  store that was there is encrypted and so is whatever is written later; on SQLite the row of a database that
  was there is encrypted. (A fresh SQLite database and PostgreSQL have no such guarantee; see
  \<open>plaintext_row_kept\<close>.) Unless a TLS proxy is approved the connections are TLS with the server's
  certificates and key, and clients are verified against the configured authorities, of which there is one.\<close>

theorem production_start:
  assumes "startup l fs = Done (Some (st, fs'))" and "env_var (world (machine l)) ''NODEWE_ENV'' = Some ''production''"
  shows "require_approval_records st
    \<and> (\<exists>key. configured_grant_signing_key (world (machine l)) = Done (Inr (Some key)) \<and> ed_key_ok (world (machine l)) key)
    \<and> policy_ok (policy st) \<and> allowed_abilities (policy st) \<noteq> []
    \<and> (auth_mode (world (machine l)) = Inr ''oidc'' \<longrightarrow> oidc st \<noteq> None)
    \<and> (storage_backend (world (machine l)) = Some SnapshotBackend \<longrightarrow>
        store_encrypted (machine l) (data_directory (world (machine l))) fs')
    \<and> (storage_backend (world (machine l)) = Some SqliteBackend \<longrightarrow> sqlite_present l \<longrightarrow>
        (\<exists>row. sqlite_row l = Inr (Inr row) \<and> prefix STORE_MAGIC row))
    \<and> (env_var (world (machine l)) ''NODEWE_TLS_PROXY_APPROVED'' \<noteq> Some ''1'' \<longrightarrow>
        (\<exists>c. load_tls_config (tls_files l) (world (machine l)) = Inr (Some c)
           \<and> verifies_clients (tls_files l) (world (machine l)) c))"
proof -
  let ?e = "world (machine l)" and ?dir = "data_directory (world (machine l))"
  from startup_passed [OF assms(1)] obtain b where p: "enforce_production_mode ?e = Inr ()"
      "check_grant_keys ?e (Done ()) = Done ()"
      "load_policy ?e = Inr (policy st)" "load_oidc_config ?e = Inr (oidc st)"
      "storage_backend ?e = Some b" "open_store l b ?dir fs' = Done (store st)"
      "require_approval_records st \<longleftrightarrow> env_var ?e ''NODEWE_REQUIRE_APPROVAL_RECORDS'' = Some ''1''"
      "\<exists>tls. load_tls_config (tls_files l) ?e = Inr tls"
    by metis
  have req: "require_encrypted_store ?e" "env_var ?e ''NODEWE_REQUIRE_SIGNED_GRANTS'' = Some ''1''"
    "env_var ?e ''NODEWE_REQUIRE_APPROVAL_RECORDS'' = Some ''1''"
    using p(1) assms(2) by (simp_all add: enforce_production_mode_def require_encrypted_store_def split: if_splits)
  have oid: "auth_mode ?e = Inr ''oidc'' \<longrightarrow> oidc st \<noteq> None"
    using load_oidc_config_ok [OF p(4)] by (auto split: option.splits)
  have files: "store_encrypted (machine l) ?dir fs'" if "b = SnapshotBackend"
    using encryption_enforced [OF _ req(1)] p(6) that by (auto simp: open_store_def started Let_def)
  have row: "\<exists>row. sqlite_row l = Inr (Inr row) \<and> prefix STORE_MAGIC row" if "b = SqliteBackend" "sqlite_present l"
  proof -
    have v: "validate_sqlite_startup (machine l) True (sqlite_row l) = Done (Inr ())"
      using p(6) that by (auto simp: open_store_def started Let_def)
    then obtain row where "sqlite_row l = Inr (Inr row)" by (auto simp: validate_sqlite_startup_def split: sum.splits)
    then show ?thesis using v sqlite_encrypted req(1) by auto
  qed
  have tls: "\<exists>c. load_tls_config (tls_files l) ?e = Inr (Some c) \<and> verifies_clients (tls_files l) ?e c"
    if "env_var ?e ''NODEWE_TLS_PROXY_APPROVED'' \<noteq> Some ''1''"
  proof -
    have "environ ?e ''NODEWE_TLS_CERT'' \<noteq> None"
      using p(1) assms(2) that by (auto simp: enforce_production_mode_def split: if_splits option.splits sum.splits)
    moreover obtain x where "load_tls_config (tls_files l) ?e = Inr x" using p(8) by blast
    ultimately show ?thesis using loaded_tls no_tls by (cases x) metis+
  qed
  show ?thesis
    using signing_key_required [OF p(2) req(2)] oid files row tls p(5,7) req(3) load_policy_ok [OF p(3)] by auto
qed

text \<open>A blank administrator token opens the server. The variable \<open>NODEWE_ADMIN_TOKEN\<close> is trimmed but
  not checked for being blank (the file variant is): a server started with a blank one treats every
  request without an \<open>Authorization\<close> header, on every path, as the administrator's.\<close>

theorem blank_admin_token_opens:
  assumes "startup l fs = Done (Some (st, fs'))"
    and "environ (world (machine l)) ''NODEWE_ADMIN_TOKEN'' = Some token" and "str_trim token = []"
  shows "authenticate_request e st path body [] =
     \<lparr>au_authorized = True, au_admin = True, au_node = False, au_actor = Some ''admin''\<rparr>"
proof -
  have "load_secret_value (world (machine l)) ''NODEWE_ADMIN_TOKEN'' ''NODEWE_ADMIN_TOKEN_FILE''
      = Inr (Some (admin_token st))" using assms(1) by (auto elim: startup_passed)
  then have "admin_token st = []" using assms(2,3) by (auto simp: load_secret_value_def split: if_splits)
  then show ?thesis by (simp add: authenticate_request_def constant_time_eq_same)
qed

section \<open>Stopping and starting again\<close>

lemma clean_graphic: "list_all is_ascii_graphic s \<Longrightarrow> clean s = s"
  unfolding clean_def by (rule replace_chars_id) (auto simp: list_all_iff ascii_simps)

lemma clean_node_id: "valid_node_id s \<Longrightarrow> clean s = s"
  by (rule clean_graphic) (auto simp: valid_node_id_def list_all_iff node_id_char_def)

lemma clean_actor_id: "valid_actor_id s \<Longrightarrow> clean s = s"
  by (rule clean_graphic) (auto simp: valid_actor_id_def list_all_iff ascii_simps)

lemma clean_nonempty [simp]: "clean s = [] \<longleftrightarrow> s = []"
  by (simp add: clean_map)

text \<open>What a restart brings back is well formed again.\<close>

lemma restored_wf:
  assumes "store_wf s"
  shows "store_wf (restored s)"
proof -
  have n: "nd_id (restored_node n) = nd_id n" "node_wf (restored_node n)" if "n \<in> set (nodes s)" for n
  proof -
    have "node_wf n" using assms that by (simp add: store_wf_def list_all_iff)
    then show "nd_id (restored_node n) = nd_id n" "node_wf (restored_node n)"
      using clean_node_id by (auto simp: restored_node_def node_wf_def)
  qed
  have t: "task_wf (restored_task t)" if "t \<in> set (tasks s)" for t
  proof -
    have "task_wf t" using assms that by (simp add: store_wf_def list_all_iff)
    have "\<forall>x \<in> set SUPPORTED_ABILITIES \<union> ({''queued'', ''dispatched''} \<union> terminal_states).
        list_all is_ascii_graphic x"
      by (simp add: SUPPORTED_ABILITIES_def terminal_states_def ball_Un is_ascii_graphic_def byte_def)
    then have g: "clean x = x" if "x \<in> set SUPPORTED_ABILITIES \<union> ({''queued'', ''dispatched''} \<union> terminal_states)" for x
      using that clean_graphic by blast
    have "clean (tk_ability t) = tk_ability t" "clean (tk_state t) = tk_state t"
      by (rule g, use \<open>task_wf t\<close> in \<open>auto simp: task_wf_def\<close>)+
    with \<open>task_wf t\<close> show ?thesis by (simp add: restored_task_def task_wf_def)
  qed
  have a: "approval_wf (restored_approval x)" if "x \<in> set (approvals s)" for x
  proof -
    have w: "approval_wf x" using assms that by (simp add: store_wf_def list_all_iff)
    have "clean ''task.exec'' = ''task.exec''" by (rule clean_graphic) (simp add: ascii_simps)
    with w show ?thesis using clean_node_id clean_actor_id by (simp add: restored_approval_def approval_wf_def)
  qed
  have "map (\<lambda>n. nd_id (restored_node n)) (nodes s) = map nd_id (nodes s)"
    by (rule map_cong) (simp_all add: n(1))
  then have "distinct (map (\<lambda>n. nd_id (restored_node n)) (nodes s))"
    using assms by (metis store_wf_def)
  then show ?thesis using assms n(2) t a
    by (simp add: restored_def store_wf_def list_all_iff comp_def)
qed

lemma seal_from_append:
  "take (length xs) (seal_from p (xs @ ys)) = seal_from p xs"
  by (induction xs arbitrary: p) simp_all

text \<open>C18: A restart keeps the store. Let a server run from a well-formed store through any requests and
  messages, and persist the store it ends with; a server that then starts on the directory serves
  that store again, up to \<open>restored\<close>: it is well formed, with a valid audit chain, every audit record
  sealed before the run is unchanged, and a revoked node is still revoked.\<close>

theorem restart_keeps_store:
  assumes "store_wf (store st0)" and "reachable st0 st"
    and "persist_snapshot (machine l) mkdir faults (Some dir) (store st) fs = Done (Inr (), fs1)"
    and "startup l (drop_store_lock (dir_join dir ''store.lock'') fs1) = Done (Some (st', fs2))"
    and "data_directory (world (machine l)) = dir" and "storage_backend (world (machine l)) = Some SnapshotBackend"
    and "opens_sealed (machine l)" and "storable (parse_json (world (machine l))) (store st)"
  shows "store st' = restored (store st) \<and> store_wf (store st') \<and> audit_chain_valid (audit (store st'))
    \<and> take (length (audit (store st0))) (audit (store st')) = seal (audit (store st0))
    \<and> (\<forall>n \<in> set (nodes (store st0)). nd_revoked n \<longrightarrow>
         (\<exists>n' \<in> set (nodes (store st')). nd_id n' = nd_id n \<and> nd_revoked n' \<and> \<not> nd_online n'))"
proof -
  let ?e = "world (machine l)" and ?snap = "dir_join dir ''store.snapshot''"
  from reachable_ok [OF assms(2)] have run: "store_evolves (store st0) (store st)" "store_wf (store st)"
    using assms(1) by (simp_all add: state_ok_def)
  obtain bs where bs: "encode_store_bytes (machine l) 3 (as_bytes (snapshot_text (store st))) = Done (Inr bs)"
      "fs1 ?snap = Some bs"
    using persist_snapshot_cases [OF assms(3)] by blast
  from startup_passed [OF assms(4)] obtain path where
      lock: "acquire_store_lock ?e 0 (made_dir l) (lock_io l) dir (drop_store_lock (dir_join dir ''store.lock'') fs1) = (Inr path, fs2)"
      and opened: "open_store l SnapshotBackend dir fs2 = Done (store st')"
    using assms(5,6) by (metis option.inject)
  have "fs2 ?snap = Some bs" using locked_files [OF lock] bs(2) by (simp add: drop_store_lock_def)
  then have "load_store (machine l) dir fs2 = Done (restored (store st))"
    using load_snapshot [OF assms(7) bs(1) assms(8)] by blast
  moreover have "load_store (machine l) dir fs2 = Done (store st')"
    using opened by (auto simp: open_store_def started Let_def)
  ultimately have r: "store st' = restored (store st)" by simp
  obtain more where "audit (store st) = audit (store st0) @ more"
    using run(1) unfolding store_evolves_def grows_def
    by (metis append_take_drop_id list.rel_eq)
  then have "take (length (audit (store st0))) (audit (store st')) = seal (audit (store st0))"
    by (simp add: r restored_def seal_def seal_from_append)
  moreover have "\<exists>n' \<in> set (nodes (store st')). nd_id n' = nd_id n \<and> nd_revoked n' \<and> \<not> nd_online n'"
    if n: "n \<in> set (nodes (store st0))" "nd_revoked n" for n
  proof -
    obtain m where m: "m \<in> set (nodes (store st))" "node_evolves n m"
      using node_table.grows_memD n(1) run(1) unfolding store_evolves_def by blast
    have "valid_node_id (nd_id m)" using run(2) m(1) by (simp add: store_wf_def list_all_iff node_wf_def)
    then have "nd_id (restored_node m) = nd_id n" "nd_revoked (restored_node m)" "\<not> nd_online (restored_node m)"
      using m(2) n(2) clean_node_id by (simp_all add: restored_node_def node_evolves_def)
    then show ?thesis using m(1) by (auto simp: r restored_def)
  qed
  moreover have "audit_chain_valid (audit (store st'))"
    using seal_from_valid by (simp add: r restored_def audit_chain_valid_def seal_def)
  ultimately show ?thesis using r restored_wf [OF run(2)] by simp
qed

section \<open>A start to try it on\<close>

definition no_material :: tls_material where
  "no_material = \<lparr>pem_certificates = (\<lambda>_. Inl ''no file''), pem_private_key = (\<lambda>_. Inl ''no file''),
     add_root = (\<lambda>_ _. Inr ()), build_verifier = (\<lambda>_. Inr ()), single_cert = (\<lambda>_ _. Inr ())\<rparr>"

definition sample_launch :: launch where
  "sample_launch = \<lparr>arguments = [], machine = sample_vault, made_dir = Inr (), lock_io = None,
     sqlite_present = False, sqlite_row = Inl [], postgres_row = Inr None, listens = True, tls_files = no_material\<rparr>"

lemma sample_environ:
  "environ (world sample_vault) = [''NODEWE_STORE_KEY'' \<mapsto> sample_key,
       ''NODEWE_REQUIRE_ENCRYPTED_STORE'' \<mapsto> ''1'', ''NODEWE_ENV'' \<mapsto> ''production'',
       ''NODEWE_REQUIRE_SIGNED_GRANTS'' \<mapsto> ''1'', ''NODEWE_REQUIRE_APPROVAL_RECORDS'' \<mapsto> ''1'',
       ''NODEWE_DATA_DIR'' \<mapsto> ''d'', ''NODEWE_TLS_PROXY_APPROVED'' \<mapsto> ''1'',
       ''NODEWE_GRANT_SIGNING_KEY'' \<mapsto> ''01'', ''NODEWE_ADMIN_TOKEN'' \<mapsto> ''adm'',
       ''NODEWE_GRANT_SECRET'' \<mapsto> ''s'']"
  by (simp add: sample_vault_def sample_env_def)

lemma trim_short: "str_trim ''adm'' = ''adm''" "str_trim ''s'' = ''s''" "str_trim ''01'' = ''01''" "str_trim ''d'' = ''d''"
  by (rule str_trim_graphic; simp add: ascii_simps)+

lemma sample_secrets:
  "load_secret_value (world sample_vault) ''NODEWE_ADMIN_TOKEN'' ''NODEWE_ADMIN_TOKEN_FILE'' = Inr (Some ''adm'')"
  "load_secret_value (world sample_vault) ''NODEWE_GRANT_SECRET'' ''NODEWE_GRANT_SECRET_FILE'' = Inr (Some ''s'')"
  "load_secret_value (world sample_vault) ''NODEWE_GRANT_SIGNING_KEY'' ''NODEWE_GRANT_SIGNING_KEY_FILE'' = Inr (Some ''01'')"
  "load_secret_value (world sample_vault) ''NODEWE_GRANT_SIGNING_KEY_PREVIOUS'' ''NODEWE_GRANT_SIGNING_KEY_PREVIOUS_FILE'' = Inr None"
  "load_secret_value (world sample_vault) ''NODEWE_OIDC_HS256_SECRET'' ''NODEWE_OIDC_HS256_SECRET_FILE'' = Inr None"
  by (simp_all add: load_secret_value_def sample_environ trim_short byte_def)

lemma sample_grant_keys: "check_grant_keys (world sample_vault) m = m"
proof -
  have "hex_decode_bytes ''01'' = Done (Some [1])"
    by (simp add: hex_decode_bytes_def parse_uint_def digit_of_def ascii_simps)
  then show ?thesis
    by (simp add: check_grant_keys_def configured_grant_verification_keys_def configured_grant_signing_key_def
        configured_signing_key_value_def sample_secrets expect_def assert_that_def option_list_def)
       (simp add: sample_vault_def sample_env_def)
qed

lemma sample_config:
  "enforce_production_mode (world sample_vault) = Inr ()"
  "validate_node_online_ttl (world sample_vault) = Inr ()"
  "ensure_bind_safe (world sample_vault) (var_or (world sample_vault) ''NODEWE_BIND'' ''127.0.0.1:8787'') = Inr ()"
  "storage_backend (world sample_vault) = Some SnapshotBackend"
  "data_directory (world sample_vault) = ''d''"
  "load_policy (world sample_vault) = Inr default_policy"
  "load_oidc_config (world sample_vault) = Inr None"
  by (simp_all add: enforce_production_mode_def validate_node_online_ttl_def ensure_bind_safe_def
      storage_backend_def data_directory_def load_policy_def load_oidc_config_def var_or_def env_var_def
      sample_environ auth_mode_def sample_secrets trim_short byte_def rsplit_once_def split_once_def Let_def)

definition sample_state_of :: "store \<Rightarrow> state" where
  "sample_state_of s = \<lparr>admin_token = ''adm'', grant_secret = ''s'', require_approval_records = True,
     policy = default_policy, oidc = None, store = s, next_seq = 1\<rparr>"

lemma sample_startup:
  assumes "fs (dir_join ''d'' ''store.lock'') = None"
    and "validate_store_startup sample_vault ''d'' fs1 = Done (Inr ())" and "load_store sample_vault ''d'' fs1 = Done s"
    and "fs1 = fs(dir_join ''d'' ''store.lock'' \<mapsto> as_bytes (lock_text (world sample_vault) 0))"
  shows "startup sample_launch fs = Done (Some (sample_state_of s, fs1))"
proof -
  have "env_var (world sample_vault) ''NODEWE_REQUIRE_APPROVAL_RECORDS'' = Some ''1''"
    by (simp add: env_var_def sample_environ byte_def)
  moreover have "acquire_store_lock (world sample_vault) 0 (Inr ()) None ''d'' fs = (Inr (dir_join ''d'' ''store.lock''), fs1)"
    using assms(1,4) by (simp add: acquire_store_lock_def Let_def)
  moreover have "load_tls_config no_material (world sample_vault) = Inr None" by (simp add: no_tls sample_environ)
  ultimately show ?thesis
    using assms(2,3)
    by (simp add: startup_def sample_launch_def sample_config sample_secrets sample_grant_keys expect_def
        require_some_def assert_that_def open_store_def sample_state_of_def Let_def)
qed

lemma sample_empty_start: "\<exists>fs1. startup sample_launch Map.empty = Done (Some (sample_state_of empty_store, fs1))"
proof -
  let ?fs1 = "[dir_join ''d'' ''store.lock'' \<mapsto> as_bytes (lock_text (world sample_vault) 0)]"
  have "validate_store_startup sample_vault ''d'' ?fs1 = Done (Inr ())"
    by (simp add: validate_store_startup_def sample_store_key STORE_FILES_def fs_read_def Let_def)
  moreover have "load_store sample_vault ''d'' ?fs1 = Done empty_store"
    by (simp add: load_store_def load_legacy_store_def read_table_def read_store_text_def fs_read_def)
  ultimately have "startup sample_launch Map.empty = Done (Some (sample_state_of empty_store, ?fs1))"
    by (intro sample_startup) simp_all
  then show ?thesis by blast
qed

definition sample_locked :: files where
  "sample_locked = (case startup sample_launch Map.empty of Done (Some (st, fs)) \<Rightarrow> fs | _ \<Rightarrow> Map.empty)"

lemma sample_started: "startup sample_launch Map.empty = Done (Some (sample_state_of empty_store, sample_locked))"
  using sample_empty_start by (auto simp: sample_locked_def)

theorem one_server_per_directory_witness:
  "\<nexists>st fs. startup sample_launch sample_locked = Done (Some (st, fs))"
  using one_server_per_directory [OF sample_started persisted.start, of sample_launch] by simp

theorem production_start_witness: "require_approval_records (sample_state_of empty_store)"
proof -
  have "env_var (world (machine sample_launch)) ''NODEWE_ENV'' = Some ''production''"
    by (simp add: sample_launch_def env_var_def sample_environ byte_def)
  then show ?thesis using production_start [OF sample_started] by blast
qed

text \<open>The same machine with a blank token and nothing else configured.\<close>

definition blank_launch :: launch where
  "blank_launch = sample_launch\<lparr>machine := sample_vault\<lparr>world := sample_env
     [''NODEWE_ADMIN_TOKEN'' \<mapsto> '' '', ''NODEWE_GRANT_SECRET'' \<mapsto> ''s''] (\<lambda>_. Inl []) (\<lambda>_. None)\<rparr>\<rparr>"

lemma trim_blank: "str_trim '' '' = []"
  by (simp add: str_trim_def utf8_width_def is_whitespace_def byte_def)

lemma blank_starts: "\<exists>st fs'. startup blank_launch Map.empty = Done (Some (st, fs'))"
proof -
  define e where "e = sample_env [''NODEWE_ADMIN_TOKEN'' \<mapsto> '' '', ''NODEWE_GRANT_SECRET'' \<mapsto> ''s''] (\<lambda>_. Inl []) (\<lambda>_. None)"
  define v where "v = sample_vault\<lparr>world := e\<rparr>"
  have env: "environ e = [''NODEWE_ADMIN_TOKEN'' \<mapsto> '' '', ''NODEWE_GRANT_SECRET'' \<mapsto> ''s'']"
    by (simp add: e_def sample_env_def)
  have s: "load_secret_value e ''NODEWE_ADMIN_TOKEN'' f = Inr (Some [])"
    "load_secret_value e ''NODEWE_GRANT_SECRET'' f = Inr (Some ''s'')" for f
    by (simp_all add: load_secret_value_def env trim_short trim_blank byte_def)
  have n: "load_secret_value e ''NODEWE_GRANT_SIGNING_KEY'' ''NODEWE_GRANT_SIGNING_KEY_FILE'' = Inr None"
    "load_secret_value e ''NODEWE_GRANT_SIGNING_KEY_PREVIOUS'' ''NODEWE_GRANT_SIGNING_KEY_PREVIOUS_FILE'' = Inr None"
    "load_secret_value e ''NODEWE_OIDC_HS256_SECRET'' ''NODEWE_OIDC_HS256_SECRET_FILE'' = Inr None"
    "load_secret_value e ''NODEWE_STORE_KEY'' ''NODEWE_STORE_KEY_FILE'' = Inr None"
    by (simp_all add: load_secret_value_def env)
  have k: "check_grant_keys e m = m" for m :: "(state \<times> files) option exec"
    by (simp add: check_grant_keys_def configured_grant_verification_keys_def configured_grant_signing_key_def
        configured_signing_key_value_def n expect_def assert_that_def option_list_def env_var_def env)
  have c: "enforce_production_mode e = Inr ()" "validate_node_online_ttl e = Inr ()"
    "ensure_bind_safe e (var_or e ''NODEWE_BIND'' ''127.0.0.1:8787'') = Inr ()"
    "storage_backend e = Some SnapshotBackend" "data_directory e = ''.nodewe-control-plane''"
    "load_policy e = Inr default_policy" "load_oidc_config e = Inr None"
    by (simp_all add: enforce_production_mode_def validate_node_online_ttl_def ensure_bind_safe_def
      storage_backend_def data_directory_def load_policy_def load_oidc_config_def var_or_def env_var_def
      env auth_mode_def n byte_def rsplit_once_def split_once_def Let_def)
  have w: "machine blank_launch = v" "world v = e" by (simp_all add: blank_launch_def v_def e_def)
  have o: "open_store blank_launch SnapshotBackend ''.nodewe-control-plane''
      [dir_join ''.nodewe-control-plane'' ''store.lock'' \<mapsto> bs] = Done empty_store" for bs
    by (simp add: open_store_def w Let_def validate_store_startup_def store_key_def n STORE_FILES_def fs_read_def
        require_encrypted_store_def env_var_def env expect_def load_store_def load_legacy_store_def
        read_table_def read_store_text_def)
  have l: "made_dir blank_launch = Inr ()" "lock_io blank_launch = None" "arguments blank_launch = []"
    "listens blank_launch" by (simp_all add: blank_launch_def sample_launch_def)
  have tls: "load_tls_config m e = Inr None" for m by (simp add: no_tls env)
  show ?thesis
    by (simp add: startup_def w l c s k tls expect_def require_some_def assert_that_def acquire_store_lock_def o Let_def)
qed

definition blank_state :: state where
  "blank_state = (case startup blank_launch Map.empty of Done (Some (st, fs)) \<Rightarrow> st | _ \<Rightarrow> sample_state_of empty_store)"

theorem blank_admin_token_opens_witness:
  "au_admin (authenticate_request (world sample_vault) blank_state ''/v1/nodes'' [] [])"
proof -
  obtain fs' where "startup blank_launch Map.empty = Done (Some (blank_state, fs'))"
    using blank_starts by (auto simp: blank_state_def)
  from blank_admin_token_opens [OF this, of "'' ''" "world sample_vault" "''/v1/nodes''" "[]"] show ?thesis
    by (simp add: trim_blank) (simp add: blank_launch_def sample_env_def)
qed

lemma sample_wf_store: "store_wf kept_store"
  by (simp add: kept_store_def store_wf_def node_wf_def task_wf_def approval_wf_def
      valid_node_id_def valid_actor_id_def ascii_simps SUPPORTED_ABILITIES_def terminal_states_def
      MAX_TASK_TIMEOUT_MS_def MAX_TASK_OUTPUT_LIMIT_def MAX_PERSISTED_OUTPUT_BYTES_def
      word_le_nat_alt word_less_nat_alt)

lemma sample_opened: "decrypt_store sample_vault (sample_sealed c) (replicate 32 0) = Inr c"
  by (simp add: decrypt_store_def sample_sealed_def NONCE_LEN_def) (simp add: sample_vault_def)

lemma sample_written:
  "\<forall>name \<in> set STORE_FILES. sample_files (dir_join ''d'' name) \<in>
     (if name = ''store.snapshot'' then {Some (sample_sealed (as_bytes (snapshot_text kept_store)))}
      else {None} \<union> Some ` range sample_sealed)"
  "sample_files (dir_join ''d'' ''store.lock'') = None"
proof -
  have w: "atomic_write sample_vault None k path contents fs
      = Done (Inr (), fs(with_extension path (pid_tmp (world sample_vault)) := None,
          path \<mapsto> sample_sealed (as_bytes contents)))" for k path contents fs
    by (simp add: atomic_write_encode sample_encode replace_file_def)
  have f: "sample_files = Map.empty(
      dir_join ''d'' (''nodes.'' @ pid_tmp (world sample_vault)) := None,
      dir_join ''d'' ''nodes.tsv'' \<mapsto> sample_sealed (as_bytes (table_text node_line (nodes kept_store))),
      dir_join ''d'' (''tasks.'' @ pid_tmp (world sample_vault)) := None,
      dir_join ''d'' ''tasks.tsv'' \<mapsto> sample_sealed (as_bytes (table_text task_line (tasks kept_store))),
      dir_join ''d'' (''store.'' @ pid_tmp (world sample_vault)) := None,
      dir_join ''d'' ''store.snapshot'' \<mapsto> sample_sealed (as_bytes (snapshot_text kept_store)),
      dir_join ''d'' (''grants.'' @ pid_tmp (world sample_vault)) := None,
      dir_join ''d'' ''grants.tsv'' \<mapsto> sample_sealed (as_bytes (table_text grant_line (grants kept_store))),
      dir_join ''d'' (''approvals.'' @ pid_tmp (world sample_vault)) := None,
      dir_join ''d'' ''approvals.tsv'' \<mapsto> sample_sealed (as_bytes (table_text approval_line (approvals kept_store))),
      dir_join ''d'' (''audit.'' @ pid_tmp (world sample_vault)) := None,
      dir_join ''d'' ''audit.jsonl'' \<mapsto> sample_sealed (as_bytes (audit_jsonl (audit kept_store))))"
    by (simp add: sample_files_def persist_snapshot_def Let_def w then_write_def atomic_write_with_backup_def
        write_backup_def fs_read_def temporary_of)
  have n: "x @ pid_tmp e \<noteq> name" if "name \<in> set STORE_FILES \<union> {''store.lock''}" for x e name
  proof (rule temporary_name)
    show "last name \<noteq> CHR ''p''" using that by (auto simp: STORE_FILES_def)
  qed
  show "sample_files (dir_join ''d'' ''store.lock'') = None"
    using n [of "''store.lock''"] unfolding f by (simp add: not_sym)
  show "\<forall>name \<in> set STORE_FILES. sample_files (dir_join ''d'' name) \<in>
     (if name = ''store.snapshot'' then {Some (sample_sealed (as_bytes (snapshot_text kept_store)))}
      else {None} \<union> Some ` range sample_sealed)"
    unfolding f STORE_FILES_def by simp
qed

lemma sample_files_pass:
  "\<forall>name \<in> set names. fs (dir_join ''d'' name) \<in>
     (if name = ''store.snapshot'' then {Some (sample_sealed (as_bytes (snapshot_text kept_store)))}
      else {None} \<union> Some ` range sample_sealed) \<Longrightarrow>
   startup_files sample_vault ''d'' fs True (Some (replicate 32 0)) names = Done (Inr ())"
proof (induction names)
  case (Cons name names)
  have u: "from_utf8 (as_bytes (snapshot_text kept_store)) = Some (snapshot_text kept_store)"
    using snapshot_text_utf8 [OF kept_storable] by (simp add: from_utf8_def)
  have m: "prefix STORE_MAGIC (sample_sealed c)" for c by (simp add: sample_sealed_def)
  have rest: "startup_files sample_vault ''d'' fs True (Some (replicate 32 0)) names = Done (Inr ())"
    using Cons by simp
  show ?case
  proof (cases "name = ''store.snapshot''")
    case True
    then have "fs (dir_join ''d'' name) = Some (sample_sealed (as_bytes (snapshot_text kept_store)))"
      using Cons.prems by simp
    then show ?thesis using True rest
      by (simp add: fs_read_def Let_def m sample_opened u parse_snapshot_text [OF sample_storable])
  next
    case False
    then obtain c where "fs (dir_join ''d'' name) = None \<or> fs (dir_join ''d'' name) = Some (sample_sealed c)"
      using Cons.prems by auto
    then show ?thesis using False rest
      by (elim disjE) (simp_all add: fs_read_def Let_def m sample_opened)
  qed
qed simp

lemma sample_restart:
  "\<exists>fs2. startup sample_launch (drop_store_lock (dir_join ''d'' ''store.lock'') sample_files)
     = Done (Some (sample_state_of (restored kept_store), fs2))"
proof -
  let ?fs1 = "(drop_store_lock (dir_join ''d'' ''store.lock'') sample_files)
      (dir_join ''d'' ''store.lock'' \<mapsto> as_bytes (lock_text (world sample_vault) 0))"
  have same: "?fs1 (dir_join ''d'' name) = sample_files (dir_join ''d'' name)" if "name \<in> set STORE_FILES" for name
    using that by (auto simp: STORE_FILES_def drop_store_lock_def)
  have "validate_store_startup sample_vault ''d'' ?fs1 = Done (Inr ())"
    unfolding validate_store_startup_def sample_store_key
    using sample_files_pass [of STORE_FILES ?fs1] sample_written(1) same by (simp add: sample_required)
  moreover have "?fs1 (dir_join ''d'' ''store.snapshot'') = Some (sample_sealed (as_bytes (snapshot_text kept_store)))"
    using sample_written(1) same [of "''store.snapshot''"] by (simp add: STORE_FILES_def)
  then have "load_store sample_vault ''d'' ?fs1 = Done (restored kept_store)"
    using load_snapshot [OF sample_opens sample_encode sample_storable] by blast
  ultimately show ?thesis
    by (intro exI sample_startup) (simp_all add: drop_store_lock_def)
qed

theorem restart_keeps_store_witness:
  "\<exists>st' fs2. startup sample_launch (drop_store_lock (dir_join ''d'' ''store.lock'') sample_files) = Done (Some (st', fs2))
     \<and> store st' = restored kept_store \<and> store_wf (store st')"
proof -
  from sample_restart obtain fs2 where s: "startup sample_launch (drop_store_lock (dir_join ''d'' ''store.lock'') sample_files)
      = Done (Some (sample_state_of (restored kept_store), fs2))" by blast
  have k: "store (sample_state_of kept_store) = kept_store" by (simp add: sample_state_of_def)
  have m: "machine sample_launch = sample_vault" by (simp add: sample_launch_def)
  have "store (sample_state_of (restored kept_store)) = restored kept_store
      \<and> store_wf (store (sample_state_of (restored kept_store)))"
  proof -
    note restart = restart_keeps_store [of "sample_state_of kept_store" "sample_state_of kept_store" sample_launch True
        "\<lambda>_. None" "''d''" Map.empty sample_files "sample_state_of (restored kept_store)" fs2, unfolded k m]
    show ?thesis
      using restart [OF sample_wf_store reachable.start sample_persisted s sample_config(5,4) sample_opens sample_storable]
      by (elim conjE) (intro conjI)
  qed
  then show ?thesis using s by blast
qed

end
