(* ===== verification/Accept_Loop.thy ===== *)
theory Accept_Loop
  imports Startup
begin

text \<open>
  The accept loop of the control plane: the loop at the end of \<open>main\<close>, the counter of connections and
  \<open>ConnectionGuard\<close>. The main thread counts a connection and then refuses it or hands it to a thread of its
  own; the threads work on the shared state and give their place back when they end, however they end. All
  of this goes on in any order, and the steps are as fine as the atomic operations on the counter.
\<close>

section \<open>The loop\<close>

definition MAX_CONNECTIONS :: u64 where
  "MAX_CONNECTIONS = 256"

text \<open>Where the main thread is: waiting for a connection, between the count and the decision (with the value
  \<open>active\<close> it has read), or gone, when a thread cannot be started (\<open>thread::spawn\<close> panics).\<close>

datatype main_place = Listening | Counted u64 nat | Gone

text \<open>Connections have numbers; \<open>ac_threads\<close> are the ones whose thread holds a guard.\<close>

record accepting =
  ac_counter :: u64
  ac_main :: main_place
  ac_threads :: "nat list"
  ac_state :: state

definition accept_start :: "state \<Rightarrow> accepting" where
  "accept_start st = \<lparr>ac_counter = 0, ac_main = Listening, ac_threads = [], ac_state = st\<rparr>"

text \<open>\<open>fetch_add\<close>, and its result plus one.\<close>

definition count_connection :: "nat \<Rightarrow> accepting \<Rightarrow> accepting" where
  "count_connection i a = a\<lparr>ac_counter := ac_counter a + 1, ac_main := Counted (ac_counter a + 1) i\<rparr>"

text \<open>The branch on \<open>active > MAX_CONNECTIONS\<close>: the connection is dropped and uncounted, or a thread takes it.\<close>

definition decide_connection :: "u64 \<Rightarrow> nat \<Rightarrow> accepting \<Rightarrow> accepting" where
  "decide_connection active i a =
     (if active > MAX_CONNECTIONS
      then a\<lparr>ac_counter := ac_counter a - 1, ac_main := Listening\<rparr>
      else a\<lparr>ac_main := Listening, ac_threads := ac_threads a @ [i]\<rparr>)"

text \<open>\<open>drop\<close> of the guard.\<close>

definition drop_guard :: "nat \<Rightarrow> accepting \<Rightarrow> accepting" where
  "drop_guard i a = a\<lparr>ac_counter := ac_counter a - 1, ac_threads := remove1 i (ac_threads a)\<rparr>"

text \<open>A failed \<open>accept\<close> and a connection whose timeouts cannot be set are passed over. A thread that serves
  a connection changes the state by the steps of \<open>handle\<close> (see \<open>connections_are_runs\<close>), any number of them,
  or none if the TLS connection cannot be made; it may end at any time.\<close>

inductive accept_step :: "accepting \<Rightarrow> accepting \<Rightarrow> bool" where
  pass: "ac_main a = Listening \<Longrightarrow> accept_step a a"
| count: "ac_main a = Listening \<Longrightarrow> i \<notin> set (ac_threads a) \<Longrightarrow> accept_step a (count_connection i a)"
| decide: "ac_main a = Counted active i \<Longrightarrow> accept_step a (decide_connection active i a)"
| spawn_fails: "ac_main a = Counted active i \<Longrightarrow> active \<le> MAX_CONNECTIONS \<Longrightarrow> accept_step a (a\<lparr>ac_main := Gone\<rparr>)"
| serve: "i \<in> set (ac_threads a) \<Longrightarrow> server_step (ac_state a) st \<Longrightarrow> accept_step a (a\<lparr>ac_state := st\<rparr>)"
| leave: "i \<in> set (ac_threads a) \<Longrightarrow> accept_step a (drop_guard i a)"

inductive_cases accept_stepE: "accept_step a b"

section \<open>The connection limit\<close>

text \<open>Places that are taken: one per thread, and one for a connection that is counted and not decided on.\<close>

definition places :: "accepting \<Rightarrow> nat" where
  "places a = length (ac_threads a) + (if ac_main a = Listening then 0 else 1)"

text \<open>The counter is exact and never wraps; a connection below the limit still finds a free place when it is
  decided on, because places are only given back in the meantime.\<close>

definition accept_inv :: "state \<Rightarrow> accepting \<Rightarrow> bool" where
  "accept_inv st a \<longleftrightarrow>
     unat (ac_counter a) = places a \<and> length (ac_threads a) \<le> 256 \<and> distinct (ac_threads a)
   \<and> (\<forall>active i. ac_main a = Counted active i \<longrightarrow> places a \<le> unat active \<and> unat active \<le> 257 \<and> i \<notin> set (ac_threads a))
   \<and> reachable st (ac_state a)"

lemma accept_inv_start: "accept_inv st (accept_start st)"
  by (simp add: accept_inv_def accept_start_def places_def)

lemma counter_up: "unat (c :: u64) \<le> 256 \<Longrightarrow> unat (c + 1) = unat c + 1"
  by (simp add: unat_word_ariths)

lemma counter_down: "0 < unat (c :: u64) \<Longrightarrow> unat (c - 1) = unat c - 1"
  by (metis unat_minus_one unat_gt_0)

lemma limit_reads: "active > MAX_CONNECTIONS \<longleftrightarrow> 256 < unat active"
  by (simp add: MAX_CONNECTIONS_def word_less_nat_alt)

lemma inv_count:
  assumes "accept_inv st a" and "ac_main a = Listening" and "i \<notin> set (ac_threads a)"
  shows "accept_inv st (count_connection i a)"
proof -
  have "unat (ac_counter a + 1) = unat (ac_counter a) + 1"
    using assms(1,2) by (intro counter_up) (simp add: accept_inv_def places_def)
  then show ?thesis using assms by (simp add: accept_inv_def places_def count_connection_def)
qed

lemma inv_decide:
  assumes "accept_inv st a" and "ac_main a = Counted active i"
  shows "accept_inv st (decide_connection active i a)"
proof -
  have "unat (ac_counter a - 1) = unat (ac_counter a) - 1"
    using assms by (intro counter_down) (simp add: accept_inv_def places_def)
  then show ?thesis
    using assms by (simp add: accept_inv_def places_def decide_connection_def limit_reads)
qed

lemma inv_leave:
  assumes "accept_inv st a" and "i \<in> set (ac_threads a)"
  shows "accept_inv st (drop_guard i a)"
proof -
  have n: "0 < length (ac_threads a)" using assms(2) by (cases "ac_threads a") auto
  then have "unat (ac_counter a - 1) = unat (ac_counter a) - 1"
    using assms by (intro counter_down) (simp add: accept_inv_def places_def)
  then show ?thesis
    using assms n notin_set_remove1 [of _ "ac_threads a" i]
    by (auto simp: accept_inv_def places_def drop_guard_def length_remove1)
qed

lemma inv_step: "accept_step a b \<Longrightarrow> accept_inv st a \<Longrightarrow> accept_inv st b"
proof (induction rule: accept_step.induct)
  case (spawn_fails a active i)
  then show ?case by (simp add: accept_inv_def places_def)
next
  case (serve i a st')
  then show ?case by (auto simp: accept_inv_def places_def intro: reachable.step)
qed (simp_all add: inv_count inv_decide inv_leave)

lemma inv_reached: "accept_step\<^sup>*\<^sup>* (accept_start st) a \<Longrightarrow> accept_inv st a"
  by (induction rule: rtranclp_induct) (simp_all add: accept_inv_start inv_step)

text \<open>C40: The connection limit holds in every interleaving. At no time do more than 256 threads serve
  connections, and the counter is exact: it is their number, and one more while a connection is being
  decided on, so it never wraps and every place is given back. A new connection is refused exactly if 256
  threads were serving when it was counted, even if some of them leave before the decision. Whatever the
  threads do in between, the shared state is one that authenticated requests and messages lead to.\<close>

theorem connection_limit:
  assumes "accept_step\<^sup>*\<^sup>* (accept_start st) a"
  shows "length (ac_threads a) \<le> 256 \<and> distinct (ac_threads a)
    \<and> unat (ac_counter a) = length (ac_threads a) + (if ac_main a = Listening then 0 else 1)
    \<and> (ac_main a = Listening \<longrightarrow> i \<notin> set (ac_threads a) \<longrightarrow>
        (\<exists>active. ac_main (count_connection i a) = Counted active i
           \<and> (\<forall>b. ac_threads (decide_connection active i b)
             = (if length (ac_threads a) = 256 then ac_threads b else ac_threads b @ [i]))))
    \<and> reachable st (ac_state a)"
proof -
  have inv: "accept_inv st a" using inv_reached [OF assms] .
  have "ac_main (count_connection i a) = Counted (ac_counter a + 1) i
      \<and> (\<forall>b. ac_threads (decide_connection (ac_counter a + 1) i b)
        = (if length (ac_threads a) = 256 then ac_threads b else ac_threads b @ [i]))" if "ac_main a = Listening"
  proof -
    have "unat (ac_counter a + 1) = length (ac_threads a) + 1"
      using inv that counter_up [of "ac_counter a"] by (simp add: accept_inv_def places_def)
    then show ?thesis
      using inv by (auto simp: count_connection_def decide_connection_def limit_reads accept_inv_def)
  qed
  then show ?thesis using inv by (auto simp: accept_inv_def places_def)
qed

text \<open>Two connections arrive, and the first one leaves.\<close>

theorem connection_limit_witness:
  "\<exists>a. accept_step\<^sup>*\<^sup>* (accept_start (sample_state [] [])) a \<and> ac_threads a = [1] \<and> unat (ac_counter a) = 1"
proof -
  let ?a0 = "accept_start (sample_state [] [])"
  let ?a1 = "decide_connection 1 0 (count_connection 0 ?a0)"
  let ?a2 = "decide_connection 2 1 (count_connection 1 ?a1)"
  let ?a3 = "drop_guard 0 ?a2"
  have s: "MAX_CONNECTIONS = 256" "ac_main ?a0 = Listening" "ac_threads ?a0 = []" "ac_counter ?a0 = 0"
    by (simp_all add: MAX_CONNECTIONS_def accept_start_def)
  have a1: "ac_main ?a1 = Listening" "ac_threads ?a1 = [0]" "ac_counter ?a1 = 1"
    by (simp_all add: s decide_connection_def count_connection_def)
  have a2: "ac_main ?a2 = Listening" "ac_threads ?a2 = [0, 1]"
    by (simp_all add: s a1 decide_connection_def [of 2] count_connection_def [of "Suc 0"])
  have "accept_step ?a0 (count_connection 0 ?a0)" "accept_step ?a1 (count_connection 1 ?a1)" "accept_step ?a2 ?a3"
    using s a1 a2 by (auto intro!: accept_step.count accept_step.leave)
  moreover have "accept_step (count_connection 0 ?a0) ?a1" "accept_step (count_connection 1 ?a1) ?a2"
    using s a1 by (auto intro!: accept_step.decide simp: count_connection_def)
  ultimately have "accept_step\<^sup>*\<^sup>* ?a0 ?a3"
    by (meson rtranclp.rtrancl_refl converse_rtranclp_into_rtranclp)
  moreover have "ac_main ?a3 = Listening" "ac_threads ?a3 = [1]" using a2 by (simp_all add: drop_guard_def)
  ultimately show ?thesis using connection_limit [of "sample_state [] []" ?a3] by auto
qed

end
