(* ===== verification/Runtime_Core.thy ===== *)
theory Runtime_Core
  imports Prelude
begin

text \<open>
  The agent core, \<open>node-runtime/src/lib.rs\<close>: node identifiers, the Scope (path containment)
  check, the task state machine and the executable allowlist.

  A \<open>Path\<close> is its byte string; \<open>components\<close>, \<open>parent\<close>, \<open>file_name\<close> and \<open>join\<close> are the Unix
  operations of \<open>std::path\<close> on it, and two paths are equal when their components are. The
  operating system is the parameter \<^verbatim>\<open>fs\<close>: what \<open>stat\<close>, \<open>lstat\<close> and \<open>realpath\<close> answer
  for a path string.
\<close>

section \<open>Paths\<close>

datatype component = RootDir | CurDir | ParentDir | Normal string

definition rooted :: "string \<Rightarrow> bool" where
  "rooted s \<longleftrightarrow> prefix ''/'' s"

definition pieces :: "string \<Rightarrow> string list" where
  "pieces s = str_split (if rooted s then tl s else s) CHR ''/''"

definition skipped :: "string \<Rightarrow> bool" where
  "skipped p \<longleftrightarrow> p = [] \<or> p = ''.''"

definition to_component :: "string \<Rightarrow> component" where
  "to_component p = (if p = ''..'' then ParentDir else Normal p)"

text \<open>Repeated separators and \<open>.\<close> pieces vanish, except a \<open>.\<close> that starts a relative path.\<close>

fun piece_components :: "bool \<Rightarrow> string list \<Rightarrow> component list" where
  "piece_components ab [] = []"
| "piece_components ab (p # ps) =
     (if \<not> ab \<and> p = ''.'' then [CurDir] else if skipped p then [] else [to_component p])
     @ map to_component (filter (\<lambda>q. \<not> skipped q) ps)"

definition components :: "string \<Rightarrow> component list" where
  "components s = (if rooted s then [RootDir] else []) @ piece_components (rooted s) (pieces s)"

definition is_absolute :: "string \<Rightarrow> bool" where
  "is_absolute s = rooted s"

definition path_join :: "string \<Rightarrow> string \<Rightarrow> string" where
  "path_join a b =
     (if rooted b then b
      else if a = [] \<or> last a = CHR ''/'' then a @ b else a @ ''/'' @ b)"

definition drop_skipped :: "string list \<Rightarrow> string list" where
  "drop_skipped ps = rev (dropWhile skipped (rev ps))"

fun trim_pieces :: "bool \<Rightarrow> string list \<Rightarrow> string list" where
  "trim_pieces ab [] = []"
| "trim_pieces ab (p # ps) =
     (if \<not> ab \<and> p = ''.'' then p # drop_skipped ps else drop_skipped (p # ps))"

definition path_parent :: "string \<Rightarrow> string option" where
  "path_parent s =
     (let ps = trim_pieces (rooted s) (pieces s)
      in if ps = [] then None
         else Some ((if rooted s then ''/'' else [])
                    @ str_join ''/'' (trim_pieces (rooted s) (butlast ps))))"

definition file_name :: "string \<Rightarrow> string option" where
  "file_name s =
     (case rev (components s) of Normal n # _ \<Rightarrow> Some n | _ \<Rightarrow> None)"

definition path_eq :: "string \<Rightarrow> string \<Rightarrow> bool" where
  "path_eq a b \<longleftrightarrow> components a = components b"

definition path_starts_with :: "string \<Rightarrow> string \<Rightarrow> bool" where
  "path_starts_with a b \<longleftrightarrow> prefix (components b) (components a)"

subsection \<open>Facts about paths\<close>

lemma filter_drop_skipped:
  "filter (\<lambda>q. \<not> skipped q) (drop_skipped ps) = filter (\<lambda>q. \<not> skipped q) ps"
  unfolding drop_skipped_def
  by (induction ps rule: rev_induct) auto

lemma drop_skipped_split: "ps = drop_skipped ps @ drop (length (drop_skipped ps)) ps"
proof -
  have "prefix (drop_skipped ps) ps"
    unfolding drop_skipped_def
    by (metis suffix_dropWhile suffix_to_prefix rev_rev_ident)
  then show ?thesis by (metis append_eq_conv_conj prefix_def)
qed

lemma drop_skipped_last: "drop_skipped ps \<noteq> [] \<Longrightarrow> \<not> skipped (last (drop_skipped ps))"
  unfolding drop_skipped_def
  by (metis Nil_is_rev_conv hd_dropWhile last_rev dropWhile_eq_Nil_conv)

lemma set_drop_skipped: "set (drop_skipped ps) \<subseteq> set ps"
  unfolding drop_skipped_def by (auto dest: set_dropWhileD)

lemma set_trim_pieces: "set (trim_pieces b ps) \<subseteq> set ps"
proof (cases ps)
  case (Cons p qs)
  then show ?thesis using set_drop_skipped [of qs] set_drop_skipped [of "p # qs"] by auto
qed simp

lemma trim_pieces_components: "piece_components b (trim_pieces b ps) = piece_components b ps"
proof (cases ps)
  case (Cons p qs)
  have flat: "piece_components b xs = map to_component (filter (\<lambda>q. \<not> skipped q) xs)"
    if "b \<or> xs = [] \<or> hd xs \<noteq> ''.''" for xs
    using that by (cases xs) auto
  show ?thesis
  proof (cases "\<not> b \<and> p = ''.''")
    case True
    then show ?thesis using Cons by (simp add: filter_drop_skipped)
  next
    case False
    have "drop_skipped (p # qs) = [] \<or> hd (drop_skipped (p # qs)) = p"
      using drop_skipped_split [of "p # qs"] by (metis hd_append2 list.sel(1))
    with False have "b \<or> drop_skipped (p # qs) = [] \<or> hd (drop_skipped (p # qs)) \<noteq> ''.''"
      by auto
    then have "piece_components b (drop_skipped (p # qs)) = piece_components b (p # qs)"
      using False flat [of "drop_skipped (p # qs)"] flat [of "p # qs"]
      by (simp only: filter_drop_skipped) auto
    with False Cons show ?thesis by auto
  qed
qed simp

lemma trim_pieces_kept:
  assumes "trim_pieces b ps = xs @ [x]"
  shows "\<not> skipped x \<or> (\<not> b \<and> x = ''.'' \<and> xs = [])"
proof (cases ps)
  case (Cons p qs)
  show ?thesis
  proof (cases "\<not> b \<and> p = ''.''")
    case True
    then have "p # drop_skipped qs = xs @ [x]" using assms Cons by simp
    then show ?thesis using drop_skipped_last [of qs] True by (cases xs) auto
  next
    case False
    then have "drop_skipped (p # qs) = xs @ [x]" using assms Cons by auto
    then show ?thesis using drop_skipped_last [of "p # qs"] by auto
  qed
qed (use assms in simp)

lemma piece_components_snoc:
  "\<not> skipped x \<or> (\<not> b \<and> x = ''.'' \<and> xs = []) \<Longrightarrow>
   \<exists>c. piece_components b (xs @ [x]) = piece_components b xs @ [c]"
  by (cases xs) auto

lemma root_not_in_pieces: "RootDir \<notin> set (piece_components b ps)"
  by (cases ps) (auto simp: to_component_def)

lemma pieces_no_slash: "p \<in> set (pieces s) \<Longrightarrow> CHR ''/'' \<notin> set p"
  by (simp add: pieces_def str_split_pieces)

lemma components_render:
  assumes ns: "\<forall>p \<in> set ps. CHR ''/'' \<notin> set p" and rel: "b \<or> ps = [] \<or> hd ps \<noteq> []"
  shows "components ((if b then ''/'' else []) @ str_join ''/'' ps) =
         (if b then [RootDir] else []) @ piece_components b ps"
proof -
  let ?s = "(if b then ''/'' else []) @ str_join ''/'' ps"
  have r: "rooted ?s = b"
  proof (cases b)
    case False
    show ?thesis
    proof (cases ps)
      case (Cons q qs)
      with False rel obtain c w where q: "q = c # w" by (cases q) auto
      with ns Cons have "c \<noteq> CHR ''/''" by auto
      then show ?thesis using False Cons q by (cases qs) (auto simp: rooted_def)
    qed (use False in \<open>simp add: rooted_def\<close>)
  qed (simp add: rooted_def)
  have tl: "(if b then tl ?s else ?s) = str_join ''/'' ps" by simp
  show ?thesis
  proof (cases "ps = []")
    case True
    then show ?thesis using r
      by (cases b) (simp_all add: components_def pieces_def rooted_def str_split_def skipped_def)
  next
    case False
    then have "pieces ?s = ps"
      using r tl str_split_join [of ps "CHR ''/''"] ns by (auto simp: pieces_def)
    then show ?thesis using r by (simp add: components_def)
  qed
qed

lemma trim_pieces_hd: "trim_pieces b ps \<noteq> [] \<Longrightarrow> hd (trim_pieces b ps) = hd ps"
proof (cases ps)
  case (Cons p qs)
  assume ne: "trim_pieces b ps \<noteq> []"
  show ?thesis
  proof (cases "\<not> b \<and> p = ''.''")
    case False
    then have "drop_skipped (p # qs) \<noteq> []" using ne Cons by auto
    then show ?thesis using Cons False drop_skipped_split [of "p # qs"]
      by (metis hd_append2 list.sel(1) trim_pieces.simps(2))
  qed (use Cons in simp)
qed simp

lemma pieces_hd_relative: "\<not> rooted s \<Longrightarrow> hd (pieces s) = [] \<Longrightarrow> s = []"
proof -
  assume nr: "\<not> rooted s" and h: "hd (pieces s) = []"
  show "s = []"
  proof (rule ccontr)
    assume "s \<noteq> []"
    then obtain c w where s: "s = c # w" by (cases s) auto
    with nr have "c \<noteq> CHR ''/''" by (auto simp: rooted_def)
    with s nr h show False
      by (auto simp: pieces_def str_split_def split: list.splits)
  qed
qed

lemma trim_pieces_hd2:
  assumes "\<not> rooted s" and "trim_pieces b (butlast (trim_pieces b (pieces s))) \<noteq> []"
  shows "hd (trim_pieces b (butlast (trim_pieces b (pieces s)))) \<noteq> []"
proof
  let ?t = "trim_pieces b (pieces s)"
  assume e: "hd (trim_pieces b (butlast ?t)) = []"
  have "butlast ?t \<noteq> []" using assms(2) by auto
  then have "?t \<noteq> []" and "hd (butlast ?t) = hd ?t" by (cases ?t; auto)+
  then have "hd (pieces s) = []"
    using e trim_pieces_hd [OF assms(2)] trim_pieces_hd [of b "pieces s"] by simp
  then have "s = []" using pieces_hd_relative assms(1) by blast
  with assms(2) show False
    by (simp add: pieces_def rooted_def str_split_def drop_skipped_def skipped_def)
qed

text \<open>The parent is the path without its last component.\<close>

lemma path_parent_components:
  assumes "path_parent s = Some q"
  shows "\<exists>c. components s = components q @ [c] \<and> c \<noteq> RootDir"
proof -
  let ?b = "rooted s" and ?t = "trim_pieces (rooted s) (pieces s)"
  let ?u = "trim_pieces ?b (butlast ?t)"
  have ne: "?t \<noteq> []" and q: "q = (if ?b then ''/'' else []) @ str_join ''/'' ?u"
    using assms by (auto simp: path_parent_def Let_def split: if_splits)
  obtain xs x where t: "?t = xs @ [x]" using ne by (metis append_butlast_last_id)
  then obtain c where c: "piece_components ?b ?t = piece_components ?b xs @ [c]"
    using piece_components_snoc [OF trim_pieces_kept [OF t]] by auto
  have sub: "set ?u \<subseteq> set (pieces s)"
    using set_trim_pieces by (meson in_set_butlastD subset_iff)
  have "components q = (if ?b then [RootDir] else []) @ piece_components ?b ?u"
    unfolding q
    by (rule components_render) (use sub pieces_no_slash in blast, use trim_pieces_hd2 in blast)
  moreover have "components s = (if ?b then [RootDir] else []) @ piece_components ?b xs @ [c]"
    using c by (simp add: components_def trim_pieces_components)
  moreover have "c \<noteq> RootDir" using c root_not_in_pieces [of ?b ?t] by auto
  ultimately show ?thesis by (simp add: trim_pieces_components t)
qed

section \<open>Node identifiers\<close>

definition id_char :: "char \<Rightarrow> bool" where
  [ascii_simps]: "id_char b \<longleftrightarrow> is_ascii_graphic b \<and>
     b \<notin> {CHR ''/'', BACKSLASH, CHR ''?'', CHR ''&'', CHR ''='', CHR ''#'', CHR ''%''}"

definition NodeId_new :: "string \<Rightarrow> string + string" where
  "NodeId_new value =
     (if value = [] \<or> length value > 128 \<or> \<not> list_all id_char value
      then Inl ''invalid node id'' else Inr value)"

section \<open>Scope\<close>

text \<open>The operating system's view of path strings: \<open>is_dir\<close>, \<open>is_file\<close>, \<open>exists\<close>, the symlink
  flag of \<open>symlink_metadata\<close> (\<open>None\<close> on error) and \<open>canonicalize\<close> (\<open>None\<close> on error).\<close>

record filesystem =
  is_dir :: "string \<Rightarrow> bool"
  is_file :: "string \<Rightarrow> bool"
  exists :: "string \<Rightarrow> bool"
  symlink_metadata :: "string \<Rightarrow> bool option"
  canonicalize :: "string \<Rightarrow> string option"

datatype operation = Read | Write | Execute | Delete

record scope =
  root :: string

definition Scope_new :: "filesystem \<Rightarrow> string \<Rightarrow> string + scope" where
  "Scope_new fs r =
     (if \<not> is_dir fs r then Inl ''scope root must be an existing directory''
      else (case canonicalize fs r of
              None \<Rightarrow> Inl ''scope root is not accessible''
            | Some c \<Rightarrow> Inr \<lparr>root = c\<rparr>))"

text \<open>The loop of \<open>reject_symlink_components\<close>: from the candidate towards the root, \<open>pop\<close> at
  each turn; it ends because every \<open>pop\<close> removes a component.\<close>

function reject_symlink_components :: "filesystem \<Rightarrow> string \<Rightarrow> string \<Rightarrow> string + unit" where
  "reject_symlink_components fs rt current =
     (if symlink_metadata fs current = Some True
      then Inl ''symlink paths are not allowed in the scope''
      else if path_eq current rt then Inr ()
      else (case path_parent current of
              None \<Rightarrow> Inr ()
            | Some p \<Rightarrow> reject_symlink_components fs rt p))"
  by pat_completeness auto
termination
proof (relation "measure (\<lambda>(fs, rt, cur). length (components cur))")
  fix fs :: filesystem and rt current p
  assume "path_parent current = Some p"
  then obtain c where "components current = components p @ [c]"
    using path_parent_components by blast
  then show "((fs, rt, p), (fs, rt, current)) \<in> measure (\<lambda>(fs, rt, cur). length (components cur))"
    by simp
qed simp

declare reject_symlink_components.simps [simp del]

definition scope_resolve :: "filesystem \<Rightarrow> scope \<Rightarrow> string \<Rightarrow> string + string" where
  "scope_resolve fs sc requested =
     (let candidate = (if is_absolute requested then requested else path_join (root sc) requested)
      in case reject_symlink_components fs (root sc) candidate of
           Inl e \<Rightarrow> Inl e
         | Inr _ \<Rightarrow>
           (case (if exists fs candidate
                  then (case canonicalize fs candidate of
                          None \<Rightarrow> Inl ''path is not accessible'' | Some c \<Rightarrow> Inr c)
                  else (case path_parent candidate of
                          None \<Rightarrow> Inl ''invalid path''
                        | Some pp \<Rightarrow>
                          (case canonicalize fs pp of
                             None \<Rightarrow> Inl ''parent path is not accessible''
                           | Some parent \<Rightarrow>
                             (case file_name candidate of
                                None \<Rightarrow> Inl ''invalid path''
                              | Some name \<Rightarrow> Inr (path_join parent name)))))
            of Inl e \<Rightarrow> Inl e
             | Inr resolved \<Rightarrow>
                 if path_eq resolved (root sc) \<or> path_starts_with resolved (root sc)
                 then Inr resolved else Inl ''path is outside the scope''))"

definition scope_authorize :: "filesystem \<Rightarrow> scope \<Rightarrow> string \<Rightarrow> operation \<Rightarrow> string + string" where
  "scope_authorize fs sc requested operation =
     (case scope_resolve fs sc requested of
        Inl e \<Rightarrow> Inl e
      | Inr path \<Rightarrow>
          if operation = Delete \<and> path_eq path (root sc)
          then Inl ''deleting the scope root is not allowed'' else Inr path)"

section \<open>Tasks\<close>

datatype task_state =
  Pending | Approved | Running | Succeeded | Failed | CancelRequested | Cancelled | TimedOut

fun can_transition_to :: "task_state \<Rightarrow> task_state \<Rightarrow> bool" where
  "can_transition_to Pending n \<longleftrightarrow> n \<in> {Approved, CancelRequested}"
| "can_transition_to Approved n \<longleftrightarrow> n \<in> {Running, CancelRequested}"
| "can_transition_to Running n \<longleftrightarrow> n \<in> {Succeeded, Failed, CancelRequested, TimedOut}"
| "can_transition_to CancelRequested n \<longleftrightarrow> n = Cancelled"
| "can_transition_to _ n \<longleftrightarrow> False"

record task_record =
  tr_id :: string
  tr_node_id :: string
  tr_state :: task_state
  tr_command :: "string list"

definition TaskRecord_new :: "string \<Rightarrow> string \<Rightarrow> string list \<Rightarrow> string + task_record" where
  "TaskRecord_new i node command =
     (if i = [] \<or> command = [] \<or> hd command = [] then Inl ''task id and command are required''
      else Inr \<lparr>tr_id = i, tr_node_id = node, tr_state = Pending, tr_command = command\<rparr>)"

definition task_transition :: "task_record \<Rightarrow> task_state \<Rightarrow> string + task_record" where
  "task_transition r next_state =
     (if can_transition_to (tr_state r) next_state then Inr (r\<lparr>tr_state := next_state\<rparr>)
      else Inl ''invalid task state transition'')"

section \<open>Commands\<close>

definition validate_command :: "string list \<Rightarrow> string list \<Rightarrow> string + unit" where
  "validate_command command allowlist =
     (case command of
        [] \<Rightarrow> Inl ''command is required''
      | program # _ \<Rightarrow>
          if CHR ''/'' \<in> set program \<or> BACKSLASH \<in> set program
          then Inl ''command paths are not allowed; use an approved executable name''
          else (case file_name program of
                  None \<Rightarrow> Inl ''invalid command''
                | Some basename \<Rightarrow>
                    if basename \<in> set allowlist then Inr ()
                    else Inl ''command is not allowed by policy''))"

definition trusted_directories :: "string list" where
  "trusted_directories = [''/usr/bin'', ''/bin'', ''/usr/local/bin'', ''/opt/homebrew/bin'']"

definition resolve_command :: "filesystem \<Rightarrow> string list \<Rightarrow> string list \<Rightarrow> string + string list" where
  "resolve_command fs command allowlist =
     (case validate_command command allowlist of
        Inl e \<Rightarrow> Inl e
      | Inr _ \<Rightarrow>
          (case find (\<lambda>d. is_file fs (path_join d (hd command))) trusted_directories of
             Some d \<Rightarrow> Inr (command[0 := path_join d (hd command)])
           | None \<Rightarrow> Inl ''approved executable is not installed in a trusted system directory''))"

section \<open>Correctness\<close>

interpretation agent_id: identifier_check "\<lambda>s. NodeId_new s = Inr s" id_char 128
  by unfold_locales (auto simp: NodeId_new_def)

subsection \<open>Containment\<close>

fun is_Normal :: "component \<Rightarrow> bool" where
  "is_Normal (Normal _) = True"
| "is_Normal _ = False"

text \<open>An absolute path without \<open>.\<close> and \<open>..\<close>: what \<open>canonicalize\<close> is documented to return.\<close>

definition canonical_path :: "string \<Rightarrow> bool" where
  "canonical_path q \<longleftrightarrow>
     (case components q of RootDir # cs \<Rightarrow> list_all is_Normal cs | _ \<Rightarrow> False)"

definition canonicalizing :: "filesystem \<Rightarrow> bool" where
  "canonicalizing fs \<longleftrightarrow> (\<forall>p q. canonicalize fs p = Some q \<longrightarrow> canonical_path q)"

lemma file_name_piece:
  assumes "file_name s = Some n"
  shows "CHR ''/'' \<notin> set n" and "\<not> skipped n" and "n \<noteq> ''..''"
proof -
  have "Normal n \<in> set (components s)"
    using assms by (auto simp: file_name_def split: list.splits component.splits)
  then have "n \<in> set (pieces s) \<and> \<not> skipped n \<and> n \<noteq> ''..''"
    by (cases "pieces s") (auto simp: components_def to_component_def split: if_splits)
  then show "CHR ''/'' \<notin> set n" "\<not> skipped n" "n \<noteq> ''..''"
    using pieces_no_slash by auto
qed

lemma pieces_join_name:
  assumes "rooted d" and "CHR ''/'' \<notin> set n" and "n \<noteq> []"
  shows "rooted (path_join d n)"
    and "piece_components True (pieces (path_join d n)) =
         piece_components True (pieces d) @ (if skipped n then [] else [to_component n])"
proof -
  have nr: "\<not> rooted n" using assms(2,3) by (cases n) (auto simp: rooted_def)
  obtain w where d: "d = CHR ''/'' # w" using assms(1) by (cases d) (auto simp: rooted_def)
  show "rooted (path_join d n)" using d nr by (simp add: path_join_def rooted_def)
  have app: "str_split (w @ CHR ''/'' # n) CHR ''/'' = str_split w CHR ''/'' @ [n]" for w
  proof (induction w)
    case Nil
    show ?case using assms(2) by (simp add: str_split_none [unfolded str_split_def] str_split_def)
  next
    case (Cons a w)
    then show ?case by (auto simp: str_split_def split: list.splits)
  qed
  have flat: "piece_components True xs = map to_component (filter (\<lambda>q. \<not> skipped q) xs)" for xs
    by (cases xs) auto
  show "piece_components True (pieces (path_join d n)) =
        piece_components True (pieces d) @ (if skipped n then [] else [to_component n])"
  proof (cases "last d = CHR ''/''")
    case False
    then show ?thesis using d nr app [of w]
      by (simp add: path_join_def pieces_def rooted_def flat)
  next
    case True
    show ?thesis
    proof (cases "w = []")
      case True
      then show ?thesis using d nr assms(2)
        by (simp add: path_join_def pieces_def rooted_def flat str_split_none)
           (simp add: str_split_def skipped_def)
    next
      case False
      then obtain v where w: "w = v @ ''/''"
        using True d by (metis append_butlast_last_id last_ConsR)
      have "str_split (v @ ''/'') CHR ''/'' = str_split v CHR ''/'' @ [[]]" for v
        by (induction v) (auto simp: str_split_def split: list.splits)
      then show ?thesis using d nr w app [of v]
        by (simp add: path_join_def pieces_def rooted_def flat skipped_def)
    qed
  qed
qed

lemma components_join_name:
  assumes "rooted d" and "file_name s = Some n"
  shows "components (path_join d n) = components d @ [Normal n]"
proof -
  note n = file_name_piece [OF assms(2)]
  then have "n \<noteq> []" by (auto simp: skipped_def)
  then show ?thesis using n assms(1) pieces_join_name [OF assms(1) n(1)]
    by (simp add: components_def to_component_def)
qed

lemma canonical_rooted: "canonical_path q \<Longrightarrow> rooted q"
  by (cases "rooted q"; cases "piece_components False (pieces q)")
     (use root_not_in_pieces [of False "pieces q"] in
       \<open>auto simp: canonical_path_def components_def split: component.splits\<close>)

lemma canonical_join_name:
  "canonical_path d \<Longrightarrow> file_name s = Some n \<Longrightarrow> canonical_path (path_join d n)"
  using components_join_name [OF canonical_rooted]
  by (auto simp: canonical_path_def split: list.splits component.splits)

lemma authorized_contained:
  assumes "canonicalizing fs" and "Scope_new fs r = Inr sc"
    and "scope_authorize fs sc requested op = Inr p"
  shows "path_starts_with p (root sc) \<and> canonical_path p"
proof -
  have res: "scope_resolve fs sc requested = Inr p"
    using assms(3) by (auto simp: scope_authorize_def split: sum.splits if_splits)
  then have "path_starts_with p (root sc)"
    by (auto simp: scope_resolve_def Let_def path_eq_def path_starts_with_def
        split: sum.splits if_splits)
  moreover have "canonical_path p"
    using res assms(1)
    by (auto simp: scope_resolve_def Let_def canonicalizing_def intro: canonical_join_name
        split: sum.splits if_splits option.splits)
  ultimately show ?thesis ..
qed

text \<open>C13: Scope containment. If the operating system's \<open>canonicalize\<close> returns absolute paths
  without dot components, then every path that \<open>Scope::authorize\<close> accepts, for any request and
  operation, has the canonical scope root as a component prefix and contains no \<open>..\<close>, whether
  the requested file exists or is still to be created.\<close>

theorem scope_authorize_contained:
  assumes "canonicalizing fs" and "Scope_new fs r = Inr sc"
    and "scope_authorize fs sc requested op = Inr p"
  shows "path_starts_with p (root sc) \<and> canonical_path p"
  using assms by (rule authorized_contained)

definition sample_fs :: filesystem where
  "sample_fs = \<lparr>is_dir = (\<lambda>p. p = ''/srv/lab''), is_file = (\<lambda>p. p = ''/usr/bin/echo''),
     exists = (\<lambda>p. p = ''/srv/lab'' \<or> p = ''/srv/lab/in.txt''),
     symlink_metadata = (\<lambda>p. if p = ''/srv/lab/link'' then Some True else Some False),
     canonicalize = (\<lambda>p. if p = ''/srv/lab'' \<or> p = ''/srv/lab/in.txt'' then Some p else None)\<rparr>"

lemmas path_eval = components_def pieces_def rooted_def str_split_def skipped_def
  to_component_def path_join_def path_eq_def path_parent_def drop_skipped_def Let_def
  is_absolute_def file_name_def path_starts_with_def reject_symlink_components.simps

lemma sample_canonicalizing: "canonicalizing sample_fs"
  by (auto simp: canonicalizing_def sample_fs_def canonical_path_def path_eval)

theorem scope_authorize_contained_witness:
  "path_starts_with ''/srv/lab/out.txt'' ''/srv/lab'' \<and> canonical_path ''/srv/lab/out.txt''"
proof -
  have n: "Scope_new sample_fs ''/srv/lab'' = Inr \<lparr>root = ''/srv/lab''\<rparr>"
    by (simp add: Scope_new_def sample_fs_def)
  have a: "scope_authorize sample_fs \<lparr>root = ''/srv/lab''\<rparr> ''out.txt'' Write = Inr ''/srv/lab/out.txt''"
    by (simp add: scope_authorize_def scope_resolve_def sample_fs_def path_eval)
  show ?thesis using scope_authorize_contained [OF sample_canonicalizing n a] by simp
qed

subsection \<open>Symbolic links\<close>

text \<open>The paths visited from a candidate upwards: each is reached by one \<open>parent\<close> from a path
  that is not yet the root.\<close>

inductive visited :: "string \<Rightarrow> string \<Rightarrow> string \<Rightarrow> bool" for rt where
  here: "visited rt c c"
| up: "\<not> path_eq c rt \<Longrightarrow> path_parent c = Some p \<Longrightarrow> visited rt p x \<Longrightarrow> visited rt c x"

inductive_cases visitedE: "visited rt c x"

text \<open>The symlink loop is exact: it accepts a candidate if and only if no path between the
  candidate and the scope root (or the file-system root, when the candidate is elsewhere) is a
  symbolic link.\<close>

theorem reject_symlink_components_exact:
  "reject_symlink_components fs rt c = Inr () \<longleftrightarrow>
   (\<nexists>x. visited rt c x \<and> symlink_metadata fs x = Some True)"
proof (induction fs rt c rule: reject_symlink_components.induct)
  case (1 fs rt c)
  have split: "(\<nexists>x. visited rt c x \<and> Q x) \<longleftrightarrow>
     \<not> Q c \<and> (\<forall>p. \<not> path_eq c rt \<longrightarrow> path_parent c = Some p \<longrightarrow> (\<nexists>x. visited rt p x \<and> Q x))" for Q
    by (auto intro: visited.intros elim: visitedE)
  show ?case
    unfolding split reject_symlink_components.simps [of fs rt c]
    using 1 by (auto split: option.splits)
qed

subsection \<open>The task state machine\<close>

fun stage :: "task_state \<Rightarrow> nat" where
  "stage Pending = 0" | "stage Approved = 1" | "stage Running = 2" | "stage CancelRequested = 3"
| "stage _ = 4"

definition final_state :: "task_state \<Rightarrow> bool" where
  "final_state s \<longleftrightarrow> s \<in> {Succeeded, Failed, Cancelled, TimedOut}"

fun task_transitions :: "task_record \<Rightarrow> task_state list \<Rightarrow> string + task_record" where
  "task_transitions r [] = Inr r"
| "task_transitions r (n # ns) =
     (case task_transition r n of Inl e \<Rightarrow> Inl e | Inr r' \<Rightarrow> task_transitions r' ns)"

lemma transition_stage: "can_transition_to s n \<Longrightarrow> stage s < stage n"
  by (cases s) auto

lemma final_iff_stuck: "final_state s \<longleftrightarrow> (\<forall>n. \<not> can_transition_to s n)"
  by (cases s) (auto simp: final_state_def)

text \<open>Task records move one way only. Any sequence of accepted transitions strictly climbs
  the stages Pending, Approved, Running, CancelRequested, final, so it has at most four steps,
  keeps the record's id, node and command, and stops exactly in the final states.\<close>

theorem task_transitions_one_way:
  assumes "task_transitions r ns = Inr r'"
  shows "length ns + stage (tr_state r) \<le> stage (tr_state r') \<and> length ns \<le> 4
       \<and> r' = r\<lparr>tr_state := tr_state r'\<rparr>
       \<and> (final_state (tr_state r') \<longleftrightarrow> (\<forall>n. \<exists>e. task_transition r' n = Inl e))"
proof -
  have "length ns + stage (tr_state r) \<le> stage (tr_state r') \<and> r' = r\<lparr>tr_state := tr_state r'\<rparr>"
    using assms
  proof (induction ns arbitrary: r)
    case (Cons n ns)
    then obtain q where q: "task_transition r n = Inr q" "task_transitions q ns = Inr r'"
      by (auto split: sum.splits)
    then have "stage (tr_state r) < stage (tr_state q)" "q = r\<lparr>tr_state := n\<rparr>"
      by (auto simp: task_transition_def transition_stage split: if_splits)
    then show ?case using Cons.IH [OF q(2)] by auto
  qed simp
  moreover have "stage (tr_state r') \<le> 4" by (cases "tr_state r'") auto
  ultimately show ?thesis
    by (auto simp: task_transition_def final_iff_stuck split: if_splits)
qed

definition sample_task :: task_record where
  "sample_task = \<lparr>tr_id = ''t'', tr_node_id = ''n'', tr_state = Pending, tr_command = [''ls'']\<rparr>"

theorem task_transitions_one_way_witness:
  "length [Approved, Running, CancelRequested, Cancelled] + stage Pending \<le> stage Cancelled
   \<and> (\<forall>n. \<exists>e. task_transition (sample_task\<lparr>tr_state := Cancelled\<rparr>) n = Inl e)"
proof -
  have run: "task_transitions sample_task [Approved, Running, CancelRequested, Cancelled]
      = Inr (sample_task\<lparr>tr_state := Cancelled\<rparr>)"
    by (simp add: sample_task_def task_transition_def)
  show ?thesis
    using task_transitions_one_way [OF run] by (simp add: final_state_def sample_task_def)
qed

subsection \<open>Command resolution\<close>

lemma resolved_program:
  assumes "resolve_command fs command allowlist = Inr resolved"
  shows "\<exists>program args d. command = program # args \<and> resolved = path_join d program # args
     \<and> program \<in> set allowlist \<and> CHR ''/'' \<notin> set program \<and> d \<in> set trusted_directories
     \<and> is_file fs (path_join d program) \<and> file_name (path_join d program) = Some program"
proof -
  obtain program args where c: "command = program # args"
    using assms by (cases command) (auto simp: resolve_command_def validate_command_def)
  obtain d where d: "find (\<lambda>d. is_file fs (path_join d program)) trusted_directories = Some d"
      and res: "resolved = path_join d program # args"
      and val: "validate_command command allowlist = Inr ()"
    using assms c by (auto simp: resolve_command_def split: sum.splits option.splits)
  obtain b where b: "file_name program = Some b" "b \<in> set allowlist" "CHR ''/'' \<notin> set program"
    using val c by (auto simp: validate_command_def split: if_splits option.splits)
  then have bp: "b = program"
    by (auto simp: file_name_def components_def rooted_def pieces_def str_split_none skipped_def
        to_component_def split: if_splits) (cases program; auto)
  note fd = find_SomeD [OF d]
  then have "rooted d" by (auto simp: trusted_directories_def rooted_def)
  then have "file_name (path_join d program) = Some program"
    using components_join_name b(1) bp by (simp add: file_name_def)
  then show ?thesis using c res b bp fd by blast
qed

text \<open>A resolved command runs an allowlisted program from a trusted system directory: the
  first trusted directory holding a file of that name is chosen, the requested name has no path
  separator, and the arguments are passed unchanged.\<close>

theorem resolve_command_trusted:
  assumes "resolve_command fs command allowlist = Inr resolved"
  shows "\<exists>program args d. command = program # args \<and> resolved = path_join d program # args
     \<and> program \<in> set allowlist \<and> CHR ''/'' \<notin> set program \<and> d \<in> set trusted_directories
     \<and> is_file fs (path_join d program) \<and> file_name (path_join d program) = Some program"
  using assms by (rule resolved_program)

theorem resolve_command_trusted_witness:
  "\<exists>program args d. [''echo'', ''hi''] = program # args
     \<and> [''/usr/bin/echo'', ''hi''] = path_join d program # args \<and> program \<in> set [''echo'', ''ls'']
     \<and> CHR ''/'' \<notin> set program \<and> d \<in> set trusted_directories
     \<and> is_file sample_fs (path_join d program) \<and> file_name (path_join d program) = Some program"
proof -
  have "resolve_command sample_fs [''echo'', ''hi''] [''echo'', ''ls''] = Inr [''/usr/bin/echo'', ''hi'']"
    by (simp add: resolve_command_def validate_command_def trusted_directories_def sample_fs_def
        path_eval)
  then show ?thesis by (rule resolve_command_trusted)
qed

end
