(* ===== verification/Agent_Exec.thy ===== *)
theory Agent_Exec
  imports Runtime_Core Store_Model Http_Parse
begin

text \<open>
  How the agent runs a task, \<open>node-runtime/src/main.rs\<close>: the four abilities of
  \<open>execute_task_with_limit\<close>, reading the pipes of a child within a bound, waiting for the child
  with a deadline, redaction, and opening a file below the scope one component at a time.

  The disk is a tree (\<open>inode\<close>); a descriptor is the address of what it refers to. The rest of the
  operating system is the parameter \<open>host\<close>: the path queries of \<open>Scope\<close>, the opening of a directory by
  name, refusals of \<open>openat\<close>, failing reads and writes, calls that never come back, and the child a \<open>spawn\<close>
  gives. Where a call may not come back the result is an option, and \<open>None\<close> is not returning.
\<close>

definition MAX_OUTPUT :: nat where
  "MAX_OUTPUT = 1024 * 1024"

section \<open>The disk\<close>

datatype inode = Regular string | Directory "string \<Rightarrow> inode option" | Symlink string | Special

text \<open>An address is the list of names from the root.\<close>

fun inode_at :: "inode \<Rightarrow> string list \<Rightarrow> inode option" where
  "inode_at t [] = Some t"
| "inode_at (Directory d) (n # ns) = (case d n of None \<Rightarrow> None | Some i \<Rightarrow> inode_at i ns)"
| "inode_at t (n # ns) = None"

fun put_inode :: "inode \<Rightarrow> string list \<Rightarrow> inode \<Rightarrow> inode" where
  "put_inode t [] i = i"
| "put_inode (Directory d) (n # ns) i =
     (if ns = [] then Directory (d(n \<mapsto> i))
      else case d n of None \<Rightarrow> Directory d | Some c \<Rightarrow> Directory (d(n \<mapsto> put_inode c ns i)))"
| "put_inode t (n # ns) i = t"

text \<open>What the agent asks the operating system: the path queries, the errors \<open>openat\<close> reports for an
  address beyond the kind of file found there (permissions, descriptors), a read that fails, a write
  that stops early with an error, opens (for writing or not) and writes of special files that never come
  back, as those of a FIFO whose other end nobody opens or reads, the outcome of \<open>spawn\<close> for an argument vector and a working
  directory, and the names \<open>std::env::consts\<close> gives. Of a child: the answer of the i-th \<open>try_wait\<close>,
  the milliseconds gone at the i-th look at the clock, the status of \<open>wait\<close> (\<open>None\<close> for a child ended
  by a signal), and for each pipe the blocks that \<open>read\<close> returns before the end or an error.\<close>

record child =
  try_wait :: "nat \<Rightarrow> string + bool"
  elapsed :: "nat \<Rightarrow> nat"
  wait_status :: "string + int option"
  stdout_pipe :: "bytes list \<times> string option"
  stderr_pipe :: "bytes list \<times> string option"

record host =
  fsys :: filesystem
  open_directory :: "inode \<Rightarrow> string \<Rightarrow> string + string list"
  denied :: "string list \<Rightarrow> string option"
  read_stop :: "string list \<Rightarrow> string option"
  write_stop :: "string list \<Rightarrow> (nat \<times> string) option"
  stuck_open :: "string list \<Rightarrow> bool \<Rightarrow> bool"
  stuck_write :: "string list \<Rightarrow> bool"
  spawn :: "string list \<Rightarrow> string \<Rightarrow> string + child"
  os_name :: string
  arch_name :: string

section \<open>Opening below the root\<close>

text \<open>\<open>openat(fd, name, flags)\<close> with \<open>O_CLOEXEC | O_NOFOLLOW\<close>: \<open>writes\<close> stands for \<open>O_WRONLY |
  O_CREAT | O_TRUNC\<close>, otherwise \<open>O_RDONLY\<close>, with \<open>O_DIRECTORY\<close> when \<open>must_dir\<close>.\<close>

record open_flags =
  writes :: bool
  must_dir :: bool

definition not_a_directory :: string where
  "not_a_directory = ''Not a directory (os error 20)''"
definition no_such_file :: string where
  "no_such_file = ''No such file or directory (os error 2)''"
definition is_a_directory :: string where
  "is_a_directory = ''Is a directory (os error 21)''"
definition too_many_links :: string where
  "too_many_links = ''Too many levels of symbolic links (os error 40)''"

definition target_address :: "string list \<Rightarrow> string \<Rightarrow> string list" where
  "target_address fd name =
     (if name = ''..'' then butlast fd else if name = ''.'' then fd else fd @ [name])"

definition openat ::
  "host \<Rightarrow> inode \<Rightarrow> string list \<Rightarrow> string \<Rightarrow> open_flags \<Rightarrow> ((string + string list) \<times> inode) option" where
  "openat h t fd name flags =
     (let a = target_address fd name in
      case inode_at t fd of
        Some (Directory d) \<Rightarrow>
          (case denied h a of
             Some err \<Rightarrow> Some (Inl err, t)
           | None \<Rightarrow>
             (case inode_at t a of
                None \<Rightarrow> Some (if writes flags then (Inr a, put_inode t a (Regular [])) else (Inl no_such_file, t))
              | Some (Symlink l) \<Rightarrow>
                  Some (Inl (if must_dir flags then not_a_directory else too_many_links), t)
              | Some (Directory d) \<Rightarrow> Some (if writes flags then (Inl is_a_directory, t) else (Inr a, t))
              | Some (Regular c) \<Rightarrow>
                  Some (if must_dir flags then (Inl not_a_directory, t)
                        else (Inr a, if writes flags then put_inode t a (Regular []) else t))
              | Some Special \<Rightarrow>
                  if must_dir flags then Some (Inl not_a_directory, t)
                  else if stuck_open h a (writes flags) then None else Some (Inr a, t)))
      | _ \<Rightarrow> Some (Inl not_a_directory, t))"

text \<open>The bytes of a component, \<open>Component::as_os_str\<close>.\<close>

fun component_name :: "component \<Rightarrow> string" where
  "component_name RootDir = ''/''"
| "component_name CurDir = ''.''"
| "component_name ParentDir = ''..''"
| "component_name (Normal n) = n"

text \<open>The loop of \<open>secure_open_file\<close>. The last component is recognised by comparing it with the path's
  last component, as the source does, not by its place.\<close>

definition step_flags :: "bool \<Rightarrow> component \<Rightarrow> component \<Rightarrow> open_flags" where
  "step_flags wr last_component c =
     (let is_last = (c = last_component)
      in if wr \<and> is_last then \<lparr>writes = True, must_dir = False\<rparr>
         else \<lparr>writes = False, must_dir = \<not> is_last\<rparr>)"

fun open_steps ::
  "host \<Rightarrow> bool \<Rightarrow> component \<Rightarrow> component list \<Rightarrow> string list \<Rightarrow> inode \<Rightarrow> ((string + string list) \<times> inode) option" where
  "open_steps h wr lc [] fd t = Some (Inr fd, t)"
| "open_steps h wr lc (c # cs) fd t =
     (if component_name c = [] then open_steps h wr lc cs fd t
      else if CHR 0x00 \<in> set (component_name c) then Some (Inl ''invalid path'', t)
      else (case openat h t fd (component_name c) (step_flags wr lc c) of
              None \<Rightarrow> None
            | Some (Inl err, t') \<Rightarrow> Some (Inl err, t')
            | Some (Inr fd', t') \<Rightarrow> open_steps h wr lc cs fd' t'))"

text \<open>The first component is opened by name with \<open>O_DIRECTORY\<close>; for an absolute path it is the root.\<close>

definition secure_open_file :: "host \<Rightarrow> string \<Rightarrow> bool \<Rightarrow> inode \<Rightarrow> ((string + string list) \<times> inode) option" where
  "secure_open_file h path wr t =
     (case components path of
        [] \<Rightarrow> Some (Inl ''invalid path'', t)
      | c # cs \<Rightarrow>
          if CHR 0x00 \<in> set (component_name c) then Some (Inl ''invalid path'', t)
          else (case open_directory h t (component_name c) of
                  Inl err \<Rightarrow> Some (Inl err, t)
                | Inr fd \<Rightarrow> open_steps h wr (last (components path)) cs fd t))"

definition read_scoped_file :: "host \<Rightarrow> string \<Rightarrow> inode \<Rightarrow> (string + string) option" where
  "read_scoped_file h path t =
     (case secure_open_file h path False t of
        None \<Rightarrow> None
      | Some (Inl err, _) \<Rightarrow> Some (Inl err)
      | Some (Inr fd, t') \<Rightarrow>
          Some (case inode_at t' fd of
             Some (Regular c) \<Rightarrow>
               if length c > MAX_OUTPUT then Inl ''file_output_too_large''
               else (case read_stop h fd of Some err \<Rightarrow> Inl err | None \<Rightarrow> Inr c)
           | _ \<Rightarrow> Inl ''file.read requires a regular file''))"

definition write_scoped_file :: "host \<Rightarrow> string \<Rightarrow> string \<Rightarrow> inode \<Rightarrow> ((string + unit) \<times> inode) option" where
  "write_scoped_file h path contents t =
     (case secure_open_file h path True t of
        None \<Rightarrow> None
      | Some (Inl err, t') \<Rightarrow> Some (Inl err, t')
      | Some (Inr fd, t') \<Rightarrow>
          (case inode_at t' fd of
             Some (Regular c) \<Rightarrow>
               Some (case write_stop h fd of
                  None \<Rightarrow> (Inr (), put_inode t' fd (Regular contents))
                | Some (n, err) \<Rightarrow> (Inl err, put_inode t' fd (Regular (take n contents))))
           | other \<Rightarrow>
               if other = Some Special \<and> stuck_write h fd then None
               else Some (case write_stop h fd of None \<Rightarrow> (Inr (), t') | Some (n, err) \<Rightarrow> (Inl err, t'))))"

section \<open>Children\<close>

text \<open>\<open>read_pipe_bounded\<close>: keeps at most \<open>limit\<close> bytes and drains the rest, so that the child never
  blocks on a full pipe.\<close>

fun read_pipe_loop :: "nat \<Rightarrow> bytes list \<Rightarrow> string option \<Rightarrow> bytes \<Rightarrow> bool \<Rightarrow> string + bytes \<times> bool" where
  "read_pipe_loop limit [] None out truncated = Inr (out, truncated)"
| "read_pipe_loop limit [] (Some err) out truncated = Inl err"
| "read_pipe_loop limit (c # cs) err out truncated =
     (if c = [] then Inr (out, truncated)
      else if length out < limit
      then (let keep = min (limit - length out) (length c)
            in read_pipe_loop limit cs err (out @ take keep c) (if keep < length c then True else truncated))
      else read_pipe_loop limit cs err out True)"

definition read_pipe_bounded :: "bytes list \<times> string option \<Rightarrow> nat \<Rightarrow> string + bytes \<times> bool" where
  "read_pipe_bounded pipe limit = read_pipe_loop limit (fst pipe) (snd pipe) [] False"

text \<open>The loop that waits for the child: poll, compare the clock with the deadline, sleep. \<open>Inr True\<close>
  is the child gone, \<open>Inr False\<close> the deadline passed; \<open>None\<close> a loop that never ends.\<close>

partial_function (option) wait_child :: "child \<Rightarrow> nat \<Rightarrow> nat \<Rightarrow> (string + bool) option" where
  "wait_child c deadline i =
     (case try_wait c i of
        Inl err \<Rightarrow> Some (Inl err)
      | Inr gone \<Rightarrow>
          if gone then Some (Inr True)
          else if deadline \<le> elapsed c i then Some (Inr False)
          else wait_child c deadline (Suc i))"

definition lossy_text :: "bytes \<Rightarrow> string" where
  "lossy_text bs = from_utf8_lossy (of_bytes bs)"

definition secret_markers :: "string list" where
  "secret_markers = [''TOKEN='', ''SECRET='', ''PASSWORD='', ''API_KEY='', ''PRIVATE_KEY='']"

definition marked :: "string \<Rightarrow> bool" where
  "marked l = list_ex (str_contains (to_ascii_uppercase l)) secret_markers"

definition redact_sensitive :: "string \<Rightarrow> string" where
  "redact_sensitive s =
     str_join [NL] (map (\<lambda>l. if marked l then ''[REDACTED]'' else l) (str_lines s))"

definition agent_truncate_utf8 :: "string \<Rightarrow> nat \<Rightarrow> string" where
  "agent_truncate_utf8 value max_bytes =
     (if length value \<le> max_bytes then value else take_chars max_bytes (chars_of value))"

definition ALLOWED_COMMANDS :: "string list" where
  "ALLOWED_COMMANDS = [''echo'', ''pwd'', ''ls'', ''cat'', ''printf'', ''uname'']"

fun validate_arguments :: "host \<Rightarrow> scope \<Rightarrow> string list \<Rightarrow> string + unit" where
  "validate_arguments h sc [] = Inr ()"
| "validate_arguments h sc (a # as) =
     (if a = [] \<or> prefix ''-'' a
      then Inl ''command options are not allowed; use a Scope-relative path''
      else (case scope_authorize (fsys h) sc a Read of
              Inl err \<Rightarrow> Inl err
            | Inr _ \<Rightarrow> validate_arguments h sc as))"

definition validate_command_arguments :: "host \<Rightarrow> string list \<Rightarrow> scope \<Rightarrow> string + unit" where
  "validate_command_arguments h command sc =
     (case command of
        [] \<Rightarrow> Inl ''invalid command''
      | c # args \<Rightarrow>
          (case file_name c of
             None \<Rightarrow> Inl ''invalid command''
           | Some program \<Rightarrow>
               if \<not> valid_utf8 program then Inl ''invalid command''
               else if program = ''cat'' \<and> args = []
               then Inl ''cat requires an explicit Scope-relative path''
               else if program = ''cat'' \<or> program = ''ls'' then validate_arguments h sc args
               else Inr ()))"

text \<open>What \<open>execute\<close> and \<open>run\<close> do first: the scope, and the argument vector to start in it.\<close>

definition prepare_command :: "host \<Rightarrow> string list \<Rightarrow> string \<Rightarrow> string + scope \<times> string list" where
  "prepare_command h command scope_path =
     (case Scope_new (fsys h) scope_path of
        Inl err \<Rightarrow> Inl err
      | Inr sc \<Rightarrow>
          (case scope_authorize (fsys h) sc ''.'' Execute of
             Inl err \<Rightarrow> Inl err
           | Inr _ \<Rightarrow>
               (case resolve_command (fsys h) command ALLOWED_COMMANDS of
                  Inl err \<Rightarrow> Inl err
                | Inr resolved \<Rightarrow>
                    (case validate_command_arguments h resolved sc of
                       Inl err \<Rightarrow> Inl err
                     | Inr _ \<Rightarrow> Inr (sc, resolved)))))"

text \<open>Starting the child and waiting for it: the text of both pipes and the exit code, for the limit
  on each pipe. On a timeout the child is killed and reaped and its pipes are drained.\<close>

definition run_child :: "host \<Rightarrow> string list \<Rightarrow> string \<Rightarrow> u64 \<Rightarrow> nat \<Rightarrow> (string + bytes \<times> bytes \<times> int option) option" where
  "run_child h argv cwd timeout_ms limit =
     (case spawn h argv cwd of
        Inl err \<Rightarrow> Some (Inl err)
      | Inr c \<Rightarrow>
          (case wait_child c (unat timeout_ms) 0 of
             None \<Rightarrow> None
           | Some (Inl err) \<Rightarrow> Some (Inl err)
           | Some (Inr False) \<Rightarrow> Some (Inl ''task_timeout'')
           | Some (Inr True) \<Rightarrow>
               Some (case wait_status c of
                  Inl err \<Rightarrow> Inl err
                | Inr status \<Rightarrow>
                    (case read_pipe_bounded (stdout_pipe c) limit of
                       Inl err \<Rightarrow> Inl err
                     | Inr (out, _) \<Rightarrow>
                         (case read_pipe_bounded (stderr_pipe c) limit of
                            Inl err \<Rightarrow> Inl err
                          | Inr (err_out, _) \<Rightarrow> Inr (out, err_out, status))))))"

definition execute :: "host \<Rightarrow> string list \<Rightarrow> string \<Rightarrow> u64 \<Rightarrow> nat \<Rightarrow> (string + string \<times> int) option" where
  "execute h command scope_path timeout_ms output_limit =
     (case prepare_command h command scope_path of
        Inl err \<Rightarrow> Some (Inl err)
      | Inr (sc, argv) \<Rightarrow>
          map_option (\<lambda>r. case r of
              Inl err \<Rightarrow> Inl err
            | Inr (out, err_out, status) \<Rightarrow>
                Inr (agent_truncate_utf8 (redact_sensitive (lossy_text out @ lossy_text err_out)) output_limit,
                     case status of None \<Rightarrow> 1 | Some code \<Rightarrow> code))
            (run_child h argv (root sc) timeout_ms output_limit))"

section \<open>The abilities\<close>

definition file_read :: "host \<Rightarrow> string \<Rightarrow> string \<Rightarrow> nat \<Rightarrow> inode \<Rightarrow> (string + string \<times> int) option" where
  "file_read h program scope_path output_limit t =
     (case Scope_new (fsys h) scope_path of
        Inl err \<Rightarrow> Some (Inl err)
      | Inr sc \<Rightarrow>
          (case scope_authorize (fsys h) sc program Read of
             Inl err \<Rightarrow> Some (Inl err)
           | Inr path \<Rightarrow>
               (case read_scoped_file h path t of
                  None \<Rightarrow> None
                | Some (Inl err) \<Rightarrow> Some (Inl err)
                | Some (Inr c) \<Rightarrow>
                    Some (if length c > output_limit then Inl ''file_output_too_large''
                      else Inr (agent_truncate_utf8 (redact_sensitive (from_utf8_lossy c)) output_limit, 0)))))"

definition file_write :: "host \<Rightarrow> string \<Rightarrow> string \<Rightarrow> string \<Rightarrow> inode \<Rightarrow> ((string + string \<times> int) \<times> inode) option" where
  "file_write h program argument scope_path t =
     (if length argument > MAX_OUTPUT then Some (Inl ''file_input_too_large'', t)
      else case Scope_new (fsys h) scope_path of
        Inl err \<Rightarrow> Some (Inl err, t)
      | Inr sc \<Rightarrow>
          (case scope_authorize (fsys h) sc program Write of
             Inl err \<Rightarrow> Some (Inl err, t)
           | Inr path \<Rightarrow>
               (case write_scoped_file h path argument t of
                  None \<Rightarrow> None
                | Some (Inl err, t') \<Rightarrow> Some (Inl err, t')
                | Some (Inr _, t') \<Rightarrow> Some (Inr (''wrote '' @ dec (length argument) @ '' bytes'', 0), t'))))"

definition system_inspect :: "host \<Rightarrow> string" where
  "system_inspect h =
     [CHR 0x7B] @ quoted ''platform'' @ '':'' @ [DQUOTE] @ os_name h @ [DQUOTE] @ '',''
     @ quoted ''architecture'' @ '':'' @ [DQUOTE] @ arch_name h @ [DQUOTE] @ '',''
     @ quoted ''agent_version'' @ '':'' @ quoted ''0.1.0'' @ [CHR 0x7D]"

definition execute_task_with_limit ::
  "host \<Rightarrow> string \<Rightarrow> string \<Rightarrow> string \<Rightarrow> string \<Rightarrow> u64 \<Rightarrow> nat \<Rightarrow> inode \<Rightarrow> ((string + string \<times> int) \<times> inode) option" where
  "execute_task_with_limit h ability program argument scope_path timeout_ms output_limit t =
     (if ability = ''task.exec'' then
        map_option (\<lambda>r. (r, t))
          (execute h (if argument = [] then [program] else [program, argument]) scope_path timeout_ms output_limit)
      else if ability = ''file.read'' then map_option (\<lambda>r. (r, t)) (file_read h program scope_path output_limit t)
      else if ability = ''file.write'' then file_write h program argument scope_path t
      else if ability = ''system.inspect'' then Some (Inr (system_inspect h, 0), t)
      else Some (Inl ''ability_not_implemented'', t))"

section \<open>The command line\<close>

text \<open>\<open>args.windows(2).find(..)\<close>: the argument after the first place where the name stands, if any
  follows.\<close>

fun arg_option :: "string list \<Rightarrow> string \<Rightarrow> string option" where
  "arg_option (a # b # r) n = (if a = n then Some b else arg_option (b # r) n)"
| "arg_option _ n = None"

text \<open>\<open>run\<close>: its result and what it prints.\<close>

definition run :: "host \<Rightarrow> string list \<Rightarrow> ((string + unit) \<times> string) option" where
  "run h args =
     (if args = [] \<or> hd args \<noteq> ''run'' then Some (Inl ''usage: node-runtime run --scope <path> -- <command>'', [])
      else case arg_option args ''--scope'' of
        None \<Rightarrow> Some (Inl ''--scope is required'', [])
      | Some scope_path \<Rightarrow>
          (let timeout_ms = (case Option.bind (arg_option args ''--timeout-ms'') parse_u64 of
                               None \<Rightarrow> 30000 | Some v \<Rightarrow> v);
               rest = dropWhile (\<lambda>a. a \<noteq> ''--'') args
           in if rest = [] then Some (Inl (''use `--` before the command''), [])
              else if tl rest = [] then Some (Inl ''command is required'', [])
              else case prepare_command h (tl rest) scope_path of
                Inl err \<Rightarrow> Some (Inl err, [])
              | Inr (sc, argv) \<Rightarrow>
                  map_option (\<lambda>r. case r of
                      Inl err \<Rightarrow> (Inl err, [])
                    | Inr (out, err_out, status) \<Rightarrow>
                        (if status = Some 0 then Inr () else Inl ''task_failed'',
                         [CHR 0x7B] @ quoted ''result'' @ '':''
                         @ quoted (if status = Some 0 then ''succeeded'' else ''failed'') @ '',''
                         @ quoted ''exit_code'' @ '':''
                         @ (case status of None \<Rightarrow> ''null'' | Some code \<Rightarrow> show_int code) @ [CHR 0x7D, NL]
                         @ lossy_text out @ lossy_text err_out))
                    (run_child h argv (root sc) timeout_ms MAX_OUTPUT)))"

end
