(* ===== verification/Agent_Safety.thy ===== *)
theory Agent_Safety
  imports Agent_Exec
begin

text \<open>
  What the agent promises about the tasks it runs: bounded and redacted output of commands and files,
  children started only from the allowlist and inside the scope, a disk that changes only below the
  scope, and which tasks end: all but those on files while a special file of the disk blocks them.
\<close>

section \<open>Pipes\<close>

lemma read_pipe_loop_blocks:
  "[] \<notin> set cs \<Longrightarrow> length out \<le> limit \<Longrightarrow>
   read_pipe_loop limit cs None out tr =
     Inr (out @ take (limit - length out) (concat cs), tr \<or> limit < length out + length (concat cs))"
proof (induction cs arbitrary: out tr)
  case (Cons c cs)
  then have ne: "0 < length c" and cs: "[] \<notin> set cs" by auto
  show ?case
  proof (cases "length out < limit")
    case True
    let ?k = "min (limit - length out) (length c)"
    have "take ?k c = take (limit - length out) c" by (simp add: min_def)
    then show ?thesis using True ne cs Cons.IH [of "out @ take ?k c"] Cons.prems
      by (auto simp: Let_def min_def)
  next
    case False
    then have "length out = limit" using Cons.prems by simp
    then show ?thesis using ne cs Cons.IH [of out True] by simp
  qed
qed simp

text \<open>C26: The bounded pipe reader keeps the first \<open>limit\<close> bytes of what the child wrote, however the
  operating system cuts it into blocks, reads all of it, and reports truncation exactly when
  something was dropped.\<close>

theorem read_pipe_bounded_exact:
  assumes "[] \<notin> set blocks"
  shows "read_pipe_bounded (blocks, None) limit =
    Inr (take limit (concat blocks), limit < length (concat blocks))"
  using assms read_pipe_loop_blocks [of blocks "[]" limit False] by (simp add: read_pipe_bounded_def)

theorem read_pipe_bounded_exact_witness:
  "read_pipe_bounded ([[1, 2], [3, 4, 5]], None) 3 = Inr ([1, 2, 3], True)"
  using read_pipe_bounded_exact [of "[[1, 2], [3, 4, 5]]" 3] by simp

section \<open>Redaction\<close>

text \<open>A filter that replaces the lines with a forbidden property by a harmless one.\<close>

locale line_filter =
  fixes bad :: "string \<Rightarrow> bool" and mask :: string
  assumes bad_mono: "bad x \<Longrightarrow> prefix x y \<Longrightarrow> bad y"
    and nil_good: "\<not> bad []"
    and mask_good: "\<not> bad mask"
    and mask_line: "NL \<notin> set mask"
begin

definition filtered :: "string \<Rightarrow> string" where
  "filtered s = str_join [NL] (map (\<lambda>l. if bad l then mask else l) (str_lines s))"

lemma line_no_newline: "l \<in> set (str_lines s) \<Longrightarrow> NL \<notin> set l"
  using str_split_pieces [of _ s NL]
  by (auto simp: str_lines_def Let_def chop_cr_def dest!: in_set_butlastD split: if_splits)

lemma filtered_lines: "l \<in> set (str_split (filtered s) NL) \<Longrightarrow> \<not> bad l"
proof (cases "str_lines s = []")
  case False
  let ?ls = "map (\<lambda>l. if bad l then mask else l) (str_lines s)"
  have "str_split (filtered s) NL = ?ls"
    unfolding filtered_def
    by (rule str_split_join) (use False line_no_newline mask_line in auto)
  then show "l \<in> set (str_split (filtered s) NL) \<Longrightarrow> \<not> bad l" using mask_good by auto
qed (simp add: filtered_def str_split_def nil_good)

lemma split_take:
  "list_all2 prefix (str_split (take n s) NL) (take (length (str_split (take n s) NL)) (str_split s NL))"
proof (induction s arbitrary: n)
  case (Cons a s)
  show ?case
  proof (cases n)
    case (Suc m)
    obtain w ws where t: "str_split (take m s) NL = w # ws"
      by (cases "str_split (take m s) NL") auto
    obtain v vs where u: "str_split s NL = v # vs" by (cases "str_split s NL") auto
    show ?thesis using Cons.IH [of m] Suc t u by (simp add: str_split_def)
  next
    case 0
    have "str_split (a # s) NL \<noteq> []" by simp
    then obtain v vs where "str_split (a # s) NL = v # vs" by (cases "str_split (a # s) NL") auto
    then show ?thesis using 0 by (simp add: str_split_none)
  qed
qed (simp add: str_split_def)

lemma split_prefix:
  assumes "x \<in> set (str_split (take n s) NL)"
  shows "\<exists>y \<in> set (str_split s NL). prefix x y"
proof -
  let ?ps = "str_split (take n s) NL" and ?qs = "str_split s NL"
  obtain i where i: "i < length ?ps" "x = ?ps ! i" using assms by (auto simp: in_set_conv_nth)
  have "prefix x (take (length ?ps) ?qs ! i)" and "i < length (take (length ?ps) ?qs)"
    using split_take [of n s] i by (auto simp: list_all2_conv_all_nth)
  then show ?thesis using nth_mem in_set_takeD by metis
qed

lemma cut_lines: "prefix p (filtered s) \<Longrightarrow> l \<in> set (str_split p NL) \<Longrightarrow> \<not> bad l"
  by (metis append_eq_conv_conj bad_mono filtered_lines prefix_def split_prefix)

end

lemma marked_mono: "marked x \<Longrightarrow> prefix x y \<Longrightarrow> marked y"
  unfolding marked_def list_ex_iff str_contains_iff
  by (auto simp: to_ascii_uppercase_def prefix_def) (meson sublist_append_rightI sublist_order.order_trans)+

interpretation secrets: line_filter marked "''[REDACTED]''"
  rewrites "line_filter.filtered marked ''[REDACTED]'' = redact_sensitive"
proof -
  show f: "line_filter marked ''[REDACTED]''"
  proof
    show "\<not> marked []"
      by (simp add: marked_def secret_markers_def to_ascii_uppercase_def)
    show "\<not> marked ''[REDACTED]''"
      by (simp add: marked_def secret_markers_def to_ascii_uppercase_def to_upper_def ascii_simps)
  qed (simp_all add: marked_mono)
  show "line_filter.filtered marked ''[REDACTED]'' = redact_sensitive"
    by (rule ext) (simp add: line_filter.filtered_def [OF f] redact_sensitive_def)
qed

lemma truncate_prefix: "prefix (agent_truncate_utf8 s n) s \<and> length (agent_truncate_utf8 s n) \<le> n"
  using take_chars_prefix [of "chars_of s" n]
  by (auto simp: agent_truncate_utf8_def prefix_def)

lemma agent_output_clean:
  "l \<in> set (str_split (agent_truncate_utf8 (redact_sensitive s) n) NL) \<Longrightarrow> \<not> marked l"
  using secrets.cut_lines truncate_prefix by blast

lemma execute_output:
  assumes "execute h command scope_path timeout_ms limit = Some (Inr (out, code))"
  shows "\<exists>s. out = agent_truncate_utf8 (redact_sensitive s) limit"
proof -
  obtain sc argv where p: "prepare_command h command scope_path = Inr (sc, argv)"
    using assms by (cases "prepare_command h command scope_path") (auto simp: execute_def)
  then obtain r where r: "run_child h argv (root sc) timeout_ms limit = Some r"
    using assms by (cases "run_child h argv (root sc) timeout_ms limit") (auto simp: execute_def)
  obtain a b status where "r = Inr (a, b, status)"
    using assms p r by (cases r) (auto simp: execute_def)
  then show ?thesis using assms p r by (auto simp: execute_def)
qed

lemma read_output:
  "file_read h program scope_path limit t = Some (Inr (out, code)) \<Longrightarrow>
   \<exists>s. out = agent_truncate_utf8 (redact_sensitive s) limit"
  unfolding file_read_def by (auto split: sum.splits if_splits option.splits)

text \<open>C24: What a successful task hands back. The output of \<open>task.exec\<close> and \<open>file.read\<close> is never longer
  than the output limit of the task, and no line of it contains one of the secret markers, in any
  case of letters, whatever the child or the file holds. The limit and the redaction reach no
  further: \<open>file.write\<close> answers with the number of bytes and \<open>system.inspect\<close> with its three facts,
  both whole whatever the limit, no other ability succeeds, and the texts of errors are not limited.\<close>

theorem task_output_bounded_redacted:
  assumes "execute_task_with_limit h ability program argument scope_path timeout_ms limit t = Some (Inr (out, code), t')"
  shows "(ability = ''task.exec'' \<or> ability = ''file.read'')
        \<and> length out \<le> limit \<and> (\<forall>l \<in> set (str_split out NL). \<not> marked l)
    \<or> ability = ''file.write'' \<and> out = ''wrote '' @ dec (length argument) @ '' bytes'' \<and> code = 0
    \<or> ability = ''system.inspect'' \<and> out = system_inspect h \<and> code = 0"
proof -
  have "\<exists>s. out = agent_truncate_utf8 (redact_sensitive s) limit" if "ability = ''task.exec'' \<or> ability = ''file.read''"
  proof (cases "ability = ''task.exec''")
    case True
    then have "execute h (if argument = [] then [program] else [program, argument]) scope_path timeout_ms limit
      = Some (Inr (out, code))" using assms by (simp add: execute_task_with_limit_def)
    then show ?thesis by (rule execute_output)
  next
    case False
    then show ?thesis using assms that read_output by (auto simp: execute_task_with_limit_def)
  qed
  then have *: "length out \<le> limit \<and> (\<forall>l \<in> set (str_split out NL). \<not> marked l)"
    if "ability = ''task.exec'' \<or> ability = ''file.read''"
    using that agent_output_clean truncate_prefix by blast
  have c: "(ability = ''task.exec'' \<or> ability = ''file.read'') \<or> ability = ''file.write'' \<or> ability = ''system.inspect''"
    using assms by (auto simp: execute_task_with_limit_def split: if_splits)
  have w: "out = ''wrote '' @ dec (length argument) @ '' bytes'' \<and> code = 0" if "ability = ''file.write''"
    using assms that
    by (auto simp: execute_task_with_limit_def file_write_def split: if_splits sum.splits option.splits)
  have i: "out = system_inspect h \<and> code = 0" if "ability = ''system.inspect''"
    using assms that by (auto simp: execute_task_with_limit_def)
  from c show ?thesis by (elim disjE) (use * w i in simp_all)
qed

section \<open>Children\<close>

text \<open>What the agent may start: a program of the allowlist out of a trusted directory, in the canonical
  scope root, where \<open>cat\<close> and \<open>ls\<close> get nothing but paths that the scope admits.\<close>

definition permitted :: "host \<Rightarrow> string \<Rightarrow> string list \<Rightarrow> string \<Rightarrow> bool" where
  "permitted h scope_path argv cwd \<longleftrightarrow>
     (\<exists>sc program args d. Scope_new (fsys h) scope_path = Inr sc \<and> cwd = root sc
        \<and> argv = path_join d program # args \<and> d \<in> set trusted_directories
        \<and> program \<in> set ALLOWED_COMMANDS \<and> is_file (fsys h) (path_join d program)
        \<and> (program = ''cat'' \<longrightarrow> args \<noteq> [])
        \<and> (program \<in> {''cat'', ''ls''} \<longrightarrow>
             (\<forall>a \<in> set args. \<not> prefix ''-'' a \<and> (\<exists>p. scope_authorize (fsys h) sc a Read = Inr p))))"

lemma validate_arguments_ok:
  "validate_arguments h sc args = Inr () \<Longrightarrow> a \<in> set args \<Longrightarrow>
   a \<noteq> [] \<and> \<not> prefix ''-'' a \<and> (\<exists>p. scope_authorize (fsys h) sc a Read = Inr p)"
  by (induction args) (auto split: if_splits sum.splits)

lemma prepared_permitted:
  assumes "prepare_command h command scope_path = Inr (sc, argv)"
  shows "permitted h scope_path argv (root sc)"
proof -
  have sc: "Scope_new (fsys h) scope_path = Inr sc"
    and r: "resolve_command (fsys h) command ALLOWED_COMMANDS = Inr argv"
    and v: "validate_command_arguments h argv sc = Inr ()"
    using assms by (auto simp: prepare_command_def split: sum.splits)
  obtain program args d where p: "argv = path_join d program # args" "program \<in> set ALLOWED_COMMANDS"
      "d \<in> set trusted_directories" "is_file (fsys h) (path_join d program)"
      "file_name (path_join d program) = Some program"
    using resolved_program [OF r] by blast
  have "program = ''cat'' \<longrightarrow> args \<noteq> []"
    and "program \<in> {''cat'', ''ls''} \<Longrightarrow> validate_arguments h sc args = Inr ()"
    using v p by (auto simp: validate_command_arguments_def split: if_splits)
  moreover from this(2) have "program \<in> {''cat'', ''ls''} \<longrightarrow>
      (\<forall>a \<in> set args. \<not> prefix ''-'' a \<and> (\<exists>p. scope_authorize (fsys h) sc a Read = Inr p))"
    using validate_arguments_ok by fast
  ultimately show ?thesis
    unfolding permitted_def using sc p(1-4)
    by (intro exI [of _ sc] exI [of _ program] exI [of _ args] exI [of _ d] conjI) simp_all
qed

text \<open>C23: Only permitted children. Two hosts that differ only in what \<open>spawn\<close> does with commands that
  are not permitted run every task the same way: no other argument vector and no other working
  directory is ever handed to the operating system, whatever the task says.\<close>

theorem only_permitted_children:
  assumes "\<forall>argv cwd. permitted h scope_path argv cwd \<longrightarrow> spawn h argv cwd = sp argv cwd"
  shows "execute_task_with_limit (h\<lparr>spawn := sp\<rparr>) ability program argument scope_path timeout_ms limit t
       = execute_task_with_limit h ability program argument scope_path timeout_ms limit t"
proof -
  have same: "denied (h\<lparr>spawn := sp\<rparr>) = denied h" "read_stop (h\<lparr>spawn := sp\<rparr>) = read_stop h"
    "write_stop (h\<lparr>spawn := sp\<rparr>) = write_stop h" "fsys (h\<lparr>spawn := sp\<rparr>) = fsys h"
    "open_directory (h\<lparr>spawn := sp\<rparr>) = open_directory h" "stuck_open (h\<lparr>spawn := sp\<rparr>) = stuck_open h"
    "stuck_write (h\<lparr>spawn := sp\<rparr>) = stuck_write h" by simp_all
  have at: "openat (h\<lparr>spawn := sp\<rparr>) = openat h"
    by (intro ext) (unfold openat_def same, rule refl)
  have steps: "open_steps (h\<lparr>spawn := sp\<rparr>) = open_steps h"
  proof (intro ext)
    show "open_steps (h\<lparr>spawn := sp\<rparr>) wr lc cs fd t = open_steps h wr lc cs fd t" for wr lc cs fd t
      by (induction cs arbitrary: fd t) (simp_all add: at split: option.splits prod.splits sum.splits)
  qed
  have files: "file_read (h\<lparr>spawn := sp\<rparr>) p s n t = file_read h p s n t"
      "file_write (h\<lparr>spawn := sp\<rparr>) p a s t = file_write h p a s t" for p a s n t
    by (unfold file_read_def file_write_def read_scoped_file_def write_scoped_file_def
        secure_open_file_def steps same) (rule refl)+
  have args: "validate_arguments (h\<lparr>spawn := sp\<rparr>) sc as = validate_arguments h sc as" for sc as
    by (induction as) (simp_all split: sum.splits)
  have prep: "prepare_command (h\<lparr>spawn := sp\<rparr>) c s = prepare_command h c s" for c s
    unfolding prepare_command_def validate_command_arguments_def same args ..
  have "execute (h\<lparr>spawn := sp\<rparr>) c scope_path timeout_ms limit = execute h c scope_path timeout_ms limit" for c
    using assms prepared_permitted [of h c scope_path]
    by (auto simp: execute_def prep run_child_def split: sum.splits)
  then show ?thesis
    by (simp add: execute_task_with_limit_def files system_inspect_def)
qed

section \<open>Waiting\<close>

text \<open>The sleep between two looks at the clock is documented to last at least its 10 milliseconds.\<close>

definition sleeping :: "host \<Rightarrow> bool" where
  "sleeping h \<longleftrightarrow> (\<forall>argv cwd c. spawn h argv cwd = Inr c \<longrightarrow> (\<forall>i. elapsed c i + 10 \<le> elapsed c (Suc i)))"

text \<open>The loop stops at the first poll that finds the child gone or fails, or the deadline passed, and
  that is at most one poll for every ten milliseconds of the timeout.\<close>

lemma wait_child_stops:
  assumes sleep: "\<forall>i. elapsed c i + 10 \<le> elapsed c (Suc i)"
  shows "\<exists>k. 10 * k \<le> deadline + 9 \<and> (\<forall>j < k. try_wait c (i + j) = Inr False \<and> elapsed c (i + j) < elapsed c i + deadline)
    \<and> wait_child c (elapsed c i + deadline) i = Some (try_wait c (i + k))
    \<and> (try_wait c (i + k) = Inr False \<longrightarrow> elapsed c i + deadline \<le> elapsed c (i + k))"
proof (induction deadline arbitrary: i rule: less_induct)
  case (less deadline)
  show ?case
  proof (cases "try_wait c i = Inr False \<and> 0 < deadline")
    case False
    then show ?thesis
      by (intro exI [of _ 0]) (subst wait_child.simps; auto split: sum.splits bool.splits)
  next
    case True
    note step = wait_child.simps [of c "elapsed c i + deadline" i]
    have e: "elapsed c i + 10 \<le> elapsed c (Suc i)" using sleep by blast
    show ?thesis
    proof (cases "elapsed c (Suc i) < elapsed c i + deadline")
      case inner: True
      define d where "d = elapsed c i + deadline - elapsed c (Suc i)"
      have d: "d < deadline" "d + 10 \<le> deadline" "elapsed c (Suc i) + d = elapsed c i + deadline"
        using e inner by (auto simp: d_def)
      from less.IH [OF d(1), of "Suc i"] obtain k where k: "10 * k \<le> d + 9"
          "\<forall>j < k. try_wait c (Suc i + j) = Inr False \<and> elapsed c (Suc i + j) < elapsed c i + deadline"
          "wait_child c (elapsed c i + deadline) (Suc i) = Some (try_wait c (Suc i + k))"
          "try_wait c (Suc i + k) = Inr False \<longrightarrow> elapsed c i + deadline \<le> elapsed c (Suc i + k)"
        unfolding d(3) by blast
      have "\<forall>j < Suc k. try_wait c (i + j) = Inr False \<and> elapsed c (i + j) < elapsed c i + deadline"
        using k(2) True by (auto simp: less_Suc_eq_0_disj)
      moreover have "wait_child c (elapsed c i + deadline) i = Some (try_wait c (i + Suc k))"
        using k(3) True step by simp
      ultimately show ?thesis using k(1,4) d(2) by (intro exI [of _ "Suc k"]) simp
    next
      case outer: False
      have "wait_child c (elapsed c i + deadline) (Suc i) = Some (try_wait c (Suc i))"
        using outer by (subst wait_child.simps) (auto split: sum.splits)
      then show ?thesis using True outer step by (intro exI [of _ "Suc 0"]) simp
    qed
  qed
qed

lemma wait_child_ends:
  assumes "\<forall>i. elapsed c i + 10 \<le> elapsed c (Suc i)"
  shows "\<exists>r. wait_child c deadline i = Some r"
proof (cases "elapsed c i \<le> deadline")
  case True
  then show ?thesis using wait_child_stops [OF assms, of "deadline - elapsed c i" i] by auto
next
  case False
  then show ?thesis by (subst wait_child.simps) (auto split: sum.splits)
qed

lemma run_child_returns:
  assumes "sleeping h"
  shows "\<exists>r. run_child h argv cwd timeout_ms limit = Some r"
proof (cases "spawn h argv cwd")
  case (Inr c)
  then obtain r where "wait_child c (unat timeout_ms) 0 = Some r"
    using assms wait_child_ends unfolding sleeping_def by blast
  then show ?thesis using Inr by (auto simp: run_child_def split: sum.split bool.split)
qed (simp add: run_child_def)

lemma run_child_timeout:
  assumes "sleeping h" and "spawn h argv cwd = Inr c" and "\<forall>i. try_wait c i = Inr False"
  shows "run_child h argv cwd timeout_ms limit = Some (Inl ''task_timeout'')"
proof (cases "elapsed c 0 \<le> unat timeout_ms")
  case True
  then show ?thesis
    using assms wait_child_stops [of c "unat timeout_ms - elapsed c 0" 0]
    by (auto simp: run_child_def sleeping_def)
next
  case False
  then have "wait_child c (unat timeout_ms) 0 = Some (Inr False)"
    using assms by (subst wait_child.simps) simp
  then show ?thesis using assms by (simp add: run_child_def)
qed

section \<open>The disk\<close>

text \<open>Reading and replacing below an address.\<close>

lemma inode_at_append:
  "inode_at t (a @ b) = (case inode_at t a of None \<Rightarrow> None | Some i \<Rightarrow> inode_at i b)"
  by (induction t a rule: inode_at.induct) (auto split: option.splits)

lemma inode_at_leaf: "b \<noteq> [] \<Longrightarrow> (\<nexists>d. i = Directory d) \<Longrightarrow> inode_at i b = None"
  by (cases b; cases i) auto

lemma directory_above:
  assumes "inode_at t b = Some i" and "prefix a b" and "a \<noteq> b"
  shows "\<exists>d. inode_at t a = Some (Directory d)"
proof -
  obtain r where r: "b = a @ r" "r \<noteq> []" using assms(2,3) by (auto simp: prefix_def)
  with assms(1) obtain j where "inode_at t a = Some j" "inode_at j r = Some i"
    by (auto simp: inode_at_append split: option.splits)
  then show ?thesis using inode_at_leaf [OF r(2)] by (metis option.distinct(1))
qed

lemma inode_at_put:
  assumes "a \<noteq> []" and "\<exists>d. inode_at t (butlast a) = Some (Directory d)"
  shows "inode_at (put_inode t a i) (a @ r) = inode_at i r"
  using assms
proof (induction t a i rule: put_inode.induct)
  case (2 d n ns i)
  show ?case
  proof (cases "ns = []")
    case False
    then have "butlast (n # ns) = n # butlast ns" by simp
    then obtain c where "d n = Some c" "\<exists>e. inode_at c (butlast ns) = Some (Directory e)"
      using "2.prems"(2) by (auto split: option.splits)
    then show ?thesis using "2.IH" False by simp
  qed simp
qed (auto split: if_splits)

lemma inode_at_put_other:
  "\<not> prefix a b \<Longrightarrow> \<not> prefix b a \<Longrightarrow> inode_at (put_inode t a i) b = inode_at t b"
proof (induction t a i arbitrary: b rule: put_inode.induct)
  case (2 d n ns i)
  then show ?case by (cases b) (auto split: option.splits)
qed auto

lemma inode_at_put_above:
  assumes "prefix b a" and "b \<noteq> a" and "\<exists>d. inode_at t b = Some (Directory d)"
  shows "\<exists>d. inode_at (put_inode t a i) b = Some (Directory d)"
  using assms
proof (induction t a i arbitrary: b rule: put_inode.induct)
  case (2 d n ns i)
  show ?case
  proof (cases b)
    case (Cons m ms)
    then have m: "m = n" "prefix ms ns" "ms \<noteq> ns" using "2.prems" by auto
    then have "ns \<noteq> []" by auto
    moreover obtain c where "d n = Some c" "\<exists>e. inode_at c ms = Some (Directory e)"
      using "2.prems" Cons m by (auto split: option.splits)
    ultimately show ?thesis using "2.IH" m Cons by auto
  qed (auto split: option.split)
qed auto

text \<open>Everything beside an address is the same, and it still is a directory.\<close>

definition same_beside :: "string list \<Rightarrow> inode \<Rightarrow> inode \<Rightarrow> bool" where
  "same_beside a t t' \<longleftrightarrow>
     (\<forall>b. \<not> prefix a b \<longrightarrow> \<not> prefix b a \<longrightarrow> inode_at t' b = inode_at t b)
     \<and> ((\<exists>d. inode_at t a = Some (Directory d)) \<longrightarrow> (\<exists>d. inode_at t' a = Some (Directory d)))"

lemma same_beside_refl [simp]: "same_beside a t t"
  by (simp add: same_beside_def)

lemma same_beside_trans: "same_beside a t u \<Longrightarrow> same_beside a u v \<Longrightarrow> same_beside a t v"
  by (simp add: same_beside_def)

lemma same_beside_put:
  assumes "\<exists>d. inode_at t a = Some (Directory d)" and "prefix a p \<or> prefix p a"
    and "\<nexists>d. inode_at t p = Some (Directory d)"
  shows "same_beside a t (put_inode t p i)"
proof -
  have "prefix a p \<and> a \<noteq> p" using assms directory_above by (metis prefix_order.eq_iff)
  then show ?thesis
    using inode_at_put_other [of p _ t i] inode_at_put_above [of a p t i] assms(1)
    by (auto simp: same_beside_def) (metis prefix_order.trans prefix_same_cases)
qed


lemma openat_target: "openat h t fd name fl = Some (Inr a, t') \<Longrightarrow> a = target_address fd name"
  by (auto simp: openat_def Let_def split: option.splits inode.splits if_splits)

lemma openat_change:
  "openat h t fd name fl = Some (r, t') \<Longrightarrow>
   t' = t \<or> (t' = put_inode t (target_address fd name) (Regular [])
     \<and> (\<nexists>d. inode_at t (target_address fd name) = Some (Directory d)))"
  by (auto simp: openat_def Let_def split: option.splits inode.splits if_splits)

text \<open>The names of a canonical path.\<close>

definition plain_name :: "string \<Rightarrow> bool" where
  "plain_name n \<longleftrightarrow> n \<noteq> [] \<and> n \<noteq> ''.'' \<and> n \<noteq> ''..''"

definition address :: "string \<Rightarrow> string list" where
  "address p = map component_name (tl (components p))"

lemma canonical_components:
  assumes "canonical_path p"
  shows "components p = RootDir # map Normal (address p) \<and> list_all plain_name (address p)"
proof -
  obtain cs where cs: "components p = RootDir # cs" "list_all is_Normal cs"
    using assms by (auto simp: canonical_path_def split: list.splits component.splits)
  have r: "rooted p" using canonical_rooted assms by blast
  have "cs = map Normal (map component_name cs)"
    using cs(2) by (induction cs) (auto elim: is_Normal.elims)
  moreover have "plain_name n" if "Normal n \<in> set cs" for n
  proof -
    have "Normal n \<in> set (piece_components True (pieces p))"
      using that cs(1) r by (simp add: components_def)
    then show ?thesis
      by (cases "pieces p") (auto simp: plain_name_def to_component_def skipped_def split: if_splits)
  qed
  ultimately show ?thesis
    using cs by (auto simp: address_def list_all_iff) (metis component_name.simps(4) is_Normal.elims(2))
qed

lemma open_steps_beside:
  assumes "open_steps h wr lc (map Normal ns) fd t = Some (r, t')" and "list_all plain_name ns"
    and "prefix a (fd @ ns)" and "\<exists>d. inode_at t a = Some (Directory d)"
  shows "same_beside a t t' \<and> (\<forall>b. r = Inr b \<longrightarrow> b = fd @ ns)"
  using assms
proof (induction ns arbitrary: fd t)
  case (Cons n ns)
  then have n: "n \<noteq> []" "target_address fd n = fd @ [n]" by (auto simp: plain_name_def target_address_def)
  show ?case
  proof (cases "CHR 0x00 \<in> set n")
    case False
    obtain q u where q: "openat h t fd n (step_flags wr lc (Normal n)) = Some (q, u)"
      using Cons.prems(1) n False by (auto split: option.splits)
    have "prefix a (fd @ [n]) \<or> prefix (fd @ [n]) a"
      using Cons.prems(3) by (metis append.assoc append_Cons append_Nil prefixI prefix_same_cases)
    then have u: "same_beside a t u"
      using openat_change [OF q] same_beside_put [OF Cons.prems(4)] n by (metis same_beside_refl)
    show ?thesis
    proof (cases q)
      case (Inl err)
      then show ?thesis using Cons.prems(1) False n q u by auto
    next
      case (Inr b)
      then have "b = fd @ [n]" using openat_target q n by simp
      then show ?thesis
        using Cons.IH [of "fd @ [n]" u] Cons.prems False n q Inr u same_beside_trans
        by (auto simp: same_beside_def)
    qed
  qed (use Cons.prems n in auto)
qed auto

lemma write_beside:
  assumes "write_scoped_file h p contents t = Some (r, t')" and "canonical_path p"
    and "open_directory h t ''/'' = Inr []" and "prefix a (address p)"
    and "\<exists>d. inode_at t a = Some (Directory d)"
  shows "same_beside a t t'"
proof -
  note c = canonical_components [OF assms(2)]
  obtain q u where q: "secure_open_file h p True t = Some (q, u)"
    using assms(1) by (auto simp: write_scoped_file_def split: option.splits)
  then have "Some (q, u) = open_steps h True (last (components p)) (map Normal (address p)) [] t"
    using c assms(3) by (simp add: secure_open_file_def)
  then have u: "same_beside a t u" and b: "\<forall>b. q = Inr b \<longrightarrow> b = address p"
    using open_steps_beside [of h True _ "address p" "[]" t q u a] c assms(4,5) by auto
  have w: "same_beside a u (put_inode u (address p) (Regular x))" if "inode_at u (address p) = Some (Regular y)" for x y
    using that u assms(4,5) by (intro same_beside_put) (auto simp: same_beside_def)
  show ?thesis
    using assms(1) q u b w same_beside_trans [OF u]
    by (auto simp: write_scoped_file_def split: sum.splits option.splits inode.splits if_splits)
qed


lemma starts_with_address:
  assumes "canonical_path p" and "canonical_path q" and "path_starts_with p q"
  shows "prefix (address q) (address p)"
proof -
  have "prefix (map Normal (address q)) (map Normal (address p))"
    using assms(3) canonical_components [OF assms(1)] canonical_components [OF assms(2)]
    by (simp add: path_starts_with_def)
  from map_mono_prefix [OF this, of component_name] show ?thesis by (simp add: comp_def)
qed

lemma scope_contained:
  assumes "canonicalizing fs" and "Scope_new fs r = Inr sc"
    and "scope_authorize fs sc requested op = Inr p"
  shows "canonical_path p" and "prefix (address (root sc)) (address p)"
proof -
  have c: "path_starts_with p (root sc)" "canonical_path p"
    using authorized_contained [OF assms] by auto
  moreover have "canonical_path (root sc)"
    using assms(1,2) by (auto simp: Scope_new_def canonicalizing_def split: if_splits option.splits)
  ultimately show "canonical_path p" "prefix (address (root sc)) (address p)"
    using starts_with_address by auto
qed

lemma task_beside:
  assumes "canonicalizing (fsys h)" and "open_directory h t ''/'' = Inr []"
    and "Scope_new (fsys h) scope_path = Inr sc" and "\<exists>d. inode_at t (address (root sc)) = Some (Directory d)"
    and "execute_task_with_limit h ability program argument scope_path timeout_ms limit t = Some (r, t')"
  shows "same_beside (address (root sc)) t t'"
proof (cases "ability = ''file.write''")
  case True
  then have w: "file_write h program argument scope_path t = Some (r, t')"
    using assms(5) by (simp add: execute_task_with_limit_def)
  show ?thesis
  proof (cases "length argument > MAX_OUTPUT \<or> (\<exists>e. scope_authorize (fsys h) sc program Write = Inl e)")
    case True
    then show ?thesis using w assms(3) by (auto simp: file_write_def split: if_splits)
  next
    case False
    then obtain p where p: "scope_authorize (fsys h) sc program Write = Inr p"
      by (cases "scope_authorize (fsys h) sc program Write") auto
    obtain q where "write_scoped_file h p argument t = Some (q, t')"
      using w assms(3) p False by (auto simp: file_write_def split: option.splits prod.splits sum.splits)
    then show ?thesis
      using write_beside scope_contained [OF assms(1,3) p] assms(2,4) by blast
  qed
qed (use assms(5) in \<open>auto simp: execute_task_with_limit_def split: if_splits\<close>)

text \<open>C22: The agent changes the disk only below its scope. If \<open>canonicalize\<close> gives absolute paths
  without dots, \<open>/\<close> opens as the root and the scope is a directory there, then whatever task the
  control plane sends, and however system calls fail, every inode beside the scope (neither below
  nor above it) is what it was, the scope still is a directory, and only \<open>file.write\<close> changes
  anything at all.\<close>

theorem disk_changes_below_scope:
  assumes "canonicalizing (fsys h)" and "open_directory h t ''/'' = Inr []"
    and "Scope_new (fsys h) scope_path = Inr sc" and "inode_at t (address (root sc)) = Some (Directory d)"
    and "execute_task_with_limit h ability program argument scope_path timeout_ms limit t = Some (r, t')"
  shows "(\<forall>b. \<not> prefix (address (root sc)) b \<longrightarrow> \<not> prefix b (address (root sc)) \<longrightarrow> inode_at t' b = inode_at t b)
    \<and> (\<exists>d. inode_at t' (address (root sc)) = Some (Directory d))
    \<and> (ability \<noteq> ''file.write'' \<longrightarrow> t' = t)"
proof -
  have same: "ability \<noteq> ''file.write'' \<longrightarrow> t' = t"
    using assms(5) by (auto simp: execute_task_with_limit_def split: if_splits)
  have "same_beside (address (root sc)) t t'" using task_beside [OF assms(1-3) _ assms(5)] assms(4) by blast
  then show ?thesis using same assms(4) by (auto simp: same_beside_def)
qed

lemma openat_not_directory:
  "(\<nexists>d. inode_at t fd = Some (Directory d)) \<Longrightarrow> openat h t fd name fl = Some (Inl not_a_directory, t)"
  by (auto simp: openat_def Let_def split: option.splits inode.splits)

lemma openat_write:
  assumes "openat h t fd n \<lparr>writes = True, must_dir = False\<rparr> = Some (Inr b, t')" and "plain_name n"
  shows "b = fd @ [n] \<and> (\<exists>d. inode_at t fd = Some (Directory d))
    \<and> (t' = t \<and> inode_at t b = Some Special
       \<or> t' = put_inode t b (Regular []) \<and> (inode_at t b = None \<or> (\<exists>c. inode_at t b = Some (Regular c))))"
  using assms
  by (auto simp: openat_def Let_def target_address_def plain_name_def split: option.splits inode.splits if_splits)

lemma openat_enter:
  assumes "openat h t fd n \<lparr>writes = False, must_dir = True\<rparr> = Some (Inr b, t')" and "plain_name n"
  shows "b = fd @ [n] \<and> t' = t \<and> (\<exists>d. inode_at t b = Some (Directory d)) \<and> (\<exists>d. inode_at t fd = Some (Directory d))"
  using assms
  by (auto simp: openat_def Let_def target_address_def plain_name_def split: option.splits inode.splits)

lemma open_write_exact:
  assumes "open_steps h True (Normal n) (map Normal (ms @ [n])) fd t = Some (Inr b, t')"
    and "list_all plain_name (ms @ [n])"
  shows "b = fd @ ms @ [n] \<and> n \<notin> set ms \<and> (\<forall>k \<le> length ms. \<exists>d. inode_at t (fd @ take k ms) = Some (Directory d))
    \<and> (t' = t \<and> inode_at t b = Some Special
       \<or> t' = put_inode t b (Regular []) \<and> (inode_at t b = None \<or> (\<exists>c. inode_at t b = Some (Regular c))))"
  using assms
proof (induction ms arbitrary: fd t)
  case Nil
  then obtain u where "openat h t fd n \<lparr>writes = True, must_dir = False\<rparr> = Some (Inr b, u)" "u = t'"
    by (auto simp: step_flags_def plain_name_def split: option.splits prod.splits sum.splits if_splits)
  then show ?case using openat_write [of h t fd n b t'] Nil.prems(2) by auto
next
  case (Cons m ms)
  obtain c u where c: "openat h t fd m (step_flags True (Normal n) (Normal m)) = Some (Inr c, u)"
      "open_steps h True (Normal n) (map Normal (ms @ [n])) c u = Some (Inr b, t')"
    using Cons.prems by (auto simp: plain_name_def split: option.splits prod.splits sum.splits if_splits)
  have ms: "list_all plain_name (ms @ [n])" "plain_name m" using Cons.prems by auto
  note IH = Cons.IH [OF c(2) ms(1)]
  have d: "\<exists>d. inode_at u c = Some (Directory d)" using IH by (auto dest!: spec [of _ 0])
  show ?case
  proof (cases "m = n")
    case True
    then have w: "openat h t fd n \<lparr>writes = True, must_dir = False\<rparr> = Some (Inr c, u)"
      using c(1) by (simp add: step_flags_def)
    then have "inode_at u c = Some Special \<or> inode_at u c = Some (Regular [])"
      using openat_write [OF w] ms(2) True inode_at_put [of c t "Regular []" "[]"] by auto
    then show ?thesis using d by auto
  next
    case False
    then have "openat h t fd m \<lparr>writes = False, must_dir = True\<rparr> = Some (Inr c, u)"
      using c(1) by (simp add: step_flags_def)
    from openat_enter [OF this ms(2)] have e: "c = fd @ [m]" "u = t" "\<exists>d. inode_at t fd = Some (Directory d)"
      by auto
    have "\<exists>d. inode_at t (fd @ take k (m # ms)) = Some (Directory d)" if "k \<le> length (m # ms)" for k
      using that e IH by (cases k) auto
    then show ?thesis using IH e False by auto
  qed
qed


lemma address_snoc: "canonical_path p \<Longrightarrow> components p = RootDir # map Normal (ms @ [n]) \<Longrightarrow> address p = ms @ [n]"
  by (simp add: address_def comp_def)

lemma openat_granted: "openat h t fd name fl = Some (Inr a, t') \<Longrightarrow> denied h a = None"
  by (auto simp: openat_def Let_def split: option.splits inode.splits if_splits)

lemma open_steps_granted:
  assumes "open_steps h wr lc (map Normal ns) fd t = Some (Inr b, t')" and "list_all plain_name ns"
  shows "\<forall>k < length ns. denied h (fd @ take (Suc k) ns) = None \<and> CHR 0x00 \<notin> set (ns ! k)"
  using assms
proof (induction ns arbitrary: fd t)
  case (Cons n ns)
  then obtain c u where c: "openat h t fd n (step_flags wr lc (Normal n)) = Some (Inr c, u)" "CHR 0x00 \<notin> set n"
      "open_steps h wr lc (map Normal ns) c u = Some (Inr b, t')"
    by (auto simp: plain_name_def split: if_splits option.splits prod.splits sum.splits)
  have "c = fd @ [n]"
    using openat_target [OF c(1)] Cons.prems(2) by (simp add: target_address_def plain_name_def)
  then show ?case
    using Cons.IH [OF c(3)] Cons.prems(2) openat_granted [OF c(1)] c(2)
    by (auto simp: less_Suc_eq_0_disj)
qed simp

lemma open_read:
  assumes "\<forall>k < length (ms @ [n]). denied h (fd @ take (Suc k) (ms @ [n])) = None \<and> CHR 0x00 \<notin> set ((ms @ [n]) ! k)"
    and "list_all plain_name (ms @ [n])"
    and "\<forall>k \<le> length ms. \<exists>d. inode_at t (fd @ take k ms) = Some (Directory d)"
    and "inode_at t (fd @ ms @ [n]) = Some (Regular c)"
  shows "open_steps h False (Normal n) (map Normal (ms @ [n])) fd t = Some (Inr (fd @ ms @ [n]), t)"
  using assms
proof (induction ms arbitrary: fd)
  case Nil
  then show ?case by (auto simp: plain_name_def openat_def target_address_def step_flags_def)
next
  case (Cons m ms)
  have m: "denied h (fd @ [m]) = None" "CHR 0x00 \<notin> set m"
    using Cons.prems(1) [THEN spec, of 0] by auto
  obtain d e where d: "inode_at t fd = Some (Directory d)" "inode_at t (fd @ [m]) = Some (Directory e)"
    using Cons.prems(3) [THEN spec, of 0] Cons.prems(3) [THEN spec, of 1] by auto
  have "openat h t fd m (step_flags False (Normal n) (Normal m)) = Some (Inr (fd @ [m]), t)"
    using m d Cons.prems(2) by (auto simp: openat_def target_address_def plain_name_def step_flags_def)
  moreover have "open_steps h False (Normal n) (map Normal (ms @ [n])) (fd @ [m]) t = Some (Inr ((fd @ [m]) @ ms @ [n]), t)"
    by (rule Cons.IH) (use Cons.prems in \<open>auto dest: spec [of _ "Suc _"]\<close>)
  ultimately show ?case using m Cons.prems(2) by (simp add: plain_name_def)
qed

lemma take_above: "k \<le> length ms \<Longrightarrow> prefix (take k ms) (ms @ [n]) \<and> take k ms \<noteq> ms @ [n]"
  by (auto intro: take_is_prefix dest: arg_cong [where f = length])

lemma write_success:
  assumes "canonical_path p" and "components p = RootDir # map Normal (ms @ [n])"
    and "\<forall>t. open_directory h t ''/'' = Inr []"
    and "write_scoped_file h p contents t = Some (Inr (), t')"
  shows "n \<notin> set ms
    \<and> (\<forall>k \<le> length ms. \<exists>d. inode_at t (take k ms) = Some (Directory d))
    \<and> (t' = t \<and> inode_at t (ms @ [n]) = Some Special
       \<or> inode_at t' (ms @ [n]) = Some (Regular contents)
         \<and> (\<forall>b. \<not> prefix (ms @ [n]) b \<longrightarrow> \<not> prefix b (ms @ [n]) \<longrightarrow> inode_at t' b = inode_at t b)
         \<and> (length contents \<le> MAX_OUTPUT \<longrightarrow> read_stop h (ms @ [n]) = None \<longrightarrow>
              read_scoped_file h p t' = Some (Inr contents)))"
proof -
  let ?a = "ms @ [n]"
  have plain: "list_all plain_name ?a"
    using canonical_components [OF assms(1)] address_snoc [OF assms(1,2)] by simp
  have sec: "secure_open_file h p wr u = open_steps h wr (Normal n) (map Normal ?a) [] u" for wr u
    using assms(2,3) by (simp add: secure_open_file_def)
  obtain b u where b: "open_steps h True (Normal n) (map Normal ?a) [] t = Some (Inr b, u)"
    using assms(4) by (auto simp: write_scoped_file_def sec split: option.splits prod.splits sum.splits)
  from open_write_exact [OF b plain] have o: "b = ?a" "n \<notin> set ms"
      "\<forall>k \<le> length ms. \<exists>d. inode_at t (take k ms) = Some (Directory d)"
      "u = t \<and> inode_at t ?a = Some Special \<or> u = put_inode t ?a (Regular [])" by auto
  have dir: "\<exists>d. inode_at t (butlast ?a) = Some (Directory d)" using o(3) by auto
  show ?thesis
  proof (cases "inode_at t ?a = Some Special \<and> u = t")
    case True
    then show ?thesis
      using assms(4) b o by (auto simp: write_scoped_file_def sec split: option.splits if_splits)
  next
    case False
    then have u: "u = put_inode t ?a (Regular [])" using o(4) by blast
    have ua: "inode_at u ?a = Some (Regular [])"
      using inode_at_put [of ?a t "Regular []" "[]"] dir u by simp
    then have t': "t' = put_inode u ?a (Regular contents)"
      using assms(4) b o(1) by (auto simp: write_scoped_file_def sec split: option.splits)
    have du: "\<exists>d. inode_at u (take k ms) = Some (Directory d)" if "k \<le> length ms" for k
      unfolding u by (rule inode_at_put_above) (use o(3) that take_above [OF that] in auto)
    have dt: "\<exists>d. inode_at t' (take k ms) = Some (Directory d)" if "k \<le> length ms" for k
      unfolding t' by (rule inode_at_put_above) (use du [OF that] take_above [OF that] in auto)
    have ta: "inode_at t' ?a = Some (Regular contents)"
      using inode_at_put [of ?a u "Regular contents" "[]"] du [of "length ms"] t' by simp
    have other: "inode_at t' b = inode_at t b" if "\<not> prefix ?a b" "\<not> prefix b ?a" for b
      using that by (simp add: t' u inode_at_put_other)
    have "secure_open_file h p False t' = Some (Inr ?a, t')"
      unfolding sec using open_read [of ms n h "[]" t' contents] open_steps_granted [OF b plain] plain dt ta
      by simp
    then have "length contents \<le> MAX_OUTPUT \<longrightarrow> read_stop h ?a = None \<longrightarrow> read_scoped_file h p t' = Some (Inr contents)"
      using ta by (simp add: read_scoped_file_def)
    then show ?thesis using o(2,3) ta other by blast
  qed
qed

text \<open>A write that succeeds. When \<open>write_scoped_file\<close> succeeds on a canonical path below the root,
  every directory on the way is a real directory (no symbolic link is followed), the target was
  missing or a regular file or a device; unless it is a device, the file then holds exactly the
  contents, nothing else changed, and, within the size limit, \<open>read_scoped_file\<close> reads the contents
  back. It also shows that the last name is not the name of one of the directories.\<close>

theorem write_scoped_file_exact:
  assumes "canonical_path p" and "components p = RootDir # map Normal (ms @ [n])"
    and "\<forall>t. open_directory h t ''/'' = Inr []"
    and "write_scoped_file h p contents t = Some (Inr (), t')"
  shows "n \<notin> set ms
    \<and> (\<forall>k \<le> length ms. \<exists>d. inode_at t (take k ms) = Some (Directory d))
    \<and> (t' = t \<and> inode_at t (ms @ [n]) = Some Special
       \<or> inode_at t' (ms @ [n]) = Some (Regular contents)
         \<and> (\<forall>b. \<not> prefix (ms @ [n]) b \<longrightarrow> \<not> prefix b (ms @ [n]) \<longrightarrow> inode_at t' b = inode_at t b)
         \<and> (length contents \<le> MAX_OUTPUT \<longrightarrow> read_stop h (ms @ [n]) = None \<longrightarrow>
              read_scoped_file h p t' = Some (Inr contents)))"
  using assms by (rule write_success)

text \<open>A file whose name is also the name of one of the directories above it can never be written: that
  directory is taken for the last component.\<close>

lemma write_same_name_fails:
  assumes "canonical_path p" and "components p = RootDir # map Normal (ms @ [n])" and "n \<in> set ms"
    and "\<forall>t. open_directory h t ''/'' = Inr []"
  shows "write_scoped_file h p contents t \<noteq> Some (Inr (), t')"
  using write_success [OF assms(1,2,4)] assms(3) by blast

section \<open>Tasks that end\<close>

text \<open>A special file of the tree, such as a named pipe.\<close>

definition special_at :: "inode \<Rightarrow> string list \<Rightarrow> bool" where
  "special_at t a \<longleftrightarrow> inode_at t a = Some Special"

lemma put_regular_special: "special_at (put_inode t a (Regular c)) b \<Longrightarrow> special_at t b"
proof (induction t a "Regular c" arbitrary: b rule: put_inode.induct)
  case (2 d n ns)
  have "inode_at (Regular c) l \<noteq> Some Special" for l by (cases l) auto
  then show ?case using 2 by (cases b) (auto simp: special_at_def split: if_splits option.splits)
next
  case (1 t)
  then show ?case by (cases b) (auto simp: special_at_def)
qed (auto simp: special_at_def)

lemma openat_special: "openat h t fd name fl = Some (r, u) \<Longrightarrow> special_at u b \<Longrightarrow> special_at t b"
  using openat_change put_regular_special by metis

lemma openat_stuck:
  "openat h t fd name fl = None \<Longrightarrow> \<exists>a. special_at t a \<and> stuck_open h a (writes fl) \<and> \<not> must_dir fl"
  by (auto simp: openat_def Let_def special_at_def split: option.splits inode.splits if_splits)

lemma open_steps_special: "open_steps h wr lc cs fd t = Some (r, u) \<Longrightarrow> special_at u b \<Longrightarrow> special_at t b"
proof (induction cs arbitrary: fd t)
  case (Cons c cs)
  then show ?case using openat_special [of h t fd "component_name c" "step_flags wr lc c"]
    by (force split: if_splits option.splits sum.splits)
qed simp

lemma open_steps_stuck:
  "open_steps h wr lc cs fd t = None \<Longrightarrow> \<exists>a. special_at t a \<and> stuck_open h a wr"
proof (induction cs arbitrary: fd t)
  case (Cons c cs)
  show ?case
  proof (cases "openat h t fd (component_name c) (step_flags wr lc c)")
    case None
    then obtain a where "special_at t a" "stuck_open h a (writes (step_flags wr lc c))" "\<not> must_dir (step_flags wr lc c)"
      using openat_stuck by blast
    then show ?thesis by (auto simp: step_flags_def Let_def split: if_splits)
  next
    case (Some q)
    show ?thesis
    proof (cases "component_name c = []")
      case True
      then show ?thesis using Cons by simp
    next
      case False
      then obtain fd' u where "q = (Inr fd', u)" "open_steps h wr lc cs fd' u = None"
        using Cons.prems Some by (cases q) (auto split: if_splits sum.splits)
      then show ?thesis using Cons.IH Some openat_special by blast
    qed
  qed
qed simp

lemma write_stuck:
  assumes "write_scoped_file h p contents t = None"
  shows "\<exists>a. special_at t a \<and> (stuck_open h a True \<or> stuck_write h a)"
proof (cases "secure_open_file h p True t")
  case None
  then show ?thesis
    using open_steps_stuck by (auto simp: secure_open_file_def split: list.splits if_splits sum.splits) blast
next
  case (Some q)
  then obtain fd u where q: "secure_open_file h p True t = Some (Inr fd, u)" "special_at u fd" "stuck_write h fd"
    using assms
    by (auto simp: write_scoped_file_def special_at_def split: prod.splits sum.splits option.splits inode.splits if_splits)
  then have "special_at t fd"
    using open_steps_special
    by (fastforce simp: secure_open_file_def split: list.splits if_splits sum.splits)
  then show ?thesis using q by blast
qed

lemma task_special:
  assumes "execute_task_with_limit h ability program argument scope_path timeout_ms limit t = Some (r, t')"
    and "special_at t' b"
  shows "special_at t b"
proof -
  have w: "special_at t b" if "write_scoped_file h p c t = Some (q, u)" "special_at u b" for p c q u
    using that open_steps_special [of h True _ _ _ t _ _ b]
    by (auto simp: write_scoped_file_def secure_open_file_def
        split: list.splits if_splits prod.splits sum.splits option.splits inode.splits dest!: put_regular_special)
  show ?thesis
    using assms
    by (auto simp: execute_task_with_limit_def file_write_def split: if_splits sum.splits option.splits dest: w)
qed

lemma read_stuck:
  "read_scoped_file h p t = None \<Longrightarrow> \<exists>a. special_at t a \<and> stuck_open h a False"
  using open_steps_stuck [of h False]
  by (auto simp: read_scoped_file_def secure_open_file_def split: list.splits if_splits prod.splits sum.splits option.splits)

text \<open>The tasks that may wait for ever: those on files, when a special file of the tree blocks the call.\<close>

definition may_block :: "host \<Rightarrow> inode \<Rightarrow> string \<Rightarrow> bool" where
  "may_block h t ability \<longleftrightarrow>
     ability = ''file.read'' \<and> (\<exists>a. special_at t a \<and> stuck_open h a False)
     \<or> ability = ''file.write'' \<and> (\<exists>a. special_at t a \<and> (stuck_open h a True \<or> stuck_write h a))"

lemma execute_returns: "sleeping h \<Longrightarrow> \<exists>r. execute h command scope_path timeout_ms limit = Some r"
  using run_child_returns [of h] by (auto simp: execute_def split: sum.split prod.split)

lemma task_blocks:
  assumes "sleeping h"
    and "execute_task_with_limit h ability program argument scope_path timeout_ms limit t = None"
  shows "may_block h t ability"
proof -
  have "execute h (if argument = [] then [program] else [program, argument]) scope_path timeout_ms limit \<noteq> None"
    using execute_returns [OF assms(1)] by (metis option.distinct(1))
  then show ?thesis
    using assms(2)
    by (auto simp: execute_task_with_limit_def may_block_def file_read_def file_write_def
        split: if_splits sum.splits option.splits dest: read_stuck write_stuck)
qed

lemma run_returns:
  assumes "sleeping h"
  shows "\<exists>r. run h args = Some r"
proof -
  have "run_child h argv cwd timeout_ms limit \<noteq> None" for argv cwd timeout_ms limit
    using run_child_returns [OF assms] by simp
  then have "run h args \<noteq> None"
    unfolding run_def Let_def
    by (simp split: option.split sum.split prod.split if_split del: not_None_eq)
  then show ?thesis by simp
qed

text \<open>C25: What ends. If a sleep lasts as long as it is documented to, the \<open>run\<close> command returns for
  every command line, and \<open>execute_task_with_limit\<close> returns for every task but one kind: a
  \<open>file.read\<close> or \<open>file.write\<close> while the disk holds a special file (a named pipe) on which the
  \<open>openat\<close> or the \<open>write\<close> blocks. Every other task ends, whatever the child does, and a child that
  never exits ends as \<open>task_timeout\<close>. The exception is real: \<open>named_pipe_blocks_agent\<close>.\<close>

theorem task_returns_or_blocks:
  assumes "sleeping h"
  shows "((\<exists>r. execute_task_with_limit h ability program argument scope_path timeout_ms limit t = Some r)
      \<or> ability = ''file.read'' \<and> (\<exists>a. special_at t a \<and> stuck_open h a False)
      \<or> ability = ''file.write'' \<and> (\<exists>a. special_at t a \<and> (stuck_open h a True \<or> stuck_write h a)))
    \<and> (\<exists>r. run h args = Some r)
    \<and> (spawn h argv cwd = Inr c \<longrightarrow> (\<forall>i. try_wait c i = Inr False) \<longrightarrow>
        run_child h argv cwd timeout_ms limit = Some (Inl ''task_timeout''))"
  using task_blocks [OF assms] run_returns [OF assms] run_child_timeout [OF assms] unfolding may_block_def
  by (metis option.exhaust)

section \<open>A sample host\<close>

definition sample_child :: child where
  "sample_child = \<lparr>try_wait = (\<lambda>i. Inr (2 \<le> i)), elapsed = (\<lambda>i. 10 * i), wait_status = Inr (Some 0),
     stdout_pipe = ([as_bytes ''hi''], None), stderr_pipe = ([], None)\<rparr>"

definition sample_host :: host where
  "sample_host = \<lparr>fsys = sample_fs, open_directory = (\<lambda>t p. if p = ''/'' then Inr [] else Inl not_a_directory),
     denied = (\<lambda>_. None), read_stop = (\<lambda>_. None), write_stop = (\<lambda>_. None),
     stuck_open = (\<lambda>_ _. True), stuck_write = (\<lambda>_. False),
     spawn = (\<lambda>argv cwd. if hd argv = ''/usr/bin/echo'' then Inr sample_child else Inl no_such_file),
     os_name = ''linux'', arch_name = ''x86_64''\<rparr>"

definition sample_lab :: inode where
  "sample_lab = Directory [''in.txt'' \<mapsto> Regular (''api_key=1'' @ [NL] @ ''ok'')]"

definition sample_disk :: inode where
  "sample_disk = Directory [''srv'' \<mapsto> Directory [''lab'' \<mapsto> sample_lab], ''etc'' \<mapsto> Directory Map.empty]"

lemma sample_scope: "Scope_new (fsys sample_host) ''/srv/lab'' = Inr \<lparr>root = ''/srv/lab''\<rparr>"
  by (simp add: sample_host_def Scope_new_def sample_fs_def)

lemma sample_root: "address ''/srv/lab'' = [''srv'', ''lab'']"
  by (simp add: address_def path_eval)

lemma sample_lab_at: "inode_at sample_disk [''srv'', ''lab''] = Some sample_lab"
  by (simp add: sample_disk_def)

lemma sample_read:
  "execute_task_with_limit sample_host ''file.read'' ''in.txt'' [] ''/srv/lab'' 1000 20 sample_disk
   = Some (Inr (''[REDACTED]'' @ [NL] @ ''ok'', 0), sample_disk)"
proof -
  have a: "scope_authorize (fsys sample_host) \<lparr>root = ''/srv/lab''\<rparr> ''in.txt'' Read = Inr ''/srv/lab/in.txt''"
    by (simp add: scope_authorize_def scope_resolve_def sample_host_def sample_fs_def path_eval)
  have f: "from_utf8_lossy (''api_key=1'' @ [NL] @ ''ok'') = ''api_key=1'' @ [NL] @ ''ok''"
    by (simp add: good_tail_def lead_width_def byte_def)
  have r: "redact_sensitive (''api_key=1'' @ [NL] @ ''ok'') = ''[REDACTED]'' @ [NL] @ ''ok''"
    by (simp add: redact_sensitive_def str_lines_def str_split_def chop_cr_def marked_def secret_markers_def
        to_ascii_uppercase_def to_upper_def ascii_simps Let_def flip: byte_inject)
  have "read_scoped_file sample_host ''/srv/lab/in.txt'' sample_disk = Some (Inr (''api_key=1'' @ [NL] @ ''ok''))"
    by (simp add: read_scoped_file_def secure_open_file_def path_eval sample_host_def openat_def
        target_address_def step_flags_def sample_disk_def sample_lab_def MAX_OUTPUT_def)
  then have "file_read sample_host ''in.txt'' ''/srv/lab'' 20 sample_disk = Some (Inr (''[REDACTED]'' @ [NL] @ ''ok'', 0))"
    unfolding file_read_def sample_scope sum.case a using f r
    by (simp add: agent_truncate_utf8_def)
  then show ?thesis by (simp add: execute_task_with_limit_def)
qed

theorem task_output_bounded_redacted_witness:
  "length (''[REDACTED]'' @ [NL] @ ''ok'') \<le> 20
   \<and> \<not> list_ex marked (str_split (''[REDACTED]'' @ [NL] @ ''ok'') NL)"
  using task_output_bounded_redacted [OF sample_read] by (auto simp: list_ex_iff)

theorem only_permitted_children_witness:
  "execute_task_with_limit (sample_host\<lparr>spawn := \<lambda>argv cwd. if hd argv = ''/usr/bin/echo'' then Inr sample_child else Inl []\<rparr>)
     ''task.exec'' ''rm'' ''x'' ''/srv/lab'' 1000 20 sample_disk
   = execute_task_with_limit sample_host ''task.exec'' ''rm'' ''x'' ''/srv/lab'' 1000 20 sample_disk"
proof (rule only_permitted_children, intro allI impI)
  fix argv cwd
  assume "permitted sample_host ''/srv/lab'' argv cwd"
  then have "hd argv = ''/usr/bin/echo''"
    by (auto simp: permitted_def sample_host_def sample_fs_def)
  then show "spawn sample_host argv cwd
    = (if hd argv = ''/usr/bin/echo'' then Inr sample_child else Inl [])"
    by (simp add: sample_host_def)
qed

definition hanging_host :: host where
  "hanging_host = sample_host\<lparr>spawn := \<lambda>argv cwd. Inr (sample_child\<lparr>try_wait := \<lambda>i. Inr False\<rparr>)\<rparr>"

theorem task_returns_or_blocks_witness:
  "(\<exists>r. execute_task_with_limit hanging_host ''task.exec'' ''echo'' ''hi'' ''/srv/lab'' 1000 20 sample_disk = Some r)
   \<and> (\<exists>r. run hanging_host [''run'', ''--scope'', ''/srv/lab'', ''--'', ''echo''] = Some r)
   \<and> run_child hanging_host [''/usr/bin/echo''] ''/srv/lab'' 1000 20 = Some (Inl ''task_timeout'')"
proof -
  let ?c = "sample_child\<lparr>try_wait := \<lambda>i. Inr False\<rparr>"
  have s: "sleeping hanging_host" by (simp add: sleeping_def hanging_host_def sample_child_def)
  have c: "spawn hanging_host [''/usr/bin/echo''] ''/srv/lab'' = Inr ?c" "\<forall>i. try_wait ?c i = Inr False"
    by (simp_all add: hanging_host_def)
  show ?thesis
    using task_returns_or_blocks [OF s, of "''task.exec''" "''echo''" "''hi''" "''/srv/lab''" 1000 20 sample_disk
        "[''run'', ''--scope'', ''/srv/lab'', ''--'', ''echo'']" "[''/usr/bin/echo'']" "''/srv/lab''" ?c] c by simp
qed

text \<open>A named pipe in the scope that nobody writes to: the task that reads it never ends, and no timeout
  applies to it.\<close>

definition pipe_disk :: inode where
  "pipe_disk = Directory [''srv'' \<mapsto> Directory [''lab'' \<mapsto> Directory [''in.txt'' \<mapsto> Special]]]"

lemma named_pipe_blocks_agent:
  "execute_task_with_limit sample_host ''file.read'' ''in.txt'' [] ''/srv/lab'' timeout_ms limit pipe_disk = None"
proof -
  have a: "scope_authorize (fsys sample_host) \<lparr>root = ''/srv/lab''\<rparr> ''in.txt'' Read = Inr ''/srv/lab/in.txt''"
    by (simp add: scope_authorize_def scope_resolve_def sample_host_def sample_fs_def path_eval)
  have "read_scoped_file sample_host ''/srv/lab/in.txt'' pipe_disk = None"
    by (simp add: read_scoped_file_def secure_open_file_def path_eval sample_host_def openat_def
        target_address_def step_flags_def pipe_disk_def)
  then show ?thesis by (simp add: execute_task_with_limit_def file_read_def sample_scope a)
qed


lemma sample_write:
  "write_scoped_file sample_host ''/srv/lab/out.txt'' ''new'' sample_disk
   = Some (Inr (), put_inode (put_inode sample_disk [''srv'', ''lab'', ''out.txt''] (Regular []))
       [''srv'', ''lab'', ''out.txt''] (Regular ''new''))"
  by (simp add: write_scoped_file_def secure_open_file_def path_eval sample_host_def openat_def
      target_address_def step_flags_def sample_disk_def sample_lab_def)

theorem disk_changes_below_scope_witness:
  "\<exists>t'. execute_task_with_limit sample_host ''file.write'' ''out.txt'' ''new'' ''/srv/lab'' 1000 20 sample_disk
        = Some (Inr (''wrote '' @ dec 3 @ '' bytes'', 0), t')
     \<and> inode_at t' [''etc''] = inode_at sample_disk [''etc'']"
proof -
  have a: "scope_authorize (fsys sample_host) \<lparr>root = ''/srv/lab''\<rparr> ''out.txt'' Write = Inr ''/srv/lab/out.txt''"
    by (simp add: scope_authorize_def scope_resolve_def sample_host_def sample_fs_def path_eval)
  obtain t' where t': "write_scoped_file sample_host ''/srv/lab/out.txt'' ''new'' sample_disk = Some (Inr (), t')"
    using sample_write by blast
  have r: "execute_task_with_limit sample_host ''file.write'' ''out.txt'' ''new'' ''/srv/lab'' 1000 20 sample_disk
      = Some (Inr (''wrote '' @ dec 3 @ '' bytes'', 0), t')"
    by (simp add: execute_task_with_limit_def file_write_def MAX_OUTPUT_def sample_scope a t' numeral_3_eq_3)
  have c: "canonicalizing (fsys sample_host)" "open_directory sample_host sample_disk ''/'' = Inr []"
    using sample_canonicalizing by (simp_all add: sample_host_def)
  have d: "inode_at sample_disk (address (root \<lparr>root = ''/srv/lab''\<rparr>)) = Some (Directory [''in.txt'' \<mapsto> Regular (''api_key=1'' @ [NL] @ ''ok'')])"
    by (simp add: sample_root sample_lab_at) (simp add: sample_lab_def)
  show ?thesis
    using r disk_changes_below_scope [OF c sample_scope d r] by (simp add: sample_root)
qed

theorem write_scoped_file_exact_witness:
  "\<exists>t'. write_scoped_file sample_host ''/srv/lab/out.txt'' ''new'' sample_disk = Some (Inr (), t')
     \<and> read_scoped_file sample_host ''/srv/lab/out.txt'' t' = Some (Inr ''new'')"
proof -
  obtain t' where t': "write_scoped_file sample_host ''/srv/lab/out.txt'' ''new'' sample_disk = Some (Inr (), t')"
    using sample_write by blast
  have c: "canonical_path ''/srv/lab/out.txt''"
    "components ''/srv/lab/out.txt'' = RootDir # map Normal ([''srv'', ''lab''] @ [''out.txt''])"
    "\<forall>t. open_directory sample_host t ''/'' = Inr []"
    by (simp_all add: canonical_path_def path_eval sample_host_def)
  show ?thesis
    using t' write_scoped_file_exact [OF c t']
    by (simp add: sample_host_def MAX_OUTPUT_def sample_disk_def sample_lab_def)
qed

end
