(* ===== verification/Agent_Client.thy ===== *)
theory Agent_Client
  imports Agent_Safety Ws_Frames
begin

text \<open>
  The client half of the agent, \<open>node-runtime/src/main.rs\<close>: its options and credentials, the requests
  it writes and the responses it reads, the WebSocket handshake and request loop, one round of the
  polling loop, one round of a WebSocket session, and enrolment.

  \<open>agent\<close> is everything outside the program: the variables, files, parser and random source of
  \<open>env\<close>, the host that runs tasks, the printer of \<open>serde_json\<close>, the digests of \<open>ring\<close>, the clock in
  nanoseconds, and what \<open>rustls\<close> makes of the certificate files. A connection is what it sends back
  for the request written to it.
\<close>

section \<open>The outside world\<close>

record agent =
  outside :: env
  local_host :: host
  json_text :: "json \<Rightarrow> string"
  ring_sha1 :: "bytes \<Rightarrow> bytes"
  ring_sha256 :: "bytes \<Rightarrow> bytes"
  nanos :: "nat \<Rightarrow> nat"
  tls_client :: "string \<Rightarrow> string \<Rightarrow> string \<Rightarrow> string \<Rightarrow> string + unit"

definition AGENT_VERSION :: string where
  "AGENT_VERSION = ''0.1.3''"

definition MAX_HTTP_RESPONSE_BYTES :: nat where
  "MAX_HTTP_RESPONSE_BYTES = 8 * 1024 * 1024"

definition AGENT_ABILITIES :: "string list" where
  "AGENT_ABILITIES = [''file.read'', ''file.write'', ''task.exec'', ''system.inspect'']"

definition AGENT_ABILITIES_CSV :: string where
  "AGENT_ABILITIES_CSV = ''file.read,file.write,task.exec,system.inspect''"

section \<open>Options and credentials\<close>

text \<open>\<open>option(args, name).or_else(|| env::var(name).ok())\<close>.\<close>

definition option_or_var :: "env \<Rightarrow> string list \<Rightarrow> string \<Rightarrow> string \<Rightarrow> string option" where
  "option_or_var e args name var =
     (case arg_option args name of Some v \<Rightarrow> Some v | None \<Rightarrow> env_var e var)"

definition ensure_endpoint_safe :: "env \<Rightarrow> string \<Rightarrow> bool \<Rightarrow> string + unit" where
  "ensure_endpoint_safe e endpoint tls_enabled =
     (let host = (case rsplit_once endpoint CHR '':'' of None \<Rightarrow> endpoint | Some (host, _) \<Rightarrow> host);
          loopback = host \<in> {''127.0.0.1'', ''localhost'', ''::1'', ''[::1]''}
      in if tls_enabled \<or> loopback \<or> env_var e ''NODEWE_ALLOW_INSECURE_HTTP'' = Some ''1'' then Inr ()
         else Inl (''refusing plaintext Control Plane transport for a non-loopback endpoint; ''
                   @ ''terminate TLS/mTLS locally or explicitly set NODEWE_ALLOW_INSECURE_HTTP=1 for development''))"

definition trim_set :: "char set \<Rightarrow> string \<Rightarrow> string" where
  "trim_set cs s = rev (dropWhile (\<lambda>c. c \<in> cs) (rev (dropWhile (\<lambda>c. c \<in> cs) s)))"

definition endpoint_host :: "string \<Rightarrow> string" where
  "endpoint_host endpoint =
     (case rsplit_once endpoint CHR '':'' of
        None \<Rightarrow> endpoint | Some (host, _) \<Rightarrow> trim_set {CHR ''['', CHR '']''} host)"

text \<open>\<open>load_tls_options\<close>: all three files or none; reading them and building the configuration is the
  parameter \<open>tls_client\<close>. The result is the server name of an enabled TLS.\<close>

definition load_tls_options :: "agent \<Rightarrow> string list \<Rightarrow> string \<Rightarrow> string + string option" where
  "load_tls_options a args endpoint =
     (let e = outside a;
          ca = option_or_var e args ''--tls-ca'' ''NODEWE_TLS_CA'';
          certificate = option_or_var e args ''--tls-cert'' ''NODEWE_TLS_CERT'';
          private_key = option_or_var e args ''--tls-key'' ''NODEWE_TLS_KEY'';
          server_name = (case option_or_var e args ''--tls-server-name'' ''NODEWE_TLS_SERVER_NAME'' of
                           Some n \<Rightarrow> n | None \<Rightarrow> endpoint_host endpoint)
      in if ca = None \<and> certificate = None \<and> private_key = None then Inr None
         else case ca of
           None \<Rightarrow> Inl ''--tls-ca/NODEWE_TLS_CA is required when TLS is enabled''
         | Some ca \<Rightarrow>
             (case certificate of
                None \<Rightarrow> Inl ''--tls-cert/NODEWE_TLS_CERT is required when TLS is enabled''
              | Some certificate \<Rightarrow>
                  (case private_key of
                     None \<Rightarrow> Inl ''--tls-key/NODEWE_TLS_KEY is required when TLS is enabled''
                   | Some private_key \<Rightarrow>
                       (case tls_client a ca certificate private_key server_name of
                          Inl err \<Rightarrow> Inl err | Inr _ \<Rightarrow> Inr (Some server_name)))))"

definition validate_header_value :: "string \<Rightarrow> string + unit" where
  "validate_header_value value =
     (if CR \<in> set value \<or> NL \<in> set value then Inl ''token contains an invalid HTTP header character''
      else Inr ())"

definition header_token :: "string \<Rightarrow> string + string" where
  "header_token token = (case validate_header_value token of Inl err \<Rightarrow> Inl err | Inr _ \<Rightarrow> Inr token)"

definition load_node_token :: "env \<Rightarrow> string list \<Rightarrow> string + string" where
  "load_node_token e args =
     (case arg_option args ''--token'' of
        Some token \<Rightarrow> if token = [] then Inl ''--token cannot be empty'' else header_token token
      | None \<Rightarrow>
     (case env_var e ''NODEWE_NODE_TOKEN'' of
        Some token \<Rightarrow> if token = [] then Inl ''NODEWE_NODE_TOKEN cannot be empty'' else header_token token
      | None \<Rightarrow>
     (case environ e ''NODEWE_NODE_TOKEN_FILE'' of
        None \<Rightarrow> Inl ''--token, NODEWE_NODE_TOKEN or NODEWE_NODE_TOKEN_FILE is required''
      | Some path \<Rightarrow>
     (case file_mode e path of
        Inl err \<Rightarrow> Inl (''cannot read token file '' @ from_utf8_lossy path @ '': '' @ err)
      | Inr mode \<Rightarrow>
          if mode AND 511 \<noteq> 384 \<and> mode AND 511 \<noteq> 256
          then Inl (''token file must be mode 0600 or 0400 (got '' @ show_radix 8 (mode AND 511) @ '')'')
          else (case read_file e path of
                  Inl err \<Rightarrow> Inl (''cannot read token file '' @ from_utf8_lossy path @ '': '' @ err)
                | Inr content \<Rightarrow>
                    if str_trim content = [] then Inl ''NODEWE_NODE_TOKEN_FILE cannot be empty''
                    else header_token (str_trim content))))))"

definition agent_valid_labels :: "string \<Rightarrow> bool" where
  "agent_valid_labels value =
     list_all (\<lambda>label. length (str_trim label) \<le> 64
         \<and> list_all (\<lambda>b. is_ascii_alphanumeric b \<or> b \<in> {CHR ''_'', CHR ''-'', CHR ''.'', CHR ''+''}) (str_trim label))
       (filter (\<lambda>label. str_trim label \<noteq> []) (str_split value CHR '',''))"

section \<open>Requests and responses\<close>

abbreviation "crlf \<equiv> [CR, NL]"

definition request_head :: "string \<Rightarrow> string \<Rightarrow> string \<Rightarrow> string list \<Rightarrow> string" where
  "request_head verb path endpoint hs =
     concat (map (\<lambda>l. l @ crlf)
       ((verb @ '' '' @ path @ '' HTTP/1.1'') # (''Host: '' @ endpoint) # hs))
     @ crlf"

definition get_request :: "string \<Rightarrow> string \<Rightarrow> string \<Rightarrow> string" where
  "get_request endpoint path token =
     request_head ''GET'' path endpoint [''Authorization: Bearer '' @ token, ''Connection: close'']"

definition post_request :: "string \<Rightarrow> string \<Rightarrow> string \<Rightarrow> string \<Rightarrow> string" where
  "post_request endpoint path body token =
     request_head ''POST'' path endpoint
       [''Authorization: Bearer '' @ token, ''Content-Type: application/json'',
        ''Content-Length: '' @ dec (length body), ''Connection: close''] @ body"

definition post_request_unauthenticated :: "string \<Rightarrow> string \<Rightarrow> string \<Rightarrow> string" where
  "post_request_unauthenticated endpoint path body =
     request_head ''POST'' path endpoint
       [''Content-Type: application/json'', ''Content-Length: '' @ dec (length body), ''Connection: close''] @ body"

text \<open>\<open>read_response\<close>: blocks until an empty one or the end, within 8 MiB.\<close>

fun read_blocks :: "bytes list \<Rightarrow> bytes \<Rightarrow> string + bytes" where
  "read_blocks [] bs = Inr bs"
| "read_blocks (c # cs) bs =
     (if c = [] then Inr bs
      else if MAX_HTTP_RESPONSE_BYTES < length bs + length c
      then Inl ''control plane response exceeds the 8 MiB limit''
      else read_blocks cs (bs @ c))"

definition read_response :: "bytes list \<Rightarrow> string + string" where
  "read_response chunks =
     (case read_blocks chunks [] of
        Inl err \<Rightarrow> Inl err
      | Inr bs \<Rightarrow>
          (case from_utf8 bs of
             None \<Rightarrow> Inl ''control plane response is not valid UTF-8'' | Some s \<Rightarrow> Inr s))"

text \<open>The status number on the first line, 0 when there is none.\<close>

definition response_status :: "string \<Rightarrow> nat" where
  "response_status response =
     (case str_lines response of
        [] \<Rightarrow> 0
      | line # _ \<Rightarrow>
          (case split_whitespace line of
             _ # code # _ \<Rightarrow> (case parse_u16 code of None \<Rightarrow> 0 | Some n \<Rightarrow> n)
           | _ \<Rightarrow> 0))"

text \<open>\<open>response.split("\r\n\r\n").nth(1).unwrap_or(&response)\<close>.\<close>

definition after_head :: "string \<Rightarrow> string" where
  "after_head s =
     (case window_position (of_bytes crlf2) s of
        None \<Rightarrow> s | Some _ \<Rightarrow> second_piece (of_bytes crlf2) s)"

definition response_body :: "string \<Rightarrow> string + string" where
  "response_body response =
     (let status = response_status response; body = after_head response
      in if 200 \<le> status \<and> status < 300 then Inr body
         else Inl (''control plane returned HTTP '' @ dec status @ '': '' @ body))"

text \<open>\<open>get_json\<close>, \<open>post_json\<close> and \<open>post_json_unauthenticated\<close> write the request to a fresh connection and
  read what comes back; \<open>net\<close> answers the \<open>k\<close>-th exchange.\<close>

type_synonym network = "nat \<Rightarrow> string \<Rightarrow> string + bytes list"

definition exchange :: "network \<Rightarrow> nat \<Rightarrow> string \<Rightarrow> string + string" where
  "exchange net k request =
     (case net k request of
        Inl err \<Rightarrow> Inl err
      | Inr chunks \<Rightarrow>
          (case read_response chunks of Inl err \<Rightarrow> Inl err | Inr response \<Rightarrow> response_body response))"

section \<open>JSON\<close>

definition escape_char :: "string \<Rightarrow> string" where
  "escape_char ch =
     (if ch = [DQUOTE] then [BACKSLASH, DQUOTE]
      else if ch = [BACKSLASH] then [BACKSLASH, BACKSLASH]
      else if ch = [NL] then [BACKSLASH, CHR ''n'']
      else if ch = [CR] then [BACKSLASH, CHR ''r'']
      else if ch = [TAB] then [BACKSLASH, CHR ''t'']
      else if is_control ch then BACKSLASH # CHR ''u'' # hex4 (code_point ch)
      else ch)"

definition escape :: "string \<Rightarrow> string" where
  "escape value = concat (map escape_char (chars_of value))"

text \<open>A member of an object written by a format string, and the object.\<close>

definition member :: "string \<Rightarrow> string \<Rightarrow> string" where
  "member key value = [DQUOTE] @ key @ [DQUOTE] @ '':'' @ [DQUOTE] @ value @ [DQUOTE]"

definition object_text :: "string list \<Rightarrow> string" where
  "object_text members = [CHR 0x7B] @ str_join '','' members @ [CHR 0x7D]"

definition json_member :: "json_parser \<Rightarrow> string \<Rightarrow> string \<Rightarrow> json option" where
  "json_member pj object key =
     (case pj object of Some (JObject kvs) \<Rightarrow> map_of kvs key | _ \<Rightarrow> None)"

definition json_value :: "json_parser \<Rightarrow> string \<Rightarrow> string \<Rightarrow> string option" where
  "json_value pj object key = Option.bind (json_member pj object key) as_str"

definition agent_json_number :: "json_parser \<Rightarrow> string \<Rightarrow> string \<Rightarrow> u64 option" where
  "agent_json_number pj object key = Option.bind (json_member pj object key) as_u64"

definition json_payload :: "agent \<Rightarrow> string \<Rightarrow> string option" where
  "json_payload a object = map_option (json_text a) (json_member (parse_json (outside a)) object ''payload'')"

definition json_objects :: "agent \<Rightarrow> string \<Rightarrow> string list" where
  "json_objects a array =
     (case Option.bind (parse_json (outside a) array) as_array of
        None \<Rightarrow> []
      | Some vs \<Rightarrow> map (json_text a) (filter (\<lambda>v. as_object v \<noteq> None) vs))"

text \<open>\<open>validate_heartbeat_ack\<close>: the body is the \<open>payload\<close> when that is an object.\<close>

definition ack_body :: "json \<Rightarrow> json" where
  "ack_body parsed =
     (case parsed of
        JObject kvs \<Rightarrow> (case map_of kvs ''payload'' of Some (JObject p) \<Rightarrow> JObject p | _ \<Rightarrow> parsed)
      | _ \<Rightarrow> parsed)"

definition get_member :: "json \<Rightarrow> string \<Rightarrow> json option" where
  "get_member v key = (case v of JObject kvs \<Rightarrow> map_of kvs key | _ \<Rightarrow> None)"

definition validate_heartbeat_ack :: "json_parser \<Rightarrow> string \<Rightarrow> string + unit" where
  "validate_heartbeat_ack pj response =
     (case pj response of
        None \<Rightarrow> Inl ''control plane heartbeat response is not valid JSON''
      | Some parsed \<Rightarrow>
          (let body = ack_body parsed in
           if Option.bind (get_member body ''protocol_version'') as_u64 \<noteq> Some 1
           then Inl ''control plane negotiated an unsupported protocol version''
           else (let negotiated = (case Option.bind (get_member body ''negotiated_abilities'') as_array of
                                     None \<Rightarrow> [] | Some vs \<Rightarrow> List.map_filter as_str vs)
                 in if list_ex (\<lambda>ability. ability \<notin> set negotiated) AGENT_ABILITIES
                    then Inl ''control plane did not negotiate all required agent abilities''
                    else Inr ())))"

section \<open>Jobs\<close>

text \<open>A task of the control plane as the agent reads it, with its defaults.\<close>

record job =
  jb_task :: string
  jb_request :: string
  jb_lease :: string
  jb_timeout :: u64
  jb_limit :: nat
  jb_ability :: string
  jb_program :: string
  jb_argument :: string

definition or_else :: "'a option \<Rightarrow> 'a \<Rightarrow> 'a" where
  "or_else v d = (case v of None \<Rightarrow> d | Some x \<Rightarrow> x)"

definition parse_job :: "json_parser \<Rightarrow> string \<Rightarrow> string + job" where
  "parse_job pj task =
     (case json_value pj task ''task_id'' of
        None \<Rightarrow> Inl ''task response missing task_id''
      | Some task_id \<Rightarrow>
     (case json_value pj task ''lease_token'' of
        None \<Rightarrow> Inl ''task response missing lease_token''
      | Some lease_token \<Rightarrow>
     (case json_value pj task ''program'' of
        None \<Rightarrow> Inl ''task response missing program''
      | Some program \<Rightarrow>
          Inr \<lparr>jb_task = task_id, jb_request = or_else (json_value pj task ''request_id'') task_id,
               jb_lease = lease_token,
               jb_timeout = (case agent_json_number pj task ''timeout_ms'' of
                  Some v \<Rightarrow> if 0 < v \<and> v \<le> 300000 then v else 30000 | None \<Rightarrow> 30000),
               jb_limit = (case agent_json_number pj task ''output_limit'' of
                  Some v \<Rightarrow> if 0 < v \<and> unat v \<le> MAX_OUTPUT then unat v else MAX_OUTPUT | None \<Rightarrow> MAX_OUTPUT),
               jb_ability = or_else (json_value pj task ''ability'') ''task.exec'',
               jb_program = program,
               jb_argument = or_else (json_value pj task ''argument'') []\<rparr>)))"

text \<open>What is reported of a job: state, output and exit code.\<close>

definition job_outcome :: "agent \<Rightarrow> string \<Rightarrow> job \<Rightarrow> inode \<Rightarrow> ((string \<times> string \<times> int) \<times> inode) option" where
  "job_outcome a scope_path j t =
     map_option (\<lambda>(r, t'). (case r of
         Inr (output, code) \<Rightarrow> (if code = 0 then ''succeeded'' else ''failed'', output, code)
       | Inl err \<Rightarrow> (''failed'', err, 1), t'))
     (execute_task_with_limit (local_host a) (jb_ability j) (jb_program j) (jb_argument j) scope_path
        (jb_timeout j) (jb_limit j) t)"

definition sha256_hex :: "agent \<Rightarrow> string \<Rightarrow> string" where
  "sha256_hex a s = concat (map (\<lambda>b. hex2 (unat b)) (ring_sha256 a (as_bytes s)))"

text \<open>The members of a report; over HTTP they are the body, over the channel they follow the envelope.\<close>

definition result_body :: "agent \<Rightarrow> string \<Rightarrow> job \<Rightarrow> string \<times> string \<times> int \<Rightarrow> string" where
  "result_body a node_id j r =
     (case r of (st, output, code) \<Rightarrow>
       object_text [member ''node_id'' (escape node_id), member ''request_id'' (escape (jb_request j)),
         member ''lease_token'' (escape (jb_lease j)), member ''state'' st, member ''output'' (escape output),
         member ''output_sha256'' (sha256_hex a output), member ''exit_code'' (show_int code)])"

section \<open>Polling\<close>

record session_config =
  cf_endpoint :: string
  cf_node :: string
  cf_token :: string
  cf_scope :: string

definition heartbeat_body :: "agent \<Rightarrow> string \<Rightarrow> string" where
  "heartbeat_body a node_id =
     object_text [[DQUOTE] @ ''protocol_version'' @ [DQUOTE] @ '':1'', member ''node_id'' (escape node_id),
       member ''abilities'' AGENT_ABILITIES_CSV, member ''platform'' (os_name (local_host a)),
       member ''architecture'' (arch_name (local_host a)), member ''version'' AGENT_VERSION]"

definition result_request :: "agent \<Rightarrow> session_config \<Rightarrow> job \<Rightarrow> string \<times> string \<times> int \<Rightarrow> string" where
  "result_request a cf j r =
     post_request (cf_endpoint cf) (''/v1/agent/tasks/'' @ jb_task j @ ''/result'')
       (result_body a (cf_node cf) j r) (cf_token cf)"

text \<open>The jobs of one poll, in order: the result, the disk and the reports written. A task without one of
  its required members ends the agent; a report that fails is only logged.\<close>

fun poll_jobs :: "agent \<Rightarrow> session_config \<Rightarrow> string list \<Rightarrow> inode \<Rightarrow> ((string + unit) \<times> inode \<times> string list) option" where
  "poll_jobs a cf [] t = Some (Inr (), t, [])"
| "poll_jobs a cf (task # ts) t =
     (case parse_job (parse_json (outside a)) task of
        Inl err \<Rightarrow> Some (Inl err, t, [])
      | Inr j \<Rightarrow>
          (case job_outcome a (cf_scope cf) j t of
             None \<Rightarrow> None
           | Some (r, t') \<Rightarrow>
               map_option (\<lambda>(q, u, sent). (q, u, result_request a cf j r # sent)) (poll_jobs a cf ts t')))"

text \<open>One turn of the loop of \<open>connect_polling\<close>: what it waits and with which backoff it goes on, or the
  error that ends the agent.\<close>

datatype turn =
  Retry (waits: u64) (next_backoff: u64)
| Polled
| Stopped string

definition double_backoff :: "u64 \<Rightarrow> u64" where
  "double_backoff b = (if unat b * 2 < 2 ^ 64 then min (b * 2) 30000 else min (- 1) 30000)"

definition poll_turn ::
  "agent \<Rightarrow> session_config \<Rightarrow> network \<Rightarrow> u64 \<Rightarrow> inode \<Rightarrow> (turn \<times> inode \<times> string list) option" where
  "poll_turn a cf net backoff t =
     (let beat = post_request (cf_endpoint cf) ''/v1/agent/heartbeat'' (heartbeat_body a (cf_node cf)) (cf_token cf);
          poll = get_request (cf_endpoint cf) (''/v1/agent/tasks?node_id='' @ escape (cf_node cf)) (cf_token cf)
      in case exchange net 0 beat of
           Inl _ \<Rightarrow> Some (Retry backoff (double_backoff backoff), t, [beat])
         | Inr response \<Rightarrow>
             (case validate_heartbeat_ack (parse_json (outside a)) response of
                Inl err \<Rightarrow> Some (Stopped err, t, [beat])
              | Inr _ \<Rightarrow>
                  (case exchange net 1 poll of
                     Inl _ \<Rightarrow> Some (Retry 1000 (double_backoff 1000), t, [beat, poll])
                   | Inr queued \<Rightarrow>
                       map_option (\<lambda>(r, t', sent).
                           (case r of Inl err \<Rightarrow> Stopped err | Inr _ \<Rightarrow> Polled, t', beat # poll # sent))
                         (poll_jobs a cf (json_objects a queued) t))))"

text \<open>What \<open>connect_polling\<close> and \<open>connect_websocket\<close> set up first: the session and the interval.\<close>

definition session_setup :: "agent \<Rightarrow> string list \<Rightarrow> string + session_config \<times> u64" where
  "session_setup a args =
     (case arg_option args ''--endpoint'' of None \<Rightarrow> Inl ''--endpoint is required'' | Some endpoint \<Rightarrow>
     (case arg_option args ''--node-id'' of None \<Rightarrow> Inl ''--node-id is required'' | Some node_id \<Rightarrow>
     (case load_node_token (outside a) args of Inl err \<Rightarrow> Inl err | Inr token \<Rightarrow>
     (case arg_option args ''--scope'' of None \<Rightarrow> Inl ''--scope is required'' | Some scope_path \<Rightarrow>
     (let interval = or_else (Option.bind (arg_option args ''--interval-ms'') parse_u64) 10000 in
      case load_tls_options a args endpoint of Inl err \<Rightarrow> Inl err | Inr tls \<Rightarrow>
     (case ensure_endpoint_safe (outside a) endpoint (tls \<noteq> None) of
        Inl err \<Rightarrow> Inl err
      | Inr _ \<Rightarrow> Inr (\<lparr>cf_endpoint = endpoint, cf_node = node_id, cf_token = token, cf_scope = scope_path\<rparr>,
                       interval)))))))"

datatype transport = Polling | Websocket

definition choose_transport :: "env \<Rightarrow> string list \<Rightarrow> string + transport" where
  "choose_transport e args =
     (let transport = or_else (option_or_var e args ''--transport'' ''NODEWE_AGENT_TRANSPORT'') ''polling'' in
      if transport = ''polling'' then Inr Polling
      else if transport = ''websocket'' \<or> transport = ''wss'' then Inr Websocket
      else Inl ''--transport must be polling or websocket'')"

section \<open>The WebSocket channel\<close>

definition agent_base64_chunk :: "bytes \<Rightarrow> string" where
  "agent_base64_chunk chunk =
     (let a = ucast (chunk ! 0) :: u64;
          b = (if 1 < length chunk then ucast (chunk ! 1) else 0);
          c = (if 2 < length chunk then ucast (chunk ! 2) else 0)
      in [base64_table ! unat (drop_bit 2 a),
          base64_table ! unat (push_bit 4 (a AND 3) OR drop_bit 4 b),
          if length chunk > 1 then base64_table ! unat (push_bit 2 (b AND 15) OR drop_bit 6 c) else CHR ''='',
          if length chunk > 2 then base64_table ! unat (c AND 63) else CHR ''=''])"

fun agent_base64_encode :: "bytes \<Rightarrow> string" where
  "agent_base64_encode [] = []"
| "agent_base64_encode (a # bs) = agent_base64_chunk (a # take 2 bs) @ agent_base64_encode (drop 2 bs)"

definition agent_websocket_accept :: "agent \<Rightarrow> string \<Rightarrow> string" where
  "agent_websocket_accept a key =
     agent_base64_encode (ring_sha1 a (as_bytes key @ as_bytes ''258EAFA5-E914-47DA-95CA-C5AB0DC85B11''))"

definition websocket_client_key :: "agent \<Rightarrow> nat \<Rightarrow> string + string" where
  "websocket_client_key a k =
     (case rnd (outside a) k of
        None \<Rightarrow> Inl ''secure random source unavailable''
      | Some bs \<Rightarrow> if length bs < 16 then Inl ''secure random source unavailable''
                   else Inr (agent_base64_encode (take 16 bs)))"

definition websocket_request_id :: "agent \<Rightarrow> nat \<Rightarrow> string" where
  "websocket_request_id a k = ''request_'' @ hex (nanos a k)"

definition upgrade_request :: "string \<Rightarrow> string \<Rightarrow> string \<Rightarrow> string \<Rightarrow> string" where
  "upgrade_request endpoint node_id token key =
     request_head ''GET'' (''/v1/agent/ws?node_id='' @ escape node_id) endpoint
       [''Upgrade: websocket'', ''Connection: Upgrade'', ''Sec-WebSocket-Key: '' @ key,
        ''Sec-WebSocket-Version: 13'', ''Authorization: Bearer '' @ token]"

text \<open>\<open>read_headers\<close>: up to the empty line; the rest of the block it came in is dropped.\<close>

fun read_head_blocks :: "bytes list \<Rightarrow> bytes \<Rightarrow> (string + string) \<times> bytes list" where
  "read_head_blocks chunks bs =
     (if 16 * 1024 < length bs then (Inl ''websocket handshake response is too large'', chunks)
      else case chunks of
        [] \<Rightarrow> (Inl ''websocket peer closed during handshake'', [])
      | c # cs \<Rightarrow>
          if c = [] then (Inl ''websocket peer closed during handshake'', cs)
          else (case window_position crlf2 (bs @ c) of
                  None \<Rightarrow> read_head_blocks cs (bs @ c)
                | Some i \<Rightarrow>
                    (case from_utf8 (take (i + 4) (bs @ c)) of
                       None \<Rightarrow> (Inl ''websocket handshake response is not UTF-8'', cs)
                     | Some s \<Rightarrow> (Inr s, cs))))"

definition ws_header_value :: "string \<Rightarrow> string \<Rightarrow> string option" where
  "ws_header_value header name =
     find_map (\<lambda>line. case split_once line CHR '':'' of
         None \<Rightarrow> None
       | Some (key, value) \<Rightarrow>
           if eq_ignore_ascii_case (str_trim key) name then Some (str_trim value) else None)
     (str_lines header)"

text \<open>The check of the response to the handshake, and the whole of it.\<close>

definition check_handshake :: "agent \<Rightarrow> string \<Rightarrow> string \<Rightarrow> string + unit" where
  "check_handshake a key response =
     (let status = response_status response in
      if status \<noteq> 101 then Inl (''websocket handshake returned HTTP '' @ dec status)
      else if ws_header_value response ''sec-websocket-accept'' \<noteq> Some (agent_websocket_accept a key)
      then Inl ''websocket handshake response has an invalid accept key''
      else Inr ())"

definition websocket_handshake ::
  "agent \<Rightarrow> nat \<Rightarrow> string \<Rightarrow> string \<Rightarrow> string \<Rightarrow> bytes list \<Rightarrow> (string + string) \<times> bytes list" where
  "websocket_handshake a k endpoint node_id token chunks =
     (case websocket_client_key a k of
        Inl err \<Rightarrow> (Inl err, chunks)
      | Inr key \<Rightarrow>
          (case read_head_blocks chunks [] of
             (Inl err, rest) \<Rightarrow> (Inl err, rest)
           | (Inr response, rest) \<Rightarrow>
               (case check_handshake a key response of
                  Inl err \<Rightarrow> (Inl err, rest)
                | Inr _ \<Rightarrow> (Inr (upgrade_request endpoint node_id token key), rest))))"


text \<open>An open channel: the bytes still to come from the control plane, the bytes written, and how often
  the random source and the clock have been asked.\<close>

record channel =
  ch_in :: bytes
  ch_out :: bytes
  ch_draws :: nat
  ch_ids :: nat

definition draw_mask :: "agent \<Rightarrow> nat \<Rightarrow> bytes option" where
  "draw_mask a k =
     (case rnd (outside a) k of None \<Rightarrow> None | Some bs \<Rightarrow> if length bs < 4 then None else Some (take 4 bs))"

definition send_frame :: "agent \<Rightarrow> u8 \<Rightarrow> bytes \<Rightarrow> channel \<Rightarrow> (string + unit) \<times> channel" where
  "send_frame a opcode payload c =
     (case client_write_frame (draw_mask a (ch_draws c)) opcode payload of
        Inl err \<Rightarrow> (Inl err, c)
      | Inr out \<Rightarrow> (Inr (), c\<lparr>ch_out := ch_out c @ out, ch_draws := ch_draws c + 1\<rparr>))"

lemma send_frame_in [simp]: "ch_in (snd (send_frame a opcode payload c)) = ch_in c"
  by (simp add: send_frame_def split: sum.split)

lemma client_read_shorter:
  "client_read_frame s = Inr (Some f, rest) \<Longrightarrow> length rest < length s"
  by (auto simp: client_read_frame_def read_exact_def read_length_def Let_def
      split: list.splits if_splits option.splits)

text \<open>The loop of \<open>websocket_request\<close> after the message is sent: pings are answered, pongs skipped.\<close>

function await_reply :: "agent \<Rightarrow> channel \<Rightarrow> (string + string) \<times> channel" where
  "await_reply a c =
     (case client_read_frame (ch_in c) of
        Inl err \<Rightarrow> (Inl err, c)
      | Inr (None, rest) \<Rightarrow> (Inl ''websocket peer closed the connection'', c\<lparr>ch_in := rest\<rparr>)
      | Inr (Some (opcode, payload), rest) \<Rightarrow>
          (let c = c\<lparr>ch_in := rest\<rparr> in
           if opcode = 1 then
             (case from_utf8 payload of
                None \<Rightarrow> (Inl ''websocket response is not UTF-8'', c) | Some s \<Rightarrow> (Inr s, c))
           else if opcode = 8 then (Inl ''websocket peer sent close'', c)
           else if opcode = 9 then
             (case send_frame a 10 payload c of
                (Inl err, c) \<Rightarrow> (Inl err, c) | (Inr _, c) \<Rightarrow> await_reply a c)
           else if opcode = 10 then await_reply a c
           else (Inl ''unsupported websocket response frame'', c)))"
  by pat_completeness auto
termination
proof (relation "measure (\<lambda>(a, c). length (ch_in c))")
  fix a c x p ro rest opcode payload d s c' u
  assume "client_read_frame (ch_in c) = Inr p" "(ro, rest) = p" "ro = Some s" "(opcode, payload) = s"
    and d: "d = c\<lparr>ch_in := rest\<rparr>" "(x, c') = send_frame a 10 payload d"
  moreover have "ch_in c' = rest" using d send_frame_in [of a 10 payload d] by (metis channel.simps(1) channel.surjective channel.update_convs(1) snd_conv)
  ultimately show "((a, c'), a, c) \<in> measure (\<lambda>(a, c). length (ch_in c))"
    using client_read_shorter [of "ch_in c"] by auto
qed (auto dest: client_read_shorter)

declare await_reply.simps [simp del]

definition websocket_request :: "agent \<Rightarrow> string \<Rightarrow> channel \<Rightarrow> (string + string) \<times> channel" where
  "websocket_request a message c =
     (case send_frame a 1 (as_bytes message) c of
        (Inl err, c) \<Rightarrow> (Inl err, c) | (Inr _, c) \<Rightarrow> await_reply a c)"

text \<open>The messages of a session. Every message with an identifier of its own asks the clock.\<close>

definition envelope_text :: "string \<Rightarrow> string \<Rightarrow> string \<Rightarrow> string list \<Rightarrow> string" where
  "envelope_text node_id request_id message_type rest =
     object_text ([[DQUOTE] @ ''protocol_version'' @ [DQUOTE] @ '':1'', member ''agent_version'' AGENT_VERSION,
       member ''node_id'' (escape node_id), member ''request_id'' request_id, member ''type'' message_type] @ rest)"

definition heartbeat_message :: "agent \<Rightarrow> string \<Rightarrow> string \<Rightarrow> string" where
  "heartbeat_message a node_id request_id =
     envelope_text node_id request_id ''heartbeat''
       [member ''abilities'' AGENT_ABILITIES_CSV, member ''platform'' (os_name (local_host a)),
        member ''architecture'' (arch_name (local_host a)), member ''version'' AGENT_VERSION]"

definition tasks_message :: "string \<Rightarrow> string \<Rightarrow> string" where
  "tasks_message node_id request_id = envelope_text node_id request_id ''tasks.request'' []"

definition result_message :: "agent \<Rightarrow> string \<Rightarrow> job \<Rightarrow> string \<times> string \<times> int \<Rightarrow> string" where
  "result_message a node_id j r =
     (case r of (st, output, code) \<Rightarrow>
       envelope_text node_id (escape (jb_request j)) ''task.result''
         [member ''task_id'' (escape (jb_task j)), member ''lease_token'' (escape (jb_lease j)),
          member ''state'' st, member ''output'' (escape output),
          member ''output_sha256'' (sha256_hex a output), member ''exit_code'' (show_int code)])"

fun channel_jobs :: "agent \<Rightarrow> session_config \<Rightarrow> string list \<Rightarrow> inode \<Rightarrow> channel \<Rightarrow> ((string + unit) \<times> inode \<times> channel) option" where
  "channel_jobs a cf [] t c = Some (Inr (), t, c)"
| "channel_jobs a cf (task # ts) t c =
     (case parse_job (parse_json (outside a)) task of
        Inl err \<Rightarrow> Some (Inl err, t, c)
      | Inr j \<Rightarrow>
          (case job_outcome a (cf_scope cf) j t of
             None \<Rightarrow> None
           | Some (r, t') \<Rightarrow>
               (case websocket_request a (result_message a (cf_node cf) j r) c of
                  (Inl err, c') \<Rightarrow> Some (Inl err, t', c')
                | (Inr _, c') \<Rightarrow> channel_jobs a cf ts t' c')))"

text \<open>One turn of the loop of \<open>websocket_session\<close>.\<close>

definition channel_turn ::
  "agent \<Rightarrow> session_config \<Rightarrow> inode \<Rightarrow> channel \<Rightarrow> ((string + unit) \<times> inode \<times> channel) option" where
  "channel_turn a cf t c =
     (case websocket_request a (heartbeat_message a (cf_node cf) (websocket_request_id a (ch_ids c))) c of
        (Inl err, c) \<Rightarrow> Some (Inl err, t, c)
      | (Inr response, c) \<Rightarrow>
     (case validate_heartbeat_ack (parse_json (outside a)) response of
        Inl err \<Rightarrow> Some (Inl err, t, c)
      | Inr _ \<Rightarrow>
     (case websocket_request a (tasks_message (cf_node cf) (websocket_request_id a (ch_ids c + 1))) c of
        (Inl err, c) \<Rightarrow> Some (Inl err, t, c)
      | (Inr tasks_response, c) \<Rightarrow>
     (case json_payload a tasks_response of
        None \<Rightarrow> Some (Inl ''websocket tasks response is missing payload'', t, c)
      | Some queued \<Rightarrow> channel_jobs a cf (json_objects a queued) t (c\<lparr>ch_ids := ch_ids c + 2\<rparr>)))))"

text \<open>How \<open>connect_websocket\<close> goes on when a session ends: what it waits, and the next backoff.\<close>

definition after_session :: "string + unit \<Rightarrow> u64 \<Rightarrow> u64 \<times> u64" where
  "after_session r backoff = (case r of Inr _ \<Rightarrow> (1000, 1000) | Inl _ \<Rightarrow> (backoff, double_backoff backoff))"

section \<open>Enrolment\<close>

text \<open>Files as mode and contents. What may fail while a credential is stored, the mode new files get,
  and whether permissions can be changed.\<close>

type_synonym secret_files = "string \<Rightarrow> (nat \<times> string) option"

record token_os =
  tk_dir_error :: "string option"
  tk_create_error :: "string option"
  tk_write_error :: "(nat \<times> string) option"
  tk_rename_error :: "string option"
  tk_create_mode :: nat
  tk_chmod_works :: bool

definition file_stem :: "string \<Rightarrow> string" where
  "file_stem n = (case rsplit_once n CHR ''.'' of None \<Rightarrow> n | Some (before, _) \<Rightarrow> if before = [] then n else before)"

text \<open>\<open>path.with_extension(format!("tmp.{pid}"))\<close>, up to repeated separators.\<close>

definition token_temporary :: "string \<Rightarrow> u32 \<Rightarrow> string" where
  "token_temporary path process =
     (case file_name path of
        None \<Rightarrow> path
      | Some n \<Rightarrow>
          path_join (case path_parent path of None \<Rightarrow> [] | Some p \<Rightarrow> p) (file_stem n @ ''.tmp.'' @ dec (unat process)))"

definition restrict_file :: "token_os \<Rightarrow> string \<Rightarrow> secret_files \<Rightarrow> secret_files" where
  "restrict_file os path fs =
     (case fs path of
        Some (m, c) \<Rightarrow> if tk_chmod_works os then fs(path \<mapsto> (384, c)) else fs
      | None \<Rightarrow> fs)"

text \<open>\<open>write_token_file\<close>: its result and every state of the files on the way, the last one first.\<close>

definition write_token_file ::
  "token_os \<Rightarrow> u32 \<Rightarrow> string \<Rightarrow> string \<Rightarrow> secret_files \<Rightarrow> (string + unit) \<times> secret_files list" where
  "write_token_file os process path credential fs =
     (let tmp = token_temporary path process in
      if credential = [] \<or> list_ex is_ascii_whitespace credential
      then (Inl ''enrollment returned an invalid credential'', [fs])
      else if fs path \<noteq> None then (Inl (''refusing to overwrite existing token file '' @ path), [fs])
      else if path_parent path \<noteq> None \<and> tk_dir_error os \<noteq> None
      then (Inl (''cannot create token directory: '' @ the (tk_dir_error os)), [fs])
      else if fs tmp \<noteq> None then (Inl ''cannot create token file: File exists (os error 17)'', [fs])
      else case tk_create_error os of
        Some err \<Rightarrow> (Inl (''cannot create token file: '' @ err), [fs])
      | None \<Rightarrow>
     (let created = fs(tmp \<mapsto> (tk_create_mode os, []));
          restricted = restrict_file os tmp created;
          fill = (\<lambda>c. restricted(tmp \<mapsto> (fst (the (restricted tmp)), c)))
      in case tk_write_error os of
        Some (n, err) \<Rightarrow>
          (Inl (''cannot write token file: '' @ err), [fill (take n (credential @ [NL])), restricted, created, fs])
      | None \<Rightarrow>
     (let written = fill (credential @ [NL])
      in case tk_rename_error os of
        Some err \<Rightarrow> (Inl (''cannot install token file: '' @ err), [written, restricted, created, fs])
      | None \<Rightarrow>
     (let installed = (written(tmp := None))(path := written tmp)
      in (Inr (), [restrict_file os path installed, installed, written, restricted, created, fs])))))"

definition redeem_body :: "agent \<Rightarrow> string \<Rightarrow> string \<Rightarrow> string \<Rightarrow> string \<Rightarrow> string \<Rightarrow> string" where
  "redeem_body a grant_code grant_signature node_id name labels =
     object_text [member ''grant_code'' (escape grant_code), member ''grant_signature'' (escape grant_signature),
       member ''node_id'' (escape node_id), member ''name'' (escape name), member ''labels'' (escape labels),
       member ''platform'' (os_name (local_host a)), member ''architecture'' (arch_name (local_host a)),
       member ''version'' AGENT_VERSION]"

definition enroll ::
  "agent \<Rightarrow> network \<Rightarrow> token_os \<Rightarrow> string list \<Rightarrow> secret_files \<Rightarrow> (string + string) \<times> secret_files list" where
  "enroll a net os args fs =
     (let e = outside a; stop = (\<lambda>err. (Inl err, [fs])) in
      case arg_option args ''--endpoint'' of None \<Rightarrow> stop ''--endpoint is required'' | Some endpoint \<Rightarrow>
     (case arg_option args ''--node-id'' of None \<Rightarrow> stop ''--node-id is required'' | Some node_id \<Rightarrow>
     (case NodeId_new node_id of Inl _ \<Rightarrow> stop ''invalid node id'' | Inr _ \<Rightarrow>
     (case arg_option args ''--grant-code'' of None \<Rightarrow> stop ''--grant-code is required'' | Some grant_code \<Rightarrow>
     (case arg_option args ''--grant-signature'' of None \<Rightarrow> stop ''--grant-signature is required'' | Some grant_signature \<Rightarrow>
     (case option_or_var e args ''--token-file'' ''NODEWE_NODE_TOKEN_FILE'' of
        None \<Rightarrow> stop ''--token-file or NODEWE_NODE_TOKEN_FILE is required'' | Some token_file \<Rightarrow>
     (let name = or_else (arg_option args ''--name'') node_id; labels = or_else (arg_option args ''--labels'') [] in
      if \<not> agent_valid_labels labels then stop ''labels contain an unsafe or oversized value''
      else case load_tls_options a args endpoint of Inl err \<Rightarrow> stop err | Inr tls \<Rightarrow>
     (case ensure_endpoint_safe e endpoint (tls \<noteq> None) of Inl err \<Rightarrow> stop err | Inr _ \<Rightarrow>
     (case exchange net 0 (post_request_unauthenticated endpoint ''/v1/grants/redeem''
             (redeem_body a grant_code grant_signature node_id name labels)) of
        Inl err \<Rightarrow> stop err
      | Inr response \<Rightarrow>
     (case json_value (parse_json e) response ''credential'' of
        None \<Rightarrow> stop ''enrollment response did not include credential''
      | Some credential \<Rightarrow>
     (case write_token_file os (pid e) token_file credential fs of
        (Inl err, states) \<Rightarrow> (Inl err, states)
      | (Inr _, states) \<Rightarrow>
          (Inr ([CHR 0x7B] @ member ''node_id'' (escape node_id) @ '','' @ [DQUOTE] @ ''enrolled'' @ [DQUOTE] @ '':true,''
                @ member ''token_file'' (escape token_file) @ [CHR 0x7D]), states))))))))))))"

text \<open>The choice \<open>main\<close> makes on its arguments.\<close>

datatype agent_command = Show_version | Show_help | Enroll | Connect | Run

definition agent_command_of :: "string list \<Rightarrow> agent_command" where
  "agent_command_of args =
     (if args = [''--version''] then Show_version
      else if args = [] \<or> hd args = ''--help'' then Show_help
      else if hd args = ''enroll'' then Enroll
      else if hd args = ''connect'' then Connect else Run)"

end
