(* ===== verification/Agent_Session.thy ===== *)
theory Agent_Session
  imports Agent_Client Policy_Config
begin

text \<open>
  Sessions of the agent: what has to hold before it talks to a control plane, what one turn of the
  polling loop does to the disk and reports, how the backoff grows, and how the credential of an
  enrolment reaches its file.
\<close>

section \<open>Setting up\<close>

text \<open>An endpoint on this machine.\<close>

definition loopback :: "string \<Rightarrow> bool" where
  "loopback endpoint \<longleftrightarrow>
     (case rsplit_once endpoint CHR '':'' of None \<Rightarrow> endpoint | Some (host, _) \<Rightarrow> host)
     \<in> {''127.0.0.1'', ''localhost'', ''::1'', ''[::1]''}"

lemma header_token_ok: "header_token token = Inr t \<Longrightarrow> t = token \<and> CR \<notin> set t \<and> NL \<notin> set t"
  by (auto simp: header_token_def validate_header_value_def split: if_splits)

lemma loaded_token:
  assumes "load_node_token e args = Inr token"
  shows "token \<noteq> [] \<and> CR \<notin> set token \<and> NL \<notin> set token"
  using assms unfolding load_node_token_def
  by (auto split: option.splits sum.splits if_splits dest!: header_token_ok)

lemma tls_complete:
  assumes "load_tls_options a args endpoint = Inr (Some name)"
  shows "option_or_var (outside a) args ''--tls-ca'' ''NODEWE_TLS_CA'' \<noteq> None
    \<and> option_or_var (outside a) args ''--tls-cert'' ''NODEWE_TLS_CERT'' \<noteq> None
    \<and> option_or_var (outside a) args ''--tls-key'' ''NODEWE_TLS_KEY'' \<noteq> None"
  using assms by (auto simp: load_tls_options_def Let_def split: if_splits option.splits sum.splits)

text \<open>C27: Before the agent says anything. A session that is set up has a non-empty token without line
  ends, so it cannot inject header lines, and its endpoint is on this machine, or reached over TLS
  with all three certificate files named, or plain transport was explicitly allowed.\<close>

theorem session_setup_safe:
  assumes "session_setup a args = Inr (cf, interval)"
  shows "cf_token cf \<noteq> [] \<and> CR \<notin> set (cf_token cf) \<and> NL \<notin> set (cf_token cf)
    \<and> (loopback (cf_endpoint cf) \<or> env_var (outside a) ''NODEWE_ALLOW_INSECURE_HTTP'' = Some ''1''
      \<or> (option_or_var (outside a) args ''--tls-ca'' ''NODEWE_TLS_CA'' \<noteq> None
        \<and> option_or_var (outside a) args ''--tls-cert'' ''NODEWE_TLS_CERT'' \<noteq> None
        \<and> option_or_var (outside a) args ''--tls-key'' ''NODEWE_TLS_KEY'' \<noteq> None))"
proof -
  obtain tls where t: "load_node_token (outside a) args = Inr (cf_token cf)"
      "load_tls_options a args (cf_endpoint cf) = Inr tls"
      "ensure_endpoint_safe (outside a) (cf_endpoint cf) (tls \<noteq> None) = Inr ()"
    using assms unfolding session_setup_def Let_def by (auto split: option.splits sum.splits)
  have "loopback (cf_endpoint cf) \<or> env_var (outside a) ''NODEWE_ALLOW_INSECURE_HTTP'' = Some ''1'' \<or> tls \<noteq> None"
    using t(3) unfolding ensure_endpoint_safe_def Let_def loopback_def by (auto split: if_splits)
  then show ?thesis using loaded_token [OF t(1)] tls_complete [of a args] t(2) by (cases tls) auto
qed

section \<open>Turns\<close>

lemma outcome_same:
  assumes "canonicalizing (fsys (local_host a))" and "open_directory (local_host a) t ''/'' = Inr []"
    and "Scope_new (fsys (local_host a)) scope_path = Inr sc" and "\<exists>d. inode_at t (address (root sc)) = Some (Directory d)"
    and "job_outcome a scope_path j t = Some (r, t')"
  shows "same_beside (address (root sc)) t t'"
  using assms(5) task_beside [OF assms(1-4)] by (auto simp: job_outcome_def)

lemma outcome_blocks:
  assumes "sleeping (local_host a)" and "job_outcome a scope_path j t = None"
  shows "may_block (local_host a) t (jb_ability j)"
  using assms task_blocks by (auto simp: job_outcome_def)

lemma outcome_special: "job_outcome a scope_path j t = Some (r, t') \<Longrightarrow> special_at t' b \<Longrightarrow> special_at t b"
  using task_special by (fastforce simp: job_outcome_def)

lemma may_block_before:
  "(\<And>b. special_at t' b \<Longrightarrow> special_at t b) \<Longrightarrow> may_block h t' ability \<Longrightarrow> may_block h t ability"
  by (auto simp: may_block_def)

text \<open>The jobs that a list of task texts stands for, up to the first that is not one.\<close>

fun readable_jobs :: "json_parser \<Rightarrow> string list \<Rightarrow> job list" where
  "readable_jobs pj [] = []"
| "readable_jobs pj (x # xs) = (case parse_job pj x of Inl _ \<Rightarrow> [] | Inr j \<Rightarrow> j # readable_jobs pj xs)"

text \<open>One report per job, in order: \<open>disks ! i\<close> is the disk before the \<open>i\<close>-th job, and the \<open>i\<close>-th request
  reports the outcome of running that very job there.\<close>

definition job_by_job :: "agent \<Rightarrow> session_config \<Rightarrow> job list \<Rightarrow> inode list \<Rightarrow> string list \<Rightarrow> bool" where
  "job_by_job a cf js disks sent \<longleftrightarrow> length disks = Suc (length js) \<and> length sent = length js
     \<and> (\<forall>i < length js. \<exists>r. job_outcome a (cf_scope cf) (js ! i) (disks ! i) = Some (r, disks ! Suc i)
          \<and> sent ! i = result_request a cf (js ! i) r)"

lemma job_by_job_step:
  assumes "job_outcome a (cf_scope cf) j t = Some (r, hd disks)" and "job_by_job a cf js disks sent"
  shows "job_by_job a cf (j # js) (t # disks) (result_request a cf j r # sent)"
proof -
  have "disks ! 0 = hd disks" using assms(2) by (cases disks) (auto simp: job_by_job_def)
  then show ?thesis
    using assms unfolding job_by_job_def by (auto simp: less_Suc_eq_0_disj simp del: split_paired_Ex)
qed

lemma poll_jobs_in_order:
  assumes "poll_jobs a cf xs t = Some (r, t', sent)"
  shows "\<exists>disks. job_by_job a cf (readable_jobs (parse_json (outside a)) xs) disks sent \<and> hd disks = t \<and> last disks = t'
    \<and> (r = Inr () \<longleftrightarrow> length (readable_jobs (parse_json (outside a)) xs) = length xs)"
  using assms
proof (induction xs arbitrary: t sent)
  case Nil
  then show ?case by (intro exI [of _ "[t]"]) (auto simp: job_by_job_def)
next
  case (Cons x xs)
  show ?case
  proof (cases "parse_job (parse_json (outside a)) x")
    case (Inl err)
    then show ?thesis using Cons.prems by (intro exI [of _ "[t]"]) (auto simp: job_by_job_def)
  next
    case (Inr j)
    then obtain q u rest where u: "job_outcome a (cf_scope cf) j t = Some (q, u)"
        "poll_jobs a cf xs u = Some (r, t', rest)" "sent = result_request a cf j q # rest"
      using Cons.prems by (auto split: option.splits)
    obtain disks where d: "job_by_job a cf (readable_jobs (parse_json (outside a)) xs) disks rest" "hd disks = u"
        "last disks = t'" "r = Inr () \<longleftrightarrow> length (readable_jobs (parse_json (outside a)) xs) = length xs"
      using Cons.IH [OF u(2)] by blast
    then have "disks \<noteq> []" by (auto simp: job_by_job_def)
    then show ?thesis
      using job_by_job_step [of a cf j t q disks] u d Inr by (intro exI [of _ "t # disks"]) auto
  qed
qed

lemma poll_jobs_beside:
  assumes "canonicalizing (fsys (local_host a))" and "\<forall>t. open_directory (local_host a) t ''/'' = Inr []"
    and "Scope_new (fsys (local_host a)) (cf_scope cf) = Inr sc"
    and "\<exists>d. inode_at t (address (root sc)) = Some (Directory d)"
    and "poll_jobs a cf xs t = Some (r, t', sent)"
  shows "same_beside (address (root sc)) t t'"
  using assms(4,5)
proof (induction xs arbitrary: t sent)
  case (Cons x xs)
  show ?case
  proof (cases "parse_job (parse_json (outside a)) x")
    case (Inr j)
    then obtain q u rest where u: "job_outcome a (cf_scope cf) j t = Some (q, u)"
        "poll_jobs a cf xs u = Some (r, t', rest)"
      using Cons.prems by (auto split: option.splits)
    have s: "same_beside (address (root sc)) t u"
      using outcome_same [OF assms(1) _ assms(3) Cons.prems(1) u(1)] assms(2) by blast
    then have "\<exists>d. inode_at u (address (root sc)) = Some (Directory d)"
      using Cons.prems by (simp add: same_beside_def)
    from same_beside_trans [OF s Cons.IH [OF this u(2)]] show ?thesis .
  qed (use Cons.prems in auto)
qed simp

lemma poll_jobs_block:
  assumes "sleeping (local_host a)" and "poll_jobs a cf xs t = None"
  shows "\<exists>j \<in> set (readable_jobs (parse_json (outside a)) xs). may_block (local_host a) t (jb_ability j)"
  using assms(2)
proof (induction xs arbitrary: t)
  case (Cons x xs)
  obtain j where j: "parse_job (parse_json (outside a)) x = Inr j"
    using Cons.prems by (auto split: sum.splits)
  show ?case
  proof (cases "job_outcome a (cf_scope cf) j t")
    case None
    then show ?thesis using j outcome_blocks [OF assms(1)] by auto
  next
    case (Some q)
    obtain r u where q: "q = (r, u)" by fastforce
    then have "poll_jobs a cf xs u = None" using Cons.prems j Some by simp
    then show ?thesis
      using Cons.IH j may_block_before outcome_special Some q by (metis list.set_intros(2) readable_jobs.simps(2) sum.simps(6))
  qed
qed simp

text \<open>C28: One turn of the polling loop. Under the documented behaviour of the operating system: a turn
  ends, whatever the control plane answers, unless it was handed a task on files that a special file
  of the disk blocks (\<open>may_block\<close>, as in C25). When it ends, the disk has changed only below the
  scope, and the requests written are known exactly. The heartbeat comes first. If it fails, the
  agent waits for the backoff it was given and doubles it; if it is not acknowledged with the protocol
  version and all abilities, the agent stops; neither polls. Then comes the poll; if it fails, the
  agent waits a second. In all these cases no job runs and the disk is what it was. Otherwise the jobs
  the control plane sent run one after the other, each on the disk the last one left, and each is
  reported by one request that holds the outcome of running that very job; a task that cannot be read
  ends the turn and the agent, and only then are the tasks after it left out.\<close>

theorem poll_turn_contract:
  assumes "sleeping (local_host a)" and "canonicalizing (fsys (local_host a))"
    and "\<forall>t. open_directory (local_host a) t ''/'' = Inr []"
    and "Scope_new (fsys (local_host a)) (cf_scope cf) = Inr sc"
    and "\<exists>d. inode_at t (address (root sc)) = Some (Directory d)"
    and "beat = exchange net 0 (post_request (cf_endpoint cf) ''/v1/agent/heartbeat'' (heartbeat_body a (cf_node cf)) (cf_token cf))"
    and "poll = exchange net 1 (get_request (cf_endpoint cf) (''/v1/agent/tasks?node_id='' @ escape (cf_node cf)) (cf_token cf))"
    and "acknowledged \<longleftrightarrow> (\<exists>response. beat = Inr response \<and> validate_heartbeat_ack (parse_json (outside a)) response = Inr ())"
  shows "case poll_turn a cf net backoff t of
      None \<Rightarrow> acknowledged \<and> (\<exists>queued. poll = Inr queued \<and>
        (\<exists>j \<in> set (readable_jobs (parse_json (outside a)) (json_objects a queued)). may_block (local_host a) t (jb_ability j)))
    | Some (r, t', sent) \<Rightarrow>
        (\<forall>b. \<not> prefix (address (root sc)) b \<longrightarrow> \<not> prefix b (address (root sc)) \<longrightarrow> inode_at t' b = inode_at t b)
        \<and> (\<exists>rest. sent = post_request (cf_endpoint cf) ''/v1/agent/heartbeat'' (heartbeat_body a (cf_node cf)) (cf_token cf) # rest
          \<and> (if \<not> acknowledged
             then rest = [] \<and> t' = t
               \<and> (if \<exists>err. beat = Inl err then r = Retry backoff (double_backoff backoff) else \<exists>err. r = Stopped err)
             else (\<exists>reports. rest = get_request (cf_endpoint cf) (''/v1/agent/tasks?node_id='' @ escape (cf_node cf)) (cf_token cf) # reports
               \<and> (case poll of
                    Inl err \<Rightarrow> reports = [] \<and> t' = t \<and> r = Retry 1000 2000
                  | Inr queued \<Rightarrow>
                      (\<exists>disks. job_by_job a cf (readable_jobs (parse_json (outside a)) (json_objects a queued)) disks reports
                         \<and> hd disks = t \<and> last disks = t')
                      \<and> (if length (readable_jobs (parse_json (outside a)) (json_objects a queued)) = length (json_objects a queued)
                         then r = Polled else \<exists>err. r = Stopped err)))))"
proof (cases "acknowledged \<and> (\<exists>queued. poll = Inr queued)")
  case False
  have "double_backoff 1000 = 2000" by (simp add: double_backoff_def)
  then show ?thesis
    using False assms(6-8) by (auto simp: poll_turn_def Let_def split: sum.splits)
next
  case True
  then obtain response queued where q: "beat = Inr response" "poll = Inr queued"
      "validate_heartbeat_ack (parse_json (outside a)) response = Inr ()" and ack: "acknowledged" using assms(8) by blast
  note e = q(1) [unfolded assms(6)] q(2) [unfolded assms(7)]
  show ?thesis
  proof (cases "poll_jobs a cf (json_objects a queued) t")
    case None
    then have "poll_turn a cf net backoff t = None" using e q(3) by (simp add: poll_turn_def)
    then show ?thesis using ack q(2) poll_jobs_block [OF assms(1) None] by simp
  next
    case (Some z)
    then obtain r t' sent where r: "poll_jobs a cf (json_objects a queued) t = Some (r, t', sent)"
      by (cases z) auto
    have "poll_turn a cf net backoff t = Some (case r of Inl err \<Rightarrow> Stopped err | Inr _ \<Rightarrow> Polled, t',
        post_request (cf_endpoint cf) ''/v1/agent/heartbeat'' (heartbeat_body a (cf_node cf)) (cf_token cf)
        # get_request (cf_endpoint cf) (''/v1/agent/tasks?node_id='' @ escape (cf_node cf)) (cf_token cf) # sent)"
      using e q(3) r by (simp add: poll_turn_def)
    then show ?thesis
      using ack q(2) poll_jobs_in_order [OF r] poll_jobs_beside [OF assms(2-5) r]
      by (cases r) (auto simp: same_beside_def)
  qed
qed

section \<open>Backoff\<close>

text \<open>Waiting after \<open>n\<close> failures in a row.\<close>

fun backoff_after :: "nat \<Rightarrow> u64" where
  "backoff_after 0 = 1000"
| "backoff_after (Suc n) = double_backoff (backoff_after n)"

lemma double_backoff_value: "unat b \<le> 30000 \<Longrightarrow> unat (double_backoff b) = min (2 * unat b) 30000"
proof -
  assume b: "unat b \<le> 30000"
  then have "unat (b * 2) = 2 * unat b" by (subst unat_mult_lem [THEN iffD1]) auto
  then show ?thesis using b by (auto simp: double_backoff_def min_def word_le_nat_alt)
qed

text \<open>The backoff doubles from one second and is capped at thirty: after \<open>n\<close> failures in a row the
  agent waits the smaller of a second times two to the \<open>n\<close> and thirty seconds, without overflow.\<close>

theorem backoff_capped: "unat (backoff_after n) = min (1000 * 2 ^ n) 30000"
proof (induction n)
  case (Suc n)
  then have "unat (double_backoff (backoff_after n)) = min (2 * unat (backoff_after n)) 30000"
    by (intro double_backoff_value) simp
  then show ?case using Suc by (simp add: min_def)
qed simp

section \<open>Credentials\<close>

lemma restrict_other: "p \<noteq> q \<Longrightarrow> restrict_file os q fs p = fs p"
  by (simp add: restrict_file_def split: option.split)

text \<open>The states of the files that \<open>write_token_file\<close> goes through.\<close>

lemma write_token_states:
  assumes "tk_chmod_works os" and "write_token_file os process path credential fs = (r, states)"
    and "token_temporary path process \<noteq> path"
  shows "states = [fs] \<and> r \<noteq> Inr ()
    \<or> fs path = None \<and> fs (token_temporary path process) = None
      \<and> (\<forall>fs' \<in> set states. fs' = fs \<or> (\<exists>m. fs' = fs(token_temporary path process \<mapsto> (m, [])))
          \<or> (\<exists>n. fs' = fs(token_temporary path process \<mapsto> (384, take n (credential @ [NL]))))
          \<or> r = Inr () \<and> fs' = fs(path \<mapsto> (384, credential @ [NL])))
      \<and> (r = Inr () \<longrightarrow> hd states = fs(path \<mapsto> (384, credential @ [NL])))"
proof -
  let ?t = "token_temporary path process"
  show ?thesis
  proof (cases "fs path = None \<and> fs ?t = None")
    case False
    then show ?thesis using assms(2) by (auto simp: write_token_file_def Let_def split: if_splits)
  next
    case True
    have u: "fs(?t := None) = fs" using True by (simp add: fun_upd_idem)
    have r: "restrict_file os ?t (fs(?t \<mapsto> (m, []))) = fs(?t \<mapsto> (384, []))" for m
      using assms(1) by (simp add: restrict_file_def)
    have i: "restrict_file os path ((fs(?t := None))(path \<mapsto> (384, c))) = fs(path \<mapsto> (384, c))" for c
      using assms(1) u by (simp add: restrict_file_def)
    consider "states = [fs]" "r \<noteq> Inr ()"
      | n where "states = [fs(?t \<mapsto> (384, take n (credential @ [NL]))), fs(?t \<mapsto> (384, [])), fs(?t \<mapsto> (tk_create_mode os, [])), fs]" "r \<noteq> Inr ()"
      | "states = [fs(?t \<mapsto> (384, credential @ [NL])), fs(?t \<mapsto> (384, [])), fs(?t \<mapsto> (tk_create_mode os, [])), fs]" "r \<noteq> Inr ()"
      | "states = [fs(path \<mapsto> (384, credential @ [NL])), fs(path \<mapsto> (384, credential @ [NL])), fs(?t \<mapsto> (384, credential @ [NL])),
           fs(?t \<mapsto> (384, [])), fs(?t \<mapsto> (tk_create_mode os, [])), fs]" "r = Inr ()"
      using assms(2,3) True i [of "credential @ [NL]"] u
      by (auto simp: write_token_file_def Let_def r split: if_splits option.splits)
    moreover have "\<exists>n. fs(?t \<mapsto> (384, credential @ [NL])) = fs(?t \<mapsto> (384, take n (credential @ [NL])))"
      by (intro exI [of _ "length (credential @ [NL])"]) simp
    ultimately show ?thesis using True by cases auto
  qed
qed

text \<open>C29: The credential of an enrolment is never readable by others and appears whole or not at all. If
  permissions can be changed, then in every state the files go through while \<open>write_token_file\<close> runs,
  wherever it fails: the token file is what it was before (absent, if the command gets anywhere) or,
  in a run that succeeds, the whole credential in a line of its own with mode 0600; no other file but
  the temporary one beside it changes; that one is only made when it was absent, and is empty or has
  mode 0600 and holds a prefix of that line. After success the token file is there and the temporary
  one gone. Another process that creates the token file between the look for it and the rename is not
  modelled.\<close>

theorem token_file_private:
  assumes "tk_chmod_works os" and "write_token_file os process path credential fs = (r, states)"
    and "token_temporary path process \<noteq> path"
  shows "(\<forall>fs' \<in> set states. fs' path = fs path \<or> r = Inr () \<and> fs path = None \<and> fs' path = Some (384, credential @ [NL]))
    \<and> (\<forall>fs' \<in> set states. \<forall>p. p \<noteq> path \<longrightarrow> p \<noteq> token_temporary path process \<longrightarrow> fs' p = fs p)
    \<and> (\<forall>fs' \<in> set states. \<forall>p m c. fs' p = Some (m, c) \<longrightarrow> fs p \<noteq> Some (m, c) \<longrightarrow>
          fs p = None \<and> prefix c (credential @ [NL]) \<and> (c = [] \<or> m = 384))
    \<and> (r = Inr () \<longrightarrow> hd states = fs(path \<mapsto> (384, credential @ [NL])))"
proof -
  have "prefix (take n (credential @ [NL])) (credential @ [NL])" for n by (rule take_is_prefix)
  then show ?thesis
    using write_token_states [OF assms] assms(3)
    by (elim disjE conjE) (auto split: if_splits simp del: take_append prefix_snoc)
qed

lemma token_read_back:
  assumes "environ e ''NODEWE_NODE_TOKEN_FILE'' = Some path" and "arg_option args ''--token'' = None"
    and "env_var e ''NODEWE_NODE_TOKEN'' = None" and "file_mode e path = Inr 384"
    and "read_file e path = Inr (credential @ [NL])" and "str_trim (credential @ [NL]) = credential"
    and "credential \<noteq> []" and "CR \<notin> set credential" and "NL \<notin> set credential"
  shows "load_node_token e args = Inr credential"
proof -
  have "(384 :: nat) AND 511 = 384" by (simp flip: take_bit_eq_mask add: mask_eq_exp_minus_1)
  then show ?thesis using assms by (simp add: load_node_token_def header_token_def validate_header_value_def)
qed

section \<open>The empty line after a head\<close>

text \<open>The empty line is found where it is.\<close>

lemma window_skip:
  "CR \<notin> set l \<Longrightarrow> window_position (CR # w) (l @ r) = map_option ((+) (length l)) (window_position (CR # w) r)"
proof (induction l)
  case (Cons a l)
  then show ?case by (cases "window_position (CR # w) r") auto
qed (cases "window_position (CR # w) r"; simp)

lemma window_none: "CR \<notin> set l \<Longrightarrow> window_position (CR # w) l = None"
  using window_skip [of l w "[]"] by simp

lemma crlf2_bytes: "crlf2 = as_bytes [CR, NL, CR, NL]" "of_bytes crlf2 = [CR, NL, CR, NL]"
proof -
  show a: "crlf2 = as_bytes [CR, NL, CR, NL]" by (simp add: crlf2_def as_bytes_def byte_def)
  show "of_bytes crlf2 = [CR, NL, CR, NL]" unfolding a by simp
qed

section \<open>Samples\<close>

definition sample_agent :: "(json \<Rightarrow> string) \<Rightarrow> json_parser \<Rightarrow> agent" where
  "sample_agent print pj = \<lparr>outside = sample_env (\<lambda>_. None) (\<lambda>_. Inl []) pj, local_host = sample_host,
     json_text = print, ring_sha1 = (\<lambda>_. []), ring_sha256 = sha256, nanos = (\<lambda>k. k),
     tls_client = (\<lambda>_ _ _ _. Inr ())\<rparr>"

definition sample_config :: session_config where
  "sample_config = \<lparr>cf_endpoint = ''127.0.0.1:8787'', cf_node = ''n1'', cf_token = ''t0'', cf_scope = ''/srv/lab''\<rparr>"

definition sample_job :: job where
  "sample_job = \<lparr>jb_task = ''t1'', jb_request = ''r1'', jb_lease = ''l1'', jb_timeout = 1000, jb_limit = MAX_OUTPUT,
     jb_ability = ''file.read'', jb_program = ''in.txt'', jb_argument = []\<rparr>"


lemma sample_setup:
  "session_setup (sample_agent p pj) [''connect'', ''--endpoint'', ''127.0.0.1:8787'', ''--node-id'', ''n1'', ''--token'', ''t0'',
     ''--scope'', ''/srv/lab''] = Inr (sample_config, 10000)"
  by (simp add: session_setup_def load_node_token_def header_token_def validate_header_value_def load_tls_options_def
      option_or_var_def sample_agent_def sample_env_def env_var_def ensure_endpoint_safe_def rsplit_once_def
      split_once_def or_else_def sample_config_def Let_def)

theorem session_setup_safe_witness:
  "cf_token sample_config \<noteq> [] \<and> loopback (cf_endpoint sample_config)"
  using session_setup_safe [OF sample_setup [of "\<lambda>_. []" "\<lambda>_. None"]]
  by (simp add: sample_agent_def sample_env_def env_var_def option_or_var_def)

text \<open>A control plane that acknowledges the heartbeat and hands out one task, which reads \<open>in.txt\<close>.\<close>

definition job_parser :: json_parser where
  "job_parser s =
     (if s = ''ack'' then Some (JObject [(''protocol_version'', JU64 1),
        (''negotiated_abilities'', JArray (map JString AGENT_ABILITIES))])
      else if s = ''queue'' then Some (JArray [JObject []])
      else if s = ''task'' then Some (JObject [(''task_id'', JString ''t1''), (''lease_token'', JString ''l1''),
        (''program'', JString ''in.txt''), (''ability'', JString ''file.read''), (''output_limit'', JU64 20)])
      else None)"

definition job_response :: "string \<Rightarrow> string" where
  "job_response body = ''HTTP/1.1 200 OK'' @ [CR, NL, CR, NL] @ body"

definition job_network :: network where
  "job_network k request = Inr [as_bytes (job_response (if k = 0 then ''ack'' else ''queue''))]"

definition job_agent :: agent where
  "job_agent = sample_agent (\<lambda>_. ''task'') job_parser"

definition read_job :: job where
  "read_job = \<lparr>jb_task = ''t1'', jb_request = ''t1'', jb_lease = ''l1'', jb_timeout = 30000, jb_limit = 20,
     jb_ability = ''file.read'', jb_program = ''in.txt'', jb_argument = []\<rparr>"

lemma job_response_ok:
  assumes "body = ''ack'' \<or> body = ''queue''"
  shows "read_response [as_bytes (job_response body)] = Inr (job_response body)"
    and "response_status (job_response body) = 200" and "after_head (job_response body) = body"
proof -
  have "valid_utf8 (job_response body)"
    using assms by (intro valid_utf8_ascii) (auto simp: job_response_def byte_def)
  moreover have "as_bytes (job_response body) \<noteq> []" "length (job_response body) \<le> MAX_HTTP_RESPONSE_BYTES"
    using assms by (auto simp: job_response_def as_bytes_def MAX_HTTP_RESPONSE_BYTES_def)
  ultimately show "read_response [as_bytes (job_response body)] = Inr (job_response body)"
    by (simp add: read_response_def from_utf8_def)
  have l: "str_lines (job_response body) = [''HTTP/1.1 200 OK'', [], body]"
  proof -
    have b: "NL \<notin> set body" "body \<noteq> []" using assms by auto
    have e: "str_lines body = [body]" using b by (simp add: str_lines_def str_split_none)
    have "str_lines ((''HTTP/1.1 200 OK'' @ [CR]) @ NL # ([CR] @ NL # body)) = [''HTTP/1.1 200 OK'', [], body]"
      by (subst str_lines_terminated, simp, subst str_lines_terminated, simp) (simp add: e chop_cr_def)
    then show ?thesis by (simp add: job_response_def)
  qed
  have "split_whitespace ''HTTP/1.1 200 OK'' = [''HTTP/1.1'', ''200'', ''OK'']"
    by (simp add: split_whitespace_def utf8_width_def is_whitespace_def ascii_simps Let_def)
  then show "response_status (job_response body) = 200"
    by (simp add: response_status_def l parse_u16_def parse_uint_def digit_of_def ascii_simps Let_def)
  show "after_head (job_response body) = body"
  proof -
    have "CR \<notin> set ''HTTP/1.1 200 OK''" "CR \<notin> set body" using assms by auto
    then show ?thesis
      by (simp add: after_head_def second_piece_def job_response_def crlf2_bytes(2) window_none
          window_skip [of "''HTTP/1.1 200 OK''" "[NL, CR, NL]" "[CR, NL, CR, NL] @ body", simplified])
  qed
qed

lemma job_exchange: "exchange job_network k request = Inr (if k = 0 then ''ack'' else ''queue'')"
  by (simp add: exchange_def job_network_def response_body_def job_response_ok)

lemma special_eval:
  "special_at (Directory d) ns = (case ns of [] \<Rightarrow> False | n # ms \<Rightarrow> (case d n of None \<Rightarrow> False | Some c \<Rightarrow> special_at c ms))"
  "special_at (Regular c) ns = False"
  by (cases ns; auto simp: special_at_def split: option.split)+

lemma job_ack: "validate_heartbeat_ack (parse_json (outside job_agent)) ''ack'' = Inr ()"
  by (simp add: validate_heartbeat_ack_def job_agent_def sample_agent_def sample_env_def job_parser_def ack_body_def
      get_member_def map_filter_simps list_ex_iff comp_def map_filter_def)

lemma job_tasks: "readable_jobs (parse_json (outside job_agent)) (json_objects job_agent ''queue'') = [read_job]"
  "length (json_objects job_agent ''queue'') = 1"
  by (simp_all add: json_objects_def job_agent_def sample_agent_def sample_env_def job_parser_def parse_job_def
      json_value_def agent_json_number_def json_member_def or_else_def read_job_def MAX_OUTPUT_def)

lemma job_report: "job_outcome job_agent ''/srv/lab'' read_job sample_disk
   = Some ((''succeeded'', ''[REDACTED]'' @ [NL] @ ''ok'', 0), sample_disk)"
  using sample_read by (simp add: job_outcome_def job_agent_def sample_agent_def read_job_def execute_task_with_limit_def)

theorem poll_turn_contract_witness:
  "\<exists>r t' beat poll. poll_turn job_agent sample_config job_network 1000 sample_disk
      = Some (Polled, sample_disk, [beat, poll, result_request job_agent sample_config read_job
          (''succeeded'', ''[REDACTED]'' @ [NL] @ ''ok'', 0)])"
proof -
  let ?h = "local_host job_agent"
  have h: "?h = sample_host" by (simp add: job_agent_def sample_agent_def)
  have hyps: "sleeping ?h" "canonicalizing (fsys ?h)" "\<forall>t. open_directory ?h t ''/'' = Inr []"
    "Scope_new (fsys ?h) (cf_scope sample_config) = Inr \<lparr>root = ''/srv/lab''\<rparr>"
    using sample_scope sample_canonicalizing
    by (simp_all add: h sample_config_def) (simp_all add: sleeping_def sample_host_def sample_child_def)
  have d: "\<exists>d. inode_at sample_disk (address (root \<lparr>root = ''/srv/lab''\<rparr>)) = Some (Directory d)"
    by (simp add: sample_root sample_lab_at) (simp add: sample_lab_def)
  have s: "cf_scope sample_config = ''/srv/lab''" by (simp add: sample_config_def)
  have "\<not> special_at sample_disk b" for b
    by (auto simp: special_eval sample_disk_def sample_lab_def split: list.splits)
  then have b: "\<not> may_block ?h sample_disk x" for x by (simp add: may_block_def)
  obtain r t' sent where p: "poll_turn job_agent sample_config job_network 1000 sample_disk = Some (r, t', sent)"
    using poll_turn_contract [OF hyps d refl refl refl, of job_network 1000] b job_ack job_exchange
    by (cases "poll_turn job_agent sample_config job_network 1000 sample_disk") auto
  show ?thesis
    using poll_turn_contract [OF hyps d refl refl refl, of job_network 1000] job_ack job_report
    by (auto simp: p job_exchange job_tasks job_by_job_def s length_Suc_conv)
qed

theorem token_file_private_witness:
  "hd (snd (write_token_file \<lparr>tk_dir_error = None, tk_create_error = None, tk_write_error = None, tk_rename_error = None,
       tk_create_mode = 420, tk_chmod_works = True\<rparr> 7 ''/etc/nodewe/token'' ''abc'' Map.empty))
   = [''/etc/nodewe/token'' \<mapsto> (384, ''abc'' @ [NL])]"
proof -
  let ?os = "\<lparr>tk_dir_error = None, tk_create_error = None, tk_write_error = None, tk_rename_error = None,
       tk_create_mode = 420, tk_chmod_works = True\<rparr>"
  have t: "token_temporary ''/etc/nodewe/token'' 7 = ''/etc/nodewe/'' @ ''token.tmp.'' @ dec 7"
    by (simp add: token_temporary_def path_eval file_stem_def rsplit_once_def split_once_def)
  obtain r states where w: "write_token_file ?os 7 ''/etc/nodewe/token'' ''abc'' Map.empty = (r, states)" by fastforce
  then have "r = Inr ()"
    by (auto simp: write_token_file_def ascii_simps Let_def split: if_splits)
  then show ?thesis using token_file_private [OF _ w] w t by simp
qed

end
