(* ===== verification/Agent_Wire.thy ===== *)
theory Agent_Wire
  imports Agent_Session Snapshot
begin

text \<open>
  The bytes on the wire between the agent and the control plane: what \<open>node-runtime/src/main.rs\<close>
  writes is read by \<open>control-plane/src/main.rs\<close> with the same verb, path, body and token, and what
  the control plane answers is read by the agent with the same status and body. The two programs
  share no code, so every pair of writer and reader is compared.
\<close>

section \<open>Text in lines\<close>

lemma chars_of_ascii_append:
  "list_all (\<lambda>c. byte c < 128) s \<Longrightarrow> chars_of (s @ r) = map (\<lambda>c. [c]) s @ chars_of r"
  by (induction s) (simp_all add: utf8_width_def)

lemma from_utf8_lossy_valid: "valid_utf8 s \<Longrightarrow> from_utf8_lossy s = s"
proof (induction s rule: utf8_induct)
  case (one a r)
  then show ?case by (simp add: good_tail_def lead_width_def)
next
  case (two a b r)
  then show ?case by (simp add: good_tail_def lead_width_def second_byte_ok_def)
next
  case (three a b c r)
  then show ?case by (simp add: good_tail_def lead_width_def second_byte_ok_def)
next
  case (four a b c d r)
  then show ?case by (simp add: good_tail_def lead_width_def second_byte_ok_def)
qed simp

abbreviation "graphic \<equiv> list_all is_ascii_graphic"
abbreviation "SP \<equiv> CHR 0x20"

lemma graphic_ascii: "graphic s \<Longrightarrow> list_all (\<lambda>c. byte c < 128) s"
  by (auto simp: list_all_iff is_ascii_graphic_def)

lemma graphic_free: "graphic s \<Longrightarrow> \<not> is_ascii_graphic c \<Longrightarrow> c \<notin> set s"
  by (auto simp: list_all_iff)

lemma not_graphic [simp]: "\<not> is_ascii_graphic CR" "\<not> is_ascii_graphic NL" "\<not> is_ascii_graphic SP"
  by (simp_all add: is_ascii_graphic_def byte_def)

text \<open>Words and trimming.\<close>

lemma words_of_graphic:
  "graphic w \<Longrightarrow> words_of (map (\<lambda>c. [c]) w @ cs) acc = words_of cs (acc @ w)"
  by (induction w arbitrary: acc) (simp_all add: graphic_not_whitespace)

lemma space_whitespace [simp]: "is_whitespace [SP]"
  by (simp add: is_whitespace_def byte_def)

lemma split_whitespace_word:
  "graphic w \<Longrightarrow> w \<noteq> [] \<Longrightarrow> split_whitespace (w @ SP # r) = w # split_whitespace r"
  by (simp add: split_whitespace_def chars_of_ascii_append [OF graphic_ascii] words_of_graphic utf8_width_def
      byte_def)

lemma split_whitespace_last: "graphic w \<Longrightarrow> w \<noteq> [] \<Longrightarrow> split_whitespace w = [w]"
  using chars_of_ascii [OF graphic_ascii, of w] words_of_graphic [of w "[]" "[]"]
  by (simp add: split_whitespace_def)

definition printable :: "string \<Rightarrow> bool" where
  "printable v \<longleftrightarrow> v \<noteq> [] \<and> list_all (\<lambda>c. is_ascii_graphic c \<or> c = SP) v
     \<and> is_ascii_graphic (hd v) \<and> is_ascii_graphic (last v)"

lemma graphic_printable: "graphic v \<Longrightarrow> v \<noteq> [] \<Longrightarrow> printable v"
  by (auto simp: printable_def list_all_iff)

lemma printable_ascii: "printable v \<Longrightarrow> list_all (\<lambda>c. byte c < 128) v"
  by (auto simp: printable_def list_all_iff is_ascii_graphic_def byte_def)

lemma printable_free: "printable s \<Longrightarrow> CR \<notin> set s \<and> NL \<notin> set s"
  by (auto simp: printable_def list_all_iff)

lemma trim_printable:
  assumes "printable v"
  shows "str_trim (SP # v) = v" and "str_trim v = v"
proof -
  obtain a w where v: "v = a # w" using assms by (cases v) (auto simp: printable_def)
  have c: "chars_of v = map (\<lambda>c. [c]) v" "chars_of (SP # v) = [SP] # map (\<lambda>c. [c]) v"
    using chars_of_ascii [OF printable_ascii [OF assms]] chars_of_ascii_append [of "[SP]" v]
    by (simp_all add: byte_def)
  have h: "\<not> is_whitespace [a]" using assms v by (simp add: printable_def graphic_not_whitespace)
  have t: "\<not> is_whitespace [last v]" using assms by (simp add: printable_def graphic_not_whitespace)
  have d: "dropWhile is_whitespace (map (\<lambda>c. [c]) v) = map (\<lambda>c. [c]) v" using h v by simp
  obtain u where u: "v = u @ [last v]" using v by (metis append_butlast_last_id list.distinct(1))
  have r: "dropWhile is_whitespace (rev (map (\<lambda>c. [c]) (u @ [last v]))) = rev (map (\<lambda>c. [c]) (u @ [last v]))"
    using t by simp
  then have r: "dropWhile is_whitespace (rev (map (\<lambda>c. [c]) v)) = rev (map (\<lambda>c. [c]) v)"
    using u by simp
  show "str_trim (SP # v) = v" "str_trim v = v"
    using d r unfolding str_trim_def c by simp_all
qed

text \<open>Lines ended by CR LF.\<close>

lemma str_lines_crlf:
  "\<forall>l \<in> set ls. NL \<notin> set l \<and> CR \<notin> set l \<Longrightarrow>
   str_lines (concat (map (\<lambda>l. l @ crlf) ls) @ t) = ls @ str_lines t"
proof (induction ls)
  case (Cons l ls)
  have "str_lines ((l @ [CR]) @ NL # concat (map (\<lambda>l. l @ crlf) ls) @ t)
      = chop_cr (l @ [CR]) # str_lines (concat (map (\<lambda>l. l @ crlf) ls) @ t)"
    by (rule str_lines_terminated) (use Cons.prems in \<open>auto simp: byte_def\<close>)
  then show ?case using Cons by (simp add: chop_cr_def)
qed simp

lemma str_lines_one: "NL \<notin> set l \<Longrightarrow> l \<noteq> [] \<Longrightarrow> str_lines l = [l]"
  by (simp add: str_lines_def str_split_none)

text \<open>Heads of requests.\<close>

definition head_text :: "string list \<Rightarrow> string" where
  "head_text ls = concat (map (\<lambda>l. l @ crlf) ls)"

lemma head_text_simps [simp]:
  "head_text [] = []" "head_text (l # ls) = l @ crlf @ head_text ls"
  by (simp_all add: head_text_def)

definition line_ok :: "string \<Rightarrow> bool" where
  "line_ok l \<longleftrightarrow> l \<noteq> [] \<and> CR \<notin> set l \<and> NL \<notin> set l"

lemma window_head:
  assumes "list_all line_ok ls" and "ls \<noteq> []"
  shows "window_position [CR, NL, CR, NL] (head_text ls @ crlf @ body) = Some (length (head_text ls) - 2)"
  using assms
proof (induction ls)
  case (Cons k ks)
  have c: "CR \<notin> set k" using Cons.prems by (simp add: line_ok_def)
  show ?case
  proof (cases ks)
    case Nil
    then show ?thesis using window_skip [OF c, of "[NL, CR, NL]" "crlf @ crlf @ body"] by simp
  next
    case (Cons l ls)
    then obtain b bs where r: "head_text ks @ crlf @ body = b # bs" "b \<noteq> CR"
      using Cons.prems by (cases l) (auto simp: line_ok_def)
    have "window_position [CR, NL, CR, NL] (crlf @ head_text ks @ crlf @ body)
        = Some (Suc (Suc (length (head_text ks) - 2)))"
      using Cons.IH Cons.prems Cons r by simp
    moreover have "2 \<le> length (head_text ks)" using Cons by simp
    ultimately show ?thesis
      using window_skip [OF c, of "[NL, CR, NL]" "crlf @ head_text ks @ crlf @ body"] by simp
  qed
qed simp

lemma take_head: "ls \<noteq> [] \<Longrightarrow> take (length (head_text ls) - 2) (head_text ls @ r) = head_text (butlast ls) @ last ls"
proof (induction ls)
  case (Cons l ls)
  show ?case
  proof (cases ls)
    case (Cons k ks)
    then have "2 \<le> length (head_text ls)" by simp
    then have "length (head_text (l # ls)) - 2 = length (l @ crlf) + (length (head_text ls) - 2)" by simp
    then show ?thesis using Cons.IH Cons by simp
  qed simp
qed simp

lemma head_lines: "list_all line_ok ls \<Longrightarrow> ls \<noteq> [] \<Longrightarrow> str_lines (head_text (butlast ls) @ last ls) = ls"
proof -
  assume a: "list_all line_ok ls" "ls \<noteq> []"
  then obtain ks k where ls: "ls = ks @ [k]" by (metis append_butlast_last_id)
  have "str_lines k = [k]" using a ls by (intro str_lines_one) (auto simp: line_ok_def)
  then show ?thesis using str_lines_crlf [of ks k] a ls
    by (simp add: head_text_def line_ok_def list_all_iff)
qed

lemma window_as_bytes: "window_position (as_bytes w) (as_bytes s) = window_position w s"
proof (induction s)
  case (Cons c s)
  have "prefix (as_bytes w) (as_bytes (c # s)) \<longleftrightarrow> prefix w (c # s)"
  proof
    assume "prefix (as_bytes w) (as_bytes (c # s))"
    then have "take (length w) (as_bytes (c # s)) = as_bytes w"
      by (metis append_eq_conv_conj length_as_bytes prefix_def)
    then have "as_bytes (take (length w) (c # s)) = as_bytes w" by (simp add: as_bytes_def flip: take_map)
    then show "prefix w (c # s)" by (metis as_bytes_inject take_is_prefix)
  next
    assume "prefix w (c # s)"
    then show "prefix (as_bytes w) (as_bytes (c # s))"
      unfolding as_bytes_def by (metis map_append prefix_def)
  qed
  then show ?case using Cons by (simp add: as_bytes_def)
qed (simp add: as_bytes_def)

section \<open>Header fields\<close>

text \<open>A header field as the agent writes it, and what the control plane makes of it.\<close>

definition header_field :: "string \<Rightarrow> string \<Rightarrow> string" where
  "header_field n v = n @ '': '' @ v"

definition field_ok :: "string \<Rightarrow> string \<Rightarrow> bool" where
  "field_ok n v \<longleftrightarrow> printable n \<and> CHR '':'' \<notin> set n \<and> printable v"

lemma field_split: "field_ok n v \<Longrightarrow> split_once (header_field n v) CHR '':'' = Some (n, SP # v)"
  using split_once_append [of "CHR '':''" n "SP # v"] by (simp add: header_field_def field_ok_def)

lemma field_line: "field_ok n v \<Longrightarrow> line_ok (header_field n v)"
  using printable_free [of n] printable_free [of v]
  by (auto simp: line_ok_def header_field_def field_ok_def byte_def)

lemma field_trim: "field_ok n v \<Longrightarrow> str_trim n = n \<and> str_trim (SP # v) = v"
  using trim_printable [of n] trim_printable [of v] by (simp add: field_ok_def)

lemma printable_control: "printable v \<Longrightarrow> \<not> list_ex is_ascii_control v"
  by (auto simp: printable_def list_all_iff list_ex_iff is_ascii_graphic_def is_ascii_control_def byte_def)

lemma field_trim_nonempty: "field_ok n v \<Longrightarrow> str_trim (header_field n v) = header_field n v"
  by (rule trim_printable(2))
    (auto simp: printable_def header_field_def field_ok_def list_all_iff is_ascii_graphic_def byte_def)

lemma length_skip:
  assumes "field_ok n v" and "\<not> eq_ignore_ascii_case n ''transfer-encoding''"
    and "\<not> eq_ignore_ascii_case n ''content-length''"
  shows "content_length_loop (header_field n v # ls) found = content_length_loop ls found"
proof -
  have "header_field n v \<noteq> []" "n \<noteq> []" using assms(1) by (auto simp: header_field_def field_ok_def printable_def)
  then show ?thesis
    using assms field_split [OF assms(1)] field_trim [OF assms(1)] field_trim_nonempty [OF assms(1)]
      printable_control [of v]
    by (simp add: field_ok_def)
qed

lemma dec_graphic: "graphic (dec n)"
  using dec_digits [of n] by (auto simp: list_all_iff is_ascii_digit_def is_ascii_graphic_def)

lemma length_take:
  assumes "k < 2 ^ 64"
  shows "content_length_loop (header_field ''Content-Length'' (dec k) # ls) None = content_length_loop ls (Some k)"
proof -
  have ok: "field_ok ''Content-Length'' (dec k)"
    using graphic_printable [OF dec_graphic] by (simp add: field_ok_def printable_def ascii_simps)
  have d: "dec k \<noteq> []" "list_all is_ascii_digit (dec k)" "\<not> list_ex is_ascii_control (dec k)"
    using dec_digits printable_control [OF graphic_printable [OF dec_graphic]] by auto
  have e: "eq_ignore_ascii_case ''Content-Length'' ''content-length''"
    "\<not> eq_ignore_ascii_case ''Content-Length'' ''transfer-encoding''"
    by (simp_all add: eq_ignore_ascii_case_def to_ascii_lowercase_def to_lower_def ascii_simps flip: byte_inject)
  have "str_trim (header_field ''Content-Length'' (dec k)) \<noteq> []"
    unfolding field_trim_nonempty [OF ok] by (simp add: header_field_def)
  then show ?thesis
    using field_split [OF ok] field_trim [OF ok] d e parse_usize_dec [OF assms]
    by (simp del: content_length_loop.simps add: content_length_loop.simps(2) [of "header_field ''Content-Length'' (dec k)"])
qed

text \<open>The bearer token among the lines of a request.\<close>

definition bearer_in :: "string list \<Rightarrow> string" where
  "bearer_in ls =
     (case find_map (\<lambda>line. case split_once line CHR '':'' of
         None \<Rightarrow> None
       | Some (name, value) \<Rightarrow>
           if eq_ignore_ascii_case (str_trim name) ''authorization''
           then map_option str_trim (strip_prefix (str_trim value) ''Bearer '') else None) ls
      of None \<Rightarrow> [] | Some t \<Rightarrow> t)"

lemma bearer_lines: "bearer_of request = bearer_in (str_lines request)"
  by (simp add: bearer_of_def bearer_in_def)

lemma bearer_skip:
  assumes "field_ok n v" and "\<not> eq_ignore_ascii_case n ''authorization''"
  shows "bearer_in (header_field n v # ls) = bearer_in ls"
  using field_split [OF assms(1)] field_trim [OF assms(1)] assms(2) by (simp add: bearer_in_def)

lemma authorization_ok:
  assumes "graphic token" and "token \<noteq> []"
  shows "field_ok ''Authorization'' (''Bearer '' @ token)"
  using assms by (auto simp: field_ok_def printable_def list_all_iff ascii_simps)

lemma bearer_take:
  assumes "graphic token" and "token \<noteq> []"
  shows "bearer_in (header_field ''Authorization'' (''Bearer '' @ token) # ls) = token"
proof -
  note ok = authorization_ok [OF assms]
  have "eq_ignore_ascii_case ''Authorization'' ''authorization''"
    by (simp add: eq_ignore_ascii_case_def to_ascii_lowercase_def to_lower_def ascii_simps flip: byte_inject)
  moreover have "strip_prefix (''Bearer '' @ token) ''Bearer '' = Some token"
    by (simp add: strip_prefix_def)
  ultimately show ?thesis
    using field_split [OF ok] field_trim [OF ok] trim_printable(2) [OF graphic_printable [OF assms]]
    by (simp add: bearer_in_def)
qed

lemma bearer_first:
  assumes "is_ascii_graphic c" and "to_lower c \<noteq> CHR ''a''" and "c \<noteq> CHR '':''"
  shows "bearer_in ((c # l) # ls) = bearer_in ls"
proof (cases "split_once (c # l) CHR '':''")
  case (Some p)
  then obtain m v where p: "split_once (c # l) CHR '':'' = Some (c # m, v)"
    using assms(3) by (auto simp: split_once_def split: if_splits)
  obtain t where "str_trim (c # m) = c # t" using str_trim_starts [OF assms(1)] by blast
  then have "\<not> eq_ignore_ascii_case (str_trim (c # m)) ''authorization''"
    using assms(2) by (simp add: eq_ignore_ascii_case_def to_ascii_lowercase_def to_lower_def ascii_simps)
  then show ?thesis using p by (simp add: bearer_in_def)
qed (simp add: bearer_in_def)

section \<open>Requests\<close>

lemma str_lines_blank: "str_lines (crlf @ body) = [] # str_lines body"
  using str_lines_terminated [of "[CR]" body] by (simp add: chop_cr_def)

definition request_text :: "string list \<Rightarrow> string \<Rightarrow> string" where
  "request_text ls body = head_text ls @ crlf @ body"

definition wire_ok :: "string list \<Rightarrow> string \<Rightarrow> bool" where
  "wire_ok ls body \<longleftrightarrow> ls \<noteq> [] \<and> list_all line_ok ls \<and> list_all (list_all (\<lambda>c. byte c < 128)) ls
     \<and> valid_utf8 body \<and> CR \<notin> set body"

lemma head_ascii: "list_all (list_all (\<lambda>c. byte c < 128)) ls \<Longrightarrow> list_all (\<lambda>c. byte c < 128) (head_text ls)"
  by (induction ls) (auto simp: byte_def)

lemma wire_utf8: "wire_ok ls body \<Longrightarrow> valid_utf8 (request_text ls body)"
  using valid_utf8_ascii [OF head_ascii, of ls] valid_utf8_ascii [of crlf]
  unfolding request_text_def wire_ok_def by (intro valid_utf8_append) (simp_all add: byte_def)

lemma wire_window:
  "wire_ok ls body \<Longrightarrow>
   window_position crlf2 (as_bytes (request_text ls body)) = Some (length (head_text ls) - 2)"
  using window_head [of ls body] unfolding crlf2_bytes(1) window_as_bytes
  by (simp add: request_text_def wire_ok_def)

lemma wire_header:
  assumes "wire_ok ls body"
  shows "from_utf8 (take (length (head_text ls) - 2) (as_bytes (request_text ls body)))
    = Some (head_text (butlast ls) @ last ls)"
proof -
  have t: "take (length (head_text ls) - 2) (as_bytes (request_text ls body)) = as_bytes (head_text (butlast ls) @ last ls)"
    using assms take_head [of ls "crlf @ body"]
    unfolding as_bytes_def take_map request_text_def wire_ok_def by simp
  have "list_all (\<lambda>c. byte c < 128) (head_text (butlast ls) @ last ls)"
    using assms head_ascii [of "butlast ls"] in_set_butlastD [of _ ls]
    by (fastforce simp: wire_ok_def list_all_iff)
  then show ?thesis unfolding t by (simp add: from_utf8_def valid_utf8_ascii)
qed

lemma head_text_length: "ls \<noteq> [] \<Longrightarrow> 2 \<le> length (head_text ls)"
  by (cases ls) auto

lemma wire_parsed:
  assumes "wire_ok ls body"
  shows "parse_request header (as_bytes (request_text ls body)) =
    Request header (nth_word 0 (split_whitespace (hd ls))) (nth_word 1 (split_whitespace (hd ls))) body
      (bearer_in (ls @ [] # str_lines body))"
proof -
  have l: "str_lines (request_text ls body) = ls @ [] # str_lines body"
    using str_lines_crlf [of ls "crlf @ body"] assms str_lines_blank [of body]
    by (simp add: request_text_def head_text_def wire_ok_def line_ok_def list_all_iff)
  have w: "window_position [CR, NL, CR, NL] (request_text ls body) = Some (length (head_text ls) - 2)"
    using window_head [of ls body] assms by (simp add: request_text_def wire_ok_def)
  have "length (head_text ls) - 2 + 4 = length (head_text ls @ crlf)"
    using head_text_length [of ls] assms by (simp add: wire_ok_def)
  then have "drop (length (head_text ls) - 2 + length [CR, NL, CR, NL]) (request_text ls body) = body"
    by (simp add: request_text_def)
  moreover have none: "window_position [CR, NL, CR, NL] body = None"
    using window_none assms by (simp add: wire_ok_def)
  ultimately have b: "second_piece [CR, NL, CR, NL] (request_text ls body) = body"
    using w none unfolding second_piece_def by (simp only: option.case Let_def)
  show ?thesis
    using from_utf8_lossy_valid [OF wire_utf8 [OF assms]] l b assms
    by (cases ls) (simp_all add: parse_request_def bearer_lines crlf2_bytes(2) nth_word_def Let_def wire_ok_def)
qed

text \<open>A request that fits is read whole, however it is split; one that does not fit is refused.\<close>

lemma request_read:
  assumes "wire_ok ls body" and "content_length_loop (tl ls) None = Inr (length body)"
    and "length (request_text ls body) \<le> max_request_bytes"
    and "concat chunks = as_bytes (request_text ls body)" and "[] \<notin> set chunks"
  shows "fst (read_request chunks) =
    Request (head_text (butlast ls) @ last ls) (nth_word 0 (split_whitespace (hd ls)))
      (nth_word 1 (split_whitespace (hd ls))) body (bearer_in (ls @ [] # str_lines body))"
proof -
  have ls: "ls \<noteq> []" "list_all line_ok ls" using assms(1) by (auto simp: wire_ok_def)
  have n: "request_content_length (head_text (butlast ls) @ last ls) = Inr (length body)"
    using head_lines [OF ls(2,1)] assms(2) by (simp add: request_content_length_def drop_Suc)
  have "length (head_text ls) - 2 + 4 + length body = length (request_text ls body)"
    using head_text_length [OF ls(1)] by (simp add: request_text_def)
  moreover from this have "usize_add (length (head_text ls) - 2 + 4) (length body) = length (request_text ls body)"
    using assms(3) by (simp add: usize_add_def max_request_bytes_def)
  ultimately have "request_in (as_bytes (request_text ls body)) =
      parse_request (head_text (butlast ls) @ last ls) (as_bytes (request_text ls body))"
    using wire_window [OF assms(1)] wire_header [OF assms(1)] n assms(3)
    by (simp add: request_in_def Let_def)
  then show ?thesis
    using read_request_whole [OF assms(5)] assms(3,4) wire_parsed [OF assms(1)] by simp
qed

lemma read_header_long:
  assumes "[] \<notin> set chunks" and "window_position crlf2 (request @ concat chunks) = Some i"
    and "window_position crlf2 request = None"
  shows "(\<exists>r c. read_header chunks request = (Oversized, r, c))
    \<or> (\<exists>r c. read_header chunks request = (Header_at i, r, c) \<and> r @ concat c = request @ concat chunks \<and> i + 4 \<le> length r)"
  using assms
proof (induction chunks request rule: read_header.induct)
  case (2 chunk chunks request)
  have ne: "chunk \<noteq> []" using "2.prems"(1) by auto
  show ?case
  proof (cases "max_request_bytes < length (request @ chunk)")
    case False
    show ?thesis
    proof (cases "window_position crlf2 (request @ chunk)")
      case None
      then show ?thesis using "2.IH" [OF ne refl False None] "2.prems" ne False by auto
    next
      case (Some j)
      then have "j = i"
        using window_position_append [OF Some, of "concat chunks"] "2.prems"(2) by simp
      then show ?thesis using Some ne False window_position_bound [OF Some] by (simp add: crlf2_def)
    qed
  qed (use ne in simp)
qed simp

lemma request_refused:
  assumes "wire_ok ls body" and "content_length_loop (tl ls) None = Inr (length body)"
    and "max_request_bytes < length (request_text ls body)" and "length (request_text ls body) < 2 ^ 64"
    and "concat chunks = as_bytes (request_text ls body)" and "[] \<notin> set chunks"
  shows "fst (read_request chunks) = Refused ''413 Payload Too Large'' (code_body ''request_too_large'')"
proof -
  let ?i = "length (head_text ls) - 2"
  have ls: "ls \<noteq> []" "list_all line_ok ls" using assms(1) by (auto simp: wire_ok_def)
  have n: "request_content_length (head_text (butlast ls) @ last ls) = Inr (length body)"
    using head_lines [OF ls(2,1)] assms(2) by (simp add: request_content_length_def drop_Suc)
  have "?i + 4 + length body = length (request_text ls body)"
    using head_text_length [OF ls(1)] by (simp add: request_text_def)
  then have need: "max_request_bytes < usize_add (?i + 4) (length body)"
    using assms(3,4) by (simp add: usize_add_def)
  consider r c where "read_header chunks [] = (Oversized, r, c)"
    | r c where "read_header chunks [] = (Header_at ?i, r, c)" "r @ concat c = concat chunks" "?i + 4 \<le> length r"
    using read_header_long [OF assms(6), of "[]" ?i] wire_window [OF assms(1)] assms(5)
    by (auto simp: crlf2_def)
  then show ?thesis
  proof cases
    case 2
    have "take ?i r = take ?i (concat chunks)" using 2(2) [symmetric] 2(3) by simp
    then have "from_utf8 (take ?i r) = Some (head_text (butlast ls) @ last ls)"
      using wire_header [OF assms(1)] assms(5) by simp
    then show ?thesis using 2 n need by (simp add: read_request_def Let_def)
  qed (simp add: read_request_def)
qed


text \<open>The lines of the agent's requests.\<close>

definition start_line :: "string \<Rightarrow> string \<Rightarrow> string" where
  "start_line verb path = verb @ '' '' @ path @ '' HTTP/1.1''"

definition post_lines :: "string \<Rightarrow> string \<Rightarrow> string \<Rightarrow> string list \<Rightarrow> string list" where
  "post_lines endpoint path body auth =
     start_line ''POST'' path # header_field ''Host'' endpoint # auth
     @ [header_field ''Content-Type'' ''application/json'', header_field ''Content-Length'' (dec (length body)),
        header_field ''Connection'' ''close'']"

definition get_lines :: "string \<Rightarrow> string \<Rightarrow> string list \<Rightarrow> string list" where
  "get_lines endpoint path hs = start_line ''GET'' path # header_field ''Host'' endpoint # hs"

definition bearer_field :: "string \<Rightarrow> string" where
  "bearer_field token = header_field ''Authorization'' (''Bearer '' @ token)"

lemma request_texts:
  "post_request endpoint path body token = request_text (post_lines endpoint path body [bearer_field token]) body"
  "post_request_unauthenticated endpoint path body = request_text (post_lines endpoint path body []) body"
  "get_request endpoint path token =
     request_text (get_lines endpoint path [bearer_field token, header_field ''Connection'' ''close'']) []"
  by (simp_all add: post_request_def post_request_unauthenticated_def get_request_def request_head_def
      request_text_def head_text_def post_lines_def get_lines_def start_line_def header_field_def bearer_field_def)

definition target_ok :: "string \<Rightarrow> string \<Rightarrow> bool" where
  "target_ok endpoint path \<longleftrightarrow> graphic endpoint \<and> endpoint \<noteq> [] \<and> graphic path \<and> path \<noteq> []"

lemma start_line_words:
  assumes "graphic verb" and "verb \<noteq> []" and "graphic path" and "path \<noteq> []"
  shows "split_whitespace (start_line verb path) = [verb, path, ''HTTP/1.1'']"
  using split_whitespace_word [OF assms(1,2), of "path @ SP # ''HTTP/1.1''"]
    split_whitespace_word [OF assms(3,4), of "''HTTP/1.1''"] split_whitespace_last [of "''HTTP/1.1''"]
  by (simp add: start_line_def is_ascii_graphic_def byte_def)

lemma start_line_ok:
  "graphic verb \<Longrightarrow> verb \<noteq> [] \<Longrightarrow> graphic path \<Longrightarrow>
   line_ok (start_line verb path) \<and> list_all (\<lambda>c. byte c < 128) (start_line verb path)"
  using graphic_free [of verb CR] graphic_free [of verb NL] graphic_free [of path CR] graphic_free [of path NL]
    graphic_ascii [of verb] graphic_ascii [of path]
  by (auto simp: line_ok_def start_line_def byte_def)

lemma field_ascii: "field_ok n v \<Longrightarrow> list_all (\<lambda>c. byte c < 128) (header_field n v)"
  using printable_ascii [of n] printable_ascii [of v] by (simp add: header_field_def field_ok_def byte_def)

lemma constant_fields:
  "field_ok ''Content-Type'' ''application/json''" "field_ok ''Connection'' ''close''"
  "field_ok ''Content-Length'' (dec n)" "field_ok ''Upgrade'' ''websocket''" "field_ok ''Connection'' ''Upgrade''"
  "field_ok ''Sec-WebSocket-Version'' ''13''"
  using graphic_printable [OF dec_graphic] by (auto simp: field_ok_def printable_def ascii_simps)

lemma host_field: "graphic v \<Longrightarrow> v \<noteq> [] \<Longrightarrow> field_ok ''Host'' v"
  using graphic_printable [of v] by (auto simp: field_ok_def printable_def ascii_simps)

lemmas field_facts = field_line field_ascii host_field constant_fields authorization_ok start_line_ok

lemma names_differ:
  "\<not> eq_ignore_ascii_case n ''transfer-encoding''" "\<not> eq_ignore_ascii_case n ''content-length''"
  "\<not> eq_ignore_ascii_case n ''authorization''"
  if "n \<in> {''Host'', ''Content-Type'', ''Connection'', ''Upgrade'', ''Sec-WebSocket-Key'', ''Sec-WebSocket-Version''}"
  using that by (auto simp: eq_ignore_ascii_case_def to_ascii_lowercase_def to_lower_def ascii_simps)

lemma authorization_differs:
  "\<not> eq_ignore_ascii_case ''Authorization'' ''transfer-encoding''"
  "\<not> eq_ignore_ascii_case ''Authorization'' ''content-length''"
  "\<not> eq_ignore_ascii_case ''Content-Length'' ''authorization''"
  by (simp_all add: eq_ignore_ascii_case_def to_ascii_lowercase_def to_lower_def ascii_simps)

lemma bearer_facts:
  assumes "graphic token" and "token \<noteq> []"
  shows "line_ok (bearer_field token)" "list_all (\<lambda>c. byte c < 128) (bearer_field token)"
    "content_length_loop (bearer_field token # ls) found = content_length_loop ls found"
    "bearer_in (bearer_field token # ls) = token"
  unfolding bearer_field_def
  using field_line field_ascii length_skip authorization_differs bearer_take [OF assms] authorization_ok [OF assms]
  by auto

lemma bearer_start_line:
  "verb \<in> {''POST'', ''GET''} \<Longrightarrow> bearer_in (start_line verb path # ks) = bearer_in ks"
proof -
  have "bearer_in ((CHR ''P'' # l) # ks) = bearer_in ks" "bearer_in ((CHR ''G'' # l) # ks) = bearer_in ks" for l
    by (rule bearer_first; simp add: to_lower_def ascii_simps flip: byte_inject)+
  then show "verb \<in> {''POST'', ''GET''} \<Longrightarrow> bearer_in (start_line verb path # ks) = bearer_in ks"
    by (auto simp: start_line_def)
qed

lemma post_wire:
  assumes "target_ok endpoint path" and "auth = [] \<or> (auth = [bearer_field token] \<and> graphic token \<and> token \<noteq> [])"
    and "valid_utf8 body" and "CR \<notin> set body" and "length body < 2 ^ 64"
  shows "wire_ok (post_lines endpoint path body auth) body"
    and "content_length_loop (tl (post_lines endpoint path body auth)) None = Inr (length body)"
    and "split_whitespace (hd (post_lines endpoint path body auth)) = [''POST'', path, ''HTTP/1.1'']"
    and "bearer_in (post_lines endpoint path body auth @ ls) = (if auth = [] then bearer_in ls else token)"
proof -
  have p: "graphic ''POST''" by (simp add: ascii_simps)
  note t = assms(1) [unfolded target_ok_def]
  show "wire_ok (post_lines endpoint path body auth) body"
    using assms t p by (auto simp: wire_ok_def post_lines_def field_facts bearer_facts)
  show "content_length_loop (tl (post_lines endpoint path body auth)) None = Inr (length body)"
    using assms(2) t
    by (auto simp: post_lines_def length_skip length_take [OF assms(5)] field_facts names_differ
        bearer_facts authorization_differs simp del: content_length_loop.simps(2))
  show "split_whitespace (hd (post_lines endpoint path body auth)) = [''POST'', path, ''HTTP/1.1'']"
    using start_line_words [OF p, of path] t by (simp add: post_lines_def)
  have "bearer_in (start_line ''POST'' path # ks) = bearer_in ks" for ks
    using bearer_start_line by simp
  then show "bearer_in (post_lines endpoint path body auth @ ls) = (if auth = [] then bearer_in ls else token)"
    using assms(2) t
    by (auto simp: post_lines_def bearer_skip bearer_facts field_facts names_differ authorization_differs)
qed

lemma get_wire:
  assumes "target_ok endpoint path" and "graphic token" and "token \<noteq> []"
  shows "wire_ok (get_lines endpoint path [bearer_field token, header_field ''Connection'' ''close'']) []"
    and "content_length_loop (tl (get_lines endpoint path [bearer_field token, header_field ''Connection'' ''close''])) None = Inr 0"
    and "split_whitespace (hd (get_lines endpoint path hs)) = [''GET'', path, ''HTTP/1.1'']"
    and "bearer_in (get_lines endpoint path (bearer_field token # hs) @ ls) = token"
proof -
  have p: "graphic ''GET''" by (simp add: ascii_simps)
  note t = assms(1) [unfolded target_ok_def]
  show "wire_ok (get_lines endpoint path [bearer_field token, header_field ''Connection'' ''close'']) []"
    using assms t p by (auto simp: wire_ok_def get_lines_def field_facts bearer_facts)
  show "content_length_loop (tl (get_lines endpoint path [bearer_field token, header_field ''Connection'' ''close''])) None = Inr 0"
    using assms t
    by (auto simp: get_lines_def length_skip field_facts names_differ bearer_facts
        simp del: content_length_loop.simps(2))
  show "split_whitespace (hd (get_lines endpoint path hs)) = [''GET'', path, ''HTTP/1.1'']"
    using start_line_words [OF p, of path] t by (simp add: get_lines_def)
  have "bearer_in (start_line ''GET'' path # ks) = bearer_in ks" for ks
    using bearer_start_line by simp
  then show "bearer_in (get_lines endpoint path (bearer_field token # hs) @ ls) = token"
    using assms t by (simp add: get_lines_def bearer_skip bearer_facts field_facts names_differ)
qed


lemma post_read:
  assumes "target_ok endpoint path" and "graphic token" and "token \<noteq> []"
    and "valid_utf8 body" and "CR \<notin> set body" and "[] \<notin> set chunks"
    and "concat chunks = as_bytes (post_request endpoint path body token)"
    and "length (concat chunks) \<le> max_request_bytes"
  shows "\<exists>h. fst (read_request chunks) = Request h ''POST'' path body token"
proof -
  have len: "length (request_text (post_lines endpoint path body [bearer_field token]) body) \<le> max_request_bytes"
    using assms(7,8) by (simp add: request_texts)
  then have "length body < 2 ^ 64" by (simp add: request_text_def max_request_bytes_def)
  note w = post_wire [OF assms(1) _ assms(4,5) this, of "[bearer_field token]" token]
  show ?thesis
    using request_read [OF w(1,2) len assms(7) [unfolded request_texts] assms(6)] w(3,4) assms(2,3)
    by (simp add: nth_word_def)
qed

lemma get_read:
  assumes "target_ok endpoint path" and "graphic token" and "token \<noteq> []" and "[] \<notin> set chunks"
    and "concat chunks = as_bytes (get_request endpoint path token)"
    and "length (concat chunks) \<le> max_request_bytes"
  shows "\<exists>h. fst (read_request chunks) = Request h ''GET'' path [] token"
proof -
  note w = get_wire [OF assms(1-3)]
  show ?thesis
    using request_read [OF w(1) _ _ assms(5) [unfolded request_texts] assms(4)] w(2-4) assms(5,6)
    by (simp add: nth_word_def request_texts)
qed

lemma post_read_unauthenticated:
  assumes "target_ok endpoint path" and "valid_utf8 body" and "CR \<notin> set body" and "[] \<notin> set chunks"
    and "concat chunks = as_bytes (post_request_unauthenticated endpoint path body)"
    and "length (concat chunks) \<le> max_request_bytes" and "body = CHR 0x7B # r" and "NL \<notin> set r"
  shows "\<exists>h. fst (read_request chunks) = Request h ''POST'' path body []"
proof -
  have len: "length (request_text (post_lines endpoint path body []) body) \<le> max_request_bytes"
    using assms(5,6) by (simp add: request_texts)
  then have "length body < 2 ^ 64" by (simp add: request_text_def max_request_bytes_def)
  note w = post_wire [OF assms(1) _ assms(2,3) this, of "[]"]
  have "str_lines body = [body]" using assms(7,8) by (intro str_lines_one) auto
  moreover have "bearer_in [[], body] = bearer_in []"
    unfolding assms(7) using bearer_first [of "CHR 0x7B" r "[]"]
    by (simp add: bearer_in_def to_lower_def ascii_simps split_once_def)
  ultimately have "bearer_in ([] # str_lines body) = []" by (simp add: bearer_in_def)
  then show ?thesis
    using request_read [OF w(1,2) len assms(5) [unfolded request_texts] assms(4)] w(3,4)
    by (simp add: nth_word_def)
qed

text \<open>Requests arrive as they were meant. A POST or GET that the agent writes for a printable
  endpoint, path and token, with a UTF-8 body without carriage returns, is read by the control plane
  with the same verb, path, body and bearer token, however the network cuts it into blocks, as long
  as the whole request fits the 64 KiB limit.\<close>

theorem agent_requests_understood:
  assumes "target_ok endpoint path" and "graphic token" and "token \<noteq> []"
    and "valid_utf8 body" and "CR \<notin> set body" and "[] \<notin> set chunks"
    and "length (concat chunks) \<le> max_request_bytes"
  shows "(concat chunks = as_bytes (post_request endpoint path body token) \<longrightarrow>
      (\<exists>h. fst (read_request chunks) = Request h ''POST'' path body token))
    \<and> (concat chunks = as_bytes (get_request endpoint path token) \<longrightarrow>
      (\<exists>h. fst (read_request chunks) = Request h ''GET'' path [] token))"
  using post_read [OF assms(1-6)] get_read [OF assms(1-3,6)] assms(7) by blast

definition sample_body :: string where
  "sample_body = [CHR 0x7B, CHR 0x7D]"

lemma sample_request_small:
  "length (post_request ''127.0.0.1:8787'' ''/v1/agent/heartbeat'' sample_body ''t0'') \<le> max_request_bytes"
proof -
  have "length (dec (length sample_body)) \<le> 2"
    by (simp add: sample_body_def dec_def show_radix.simps [of 10 "Suc (Suc 0)"])
  then show ?thesis by (simp add: post_request_def request_head_def sample_body_def max_request_bytes_def)
qed

lemma sample_target: "target_ok ''127.0.0.1:8787'' ''/v1/agent/heartbeat''" "graphic ''t0''"
  by (simp_all add: target_ok_def ascii_simps)

theorem agent_requests_understood_witness:
  "\<exists>h. fst (read_request
      [as_bytes (post_request ''127.0.0.1:8787'' ''/v1/agent/heartbeat'' sample_body ''t0'')])
    = Request h ''POST'' ''/v1/agent/heartbeat'' sample_body ''t0''"
  using agent_requests_understood [OF sample_target, of sample_body
      "[as_bytes (post_request ''127.0.0.1:8787'' ''/v1/agent/heartbeat'' sample_body ''t0'')]"]
    sample_request_small
  by (simp add: sample_body_def byte_def post_request_def request_head_def as_bytes_def)

section \<open>Reports\<close>

lemma escape_esc: "escape s = esc s"
proof -
  have "escape_char = esc_char" by (rule ext) (simp add: escape_char_def esc_char_def)
  then show ?thesis by (simp add: escape_def esc_def)
qed

lemma escape_utf8: "valid_utf8 s \<Longrightarrow> valid_utf8 (escape s)"
proof -
  assume "valid_utf8 s"
  then have "list_all valid_utf8 (map esc_char (chars_of s))"
    using valid_utf8_pieces esc_char_utf8 by (auto simp: list_all_iff)
  then show ?thesis unfolding escape_esc esc_def by (rule valid_utf8_concat)
qed

lemma escape_free: "valid_utf8 s \<Longrightarrow> CR \<notin> set (escape s) \<and> NL \<notin> set (escape s)"
  using valid_utf8_chars [of s] esc_char_free by (auto simp: escape_esc esc_def list_all_iff)

lemma chars_of_short: "ch \<in> set (chars_of s) \<Longrightarrow> length ch \<le> 4"
  by (induction s rule: chars_of.induct) (auto simp: utf8_width_def)

lemma escape_longer: "length s \<le> length (escape s)"
proof -
  have "length ch \<le> length (esc_char ch)" if "length ch \<le> 4" for ch
    using that by (auto simp: esc_char_def hex4_def)
  then have "length (concat cs) \<le> length (concat (map esc_char cs))" if "\<forall>ch \<in> set cs. length ch \<le> 4" for cs
    using that by (induction cs) (auto simp: add_mono)
  from this [of "chars_of s"] show ?thesis using chars_of_short by (auto simp: escape_esc esc_def)
qed

text \<open>The texts of a report are UTF-8 without line ends.\<close>

definition plain_text :: "string \<Rightarrow> bool" where
  "plain_text s \<longleftrightarrow> valid_utf8 s \<and> CR \<notin> set s \<and> NL \<notin> set s"

lemma plain_append: "plain_text a \<Longrightarrow> plain_text b \<Longrightarrow> plain_text (a @ b)"
  by (auto simp: plain_text_def intro: valid_utf8_append)

lemma plain_ascii: "list_all (\<lambda>c. 32 \<le> byte c \<and> byte c < 127) s \<Longrightarrow> plain_text s"
proof -
  assume a: "list_all (\<lambda>c. 32 \<le> byte c \<and> byte c < 127) s"
  then have "list_all (\<lambda>c. byte c < 128) s" by (auto simp: list_all_iff)
  moreover have "CR \<notin> set s" "NL \<notin> set s" using a by (auto simp: list_all_iff byte_def)
  ultimately show ?thesis by (simp add: plain_text_def valid_utf8_ascii)
qed

lemma plain_escape: "valid_utf8 s \<Longrightarrow> plain_text (escape s)"
  using escape_utf8 escape_free by (simp add: plain_text_def)

lemma plain_member: "plain_text k \<Longrightarrow> plain_text v \<Longrightarrow> plain_text (member k v)"
  unfolding member_def by (intro plain_append) (simp_all add: plain_ascii byte_def)

lemma plain_join: "list_all plain_text ms \<Longrightarrow> plain_text (str_join '','' ms)"
proof (induction ms)
  case (Cons m ms)
  have c: "plain_text '',''" by (rule plain_ascii) (simp add: byte_def)
  show ?case
  proof (cases ms)
    case Nil
    then show ?thesis using Cons.prems by simp
  next
    case (Cons k ks)
    then show ?thesis using Cons.prems Cons.IH plain_append [OF _ plain_append [OF c]]
      by (simp add: str_join_Cons)
  qed
qed (simp add: plain_text_def)

lemma plain_object: "list_all plain_text ms \<Longrightarrow> plain_text (object_text ms)"
  unfolding object_text_def by (intro plain_append plain_join) (simp_all add: plain_ascii byte_def)

lemma plain_alnum: "list_all (\<lambda>c. is_ascii_digit c \<or> is_ascii_lowercase c) s \<Longrightarrow> plain_text s"
  by (rule plain_ascii) (auto simp: list_all_iff ascii_simps dest!: bspec)

lemma plain_numbers: "plain_text (dec n)" "plain_text (show_int i)" "plain_text (sha256_hex a s)"
proof -
  show d: "plain_text (dec n)" for n using dec_digits [of n] by (intro plain_alnum) (auto simp: list_all_iff)
  have "plain_text (CHR ''-'' # dec n)" for n
    using plain_append [of "''-''" "dec n"] d plain_ascii [of "''-''"] by (simp add: byte_def)
  then show "plain_text (show_int i)" using d by (simp add: show_int_def)
  show "plain_text (sha256_hex a s)"
    using hex_encode_chars plain_alnum by (simp add: sha256_hex_def hex_encode_bytes_def [symmetric])
qed

definition job_text_ok :: "string \<Rightarrow> job \<Rightarrow> string \<Rightarrow> bool" where
  "job_text_ok node_id j output \<longleftrightarrow> valid_utf8 node_id \<and> valid_utf8 (jb_request j) \<and> valid_utf8 (jb_lease j)
     \<and> valid_utf8 output"

lemma result_body_plain:
  assumes "job_text_ok node_id j output" and "st \<in> {''succeeded'', ''failed''}"
  shows "plain_text (result_body a node_id j (st, output, code))"
proof -
  have k: "plain_text ''node_id''" "plain_text ''request_id''" "plain_text ''lease_token''" "plain_text ''state''"
    "plain_text ''output''" "plain_text ''output_sha256''" "plain_text ''exit_code''" "plain_text ''succeeded''"
    "plain_text ''failed''"
    by (rule plain_ascii; simp add: byte_def)+
  show ?thesis
    unfolding result_body_def prod.case
    by (rule plain_object) (use assms k in \<open>auto simp: job_text_ok_def intro!: plain_member plain_escape plain_numbers\<close>)
qed

lemma join_longer: "m \<in> set ms \<Longrightarrow> length m \<le> length (str_join sep ms)"
  by (induction sep ms rule: str_join.induct) auto

lemma result_body_longer: "length output < length (result_body a node_id j (st, output, code))"
proof -
  let ?m = "member ''output'' (escape output)"
  have "length ?m < length (object_text ms)" if "?m \<in> set ms" for ms
    using join_longer [OF that, of "'',''"] by (simp add: object_text_def)
  then have "length ?m < length (result_body a node_id j (st, output, code))"
    by (simp add: result_body_def)
  moreover have "length (escape output) \<le> length ?m" by (simp add: member_def)
  ultimately show ?thesis using escape_longer [of "output"] by linarith
qed

text \<open>Large outputs never arrive. The control plane admits output limits up to 1 MiB and the agent
  keeps to them, but over HTTP the report is a request, and requests end at 64 KiB: the report of a
  job whose output is longer is refused as too large, however the network cuts it, so the result is
  lost and the task never leaves its lease.\<close>

theorem large_output_refused:
  assumes "target_ok (cf_endpoint cf) (''/v1/agent/tasks/'' @ jb_task j @ ''/result'')"
    and "graphic (cf_token cf)" and "cf_token cf \<noteq> []"
    and "job_text_ok (cf_node cf) j output" and "st \<in> {''succeeded'', ''failed''}"
    and "max_request_bytes \<le> length output" and "length (result_request a cf j (st, output, code)) < 2 ^ 64"
    and "concat chunks = as_bytes (result_request a cf j (st, output, code))" and "[] \<notin> set chunks"
  shows "fst (read_request chunks) = Refused ''413 Payload Too Large'' (code_body ''request_too_large'')"
proof -
  let ?body = "result_body a (cf_node cf) j (st, output, code)"
  have p: "valid_utf8 ?body" "CR \<notin> set ?body" using result_body_plain [OF assms(4,5)] by (auto simp: plain_text_def)
  have r: "result_request a cf j (st, output, code) = request_text
      (post_lines (cf_endpoint cf) (''/v1/agent/tasks/'' @ jb_task j @ ''/result'') ?body [bearer_field (cf_token cf)]) ?body"
    unfolding result_request_def request_texts ..
  then have "length ?body < 2 ^ 64" using assms(7) by (simp add: request_text_def)
  note w = post_wire [OF assms(1) _ p this, of "[bearer_field (cf_token cf)]" "cf_token cf"]
  have "max_request_bytes < length (result_request a cf j (st, output, code))"
    using assms(6) result_body_longer [of "output" a "cf_node cf" j st code] by (simp add: r request_text_def)
  then show ?thesis
    using request_refused [OF w(1,2)] assms(2,3,7,8,9) r by simp
qed


lemma escape_plain:
  assumes "list_all (\<lambda>c. is_ascii_graphic c \<and> c \<noteq> DQUOTE \<and> c \<noteq> BACKSLASH) s"
  shows "escape s = s"
proof -
  have "esc_char [c] = [c]" if "is_ascii_graphic c" "c \<noteq> DQUOTE" "c \<noteq> BACKSLASH" for c
    using that by (auto simp: esc_char_def is_control_def is_ascii_graphic_def byte_def)
  then have "concat (map (\<lambda>c. esc_char [c]) s) = s" using assms by (induction s) auto
  moreover have "graphic s" using assms by (auto simp: list_all_iff)
  ultimately show ?thesis
    using chars_of_ascii [OF graphic_ascii, of s] by (simp add: escape_esc esc_def comp_def)
qed

lemma sample_report_length:
  "length (result_request (sample_agent p pj) sample_config sample_job (''succeeded'', replicate 65536 CHR ''x'', 0)) < 2 ^ 64"
proof -
  let ?b = "result_body (sample_agent p pj) ''n1'' sample_job (''succeeded'', replicate 65536 CHR ''x'', 0)"
  have "escape (replicate 65536 CHR ''x'') = replicate 65536 CHR ''x''"
    by (rule escape_plain) (simp add: list_all_iff is_ascii_graphic_def byte_def)
  moreover have "escape ''n1'' = ''n1''" "escape ''r1'' = ''r1''" "escape ''l1'' = ''l1''"
    by (rule escape_plain; simp add: is_ascii_graphic_def byte_def)+
  moreover have "length (sha256_hex a s) = 2 * length (ring_sha256 a (as_bytes s))" for a s
    by (simp add: sha256_hex_def hex_encode_bytes_def [symmetric])
  moreover have "length (sha256 bs) = 32" for bs by (rule length_sha256)
  moreover have "length (show_int 0) \<le> 1" by (simp add: show_int_def dec_def show_radix.simps)
  ultimately have b: "length ?b < 10 ^ 9"
    by (simp add: result_body_def object_text_def member_def sample_job_def sample_agent_def)
  then have "length (dec (length ?b)) \<le> 9" unfolding dec_def by (intro show_radix_length) simp_all
  then show ?thesis using b
    by (simp add: result_request_def post_request_def request_head_def sample_config_def sample_job_def)
qed

theorem large_output_refused_witness:
  "fst (read_request [as_bytes (result_request (sample_agent (\<lambda>_. []) (\<lambda>_. None)) sample_config sample_job
      (''succeeded'', replicate 65536 CHR ''x'', 0))])
   = Refused ''413 Payload Too Large'' (code_body ''request_too_large'')"
proof (rule large_output_refused [where cf = sample_config and st = "''succeeded''" and code = 0])
  show "length (result_request (sample_agent (\<lambda>_. []) (\<lambda>_. None)) sample_config sample_job
      (''succeeded'', replicate 65536 CHR ''x'', 0)) < 2 ^ 64" by (rule sample_report_length)
  show "target_ok (cf_endpoint sample_config) (''/v1/agent/tasks/'' @ jb_task sample_job @ ''/result'')"
    by (simp add: target_ok_def sample_config_def sample_job_def ascii_simps)
  have "valid_utf8 (replicate n CHR ''x'')" for n by (induction n) (simp_all add: byte_def)
  then show "job_text_ok (cf_node sample_config) sample_job (replicate 65536 CHR ''x'')"
    by (simp add: job_text_ok_def sample_config_def sample_job_def byte_def)
  show "[] \<notin> set [as_bytes (result_request (sample_agent (\<lambda>_. []) (\<lambda>_. None)) sample_config sample_job
      (''succeeded'', replicate 65536 CHR ''x'', 0))]"
    by (simp add: result_request_def post_request_def request_head_def as_bytes_def)
qed (simp_all add: sample_config_def max_request_bytes_def ascii_simps)

section \<open>Responses\<close>

text \<open>A status line of the control plane: a number of three digits and a reason.\<close>

definition status_ok :: "nat \<Rightarrow> string \<Rightarrow> bool" where
  "status_ok n s \<longleftrightarrow> n < 2 ^ 16 \<and> (\<exists>reason. s = dec n @ SP # reason \<and> list_all (\<lambda>c. is_ascii_graphic c \<or> c = SP) reason)"

definition response_lines :: "string \<Rightarrow> string \<Rightarrow> string list" where
  "response_lines status body =
     [''HTTP/1.1 '' @ status,
      ''Content-Type: '' @ (if str_starts_with body ''<!doctype html>''
                          then ''text/html; charset=utf-8'' else ''application/json; charset=utf-8''),
      ''Content-Length: '' @ dec (length body), ''Cache-Control: no-store'', ''Pragma: no-cache'',
      ''X-Content-Type-Options: nosniff'',
      ''Content-Security-Policy: default-src '' @ [CHR 0x27] @ ''none'' @ [CHR 0x27]
         @ ''; script-src '' @ [CHR 0x27] @ ''unsafe-inline'' @ [CHR 0x27]
         @ ''; style-src '' @ [CHR 0x27] @ ''unsafe-inline'' @ [CHR 0x27],
      ''Connection: close'']"

lemma write_response_text: "write_response status body = request_text (response_lines status body) body"
  by (simp add: write_response_def request_text_def response_lines_def Let_def)

lemma response_lines_ok:
  assumes "status_ok n status"
  shows "list_all line_ok (response_lines status body)"
    and "list_all (list_all (\<lambda>c. byte c < 128)) (response_lines status body)"
proof -
  obtain r where s: "status = dec n @ SP # r" "list_all (\<lambda>c. is_ascii_graphic c \<or> c = SP) r"
    using assms by (auto simp: status_ok_def)
  have free: "CR \<notin> set (dec k)" "NL \<notin> set (dec k)" "list_all (\<lambda>c. byte c < 128) (dec k)" for k
    using graphic_free [OF dec_graphic] graphic_ascii [OF dec_graphic] by auto
  have rf: "CR \<notin> set r" "NL \<notin> set r" "list_all (\<lambda>c. byte c < 128) r"
    using s(2) by (auto simp: list_all_iff is_ascii_graphic_def byte_def)
  show "list_all line_ok (response_lines status body)"
    using s(1) free rf by (simp add: response_lines_def line_ok_def)
  show "list_all (list_all (\<lambda>c. byte c < 128)) (response_lines status body)"
    using s(1) free rf by (simp add: response_lines_def byte_def)
qed

lemma response_status_written:
  assumes "status_ok n status"
  shows "response_status (write_response status body) = n"
proof -
  obtain r where s: "status = dec n @ SP # r" "n < 2 ^ 16" using assms by (auto simp: status_ok_def)
  have l: "str_lines (write_response status body) = response_lines status body @ str_lines (crlf @ body)"
    using str_lines_crlf [of "response_lines status body" "crlf @ body"] response_lines_ok(1) [OF assms]
    by (simp add: write_response_text request_text_def head_text_def line_ok_def list_all_iff)
  have "split_whitespace (''HTTP/1.1 '' @ status) = ''HTTP/1.1'' # dec n # split_whitespace r"
    using split_whitespace_word [of "''HTTP/1.1''" status] split_whitespace_word [OF dec_graphic, of n r] s(1)
    by (simp add: is_ascii_graphic_def byte_def)
  then show ?thesis
    using l s(2) parse_uint_dec [of n "2 ^ 16 - 1"]
    by (simp add: response_status_def response_lines_def parse_u16_def)
qed

lemma response_body_written:
  assumes "status_ok n status" and "CR \<notin> set body"
  shows "response_body (write_response status body) =
    (if 200 \<le> n \<and> n < 300 then Inr body else Inl (''control plane returned HTTP '' @ dec n @ '': '' @ body))"
proof -
  let ?ls = "response_lines status body"
  have ne: "?ls \<noteq> []" by (simp add: response_lines_def)
  have w: "window_position [CR, NL, CR, NL] (write_response status body) = Some (length (head_text ?ls) - 2)"
    using window_head [OF response_lines_ok(1) [OF assms(1)] ne] by (simp add: write_response_text request_text_def)
  have "length (head_text ?ls) - 2 + length [CR, NL, CR, NL] = length (head_text ?ls @ crlf)"
    using head_text_length [OF ne] by simp
  then have "drop (length (head_text ?ls) - 2 + length [CR, NL, CR, NL]) (write_response status body) = body"
    by (simp add: write_response_text request_text_def)
  then have "after_head (write_response status body) = body"
    using w window_none [OF assms(2), of "[NL, CR, NL]"]
    unfolding after_head_def second_piece_def crlf2_bytes(2) by (simp only: option.case Let_def)
  then show ?thesis using response_status_written [OF assms(1)] by (simp add: response_body_def Let_def)
qed

end
