(* ===== verification/Agent_Protocol.thy ===== *)
theory Agent_Protocol
  imports Agent_Wire Server_Safety
begin

text \<open>
  The agent (\<open>node-runtime/src/main.rs\<close>) and the control plane (\<open>control-plane/src/main.rs\<close>)
  together: a call of the agent is a route of the control plane, the channel's handshake succeeds, a
  heartbeat the control plane answers is one the agent accepts, and a report completes its task.
\<close>

section \<open>A call is a route\<close>

text \<open>A way the network cuts a text into blocks.\<close>

definition splits :: "(bytes \<Rightarrow> bytes list) \<Rightarrow> bool" where
  "splits pack \<longleftrightarrow> (\<forall>bs. concat (pack bs) = bs \<and> [] \<notin> set (pack bs))"

text \<open>The network whose far end is \<open>handle\<close> on a state.\<close>

definition connected ::
  "(bytes \<Rightarrow> bytes list) \<Rightarrow> (bytes \<Rightarrow> bytes list) \<Rightarrow> (bytes \<Rightarrow> bytes) \<Rightarrow> env \<Rightarrow> (nat \<Rightarrow> env) \<Rightarrow> state \<Rightarrow> network" where
  "connected up down sha1 e es st k request = Inr (down (fst (handle sha1 e es (up (as_bytes request)) st)))"

lemma read_blocks_all:
  "[] \<notin> set cs \<Longrightarrow> length (bs @ concat cs) \<le> MAX_HTTP_RESPONSE_BYTES \<Longrightarrow> read_blocks cs bs = Inr (bs @ concat cs)"
  by (induction cs arbitrary: bs) auto

lemma response_read:
  assumes "splits down" and "valid_utf8 text" and "length text \<le> MAX_HTTP_RESPONSE_BYTES"
  shows "read_response (down (as_bytes text)) = Inr text"
  using read_blocks_all [of "down (as_bytes text)" "[]"] assms
  by (simp add: read_response_def splits_def from_utf8_def)

lemma response_utf8: "status_ok n status \<Longrightarrow> valid_utf8 body \<Longrightarrow> CR \<notin> set body \<Longrightarrow> valid_utf8 (write_response status body)"
  unfolding write_response_text
  by (rule wire_utf8) (simp add: wire_ok_def response_lines_ok, simp add: response_lines_def)

definition answered :: "nat \<Rightarrow> string \<Rightarrow> string + string" where
  "answered n body =
     (if 200 \<le> n \<and> n < 300 then Inr body else Inl (''control plane returned HTTP '' @ dec n @ '': '' @ body))"

lemma handled_call:
  assumes "fst (read_request chunks) = Request h verb path body token" and "verb = ''GET'' \<longrightarrow> \<not> websocket_path path"
    and "route_with_actor verb path body (au_authorized (authenticate_request e st path body token))
        (au_admin (authenticate_request e st path body token)) (au_actor (authenticate_request e st path body token))
        (later e) st = (Done (status, response), st')"
  shows "handle sha1 e es chunks st = (as_bytes (write_response status response), st')"
  using assms by (cases "read_request chunks") (auto simp: handle_def Let_def)

lemma handled_refusal:
  "fst (read_request chunks) = Refused status response \<Longrightarrow>
   handle sha1 e es chunks st = (as_bytes (write_response status response), st)"
  by (cases "read_request chunks") (simp add: handle_def)

lemma answer_read:
  assumes "handle sha1 e es (up (as_bytes request)) st = (as_bytes (write_response status response), st')"
    and "splits down" and "status_ok n status" and "valid_utf8 response" and "CR \<notin> set response"
    and "length (write_response status response) \<le> MAX_HTTP_RESPONSE_BYTES"
  shows "exchange (connected up down sha1 e es st) k request = answered n response"
  using response_read [OF assms(2) response_utf8 [OF assms(3-5)] assms(6)] response_body_written [OF assms(3,5)] assms(1)
  by (simp add: exchange_def connected_def answered_def)

text \<open>The three kinds of calls: authenticated posts (heartbeats, reports, renewals), the poll, and the post
  of an enrolment, which has no token.\<close>

definition agent_call :: "string \<Rightarrow> string \<Rightarrow> string \<Rightarrow> string \<Rightarrow> string \<Rightarrow> string \<Rightarrow> bool" where
  "agent_call endpoint verb path body token request \<longleftrightarrow>
     target_ok endpoint path \<and> graphic token \<and> valid_utf8 body \<and> CR \<notin> set body
     \<and> (verb = ''POST'' \<and> token \<noteq> [] \<and> request = post_request endpoint path body token
        \<or> verb = ''GET'' \<and> token \<noteq> [] \<and> body = [] \<and> \<not> websocket_path path \<and> request = get_request endpoint path token
        \<or> verb = ''POST'' \<and> token = [] \<and> (\<exists>r. body = CHR 0x7B # r \<and> NL \<notin> set r)
          \<and> request = post_request_unauthenticated endpoint path body)"

lemma call_read:
  assumes "agent_call endpoint verb path body token request" and "[] \<notin> set chunks"
    and "concat chunks = as_bytes request"
  shows "length request \<le> max_request_bytes \<Longrightarrow> \<exists>h. fst (read_request chunks) = Request h verb path body token"
    and "max_request_bytes < length request \<Longrightarrow> length request < 2 ^ 64 \<Longrightarrow>
      fst (read_request chunks) = Refused ''413 Payload Too Large'' (code_body ''request_too_large'')"
proof -
  have c: "target_ok endpoint path" "graphic token" "valid_utf8 body" "CR \<notin> set body"
    using assms(1) by (simp_all add: agent_call_def)
  have len: "length (concat chunks) = length request" using assms(3) by simp
  consider (post) "verb = ''POST''" "token \<noteq> []" "request = post_request endpoint path body token"
    | (get) "verb = ''GET''" "token \<noteq> []" "body = []" "request = get_request endpoint path token"
    | (bare) r where "verb = ''POST''" "token = []" "body = CHR 0x7B # r" "NL \<notin> set r"
        "request = post_request_unauthenticated endpoint path body"
    using assms(1) by (auto simp: agent_call_def)
  then show "\<exists>h. fst (read_request chunks) = Request h verb path body token" if "length request \<le> max_request_bytes"
    using that post_read [OF c(1,2) _ c(3,4) assms(2)] get_read [OF c(1,2) _ assms(2)]
      post_read_unauthenticated [OF c(1,3,4) assms(2)] assms(3) len
    by cases simp_all
  assume big: "max_request_bytes < length request" "length request < 2 ^ 64"
  have ref: "fst (read_request chunks) = Refused ''413 Payload Too Large'' (code_body ''request_too_large'')" if "request = request_text ls b" "wire_ok ls b" "content_length_loop (tl ls) None = Inr (length b)" for ls b
    using request_refused [OF that(2,3) _ _ _ assms(2)] big assms(3) that(1) by simp
  consider (post) auth where "request = request_text (post_lines endpoint path body auth) body"
        "auth = [bearer_field token] \<and> token \<noteq> [] \<or> auth = []"
    | (get) "body = []" "token \<noteq> []"
        "request = request_text (get_lines endpoint path [bearer_field token, header_field ''Connection'' ''close'']) []"
    using assms(1) by (auto simp: agent_call_def request_texts)
  then show "fst (read_request chunks) = Refused ''413 Payload Too Large'' (code_body ''request_too_large'')"
  proof cases
    case post
    have "length body < 2 ^ 64" using big post(1) by (simp add: request_text_def)
    from post_wire(1,2) [OF c(1) _ c(3,4) this, of auth token] show ?thesis
      using ref [OF post(1)] post(2) c(2) by auto
  next
    case get
    then show ?thesis using ref [OF get(3)] get_wire(1,2) [OF c(1,2) get(2)] by simp
  qed
qed

lemma too_large_answer:
  "status_ok 413 ''413 Payload Too Large''" "valid_utf8 (code_body ''request_too_large'')"
  "CR \<notin> set (code_body ''request_too_large'')"
  "length (write_response ''413 Payload Too Large'' (code_body ''request_too_large'')) \<le> MAX_HTTP_RESPONSE_BYTES"
proof -
  show "status_ok 413 ''413 Payload Too Large''"
    by (simp add: status_ok_def dec_def show_radix.simps digit_char_def ascii_simps flip: byte_inject)
  have b: "list_all (\<lambda>c. 32 \<le> byte c \<and> byte c < 127) (code_body ''request_too_large'')" "length (code_body ''request_too_large'') < 100"
    by (simp_all add: code_body_def byte_def)
  show "valid_utf8 (code_body ''request_too_large'')" "CR \<notin> set (code_body ''request_too_large'')"
    using plain_ascii [OF b(1)] by (simp_all add: plain_text_def)
  have "length (dec (length (code_body ''request_too_large''))) \<le> 2"
    by (simp add: code_body_def dec_def show_radix.simps)
  then show "length (write_response ''413 Payload Too Large'' (code_body ''request_too_large'')) \<le> MAX_HTTP_RESPONSE_BYTES"
    using b(2) by (simp add: write_response_text request_text_def head_text_def response_lines_def MAX_HTTP_RESPONSE_BYTES_def)
qed

text \<open>C30: A call of the agent is a route of the control plane. Take any HTTP call the agent makes, a post
  with its token, a poll, or the post of an enrolment, with a printable endpoint, path and token and
  a UTF-8 body without carriage returns (and, for the enrolment, without line ends), at a control
  plane in some state. If the request has at most 64 KiB and the route for that verb, path, body and
  token answers, then what the agent gets back is that answer: the body when the status is a success, an
  error naming the status otherwise; and the control plane is left in the state of that route. If the
  request is larger, the agent gets the error for status 413 and the control plane is left as it was.
  Both hold however the network cuts request and response.\<close>

theorem agent_call_is_route:
  assumes "splits up" and "splits down" and "agent_call endpoint verb path body token request"
    and "length request < 2 ^ 64"
    and "route_with_actor verb path body (au_authorized (authenticate_request e st path body token))
        (au_admin (authenticate_request e st path body token)) (au_actor (authenticate_request e st path body token))
        (later e) st = (Done (status, response), st')"
    and "status_ok n status" and "valid_utf8 response" and "CR \<notin> set response"
    and "length (write_response status response) \<le> MAX_HTTP_RESPONSE_BYTES"
  shows "exchange (connected up down sha1 e es st) k request
      = (if length request \<le> max_request_bytes then answered n response
         else answered 413 (code_body ''request_too_large''))
    \<and> snd (handle sha1 e es (up (as_bytes request)) st) = (if length request \<le> max_request_bytes then st' else st)"
proof -
  have c: "[] \<notin> set (up (as_bytes request))" "concat (up (as_bytes request)) = as_bytes request"
    using assms(1) by (simp_all add: splits_def)
  have g: "verb = ''GET'' \<longrightarrow> \<not> websocket_path path" using assms(3) by (auto simp: agent_call_def)
  show ?thesis
  proof (cases "length request \<le> max_request_bytes")
    case True
    then obtain h where "fst (read_request (up (as_bytes request))) = Request h verb path body token"
      using call_read(1) [OF assms(3) c] by blast
    from handled_call [OF this g assms(5)]
    have h: "handle sha1 e es (up (as_bytes request)) st = (as_bytes (write_response status response), st')" .
    from answer_read [of sha1 e es up request st, OF h assms(2,6-9)] show ?thesis using h True by simp
  next
    case False
    then have "fst (read_request (up (as_bytes request))) = Refused ''413 Payload Too Large'' (code_body ''request_too_large'')"
      using call_read(2) [OF assms(3) c _ assms(4)] by simp
    from handled_refusal [OF this]
    have h: "handle sha1 e es (up (as_bytes request)) st
      = (as_bytes (write_response ''413 Payload Too Large'' (code_body ''request_too_large'')), st)" .
    from answer_read [of sha1 e es up request st, OF h assms(2) too_large_answer] show ?thesis using h False by simp
  qed
qed

section \<open>The handshake of the channel\<close>

lemma base64_same: "agent_base64_encode bs = base64_encode bs"
proof (induction bs rule: agent_base64_encode.induct)
  case (2 a bs)
  then show ?case by (simp add: agent_base64_chunk_def base64_chunk_def base64_char_def Let_def)
qed simp

lemma accept_same: "ring_sha1 a = sha1 \<Longrightarrow> agent_websocket_accept a key = websocket_accept sha1 key"
  by (simp add: agent_websocket_accept_def websocket_accept_def base64_same)

text \<open>A node identifier is written into the URL by the JSON escape; it arrives unless it has a quote.\<close>

lemma node_id_escape: "valid_node_id n \<Longrightarrow> DQUOTE \<notin> set n \<Longrightarrow> escape n = n"
  by (rule escape_plain) (auto simp: valid_node_id_def node_id_char_def list_all_iff)

lemma quoted_id_unreachable:
  assumes "valid_node_id (p @ DQUOTE # s)" and "query_field (''/v1/agent/tasks?node_id='' @ escape (p @ DQUOTE # s)) ''node_id'' = Some n"
  shows "n \<noteq> p @ DQUOTE # s"
proof -
  have g: "graphic (p @ DQUOTE # s)" "CHR ''&'' \<notin> set (p @ DQUOTE # s)"
    using assms(1) by (auto simp: valid_node_id_def node_id_char_def list_all_iff)
  have e: "escape t = concat (map (\<lambda>c. esc_char [c]) t)" if "graphic t" for t
    using chars_of_ascii [OF graphic_ascii [OF that]] by (simp add: escape_esc esc_def comp_def)
  have l: "length (escape t) \<ge> length t" for t by (rule escape_longer)
  have gs: "graphic p" "graphic s" using g by auto
  have x: "escape (p @ DQUOTE # s) = escape p @ [BACKSLASH, DQUOTE] @ escape s"
    using e [OF g(1)] e [OF gs(1)] e [OF gs(2)] by (simp add: esc_char_def)
  have len: "length (escape (p @ DQUOTE # s)) \<noteq> length (p @ DQUOTE # s)"
    using l [of p] l [of s] unfolding x by simp
  have ec: "set (esc_char [c]) \<subseteq> {BACKSLASH, c}" if "is_ascii_graphic c" for c
    using that by (auto simp: esc_char_def is_control_def is_ascii_graphic_def byte_def)
  have "CHR ''&'' \<notin> set (escape (p @ DQUOTE # s))"
    unfolding e [OF g(1)] using g ec by (fastforce simp: list_all_iff)
  then have "query_field (''/v1/agent/tasks'' @ CHR ''?'' # ''node_id'' @ CHR ''='' # escape (p @ DQUOTE # s)) ''node_id''
      = Some (escape (p @ DQUOTE # s))"
    by (intro query_field_first) simp_all
  then have "n = escape (p @ DQUOTE # s)" using assms(2) by simp
  then show ?thesis using len by auto
qed

text \<open>The lines of the upgrade request.\<close>

definition upgrade_fields :: "string \<Rightarrow> string \<Rightarrow> string list" where
  "upgrade_fields key token =
     [header_field ''Upgrade'' ''websocket'', header_field ''Connection'' ''Upgrade'',
      header_field ''Sec-WebSocket-Key'' key, header_field ''Sec-WebSocket-Version'' ''13'', bearer_field token]"

lemma upgrade_text:
  "upgrade_request endpoint node_id token key
   = request_text (get_lines endpoint (''/v1/agent/ws?node_id='' @ escape node_id) (upgrade_fields key token)) []"
  by (simp add: upgrade_request_def request_head_def request_text_def head_text_def get_lines_def start_line_def
      header_field_def bearer_field_def upgrade_fields_def)

lemma base64_char_graphic: "d < 64 \<Longrightarrow> is_ascii_graphic (base64_char d)"
proof -
  assume "d < 64"
  then have "unat d < length base64_table" by (simp add: word_less_nat_alt base64_table_def)
  then have "base64_char d \<in> set base64_table" by (simp add: base64_char_def)
  moreover have "graphic base64_table" by (simp add: base64_table_def ascii_simps)
  ultimately show ?thesis by (simp add: list_all_iff)
qed

lemma chunk_shape: "graphic (base64_chunk (a # take 2 bs)) \<and> length (base64_chunk (a # take 2 bs)) = 4"
proof -
  note g = six_bits [THEN base64_char_graphic]
  consider "bs = []" | b where "bs = [b]" | b c r where "bs = b # c # r"
    by (cases bs; cases "tl bs") auto
  then show ?thesis
    by cases (simp_all add: chunk_chars g, simp_all add: is_ascii_graphic_def byte_def)
qed

lemma base64_shape: "graphic (base64_encode bs) \<and> length (base64_encode bs) = 4 * ((length bs + 2) div 3)"
proof (induction bs rule: base64_encode.induct)
  case (2 a bs)
  have "(3 + n) div 3 = Suc (Suc (Suc (n - 2)) div 3)" for n :: nat by presburger
  then have "(length (a # bs) + 2) div 3 = Suc ((length (drop 2 bs) + 2) div 3)" by simp
  then show ?case using 2 chunk_shape [of a bs] by simp
qed simp

lemma header_field_pair: "field_ok n v \<Longrightarrow> header_pair (header_field n v) = Some (n, v)"
  using field_split field_trim by (simp add: header_pair_def)

lemma client_key_shape:
  assumes "websocket_client_key a k = Inr key"
  shows "graphic key \<and> length key = 24"
proof -
  obtain bs where "key = base64_encode (take 16 bs)" "16 \<le> length bs"
    using assms by (auto simp: websocket_client_key_def base64_same split: option.splits if_splits)
  then show ?thesis using base64_shape [of "take 16 bs"] by simp
qed


lemma upgrade_wire:
  assumes "target_ok endpoint path" and "graphic token" and "token \<noteq> []" and "graphic key" and "key \<noteq> []"
  shows "wire_ok (get_lines endpoint path (upgrade_fields key token)) []"
    and "content_length_loop (tl (get_lines endpoint path (upgrade_fields key token))) None = Inr 0"
    and "bearer_in (get_lines endpoint path (upgrade_fields key token) @ ls) = token"
proof -
  have p: "graphic ''GET''" by (simp add: ascii_simps)
  have k: "field_ok ''Sec-WebSocket-Key'' key"
    using graphic_printable [OF assms(4,5)] by (simp add: field_ok_def printable_def ascii_simps)
  note t = assms(1) [unfolded target_ok_def]
  show "wire_ok (get_lines endpoint path (upgrade_fields key token)) []"
    using assms t p k by (auto simp: wire_ok_def get_lines_def upgrade_fields_def field_facts bearer_facts)
  show "content_length_loop (tl (get_lines endpoint path (upgrade_fields key token))) None = Inr 0"
    using assms t k
    by (auto simp: get_lines_def upgrade_fields_def length_skip field_facts names_differ bearer_facts
        simp del: content_length_loop.simps(2))
  show "bearer_in (get_lines endpoint path (upgrade_fields key token) @ ls) = token"
    using assms t k bearer_start_line
    by (simp add: get_lines_def upgrade_fields_def bearer_skip bearer_facts field_facts names_differ)
qed

lemma start_line_key: "header_pair (start_line ''GET'' path) = Some (k, v) \<Longrightarrow> \<not> eq_ignore_ascii_case k ''sec-websocket-key''"
proof -
  assume "header_pair (start_line ''GET'' path) = Some (k, v)"
  then obtain m w where "split_once (start_line ''GET'' path) CHR '':'' = Some (m, w)" "k = str_trim m"
    by (auto simp: header_pair_def)
  then obtain r where "m = CHR ''G'' # r" "k = str_trim m"
    by (auto simp: split_once_def start_line_def split: if_splits)
  moreover obtain t where "str_trim (CHR ''G'' # r) = CHR ''G'' # t" using str_trim_starts by (fastforce simp: ascii_simps)
  ultimately show ?thesis
    by (simp add: eq_ignore_ascii_case_def to_ascii_lowercase_def to_lower_def ascii_simps flip: byte_inject)
qed

lemma upgrade_header:
  assumes "target_ok endpoint path" and "graphic key" and "key \<noteq> []"
    and "str_lines header = get_lines endpoint path (upgrade_fields key token)"
  shows "has_header header ''upgrade'' ''websocket''" and "has_header_token header ''connection'' ''upgrade''"
    and "header_value header ''sec-websocket-key'' = Some key"
proof -
  note t = assms(1) [unfolded target_ok_def]
  have k: "field_ok ''Sec-WebSocket-Key'' key"
    using graphic_printable [OF assms(2,3)] by (simp add: field_ok_def printable_def ascii_simps)
  have e: "eq_ignore_ascii_case ''Upgrade'' ''upgrade''" "eq_ignore_ascii_case ''Connection'' ''connection''"
    "eq_ignore_ascii_case ''websocket'' ''websocket''" "eq_ignore_ascii_case ''Sec-WebSocket-Key'' ''sec-websocket-key''"
    "\<not> eq_ignore_ascii_case ''Host'' ''sec-websocket-key''" "\<not> eq_ignore_ascii_case ''Upgrade'' ''sec-websocket-key''"
    "\<not> eq_ignore_ascii_case ''Connection'' ''sec-websocket-key''"
    by (simp_all add: eq_ignore_ascii_case_def to_ascii_lowercase_def to_lower_def ascii_simps flip: byte_inject)
  show "has_header header ''upgrade'' ''websocket''"
    using header_field_pair [OF constant_fields(4)] e
    by (simp add: has_header_def assms(4) get_lines_def upgrade_fields_def)
  have "str_trim (SP # ''Upgrade'') = ''Upgrade''" "str_split (SP # ''Upgrade'') CHR '','' = [SP # ''Upgrade'']"
    using field_trim [OF constant_fields(5)] by (simp_all add: str_split_none)
  then show "has_header_token header ''connection'' ''upgrade''"
    using field_split [OF constant_fields(5)] field_trim [OF constant_fields(5)] e
    by (simp add: has_header_token_def assms(4) get_lines_def upgrade_fields_def)
  show "header_value header ''sec-websocket-key'' = Some key"
    using header_field_pair [OF host_field, of endpoint] header_field_pair [OF constant_fields(4)]
      header_field_pair [OF constant_fields(5)] header_field_pair [OF k] e t start_line_key [of path]
    by (simp add: header_value_def assms(4) get_lines_def upgrade_fields_def split: option.splits)
qed

lemma accepted_handshake:
  assumes "ring_sha1 a = sha1"
  shows "check_handshake a key (switching_protocols (websocket_accept sha1 key)) = Inr ()"
proof -
  let ?k = "websocket_accept sha1 key"
  let ?ls = "[''HTTP/1.1 101 Switching Protocols'', ''Upgrade: websocket'', ''Connection: Upgrade'', header_field ''Sec-WebSocket-Accept'' ?k]"
  have g: "graphic ?k" using base64_shape by (simp add: websocket_accept_def)
  have c: "CR \<notin> set ?k" "NL \<notin> set ?k" using graphic_free [OF g] by simp_all
  have l: "str_lines (switching_protocols ?k) = ?ls @ str_lines crlf"
    using str_lines_crlf [of ?ls crlf] c by (simp add: switching_protocols_def header_field_def Let_def)
  have s: "split_whitespace ''HTTP/1.1 101 Switching Protocols'' = ''HTTP/1.1'' # ''101'' # split_whitespace ''Switching Protocols''"
    using split_whitespace_word [of "''HTTP/1.1''" "''101'' @ SP # ''Switching Protocols''"]
      split_whitespace_word [of "''101''" "''Switching Protocols''"] by (simp add: ascii_simps)
  have st: "response_status (switching_protocols ?k) = 101"
    using l s by (simp add: response_status_def parse_u16_def parse_uint_def digit_of_def ascii_simps Let_def)
  have u: "split_once ''Upgrade: websocket'' CHR '':'' = Some (''Upgrade'', SP # ''websocket'')"
    "split_once ''Connection: Upgrade'' CHR '':'' = Some (''Connection'', SP # ''Upgrade'')"
    "split_once ''HTTP/1.1 101 Switching Protocols'' CHR '':'' = None"
    "split_once (header_field ''Sec-WebSocket-Accept'' ?k) CHR '':'' = Some (''Sec-WebSocket-Accept'', SP # ?k)"
    by (simp_all add: split_once_def header_field_def)
  have t: "str_trim ''Upgrade'' = ''Upgrade''" "str_trim ''Connection'' = ''Connection''"
    "str_trim ''Sec-WebSocket-Accept'' = ''Sec-WebSocket-Accept''"
    by (rule str_trim_graphic; simp add: ascii_simps)+
  have kt: "str_trim (SP # ?k) = ?k"
  proof (cases "?k = []")
    case False
    then show ?thesis using trim_printable(1) graphic_printable [OF g] by blast
  next
    case True
    then show ?thesis by (simp add: str_trim_def utf8_width_def byte_def)
  qed
  have e: "\<not> eq_ignore_ascii_case ''Upgrade'' ''sec-websocket-accept''" "\<not> eq_ignore_ascii_case ''Connection'' ''sec-websocket-accept''"
    "eq_ignore_ascii_case ''Sec-WebSocket-Accept'' ''sec-websocket-accept''"
    by (simp_all add: eq_ignore_ascii_case_def to_ascii_lowercase_def to_lower_def ascii_simps flip: byte_inject)
  have "ws_header_value (switching_protocols ?k) ''sec-websocket-accept'' = Some ?k"
    using l u t kt e by (simp add: ws_header_value_def)
  then show ?thesis using st accept_same [OF assms, of key] by (simp add: check_handshake_def Let_def)
qed


lemma node_path:
  assumes "valid_node_id n" and "DQUOTE \<notin> set n"
  shows "graphic (''/v1/agent/ws?node_id='' @ escape n)" and "websocket_path (''/v1/agent/ws?node_id='' @ escape n)"
    and "query_field (''/v1/agent/ws?node_id='' @ escape n) ''node_id'' = Some n"
proof -
  have g: "graphic n" "CHR ''&'' \<notin> set n"
    using assms(1) by (auto simp: valid_node_id_def node_id_char_def list_all_iff)
  have e: "escape n = n" using node_id_escape [OF assms] .
  show "graphic (''/v1/agent/ws?node_id='' @ escape n)" using g by (simp add: e ascii_simps)
  have "split_once (''/v1/agent/ws'' @ CHR ''?'' # ''node_id='' @ n) CHR ''?'' = Some (''/v1/agent/ws'', ''node_id='' @ n)"
    by (rule split_once_append) simp
  then show "websocket_path (''/v1/agent/ws?node_id='' @ escape n)" by (simp add: websocket_path_def e)
  show "query_field (''/v1/agent/ws?node_id='' @ escape n) ''node_id'' = Some n"
    using query_field_first [of "''/v1/agent/ws''" "''node_id''" n] g by (simp add: e)
qed

text \<open>C31: The channel opens. If the agent's SHA-1 is that of the control plane, then the upgrade request
  the agent writes for a node with a valid identifier without a quote, sent with a credential that
  authenticates that node, makes the control plane answer 101 with an accept key, and the check of
  the agent accepts that answer, whatever random bytes its key was made of.\<close>

theorem handshake_succeeds:
  assumes "websocket_client_key a k = Inr key" and "ring_sha1 a = sha1"
    and "valid_node_id n" and "DQUOTE \<notin> set n" and "graphic endpoint" and "endpoint \<noteq> []"
    and "graphic token" and "token \<noteq> []" and "splits up"
    and "length (upgrade_request endpoint n token key) \<le> max_request_bytes"
    and "auth = authenticate_request e st (''/v1/agent/ws?node_id='' @ escape n) [] token"
    and "au_node auth \<and> \<not> au_admin auth"
  shows "\<exists>outs. fst (handle sha1 e es (up (as_bytes (upgrade_request endpoint n token key))) st)
      = as_bytes (switching_protocols (websocket_accept sha1 key)) @ outs
    \<and> check_handshake a key (switching_protocols (websocket_accept sha1 key)) = Inr ()"
proof -
  let ?path = "''/v1/agent/ws?node_id='' @ escape n"
  let ?ls = "get_lines endpoint ?path (upgrade_fields key token)"
  let ?chunks = "up (as_bytes (upgrade_request endpoint n token key))"
  note p = node_path [OF assms(3,4)]
  have k: "graphic key" "length key = 24" "key \<noteq> []" using client_key_shape [OF assms(1)] by auto
  have t: "target_ok endpoint ?path" using assms(5,6) p(1) by (simp add: target_ok_def)
  note w = upgrade_wire [OF t assms(7,8) k(1,3)]
  have c: "concat ?chunks = as_bytes (request_text ?ls [])" "[] \<notin> set ?chunks"
    using assms(9) by (simp_all add: splits_def upgrade_text)
  define header where "header = head_text (butlast ?ls) @ last ?ls"
  have "fst (read_request ?chunks) = Request header ''GET'' ?path [] token"
    using request_read [OF w(1) _ _ c] w(2,3) assms(10) get_wire(3) [OF t assms(7,8)]
    by (simp add: upgrade_text nth_word_def header_def)
  then obtain rest where r: "read_request ?chunks = (Request header ''GET'' ?path [] token, rest)"
    by (cases "read_request ?chunks") auto
  have "str_lines header = ?ls"
    unfolding header_def using w(1) by (intro head_lines) (auto simp: wire_ok_def)
  note h = upgrade_header [OF t k(1,3) this]
  obtain outs st' fin where l: "websocket_loop es n token (concat (takeWhile (\<lambda>chunk. chunk \<noteq> []) rest)) st = (outs, st', fin)"
    using prod_cases3 by blast
  have "handle_websocket sha1 es header ?path token (concat (takeWhile (\<lambda>chunk. chunk \<noteq> []) rest)) st
      = (as_bytes (switching_protocols (websocket_accept sha1 key)) @ outs, st', fin)"
    using h(3) k p(3) assms(3) l by (simp add: handle_websocket_def Let_def)
  then have "fst (handle sha1 e es ?chunks st) = as_bytes (switching_protocols (websocket_accept sha1 key)) @ outs"
    using r h(1,2) p(2) assms(11,12) by (simp add: handle_def Let_def)
  then show ?thesis using accepted_handshake [OF assms(2)] by blast
qed


section \<open>Heartbeats\<close>

text \<open>An acknowledgement that negotiates everything the agent has.\<close>

definition full_ack :: "string \<Rightarrow> string" where
  \<open>full_ack node = ''{"protocol_version":1,"negotiated_abilities":['' @ str_join '','' (map quoted AGENT_ABILITIES)
     @ ''],"node":'' @ node @ ''}''\<close>

lemma abilities_split: "str_split AGENT_ABILITIES_CSV CHR '','' = AGENT_ABILITIES"
  by (simp add: AGENT_ABILITIES_CSV_def AGENT_ABILITIES_def str_split_def)

lemma abilities_negotiated: "normalize_abilities AGENT_ABILITIES_CSV = Some AGENT_ABILITIES_CSV"
proof -
  have "map str_trim AGENT_ABILITIES = AGENT_ABILITIES"
    by (simp add: AGENT_ABILITIES_def str_trim_graphic ascii_simps)
  moreover have "normalize_loop [] AGENT_ABILITIES = Some AGENT_ABILITIES"
    by (simp add: AGENT_ABILITIES_def SUPPORTED_ABILITIES_def)
  moreover have "filter (\<lambda>v. v \<noteq> []) AGENT_ABILITIES = AGENT_ABILITIES" by (simp add: AGENT_ABILITIES_def)
  moreover have "str_join '','' AGENT_ABILITIES = AGENT_ABILITIES_CSV"
    by (simp add: AGENT_ABILITIES_def AGENT_ABILITIES_CSV_def)
  ultimately show ?thesis by (simp add: normalize_abilities_def abilities_split) (simp add: AGENT_ABILITIES_def)
qed

lemma set_platform_abilities: "nd_abilities (set_platform e body n) = nd_abilities n"
  by (simp add: set_platform_def Let_def split: option.splits)

lemma heartbeat_acknowledged:
  assumes "heartbeat body e st = ((''200 OK'', ack), st')"
    and "json_field (parse_json e) body ''abilities'' = Some AGENT_ABILITIES_CSV"
  shows "\<exists>node. ack = full_ack node"
proof -
  obtain node_id n where "heartbeat_node body node_id n e st = ((''200 OK'', ack), st')"
    using assms(1) by (auto simp: heartbeat_def error_response_def Let_def split: option.splits if_splits)
  then have "heartbeat_ack node_id n (\<lambda>n. set_platform e body ((seen e n)\<lparr>nd_abilities := AGENT_ABILITIES_CSV\<rparr>)) e st
      = ((''200 OK'', ack), st')"
    by (simp add: heartbeat_node_def assms(2) abilities_negotiated)
  moreover have "abilities_json AGENT_ABILITIES_CSV = str_join '','' (map quoted AGENT_ABILITIES)"
    unfolding abilities_json_def abilities_split by (simp add: AGENT_ABILITIES_def)
  ultimately show ?thesis
    by (auto simp: heartbeat_ack_def persist_or_rollback_def set_platform_abilities full_ack_def
        storage_unavailable_def split: sum.splits)
qed

text \<open>A heartbeat of the agent that the control plane answers with 200 is one that the agent accepts:
  the answer has protocol version 1 and negotiates all four abilities, so \<open>validate_heartbeat_ack\<close>
  succeeds on it. The hypotheses on the parsers say that \<open>serde_json\<close> finds the abilities in the
  heartbeat, and in the answer the members that are written there.\<close>

theorem heartbeat_accepted:
  assumes "heartbeat body e st = ((''200 OK'', ack), st')"
    and "json_field (parse_json e) body ''abilities'' = Some AGENT_ABILITIES_CSV"
    and "\<forall>node. ack = full_ack node \<longrightarrow> (\<exists>v. pj ack = Some (JObject
        [(''protocol_version'', JU64 1), (''negotiated_abilities'', JArray (map JString AGENT_ABILITIES)), (''node'', v)]))"
  shows "validate_heartbeat_ack pj ack = Inr ()"
proof -
  obtain v where v: "pj ack = Some (JObject
      [(''protocol_version'', JU64 1), (''negotiated_abilities'', JArray (map JString AGENT_ABILITIES)), (''node'', v)])"
    using heartbeat_acknowledged [OF assms(1,2)] assms(3) by blast
  have "List.map_filter as_str (map JString AGENT_ABILITIES) = AGENT_ABILITIES"
    by (simp add: AGENT_ABILITIES_def List.map_filter_def)
  then show ?thesis
    by (simp add: validate_heartbeat_ack_def v ack_body_def get_member_def Let_def list_ex_iff)
qed

section \<open>Reports\<close>

lemma digit_char_hex: "d < 16 \<Longrightarrow> is_ascii_hexdigit (digit_char d) \<and> to_lower (digit_char d) = digit_char d"
  by (auto simp: digit_char_def to_lower_def ascii_simps)

lemma hex_encode_hex: "list_all (\<lambda>c. is_ascii_hexdigit c \<and> to_lower c = c) (hex_encode_bytes bs)"
proof -
  have "list_all (\<lambda>c. is_ascii_hexdigit c \<and> to_lower c = c) (hex2 (unat b))" for b :: u8
  proof -
    have b: "unat b < 256" using unsigned_less [of b] by simp
    then have "hex (unat b) = (if unat b < 16 then [digit_char (unat b)]
        else [digit_char (unat b div 16), digit_char (unat b mod 16)])"
      using show_radix.simps [of 16 "unat b"] show_radix.simps [of 16 "unat b div 16"] by (auto simp: hex_def)
    moreover have "is_ascii_hexdigit CHR ''0'' \<and> to_lower CHR ''0'' = CHR ''0''"
      by (simp add: to_lower_def ascii_simps)
    ultimately show ?thesis using b digit_char_hex by (auto simp: hex2_def list_all_iff)
  qed
  then show ?thesis by (auto simp: hex_encode_bytes_def list_all_iff)
qed

lemma digest_accepted:
  assumes "json_field (parse_json e) body ''output_sha256'' = Some (sha256_hex a out)" and "ring_sha256 a = sha256"
  shows "checked_digest e body out = Some (hex_encode_bytes (sha256 (as_bytes out)))"
proof -
  let ?d = "hex_encode_bytes (sha256 (as_bytes out))"
  have d: "sha256_hex a out = ?d" by (simp add: sha256_hex_def hex_encode_bytes_def assms(2))
  have l: "length ?d = 64" by (simp add: length_sha256)
  have "to_ascii_lowercase ?d = ?d" "list_all is_ascii_hexdigit ?d"
    using hex_encode_hex by (auto simp: to_ascii_lowercase_def list_all_iff intro: map_idI)
  then show ?thesis
    using l constant_time_eq_same [of ?d] by (simp add: checked_digest_def assms(1) d Let_def)
qed

lemma trim_end_slash: "CHR ''/'' \<notin> set s \<Longrightarrow> trim_end_matches (CHR ''/'' # w) s = s"
  by (rule trim_end_matches_stop) (auto simp: suffix_def)

lemma report_path:
  assumes "CHR ''/'' \<notin> set s"
  shows "path_argument ''/v1/agent/tasks/'' ''/result'' (''/v1/agent/tasks/'' @ s @ ''/result'') = s"
proof -
  have "\<not> prefix ''/v1/agent/tasks/'' (s @ ''/result'')"
    using assms by (cases s) (auto simp: prefix_def)
  then have "trim_start_matches ''/v1/agent/tasks/'' (''/v1/agent/tasks/'' @ s @ ''/result'') = s @ ''/result''"
    using trim_start_matches_step [of "''/v1/agent/tasks/''" "s @ ''/result''"] trim_start_matches_stop
    by (metis list.distinct(1))
  moreover have "trim_end_matches ''/result'' (s @ ''/result'') = s"
    using trim_end_matches_step [of "''/result''" s] trim_end_slash [OF assms] by simp
  ultimately show ?thesis using trim_end_slash [OF assms] by (simp add: path_argument_def)
qed

lemma find_updated: "find P xs = Some x \<Longrightarrow> P (f x) \<Longrightarrow> find P (update_first P f xs) = Some (f x)"
  by (induction xs) (auto split: if_splits)

text \<open>An object with its strings escaped, its numbers in decimal and its members in order: the text a writer
  means to send. The properties ask of \<open>serde_json\<close> that it reads such a text back, and the bodies the code
  writes are shown to be such texts.\<close>

fun written_member :: "string \<times> json \<Rightarrow> string" where
  "written_member (k, JString v) = member k (escape v)"
| "written_member (k, JU64 n) = [DQUOTE] @ k @ [DQUOTE] @ '':'' @ dec (unat n)"
| "written_member (k, JBool b) = [DQUOTE] @ k @ [DQUOTE] @ '':'' @ (if b then ''true'' else ''false'')"
| "written_member (k, _) = [DQUOTE] @ k @ [DQUOTE] @ '':null''"

definition written :: "(string \<times> json) list \<Rightarrow> string" where
  "written ms = object_text (map written_member ms)"

definition report_members :: "agent \<Rightarrow> string \<Rightarrow> job \<Rightarrow> string \<times> string \<times> int \<Rightarrow> (string \<times> json) list" where
  "report_members a node_id j r =
     (case r of (s, out, code) \<Rightarrow>
        [(''node_id'', JString node_id), (''request_id'', JString (jb_request j)), (''lease_token'', JString (jb_lease j)),
         (''state'', JString s), (''output'', JString out), (''output_sha256'', JString (sha256_hex a out)),
         (''exit_code'', JString (show_int code))])"

lemma escape_word:
  assumes "list_all (\<lambda>c. is_ascii_digit c \<or> is_ascii_lowercase c \<or> c = CHR ''_'' \<or> c = CHR ''-'') s"
  shows "escape s = s"
proof (rule escape_plain)
  have "is_ascii_graphic c \<and> c \<noteq> DQUOTE \<and> c \<noteq> BACKSLASH" if "is_ascii_digit c \<or> is_ascii_lowercase c" for c
    using that by (auto simp: is_ascii_graphic_def is_ascii_digit_def is_ascii_lowercase_def byte_def)
  moreover have "is_ascii_graphic c \<and> c \<noteq> DQUOTE \<and> c \<noteq> BACKSLASH" if "c = CHR ''_'' \<or> c = CHR ''-''" for c
    using that by (auto simp: is_ascii_graphic_def byte_def)
  ultimately show "list_all (\<lambda>c. is_ascii_graphic c \<and> c \<noteq> DQUOTE \<and> c \<noteq> BACKSLASH) s"
    using assms unfolding list_all_iff by metis
qed

lemma escape_hex: "escape (sha256_hex a s) = sha256_hex a s"
  using hex_encode_chars [of "ring_sha256 a (as_bytes s)"]
  by (intro escape_word) (auto simp: sha256_hex_def hex_encode_bytes_def list_all_iff)

lemma escape_int: "escape (show_int i) = show_int i"
  using dec_digits by (intro escape_word) (auto simp: show_int_def list_all_iff)

lemma report_written:
  assumes "s \<in> {''succeeded'', ''failed'', ''cancelled'', ''timed_out''}"
  shows "result_body a n j (s, out, code) = written (report_members a n j (s, out, code))"
proof -
  have "escape s = s"
    using assms by (intro escape_word) (auto simp: is_ascii_digit_def is_ascii_lowercase_def byte_def)
  then show ?thesis by (simp add: result_body_def written_def report_members_def escape_hex escape_int)
qed

lemma report_fields:
  assumes "pj body = Some (JObject (report_members a n j (s, out, code)))"
  shows "json_types_valid pj body [''node_id'', ''request_id'', ''lease_token'', ''state'', ''output'',
      ''output_sha256'', ''exit_code''] [] []"
    and "field_or pj body ''node_id'' d = n" and "json_field pj body ''request_id'' = Some (jb_request j)"
    and "field_or pj body ''lease_token'' d = jb_lease j" and "field_or pj body ''state'' d = s"
    and "field_or pj body ''output'' d = out" and "json_field pj body ''output_sha256'' = Some (sha256_hex a out)"
    and "json_field pj body ''exit_code'' = Some (show_int code)"
  using assms
  by (simp_all add: report_members_def json_types_valid_def none_or_def json_field_def parse_json_object_def field_or_def)

text \<open>C32: A report completes its task. When a job the agent has carried out is still leased to it, the
  lease is not over and the store can be written, then the report the agent makes of the outcome,
  sent to the path it builds, is answered with 200, and the task is in the reported state with the
  output cut to its limit, the digest of the whole output and the exit code. The hypothesis on the
  parser says that \<open>serde_json\<close> reads back an object with the members of the report; that the body is
  that text is part of the proof.\<close>

theorem report_completes:
  assumes "job_outcome a scope_path j disk = Some ((s, out, code), disk')"
    and "parse_json e (written (report_members a n j (s, out, code))) = Some (JObject (report_members a n j (s, out, code)))"
    and "ring_sha256 a = sha256" and "- (2 ^ 31) \<le> code" and "code < 2 ^ 31"
    and "CHR ''/'' \<notin> set (jb_task j)" and "valid_node_id (jb_request j)"
    and "find (\<lambda>t. tk_id t = jb_task j \<and> tk_node_id t = n) (tasks (store st)) = Some t"
    and "tk_state t = ''dispatched''" and "clk e 0 \<le> tk_lease_until t"
    and "jb_lease j = tk_lease_token t" and "tk_lease_token t \<noteq> []" and "length (tk_lease_token t) < 2 ^ 64"
    and "jb_request j = tk_request_id t" and "\<forall>s. persist e s = Inr ()"
  shows "\<exists>st'. agent_result (''/v1/agent/tasks/'' @ jb_task j @ ''/result'') (result_body a n j (s, out, code)) e st
      = ((''200 OK'', task_json (complete_task s out (hex_encode_bytes (sha256 (as_bytes out))) (Some code) t)), st')
    \<and> find (\<lambda>t. tk_id t = jb_task j \<and> tk_node_id t = n) (tasks (store st'))
      = Some (complete_task s out (hex_encode_bytes (sha256 (as_bytes out))) (Some code) t)"
proof -
  let ?here = "\<lambda>t. tk_id t = jb_task j \<and> tk_node_id t = n"
  let ?done = "complete_task s out (hex_encode_bytes (sha256 (as_bytes out))) (Some code)"
  let ?st' = "push_audit e 1 ''task.completed'' (Some n) (Some (jb_task j)) (Some n) (update_task ?here ?done st)"
  have s: "s \<in> {''succeeded'', ''failed'', ''cancelled'', ''timed_out''}"
  proof -
    obtain q where "(case q of Inr (output, code) \<Rightarrow> (if code = 0 then ''succeeded'' else ''failed'', output, code)
        | Inl err \<Rightarrow> (''failed'', err, 1)) = (s, out, code)"
      using assms(1) by (auto simp: job_outcome_def)
    then show ?thesis by (cases q) (auto split: if_splits)
  qed
  have "parse_json e (result_body a n j (s, out, code)) = Some (JObject (report_members a n j (s, out, code)))"
    using assms(2) by (simp add: report_written [OF s])
  note f = report_fields [of "parse_json e", OF this]
  have g: "checked_digest e (result_body a n j (s, out, code)) out = Some (hex_encode_bytes (sha256 (as_bytes out)))"
    using digest_accepted [OF f(7) assms(3)] .
  have x: "parse_i32 (show_int code) = Some code" using parse_i32_show assms(4,5) by simp
  have "accept_result (jb_task j) n (Some (jb_request j)) (jb_lease j) s out
      (hex_encode_bytes (sha256 (as_bytes out))) (Some code) e st = ((''200 OK'', task_json (?done t)), ?st')"
    using assms(8-15) s constant_time_eq_same [OF assms(13)]
    by (simp add: accept_result_def Let_def persist_or_rollback_cases)
  then have "agent_result (''/v1/agent/tasks/'' @ jb_task j @ ''/result'') (result_body a n j (s, out, code)) e st
      = ((''200 OK'', task_json (?done t)), ?st')"
    using assms(7) unfolding agent_result_def report_path [OF assms(6)] by (simp add: f g x Let_def)
  moreover have "find ?here (tasks (store ?st')) = Some (?done t)"
    using find_updated [OF assms(8), of ?done] find_Some_iff [THEN iffD1, OF assms(8)]
    by (auto simp: complete_task_def Let_def)
  ultimately show ?thesis by blast
qed

section \<open>Samples\<close>

definition blocks :: "bytes \<Rightarrow> bytes list" where
  "blocks bs = (if bs = [] then [] else [bs])"

lemma sample_splits: "splits blocks"
  by (simp add: splits_def blocks_def)

lemma sample_query: "query_field ''/v1/agent/heartbeat'' k = None"
  by (simp add: query_field_def split_once_def)

theorem agent_call_is_route_witness:
  "let e = sample_env (\<lambda>_. None) (\<lambda>_. Inl []) (\<lambda>_. None)
   in exchange (connected blocks blocks (\<lambda>_. []) e (\<lambda>_. e) (sample_state [] [])) 0
       (post_request ''127.0.0.1:8787'' ''/v1/agent/heartbeat'' sample_body ''t0'')
     = answered 401 (snd unauthenticated)"
proof -
  let ?e = "sample_env (\<lambda>_. None) (\<lambda>_. Inl []) (\<lambda>_. None)"
  have "\<not> constant_time_eq ''t0'' ''adm''" by (simp add: constant_time_eq_via constant_time_eq_bytes_iff as_bytes_def)
  then have a: "authenticate_request ?e (sample_state [] []) ''/v1/agent/heartbeat'' sample_body ''t0'' = no_auth"
    by (simp add: authenticate_request_def sample_state_def credential_authorized_def sample_query sample_env_def
        json_field_def parse_json_object_def)
  have r: "route_with_actor ''POST'' ''/v1/agent/heartbeat'' sample_body False False None (later ?e) (sample_state [] [])
      = (Done (''401 Unauthorized'', snd unauthenticated), sample_state [] [])"
    by (simp add: route_with_actor_def unauthenticated_def error_response_def)
  have s: "status_ok 401 ''401 Unauthorized''"
    by (simp add: status_ok_def dec_def show_radix.simps digit_char_def ascii_simps flip: byte_inject)
  have b: "list_all (\<lambda>c. 32 \<le> byte c \<and> byte c < 127) (snd unauthenticated)" "length (snd unauthenticated) < 100"
    by (simp_all add: unauthenticated_def error_response_def code_body_def byte_def)
  then have p: "valid_utf8 (snd unauthenticated)" "CR \<notin> set (snd unauthenticated)"
    using plain_ascii [OF b(1)] by (simp_all add: plain_text_def)
  have "length (dec (length (snd unauthenticated))) \<le> 2"
    by (simp add: unauthenticated_def error_response_def code_body_def dec_def show_radix.simps)
  then have l: "length (write_response ''401 Unauthorized'' (snd unauthenticated)) \<le> MAX_HTTP_RESPONSE_BYTES"
    using b(2) by (simp add: write_response_text request_text_def head_text_def response_lines_def MAX_HTTP_RESPONSE_BYTES_def)
  have d: "valid_utf8 sample_body" "CR \<notin> set sample_body" by (simp_all add: sample_body_def byte_def)
  have "agent_call ''127.0.0.1:8787'' ''POST'' ''/v1/agent/heartbeat'' sample_body ''t0''
      (post_request ''127.0.0.1:8787'' ''/v1/agent/heartbeat'' sample_body ''t0'')"
    using sample_target d by (simp add: agent_call_def)
  from agent_call_is_route [OF sample_splits sample_splits this _ _ s p l,
      of ?e "sample_state [] []" "sample_state [] []" "\<lambda>_. []" "\<lambda>_. ?e" 0]
  show ?thesis unfolding Let_def
    using a r sample_request_small by (simp add: no_auth_def max_request_bytes_def)
qed

lemma sample_key: "\<exists>key. websocket_client_key (sample_agent p pj) k = Inr key"
  by (simp add: websocket_client_key_def sample_agent_def sample_env_def)

theorem handshake_succeeds_witness:
  "\<exists>key outs. fst (handle (\<lambda>_. []) (sample_env (\<lambda>_. None) (\<lambda>_. Inl []) (\<lambda>_. None))
       (\<lambda>_. sample_env (\<lambda>_. None) (\<lambda>_. Inl []) (\<lambda>_. None))
       (blocks (as_bytes (upgrade_request ''127.0.0.1:8787'' ''n1'' ''c'' key))) (sample_state [] []))
     = as_bytes (switching_protocols (websocket_accept (\<lambda>_. []) key)) @ outs"
proof -
  let ?e = "sample_env (\<lambda>_. None) (\<lambda>_. Inl []) (\<lambda>_. None)"
  let ?a = "sample_agent (\<lambda>_. []) (\<lambda>_. None)"
  obtain key where key: "websocket_client_key ?a 0 = Inr key" using sample_key by blast
  have n: "valid_node_id ''n1''" "DQUOTE \<notin> set ''n1''" by (simp_all add: valid_node_id_def node_id_char_def ascii_simps)
  have "length (upgrade_request ''127.0.0.1:8787'' ''n1'' ''c'' key) \<le> max_request_bytes"
    using client_key_shape [OF key] node_id_escape [OF n]
    by (simp add: upgrade_request_def request_head_def max_request_bytes_def)
  moreover have "\<not> constant_time_eq ''c'' ''adm''" "constant_time_eq ''c'' ''c''"
    by (simp_all add: constant_time_eq_via constant_time_eq_bytes_iff as_bytes_def)
  then have "authenticate_request ?e (sample_state [] []) (''/v1/agent/ws?node_id='' @ escape ''n1'') [] ''c''
      = \<lparr>au_authorized = True, au_admin = False, au_node = True, au_actor = None\<rparr>"
    using node_path(3) [OF n]
    by (simp add: authenticate_request_def sample_state_def credential_authorized_def sample_env_def sample_node_def
        json_field_def parse_json_object_def)
  moreover have "ring_sha1 ?a = (\<lambda>_. [])" "graphic ''127.0.0.1:8787''" "graphic ''c''"
    by (simp_all add: sample_agent_def ascii_simps)
  ultimately show ?thesis
    using handshake_succeeds [OF key _ n _ _ _ _ sample_splits, of "\<lambda>_. []" "''127.0.0.1:8787''" "''c''" _ ?e "sample_state [] []" "\<lambda>_. ?e"]
    by auto
qed

theorem heartbeat_accepted_witness:
  "\<exists>ack. validate_heartbeat_ack (\<lambda>_. Some (JObject [(''protocol_version'', JU64 1),
     (''negotiated_abilities'', JArray (map JString AGENT_ABILITIES)), (''node'', JNull)])) ack = Inr ()"
proof -
  let ?e = "sample_env (\<lambda>_. None) (\<lambda>_. Inl [])
    (\<lambda>_. Some (JObject [(''node_id'', JString ''n1''), (''abilities'', JString AGENT_ABILITIES_CSV)]))"
  have f: "json_field (parse_json ?e) [] ''abilities'' = Some AGENT_ABILITIES_CSV"
    by (simp add: sample_env_def json_field_def parse_json_object_def)
  obtain ack st' where "heartbeat [] ?e (sample_state [] []) = ((''200 OK'', ack), st')"
    by (simp add: heartbeat_def sample_env_def sample_state_def sample_node_def parse_json_object_def field_or_def json_field_def
        is_string_or_absent_def none_or_def json_number_def heartbeat_node_def abilities_negotiated heartbeat_ack_def
        persist_or_rollback_cases Let_def)
  then show ?thesis
    using heartbeat_accepted [OF _ f, of "sample_state [] []" ack st' "\<lambda>_. Some (JObject [(''protocol_version'', JU64 1),
      (''negotiated_abilities'', JArray (map JString AGENT_ABILITIES)), (''node'', JNull)])"] by auto
qed

theorem report_completes_witness:
  "\<exists>b st' t. agent_result ''/v1/agent/tasks/t1/result''
       (result_body (sample_agent (\<lambda>_. []) (\<lambda>_. None)) ''n1'' (sample_job\<lparr>jb_limit := 20, jb_lease := ''tok''\<rparr>)
          (''succeeded'', ''[REDACTED]'' @ [NL] @ ''ok'', 0))
       (sample_env (\<lambda>_. None) (\<lambda>_. Inl []) (\<lambda>_. Some (JObject (report_members (sample_agent (\<lambda>_. []) (\<lambda>_. None)) ''n1''
          (sample_job\<lparr>jb_limit := 20, jb_lease := ''tok''\<rparr>) (''succeeded'', ''[REDACTED]'' @ [NL] @ ''ok'', 0)))))
       (sample_state [sample_leased] []) = ((''200 OK'', b), st')
     \<and> t \<in> set (tasks (store st')) \<and> tk_state t = ''succeeded''"
proof -
  let ?a = "sample_agent (\<lambda>_. []) (\<lambda>_. None)"
  let ?j = "sample_job\<lparr>jb_limit := 20, jb_lease := ''tok''\<rparr>"
  let ?out = "''[REDACTED]'' @ [NL] @ ''ok''"
  let ?e = "sample_env (\<lambda>_. None) (\<lambda>_. Inl []) (\<lambda>_. Some (JObject (report_members ?a ''n1'' ?j (''succeeded'', ?out, 0))))"
  have j: "job_outcome ?a ''/srv/lab'' ?j sample_disk = Some ((''succeeded'', ?out, 0), sample_disk)"
    using sample_read by (simp add: job_outcome_def sample_agent_def sample_job_def)
  have t: "find (\<lambda>t. tk_id t = jb_task ?j \<and> tk_node_id t = ''n1'') (tasks (store (sample_state [sample_leased] [])))
      = Some sample_leased"
    by (simp add: sample_state_def sample_leased_def sample_queued_def sample_job_def)
  have p: "parse_json ?e (written (report_members ?a ''n1'' ?j (''succeeded'', ?out, 0))) = Some (JObject (report_members ?a ''n1'' ?j (''succeeded'', ?out, 0)))"
    by (simp add: sample_env_def)
  have v: "valid_node_id (jb_request ?j)" by (simp add: sample_job_def valid_node_id_def node_id_char_def ascii_simps)
  have sc: "ring_sha256 ?a = sha256" "CHR ''/'' \<notin> set (jb_task ?j)" by (simp_all add: sample_agent_def sample_job_def)
  have l: "tk_state sample_leased = ''dispatched''" "clk ?e 0 \<le> tk_lease_until sample_leased" "jb_lease ?j = tk_lease_token sample_leased"
    "tk_lease_token sample_leased \<noteq> []" "length (tk_lease_token sample_leased) < 2 ^ 64" "jb_request ?j = tk_request_id sample_leased"
    "\<forall>s. persist ?e s = Inr ()"
    by (simp_all add: sample_leased_def sample_queued_def sample_job_def sample_env_def)
  obtain st' where r: "agent_result (''/v1/agent/tasks/'' @ jb_task ?j @ ''/result'') (result_body ?a ''n1'' ?j (''succeeded'', ?out, 0)) ?e
      (sample_state [sample_leased] []) = ((''200 OK'', task_json (complete_task ''succeeded'' ?out (hex_encode_bytes (sha256 (as_bytes ?out))) (Some 0) sample_leased)), st')"
    and q: "find (\<lambda>t. tk_id t = jb_task ?j \<and> tk_node_id t = ''n1'') (tasks (store st'))
      = Some (complete_task ''succeeded'' ?out (hex_encode_bytes (sha256 (as_bytes ?out))) (Some 0) sample_leased)"
    using report_completes [OF j p sc(1) _ _ sc(2) v t l] by auto
  let ?done = "complete_task ''succeeded'' ?out (hex_encode_bytes (sha256 (as_bytes ?out))) (Some 0) sample_leased"
  have "?done \<in> set (tasks (store st'))" using q by (auto simp: find_Some_iff)
  moreover have "tk_state ?done = ''succeeded''" by (simp add: complete_task_def Let_def)
  moreover have "jb_task ?j = ''t1''" by (simp add: sample_job_def)
  ultimately show ?thesis using r by (intro exI conjI) auto
qed

end
