(* ===== verification/Sdk_Adapters.thy ===== *)
theory Sdk_Adapters
  imports Router
begin

text \<open>
  The integration contracts: the protocol envelope, the references and the endpoint names of
  \<open>sdk/src/lib.rs\<close>, and the adapters of \<open>adapters/src/lib.rs\<close>; and how they fit what the control plane
  sends on a channel.
\<close>

section \<open>The envelope\<close>

definition PROTOCOL_VERSION :: "16 word" where
  "PROTOCOL_VERSION = 1"

definition SDK_VERSION :: string where
  "SDK_VERSION = ''0.1.3''"

record envelope =
  ev_protocol_version :: "16 word"
  ev_agent_version :: string
  ev_node_id :: string
  ev_request_id :: string
  ev_message_type :: string
  ev_payload_json :: string

text \<open>The byte of a message type at a position.\<close>

definition message_type_byte :: "nat \<Rightarrow> char \<Rightarrow> bool" where
  "message_type_byte i b \<longleftrightarrow>
     i = 0 \<and> is_ascii_lowercase b
     \<or> 0 < i \<and> (is_ascii_lowercase b \<or> is_ascii_digit b \<or> b \<in> {CHR ''_'', CHR ''.'', CHR ''-''})"

definition envelope_node_byte :: "char \<Rightarrow> bool" where
  "envelope_node_byte b \<longleftrightarrow> is_ascii_graphic b
     \<and> b \<notin> {CHR ''/'', BACKSLASH, CHR ''?'', CHR ''&'', CHR ''='', CHR ''#'', CHR ''%''}"

definition Envelope_validate :: "envelope \<Rightarrow> string + unit" where
  "Envelope_validate ev =
     (if ev_protocol_version ev \<noteq> PROTOCOL_VERSION then Inl ''unsupported protocol version''
      else if ev_agent_version ev = [] \<or> ev_node_id ev = [] \<or> 128 < length (ev_node_id ev)
            \<or> ev_request_id ev = [] \<or> 128 < length (ev_request_id ev)
      then Inl ''invalid envelope identity''
      else if \<not> list_all envelope_node_byte (ev_node_id ev) then Inl ''invalid node id''
      else if \<not> list_all (\<lambda>(i, b). message_type_byte i b) (enumerate 0 (ev_message_type ev))
      then Inl ''invalid message type''
      else (let payload = str_trim (ev_payload_json ev) in
        if \<not> str_starts_with payload [CHR 0x7B] \<or> \<not> str_ends_with payload [CHR 0x7D]
        then Inl ''payload must be a JSON object''
        else Inr ()))"

definition Envelope_new :: "string \<Rightarrow> string \<Rightarrow> string \<Rightarrow> string \<Rightarrow> string \<Rightarrow> string + envelope" where
  "Envelope_new agent_version node_id request_id message_type payload_json =
     (let ev = \<lparr>ev_protocol_version = PROTOCOL_VERSION, ev_agent_version = agent_version, ev_node_id = node_id,
                ev_request_id = request_id, ev_message_type = message_type, ev_payload_json = payload_json\<rparr>
      in case Envelope_validate ev of Inl err \<Rightarrow> Inl err | Inr _ \<Rightarrow> Inr ev)"

record task_ref =
  tf_task_id :: string
  tf_node_id :: string

record grant_ref =
  gf_grant_code :: string
  gf_expires_at_ms :: u64

text \<open>The module \<open>endpoint\<close>.\<close>

definition HEALTH :: string where "HEALTH = ''/health''"
definition NODES :: string where "NODES = ''/v1/nodes''"
definition GRANTS :: string where "GRANTS = ''/v1/grants''"
definition TASKS :: string where "TASKS = ''/v1/tasks''"
definition AGENT_WS :: string where "AGENT_WS = ''/v1/agent/ws''"
definition AUDIT :: string where "AUDIT = ''/v1/audit''"

section \<open>Adapters\<close>

record adapter_request =
  ar_node_id :: string
  ar_ability :: string
  ar_payload_json :: string

record adapter_result =
  rs_task :: task_ref
  rs_output_json :: string

text \<open>The trait \<open>Adapter\<close>, and \<open>ComputerUseAdapter\<close>.\<close>

record adapter =
  ad_name :: string
  ad_abilities :: "string list"
  ad_translate :: "adapter_request \<Rightarrow> string + adapter_request"

definition computer_use_translate :: "string list \<Rightarrow> adapter_request \<Rightarrow> string + adapter_request" where
  "computer_use_translate abilities request =
     (if ar_ability request \<notin> set abilities then Inl ''unsupported adapter ability''
      else if ar_node_id request = [] \<or> str_trim (ar_payload_json request) = []
      then Inl ''invalid adapter request''
      else Inr request)"

definition ComputerUseAdapter :: adapter where
  "ComputerUseAdapter =
     (let abilities = [''screen.capture'', ''input.request'']
      in \<lparr>ad_name = ''computer-use'', ad_abilities = abilities, ad_translate = computer_use_translate abilities\<rparr>)"

section \<open>Facts\<close>

interpretation envelope_node: identifier_check
  "\<lambda>s. s \<noteq> [] \<and> length s \<le> 128 \<and> list_all envelope_node_byte s" envelope_node_byte 128
  by unfold_locales simp

text \<open>The identifiers of nodes are those of the control plane.\<close>

lemma envelope_node_same: "envelope_node_byte = node_id_char"
  by (rule ext) (simp add: envelope_node_byte_def node_id_char_def)

text \<open>Text between braces is not touched by \<open>trim\<close>.\<close>

lemma code_point_last: "ch \<noteq> [] \<Longrightarrow> code_point ch = byte (last ch) \<or> code_point ch mod 64 = byte (last ch) mod 64 \<or> code_point ch = 0"
proof -
  have m: "(x * 64 + y mod 64) mod 64 = y mod 64" for x y :: nat by simp
  assume "ch \<noteq> []"
  then show ?thesis
    by (cases ch rule: code_point.cases) (simp_all only: code_point.simps m last.simps list.distinct if_False if_True simp_thms)
qed

lemma ends_with_brace: "ch \<noteq> [] \<Longrightarrow> last ch = CHR 0x7D \<Longrightarrow> \<not> is_whitespace ch"
proof
  assume a: "ch \<noteq> []" "last ch = CHR 0x7D" "is_whitespace ch"
  then consider "code_point ch = 125" | "code_point ch mod 64 = 61" | "code_point ch = 0"
    using code_point_last [of ch] by (auto simp: byte_def)
  then show False
  proof cases
    case 2
    then obtain q where "code_point ch = 64 * q + 61" by (metis div_mult_mod_eq mult.commute)
    then show ?thesis using a(3) unfolding is_whitespace_def Let_def by presburger
  qed (use a(3) in \<open>simp_all add: is_whitespace_def\<close>)
qed

lemma trim_braces: "str_trim (CHR 0x7B # s @ [CHR 0x7D]) = CHR 0x7B # s @ [CHR 0x7D]"
proof -
  let ?s = "CHR 0x7B # s @ [CHR 0x7D]"
  obtain cs where cs: "chars_of ?s = [CHR 0x7B] # cs" "concat ([CHR 0x7B] # cs) = ?s" "\<forall>ch \<in> set cs. ch \<noteq> []"
    using concat_chars_of [of "s @ [CHR 0x7D]"] chars_of_nonempty [of _ "s @ [CHR 0x7D]"]
    by (auto simp: utf8_width_def byte_def)
  have w: "\<not> is_whitespace [CHR 0x7B]" by (simp add: is_whitespace_def byte_def)
  obtain ds d where d: "cs = ds @ [d]" using cs(2) by (cases cs rule: rev_exhaust) auto
  then have "last d = CHR 0x7D" using cs(2,3) by (metis append_is_Nil_conv concat.simps concat_append in_set_conv_decomp last_appendR last_snoc append_Nil2 append_Cons)
  then have "\<not> is_whitespace d" using ends_with_brace cs(3) d by simp
  then have "dropWhile is_whitespace (rev ([CHR 0x7B] # cs)) = rev ([CHR 0x7B] # cs)" by (simp add: d)
  then show ?thesis using cs(2) w unfolding str_trim_def cs(1) by simp
qed

section \<open>The answers of a channel\<close>

definition object_shaped :: "string \<Rightarrow> bool" where
  "object_shaped s \<longleftrightarrow> (\<exists>inner. s = CHR 0x7B # inner @ [CHR 0x7D])"

lemma object_shapedI: "object_shaped (CHR 0x7B # inner @ [CHR 0x7D])"
  by (auto simp: object_shaped_def)

lemma braces: "hd s = CHR 0x7B \<Longrightarrow> last s = CHR 0x7D \<Longrightarrow> 2 \<le> length s \<Longrightarrow> object_shaped s"
proof -
  assume a: "hd s = CHR 0x7B" "last s = CHR 0x7D" "2 \<le> length s"
  then obtain r where r: "s = CHR 0x7B # r" "r \<noteq> []" by (cases s) (auto simp: Suc_le_eq)
  then obtain q where "r = q @ [CHR 0x7D]" using a(2) by (metis append_butlast_last_id last_ConsR)
  then show ?thesis using r by (simp add: object_shapedI)
qed

lemma code_shaped: "object_shaped (code_body code)"
  by (rule braces) (simp_all add: code_body_def)

lemma error_shaped: "object_shaped (snd (error_response status code))"
  by (simp add: error_response_def code_shaped)

lemma payload_shaped:
  assumes "object_shaped (snd r) \<or> \<not> str_starts_with (fst r) ''2''"
  shows "object_shaped (websocket_payload r)"
proof (cases "str_starts_with (fst r) ''2''")
  case False
  then show ?thesis by (intro braces) (simp_all add: websocket_payload_def)
qed (use assms in \<open>simp add: websocket_payload_def\<close>)

lemma persisted_shaped:
  "object_shaped (snd r) \<Longrightarrow> object_shaped (snd (fst (persist_or_rollback e before r st)))"
  by (simp add: persist_or_rollback_cases storage_unavailable_def code_shaped)

lemmas shaped = error_shaped code_shaped persisted_shaped

lemma acknowledgement_shaped: "object_shaped (snd (fst (heartbeat_ack i n f e st)))"
  unfolding heartbeat_ack_def by (rule persisted_shaped) (rule braces; simp)

lemma heartbeat_shaped: "object_shaped (snd (fst (heartbeat body e st)))"
proof -
  have node: "object_shaped (snd (fst (heartbeat_node body i n e st)))" for i n
    by (simp add: heartbeat_node_def acknowledgement_shaped shaped split: option.split)
  have old: "object_shaped ''{\"code\":\"unsupported_protocol_version\",\"protocol_version\":1}''"
    by (rule braces) simp_all
  show ?thesis
    unfolding heartbeat_def Let_def using node old shaped
    by (simp split: option.split)
qed

lemma task_shaped: "object_shaped (task_json t)"
  by (rule braces) (simp_all add: task_json_def)

lemma result_shaped: "object_shaped (snd (fst (agent_result path body e st)))"
proof -
  have "object_shaped (snd (fst (accept_result i n r l s out d c e st)))" for i n r l s out d c
    by (simp add: accept_result_def Let_def shaped task_shaped split: option.split)
  then show ?thesis
    by (simp add: agent_result_def Let_def shaped split: option.split)
qed

lemma tasks_shaped:
  "object_shaped (snd (fst (agent_tasks path e st))) \<or> (\<exists>items. snd (fst (agent_tasks path e st)) = json_list items)"
  by (auto simp: agent_tasks_def secure_random_unavailable_def Let_def persist_or_rollback_cases storage_unavailable_def shaped
      split: option.split prod.split)

lemma accepted_envelope:
  assumes "valid_node_id n" and "r \<noteq> [] \<and> length r \<le> 128" and "list_all (\<lambda>(i, b). message_type_byte i b) (enumerate 0 ty)"
  shows "Envelope_new VERSION n r ty payload =
    (if str_starts_with (str_trim payload) [CHR 0x7B] \<and> str_ends_with (str_trim payload) [CHR 0x7D]
     then Inr \<lparr>ev_protocol_version = PROTOCOL_VERSION, ev_agent_version = VERSION, ev_node_id = n, ev_request_id = r,
           ev_message_type = ty, ev_payload_json = payload\<rparr>
     else Inl ''payload must be a JSON object'')"
  using assms by (simp add: Envelope_new_def Envelope_validate_def valid_node_id_def VERSION_def envelope_node_same Let_def)

definition fits_envelope :: "string \<Rightarrow> string \<Rightarrow> string \<Rightarrow> string \<Rightarrow> bool" where
  "fits_envelope n r ty payload \<longleftrightarrow>
     (case Envelope_new VERSION n r ty payload of
        Inr ev \<Rightarrow> ev_node_id ev = n \<and> ev_request_id ev = r \<and> ev_message_type ev = ty \<and> ev_payload_json ev = payload
      | Inl err \<Rightarrow> ty = ''tasks.available'' \<and> err = ''payload must be a JSON object'' \<and> (\<exists>items. payload = json_list items))"

lemma object_fits:
  assumes "valid_node_id n" and "r \<noteq> [] \<and> length r \<le> 128"
    and "list_all (\<lambda>(i, b). message_type_byte i b) (enumerate 0 ty)" and "object_shaped payload"
  shows "fits_envelope n r ty payload"
proof -
  have "str_starts_with (str_trim payload) [CHR 0x7B]" "str_ends_with (str_trim payload) [CHR 0x7D]"
    using assms(4) trim_braces by (auto simp: object_shaped_def str_starts_with_def str_ends_with_def suffix_def)
  then show ?thesis using accepted_envelope [OF assms(1-3), of payload] by (simp add: fits_envelope_def)
qed

lemma refused_envelope: "\<not> valid_node_id n \<or> r = [] \<or> 128 < length r \<Longrightarrow> \<exists>err. Envelope_new VERSION n r ty payload = Inl err"
  by (auto simp: Envelope_new_def Envelope_validate_def valid_node_id_def envelope_node_same Let_def)

lemma array_refused: "\<not> str_starts_with (str_trim (json_list items)) [CHR 0x7B]"
proof -
  have "is_ascii_graphic CHR ''[''" by (simp add: is_ascii_graphic_def byte_def)
  then obtain t where "str_trim (CHR ''['' # str_join '','' items @ '']'') = CHR ''['' # t"
    using str_trim_starts by blast
  then show ?thesis by (simp add: json_list_def str_starts_with_def)
qed

lemma message_types:
  "list_all (\<lambda>(i, b). message_type_byte i b) (enumerate 0 ''heartbeat.ack'')"
  "list_all (\<lambda>(i, b). message_type_byte i b) (enumerate 0 ''tasks.available'')"
  "list_all (\<lambda>(i, b). message_type_byte i b) (enumerate 0 ''task.result.ack'')"
  "list_all (\<lambda>(i, b). message_type_byte i b) (enumerate 0 ''error'')"
  by (simp_all add: message_type_byte_def ascii_simps)

text \<open>C39: Answers on a channel and envelopes of the SDK. Whatever message arrives on a channel, the answer
  has the text of an envelope that names the node and the request the message named (a fresh request
  identifier if it named none). If that is not the channel's node, or the request identifier is not
  valid, the answer is the error \<open>unauthenticated\<close>. \<open>Envelope::new\<close> of the SDK accepts the fields of an
  answer, and keeps them, exactly if the node identifier is valid and the request identifier has 1 to 128
  bytes, with one exception: the list of waiting tasks, whose payload is a JSON array and no object.\<close>

theorem channel_answers_are_envelopes:
  assumes "websocket_message message n presented e st = (answer, st')"
  shows "\<exists>r ty payload. let m = field_or (parse_json e) message ''node_id'' [] in
    answer = websocket_envelope m r ty payload
    \<and> (\<forall>r'. json_field (parse_json e) message ''request_id'' = Some r' \<longrightarrow> r = r')
    \<and> (m \<noteq> n \<or> \<not> valid_node_id r \<longrightarrow> ty = ''error'' \<and> payload = code_body ''unauthenticated'')
    \<and> (case Envelope_new VERSION m r ty payload of
         Inr ev \<Rightarrow> valid_node_id m \<and> r \<noteq> [] \<and> length r \<le> 128
           \<and> ev_node_id ev = m \<and> ev_request_id ev = r \<and> ev_message_type ev = ty \<and> ev_payload_json ev = payload
       | Inl err \<Rightarrow> \<not> valid_node_id m \<or> r = [] \<or> 128 < length r
           \<or> ty = ''tasks.available'' \<and> err = ''payload must be a JSON object'' \<and> (\<exists>items. payload = json_list items))"
proof -
  let ?m = "field_or (parse_json e) message ''node_id'' []"
  define fit where "fit = (\<lambda>r ty payload. valid_node_id ?m \<and> r \<noteq> [] \<and> length r \<le> 128 \<longrightarrow> fits_envelope ?m r ty payload)"
  have fits: "fit r ty payload" if "list_all (\<lambda>(i, b). message_type_byte i b) (enumerate 0 ty)" "object_shaped payload" for r ty payload
    using object_fits [OF _ _ that] by (simp add: fit_def)
  have fail: "fit r ''error'' (code_body code)" for r code
    by (rule fits [OF message_types(4) code_shaped])
  have tasks: "fit r ''tasks.available'' (websocket_payload (fst (agent_tasks path e' s)))" for r path e' s
  proof (cases "object_shaped (snd (fst (agent_tasks path e' s))) \<or> \<not> str_starts_with (fst (fst (agent_tasks path e' s))) ''2''")
    case True
    then show ?thesis by (intro fits message_types payload_shaped)
  next
    case False
    then obtain items where "websocket_payload (fst (agent_tasks path e' s)) = json_list items"
      using tasks_shaped [of path e' s] by (auto simp: websocket_payload_def)
    then show ?thesis
      using accepted_envelope [OF _ _ message_types(2)] array_refused by (auto simp: fit_def fits_envelope_def)
  qed
  have beat: "fit r ''heartbeat.ack'' (websocket_payload q)" if "heartbeat k e' s = (q, s')" for r k e' s q s'
    using that heartbeat_shaped [of k e' s] by (intro fits message_types payload_shaped) simp
  have result: "fit r ''task.result.ack'' (websocket_payload q)" if "agent_result path k e' s = (q, s')" for r path k e' s q s'
    using that result_shaped [of path k e' s] by (intro fits message_types payload_shaped) simp
  have lease: "fit r ''tasks.available'' (websocket_payload q)" if "agent_tasks path e' s = (q, s')" for r path e' s q s'
    using that tasks [of r path e' s] by simp
  have call: "fit r ty (websocket_payload q)"
    if "websocket_call message n (later e) s0 = (Inr (ty, q), s)" for r ty q s s0
    using that unfolding websocket_call_def Let_def
    by (auto simp: map_prod_def split: if_splits option.splits prod.splits dest: beat result lease)
  obtain r st1 where r: "(case json_field (parse_json e) message ''request_id'' of Some r \<Rightarrow> (r, st) | None \<Rightarrow> take_id e 0 ''request'' st) = (r, st1)"
    by fastforce
  then have named: "\<forall>r'. json_field (parse_json e) message ''request_id'' = Some r' \<longrightarrow> r = r'" by auto
  have "\<exists>ty payload. answer = websocket_envelope ?m r ty payload \<and> fit r ty payload
      \<and> (?m \<noteq> n \<or> \<not> valid_node_id r \<longrightarrow> ty = ''error'' \<and> payload = code_body ''unauthenticated'')"
    using assms fail call unfolding websocket_message_def r Let_def
    by (auto split: if_splits prod.splits sum.splits) metis+
  then obtain ty payload where a: "answer = websocket_envelope ?m r ty payload" "fit r ty payload"
      "?m \<noteq> n \<or> \<not> valid_node_id r \<longrightarrow> ty = ''error'' \<and> payload = code_body ''unauthenticated''" by blast
  have "case Envelope_new VERSION ?m r ty payload of
         Inr ev \<Rightarrow> valid_node_id ?m \<and> r \<noteq> [] \<and> length r \<le> 128
           \<and> ev_node_id ev = ?m \<and> ev_request_id ev = r \<and> ev_message_type ev = ty \<and> ev_payload_json ev = payload
       | Inl err \<Rightarrow> \<not> valid_node_id ?m \<or> r = [] \<or> 128 < length r
           \<or> ty = ''tasks.available'' \<and> err = ''payload must be a JSON object'' \<and> (\<exists>items. payload = json_list items)"
  proof (cases "valid_node_id ?m \<and> r \<noteq> [] \<and> length r \<le> 128")
    case True
    then show ?thesis using a(2) by (auto simp: fit_def fits_envelope_def split: sum.splits)
  next
    case False
    then show ?thesis using refused_envelope [of ?m r ty payload] by (auto simp: not_le)
  qed
  then show ?thesis using a(1,3) named unfolding Let_def by blast
qed

theorem channel_answers_are_envelopes_witness:
  "\<exists>st' ty payload. websocket_message [] ''n1'' ''c'' (sample_env (\<lambda>_. None) (\<lambda>_. Inl [])
       (\<lambda>_. Some (JObject [(''node_id'', JString ''n1''), (''request_id'', JString ''r1''), (''type'', JString ''x'')])))
       (sample_state [] []) = (websocket_envelope ''n1'' ''r1'' ty payload, st')"
proof -
  let ?e = "sample_env (\<lambda>_. None) (\<lambda>_. Inl [])
    (\<lambda>_. Some (JObject [(''node_id'', JString ''n1''), (''request_id'', JString ''r1''), (''type'', JString ''x'')]))"
  obtain answer st' where a: "websocket_message [] ''n1'' ''c'' ?e (sample_state [] []) = (answer, st')" by fastforce
  have f: "field_or (parse_json ?e) [] ''node_id'' [] = ''n1''" "json_field (parse_json ?e) [] ''request_id'' = Some ''r1''"
    by (simp_all add: sample_env_def json_field_def parse_json_object_def field_or_def)
  show ?thesis using channel_answers_are_envelopes [OF a] a unfolding Let_def f by auto
qed

text \<open>What the adapter lets through is unchanged, and names an ability no node can have.\<close>

lemma adapter_abilities_unsupported:
  assumes "ad_translate ComputerUseAdapter request = Inr request'"
  shows "request' = request \<and> ar_ability request' \<in> set (ad_abilities ComputerUseAdapter)
    \<and> ar_ability request' \<notin> set SUPPORTED_ABILITIES"
  using assms
  by (auto simp: ComputerUseAdapter_def computer_use_translate_def SUPPORTED_ABILITIES_def Let_def split: if_splits)

lemma empty_message_type_accepted:
  "Envelope_new ''0'' ''n1'' ''r1'' [] [CHR 0x7B, CHR 0x7D]
   = Inr \<lparr>ev_protocol_version = PROTOCOL_VERSION, ev_agent_version = ''0'', ev_node_id = ''n1'', ev_request_id = ''r1'',
       ev_message_type = [], ev_payload_json = [CHR 0x7B, CHR 0x7D]\<rparr>"
proof -
  have "str_trim [CHR 0x7B, CHR 0x7D] = [CHR 0x7B, CHR 0x7D]" using trim_braces [of "[]"] by simp
  then show ?thesis
    by (simp add: Envelope_new_def Envelope_validate_def envelope_node_byte_def ascii_simps str_starts_with_def
        str_ends_with_def suffix_def Let_def)
qed

end
