(* ===== verification/Cli_Local.thy ===== *)
theory Cli_Local
  imports Agent_Client "HOL-Library.List_Lexorder" "HOL-Library.Char_ord"
begin

text \<open>
  The command line tool on its own machine, \<open>cli/src/main.rs\<close>: its arguments, the files it keeps its
  state in, and the commands that only use these files and local children.

  \<open>cli\<close> is everything outside the program: the variables, clock, random source, parser and children of
  \<open>agent\<close>, which system calls on files fail, what a directory holds, and what \<open>rustls\<close> makes of its files. The files are a map from paths to
  mode and contents. A command returns its result, what it printed, and the files.
\<close>

section \<open>The outside world\<close>

datatype file_kind = A_directory | A_file | Another

record dir_entry =
  de_name :: string
  de_kind :: "file_kind option"
  de_size :: "nat option"

record cli =
  cl_agent :: agent
  cl_dir_error :: "string \<Rightarrow> string option"
  cl_read_error :: "string \<Rightarrow> string option"
  cl_open_error :: "string \<Rightarrow> string option"
  cl_write_stop :: "string \<Rightarrow> (nat \<times> string) option"
  cl_new_mode :: nat
  cl_chmod :: bool
  cl_entries :: "string \<Rightarrow> string + dir_entry option list"
  cl_tls :: "string \<Rightarrow> (string \<times> string) option \<Rightarrow> string \<Rightarrow> string + unit"

abbreviation cl_env :: "cli \<Rightarrow> env" where
  "cl_env c \<equiv> outside (cl_agent c)"

abbreviation cl_host :: "cli \<Rightarrow> host" where
  "cl_host c \<equiv> local_host (cl_agent c)"

type_synonym outcome = "(string + unit) \<times> string \<times> secret_files"

definition failing :: "string \<Rightarrow> secret_files \<Rightarrow> outcome" where
  "failing err fs = (Inl err, [], fs)"

definition printing :: "string \<Rightarrow> secret_files \<Rightarrow> outcome" where
  "printing out fs = (Inr (), out @ [NL], fs)"

section \<open>Files\<close>

definition file_exists :: "secret_files \<Rightarrow> string \<Rightarrow> bool" where
  "file_exists fs path \<longleftrightarrow> fs path \<noteq> None"

text \<open>\<open>fs::read_to_string\<close>, \<open>fs::write\<close>, and opening for append and writing a line.\<close>

definition read_text :: "cli \<Rightarrow> string \<Rightarrow> secret_files \<Rightarrow> string + string" where
  "read_text c path fs =
     (case cl_read_error c path of
        Some err \<Rightarrow> Inl err
      | None \<Rightarrow>
          (case fs path of
             None \<Rightarrow> Inl no_such_file
           | Some (_, contents) \<Rightarrow>
               if valid_utf8 contents then Inr contents else Inl ''stream did not contain valid UTF-8''))"

definition put_text :: "cli \<Rightarrow> string \<Rightarrow> string \<Rightarrow> string \<Rightarrow> secret_files \<Rightarrow> (string + unit) \<times> secret_files" where
  "put_text c path before contents fs =
     (case cl_open_error c path of
        Some err \<Rightarrow> (Inl err, fs)
      | None \<Rightarrow>
          (let mode = (case fs path of None \<Rightarrow> cl_new_mode c | Some (m, _) \<Rightarrow> m) in
           case cl_write_stop c path of
             None \<Rightarrow> (Inr (), fs(path \<mapsto> (mode, before @ contents)))
           | Some (n, err) \<Rightarrow> (Inl err, fs(path \<mapsto> (mode, before @ take n contents)))))"

definition write_text :: "cli \<Rightarrow> string \<Rightarrow> string \<Rightarrow> secret_files \<Rightarrow> (string + unit) \<times> secret_files" where
  "write_text c path contents fs = put_text c path [] contents fs"

definition append_line :: "cli \<Rightarrow> string \<Rightarrow> string \<Rightarrow> secret_files \<Rightarrow> (string + unit) \<times> secret_files" where
  "append_line c path line fs =
     put_text c path (case fs path of None \<Rightarrow> [] | Some (_, old) \<Rightarrow> old) (line @ [NL]) fs"

definition cli_restrict_file :: "cli \<Rightarrow> string \<Rightarrow> secret_files \<Rightarrow> secret_files" where
  "cli_restrict_file c path fs =
     (case fs path of
        Some (_, contents) \<Rightarrow> if cl_chmod c then fs(path \<mapsto> (384, contents)) else fs
      | None \<Rightarrow> fs)"

section \<open>Arguments\<close>

text \<open>The variables the global options set.\<close>

record flags =
  fl_json :: bool
  fl_profile :: "string option"

definition with_flags :: "flags \<Rightarrow> cli \<Rightarrow> cli" where
  "with_flags fl c =
     (let e = cl_env c;
          vars = (environ e)(''NODEWE_OUTPUT'' := if fl_json fl then Some ''json'' else environ e ''NODEWE_OUTPUT'',
                             ''NODEWE_PROFILE'' := case fl_profile fl of Some p \<Rightarrow> Some p
                                                   | None \<Rightarrow> environ e ''NODEWE_PROFILE'')
      in c\<lparr>cl_agent := (cl_agent c)\<lparr>outside := e\<lparr>environ := vars\<rparr>\<rparr>\<rparr>)"

fun normalize_loop_args :: "bool \<Rightarrow> string list \<Rightarrow> string list \<Rightarrow> flags \<Rightarrow> (string + string list) \<times> flags" where
  "normalize_loop_args after [] args fl = (Inr args, fl)"
| "normalize_loop_args after (argument # rest) args fl =
     (if argument = ''--'' then normalize_loop_args True rest (args @ [argument]) fl
      else if \<not> after \<and> argument = ''--json'' then normalize_loop_args after rest args (fl\<lparr>fl_json := True\<rparr>)
      else if \<not> after \<and> argument = ''--output'' then
        (case rest of
           [] \<Rightarrow> (Inl ''--output requires a format'', fl)
         | format # rest \<Rightarrow>
             if format \<noteq> ''json'' then (Inl ''only --output json is supported'', fl)
             else normalize_loop_args after rest args (fl\<lparr>fl_json := True\<rparr>))
      else if \<not> after \<and> argument = ''--non-interactive'' then normalize_loop_args after rest args fl
      else if \<not> after \<and> argument = ''--timeout'' then
        (case rest of
           [] \<Rightarrow> (Inl ''--timeout requires milliseconds'', fl)
         | milliseconds # rest \<Rightarrow> normalize_loop_args after rest (args @ [''--timeout-ms'', milliseconds]) fl)
      else if \<not> after \<and> argument = ''--profile'' then
        (case rest of
           [] \<Rightarrow> (Inl ''--profile requires a name'', fl)
         | profile # rest \<Rightarrow>
             (case NodeId_new profile of
                Inl _ \<Rightarrow> (Inl ''invalid profile name'', fl)
              | Inr _ \<Rightarrow> normalize_loop_args after rest args (fl\<lparr>fl_profile := Some profile\<rparr>)))
      else normalize_loop_args after rest (args @ [argument]) fl)"

definition normalize_args :: "string list \<Rightarrow> (string + string list) \<times> flags" where
  "normalize_args raw_args = normalize_loop_args False raw_args [] \<lparr>fl_json = False, fl_profile = None\<rparr>"

definition cli_option :: "string list \<Rightarrow> string \<Rightarrow> string option" where
  "cli_option args name = arg_option args name"

definition has_flag :: "string list \<Rightarrow> string \<Rightarrow> bool" where
  "has_flag args name = list_ex (\<lambda>argument. argument = name) args"

definition error_code :: "string \<Rightarrow> string" where
  "error_code error =
     (let value = to_ascii_lowercase error; has = str_contains value in
      if has ''file_output_too_large'' then ''file_output_too_large''
      else if has ''file_input_too_large'' then ''file_input_too_large''
      else if has ''ability_not_implemented'' then ''ability_not_implemented''
      else if has ''auth'' \<or> has ''token'' then ''unauthenticated''
      else if has ''permission'' \<or> has ''policy'' \<or> has ''allowed'' then ''policy_denied''
      else if has ''offline'' \<or> has ''connection'' then ''node_unavailable''
      else if has ''timeout'' then ''task_timeout''
      else if has ''task'' \<and> has ''failed'' then ''task_failed''
      else ''invalid_request'')"

section \<open>State\<close>

definition state_root :: "cli \<Rightarrow> string" where
  "state_root c =
     (let e = cl_env c;
          home = (case environ e ''NODEWE_HOME'' of
                    Some home \<Rightarrow> home
                  | None \<Rightarrow> (case environ e ''HOME'' of Some home \<Rightarrow> path_join home ''.nodewe'' | None \<Rightarrow> ''.nodewe''))
      in case environ e ''NODEWE_PROFILE'' of
           None \<Rightarrow> home | Some profile \<Rightarrow> path_join (path_join home ''profiles'') profile)"

definition state_dir :: "cli \<Rightarrow> string + string" where
  "state_dir c =
     (let dir = state_root c in
      case cl_dir_error c (path_join dir ''tasks'') of
        Some err \<Rightarrow> Inl (''cannot initialize NodeWe state: '' @ err) | None \<Rightarrow> Inr dir)"

text \<open>\<open>state_dir()?\<close> at the start of a command.\<close>

definition in_state_dir :: "cli \<Rightarrow> secret_files \<Rightarrow> (string \<Rightarrow> outcome) \<Rightarrow> outcome" where
  "in_state_dir c fs command = (case state_dir c of Inl err \<Rightarrow> failing err fs | Inr dir \<Rightarrow> command dir)"

definition now_id :: "cli \<Rightarrow> nat \<Rightarrow> string \<Rightarrow> string" where
  "now_id c k tag = tag @ ''_'' @ hex (nanos (cl_agent c) k)"

definition cli_random_token :: "cli \<Rightarrow> nat \<Rightarrow> string" where
  "cli_random_token c k =
     (case rnd (cl_env c) k of
        Some bs \<Rightarrow> if 18 \<le> length bs then hex_encode_bytes (take 18 bs) else now_id c k ''grant''
      | None \<Rightarrow> now_id c k ''grant'')"

definition json_escape :: "string \<Rightarrow> string" where
  "json_escape value = concat (map escape_char (chars_of value))"

text \<open>\<open>write!\<close> of members: a string, and text as it is.\<close>

definition text_member :: "string \<Rightarrow> string \<Rightarrow> string" where
  "text_member key value = member key (json_escape value)"

definition raw_member :: "string \<Rightarrow> string \<Rightarrow> string" where
  "raw_member key value = [DQUOTE] @ key @ [DQUOTE] @ '':'' @ value"

definition text_array :: "string list \<Rightarrow> string" where
  "text_array values = ''['' @ str_join '','' (map (\<lambda>v. [DQUOTE] @ json_escape v @ [DQUOTE]) values) @ '']''"

definition append_audit :: "cli \<Rightarrow> string \<Rightarrow> string \<Rightarrow> secret_files \<Rightarrow> (string + unit) \<times> secret_files" where
  "append_audit c dir event fs =
     (let path = path_join dir ''audit.jsonl'' in
      case append_line c path event fs of
        (Inl err, fs) \<Rightarrow> (Inl err, fs)
      | (Inr _, fs) \<Rightarrow> (Inr (), cli_restrict_file c path fs))"

definition audited :: "cli \<Rightarrow> string \<Rightarrow> string \<Rightarrow> (secret_files \<Rightarrow> outcome) \<Rightarrow> secret_files \<Rightarrow> outcome" where
  "audited c dir event command fs =
     (case append_audit c dir event fs of (Inl err, fs) \<Rightarrow> failing err fs | (Inr _, fs) \<Rightarrow> command fs)"

section \<open>Nodes and groups\<close>

record node_entry =
  en_id :: string
  en_name :: string
  en_online :: bool
  en_labels :: "string list"

definition cli_label_char :: "char \<Rightarrow> bool" where
  [ascii_simps]: "cli_label_char b \<longleftrightarrow> is_ascii_alphanumeric b \<or> b \<in> {CHR ''_'', CHR ''-'', CHR ''.'', CHR '':''}"

fun parse_labels_loop :: "string list \<Rightarrow> string list \<Rightarrow> string + string list" where
  "parse_labels_loop labels [] = Inr labels"
| "parse_labels_loop labels (raw # rest) =
     (let label = str_trim raw in
      if label = [] then parse_labels_loop labels rest
      else if length label > 64 \<or> \<not> list_all cli_label_char label
      then Inl ''labels must be comma-separated safe identifiers''
      else parse_labels_loop (if label \<in> set labels then labels else labels @ [label]) rest)"

definition parse_labels :: "string \<Rightarrow> string + string list" where
  "parse_labels value = parse_labels_loop [] (str_split value CHR '','')"

definition parse_node_entry :: "string \<Rightarrow> node_entry option" where
  "parse_node_entry line =
     (case str_splitn 4 TAB line of
        i # name # online # rest \<Rightarrow>
          (case parse_labels (case rest of [] \<Rightarrow> [] | labels # _ \<Rightarrow> labels) of
             Inl _ \<Rightarrow> None
           | Inr labels \<Rightarrow>
               Some \<lparr>en_id = i, en_name = name, en_online = (online = ''online''), en_labels = labels\<rparr>)
      | _ \<Rightarrow> None)"

definition read_nodes :: "cli \<Rightarrow> string \<Rightarrow> secret_files \<Rightarrow> string + node_entry list" where
  "read_nodes c path fs =
     (if \<not> file_exists fs path then Inr []
      else case read_text c path fs of
        Inl err \<Rightarrow> Inl err | Inr contents \<Rightarrow> Inr (List.map_filter parse_node_entry (str_lines contents)))"

definition node_entry_line :: "node_entry \<Rightarrow> string" where
  "node_entry_line entry =
     replace_chars {TAB} '' '' (en_id entry) @ [TAB] @ replace_chars {TAB} '' '' (en_name entry) @ [TAB]
     @ (if en_online entry then ''online'' else ''revoked'') @ [TAB] @ str_join '','' (en_labels entry) @ [NL]"

definition write_nodes :: "cli \<Rightarrow> string \<Rightarrow> node_entry list \<Rightarrow> secret_files \<Rightarrow> (string + unit) \<times> secret_files" where
  "write_nodes c path entries fs = write_text c path (concat (map node_entry_line entries)) fs"

definition parse_group :: "string \<Rightarrow> (string \<times> string list) option" where
  "parse_group line =
     (case split_once line TAB of
        None \<Rightarrow> None | Some (i, ns) \<Rightarrow> Some (i, filter (\<lambda>n. n \<noteq> []) (str_split ns CHR '','')))"

definition read_groups :: "cli \<Rightarrow> string \<Rightarrow> secret_files \<Rightarrow> string + (string \<times> string list) list" where
  "read_groups c path fs =
     (if \<not> file_exists fs path then Inr []
      else case read_text c path fs of
        Inl err \<Rightarrow> Inl err | Inr contents \<Rightarrow> Inr (List.map_filter parse_group (str_lines contents)))"

definition group_line :: "string \<times> string list \<Rightarrow> string" where
  "group_line g =
     replace_chars {TAB} '' '' (fst g) @ [TAB]
     @ str_join '','' (map (replace_chars {CHR '','', TAB, NL} '' '') (snd g)) @ [NL]"

definition write_groups :: "cli \<Rightarrow> string \<Rightarrow> (string \<times> string list) list \<Rightarrow> secret_files \<Rightarrow> (string + unit) \<times> secret_files" where
  "write_groups c path groups fs = write_text c path (concat (map group_line groups)) fs"

definition explicit_ids :: "string option \<Rightarrow> string list" where
  "explicit_ids explicit_nodes =
     (case explicit_nodes of
        None \<Rightarrow> [] | Some value \<Rightarrow> filter (\<lambda>i. i \<noteq> []) (map str_trim (str_split value CHR '','')))"

definition single_label :: "string option \<Rightarrow> bool" where
  "single_label label =
     (case label of
        None \<Rightarrow> True
      | Some l \<Rightarrow> (case parse_labels l of Inr (first # _) \<Rightarrow> first = l | _ \<Rightarrow> False))"

definition select_group_nodes :: "node_entry list \<Rightarrow> string option \<Rightarrow> string option \<Rightarrow> string + string list" where
  "select_group_nodes entries explicit_nodes label =
     (if explicit_nodes = None \<and> label = None then Inl ''group requires --nodes and/or --label''
      else (let explicit = explicit_ids explicit_nodes in
        if explicit_nodes \<noteq> None \<and> explicit = [] then Inl ''--nodes must contain at least one node id''
        else if list_ex (\<lambda>i. case NodeId_new i of Inl _ \<Rightarrow> True | Inr _ \<Rightarrow> False) explicit then Inl ''invalid node id in group''
        else if \<not> single_label label then Inl ''--label must be a single safe label''
        else (let selected = map en_id
               (filter (\<lambda>entry. case label of None \<Rightarrow> True | Some l \<Rightarrow> l \<in> set (en_labels entry))
                 (filter (\<lambda>entry. explicit_nodes = None \<or> en_id entry \<in> set explicit) entries))
              in if selected = [] then Inl ''group selector matched no nodes'' else Inr selected)))"

section \<open>Sessions, nodes, groups\<close>

definition usage :: "string \<Rightarrow> secret_files \<Rightarrow> outcome" where
  "usage text fs = failing (''usage: nodewe '' @ text) fs"

text \<open>\<open>args.get(1).ok_or(..)?\<close>.\<close>

definition second_arg :: "string list \<Rightarrow> string \<Rightarrow> secret_files \<Rightarrow> (string \<Rightarrow> outcome) \<Rightarrow> outcome" where
  "second_arg args err fs command = (case args of _ # a # _ \<Rightarrow> command a | _ \<Rightarrow> failing err fs)"

definition auth :: "cli \<Rightarrow> string list \<Rightarrow> secret_files \<Rightarrow> outcome" where
  "auth c args fs = in_state_dir c fs (\<lambda>dir.
     let session = path_join dir ''session'' in
     case args of
       [] \<Rightarrow> usage ''auth login|logout|status'' fs
     | a # _ \<Rightarrow>
         if a = ''login'' then
           (case write_text c session (now_id c 0 ''session'') fs of
              (Inl err, fs) \<Rightarrow> failing err fs
            | (Inr _, fs) \<Rightarrow> printing ''authenticated'' (cli_restrict_file c session fs))
         else if a = ''logout'' then printing ''logged out'' (if cl_open_error c session = None then fs(session := None) else fs)
         else if a = ''status'' then printing (object_text [raw_member ''authenticated'' (show_bool (file_exists fs session))]) fs
         else usage ''auth login|logout|status'' fs)"

definition node_members :: "node_entry \<Rightarrow> string list" where
  "node_members entry =
     [text_member ''node_id'' (en_id entry), text_member ''name'' (en_name entry),
      raw_member ''online'' (show_bool (en_online entry))]"

definition node_pair :: "cli \<Rightarrow> string list \<Rightarrow> string \<Rightarrow> secret_files \<Rightarrow> outcome" where
  "node_pair c args dir fs =
     (let path = path_join dir ''nodes.tsv'';
          i = or_else (cli_option args ''--id'') (now_id c 0 ''node'');
          name = or_else (cli_option args ''--name'') i
      in case parse_labels (or_else (cli_option args ''--labels'') []) of
        Inl err \<Rightarrow> failing err fs
      | Inr labels \<Rightarrow>
     (case NodeId_new i of
        Inl err \<Rightarrow> failing err fs
      | Inr _ \<Rightarrow>
     (case read_nodes c path fs of
        Inl err \<Rightarrow> failing err fs
      | Inr entries \<Rightarrow>
          if list_ex (\<lambda>entry. en_id entry = i) entries then failing ''node already exists'' fs
          else (case write_nodes c path
                  (entries @ [\<lparr>en_id = i, en_name = name, en_online = True, en_labels = labels\<rparr>]) fs of
                  (Inl err, fs) \<Rightarrow> failing err fs
                | (Inr _, fs) \<Rightarrow>
                    audited c dir (object_text [member ''event'' ''node.paired'', text_member ''node_id'' i])
                      (printing (object_text [text_member ''node_id'' i, text_member ''name'' name, raw_member ''online'' ''true'']))
                      (cli_restrict_file c path fs)))))"

definition set_offline :: "string \<Rightarrow> node_entry \<Rightarrow> node_entry" where
  "set_offline i entry = (if en_id entry = i then entry\<lparr>en_online := False\<rparr> else entry)"

definition node_revoke :: "cli \<Rightarrow> string \<Rightarrow> string \<Rightarrow> secret_files \<Rightarrow> outcome" where
  "node_revoke c i dir fs =
     (let path = path_join dir ''nodes.tsv'' in
      case read_nodes c path fs of
        Inl err \<Rightarrow> failing err fs
      | Inr entries \<Rightarrow>
          if \<not> list_ex (\<lambda>entry. en_id entry = i) entries then failing ''node not found'' fs
          else (case write_nodes c path (map (set_offline i) entries) fs of
                  (Inl err, fs) \<Rightarrow> failing err fs
                | (Inr _, fs) \<Rightarrow>
                    audited c dir (object_text [member ''event'' ''node.revoked'', text_member ''node_id'' i])
                      (printing (object_text [text_member ''node_id'' i, raw_member ''revoked'' ''true''])) fs))"

text \<open>\<open>node\<close> without a control plane.\<close>

definition node_local :: "cli \<Rightarrow> string list \<Rightarrow> secret_files \<Rightarrow> outcome" where
  "node_local c args fs = in_state_dir c fs (\<lambda>dir.
     let path = path_join dir ''nodes.tsv'';
         read = (\<lambda>command. case read_nodes c path fs of Inl err \<Rightarrow> failing err fs | Inr entries \<Rightarrow> command entries);
         bad = usage ''node list|pair|enroll|inspect|revoke <node-id>'' fs in
     case args of
       [] \<Rightarrow> bad
     | a # _ \<Rightarrow>
         if a = ''pair'' \<or> a = ''enroll'' then node_pair c args dir fs
         else if a = ''list'' then
           read (\<lambda>entries. printing (''['' @ str_join '','' (map (\<lambda>entry. object_text (node_members entry
              @ [raw_member ''labels'' (text_array (en_labels entry))])) entries) @ '']'') fs)
         else if a = ''inspect'' then
           second_arg args ''usage: nodewe node inspect <node-id>'' fs (\<lambda>i. read (\<lambda>entries.
             case find (\<lambda>entry. en_id entry = i) entries of
               None \<Rightarrow> failing ''node not found'' fs
             | Some entry \<Rightarrow> printing (object_text (node_members entry @ [raw_member ''revoked'' (show_bool (\<not> en_online entry)),
                 raw_member ''labels'' (text_array (en_labels entry))])) fs))
         else if a = ''revoke'' then
           second_arg args ''usage: nodewe node revoke <node-id>'' fs (\<lambda>i. node_revoke c i dir fs)
         else bad)"

definition group_create :: "cli \<Rightarrow> string list \<Rightarrow> string \<Rightarrow> secret_files \<Rightarrow> outcome" where
  "group_create c args dir fs =
     (let path = path_join dir ''groups.tsv''; explicit = cli_option args ''--nodes''; label = cli_option args ''--label'' in
      case cli_option args ''--id'' of
        None \<Rightarrow> failing ''--id is required'' fs
      | Some i \<Rightarrow>
          if i = [] \<or> explicit = None \<and> label = None then failing ''invalid group'' fs
          else (case NodeId_new i of
        Inl _ \<Rightarrow> failing ''invalid group id'' fs
      | Inr _ \<Rightarrow>
     (case read_nodes c (path_join dir ''nodes.tsv'') fs of
        Inl err \<Rightarrow> failing err fs
      | Inr entries \<Rightarrow>
     (case select_group_nodes entries explicit label of
        Inl err \<Rightarrow> failing err fs
      | Inr selected \<Rightarrow>
     (case read_groups c path fs of
        Inl err \<Rightarrow> failing err fs
      | Inr gs \<Rightarrow>
          if list_ex (\<lambda>g. fst g = i) gs then failing ''group already exists'' fs
          else (case write_groups c path (gs @ [(i, selected)]) fs of
                  (Inl err, fs) \<Rightarrow> failing err fs
                | (Inr _, fs) \<Rightarrow>
                    audited c dir (object_text [member ''event'' ''group.created'', text_member ''group_id'' i])
                      (printing (object_text [text_member ''group_id'' i, raw_member ''nodes'' (text_array selected)]))
                      (cli_restrict_file c path fs)))))))"

text \<open>\<open>group\<close>, up to \<open>group run\<close>.\<close>

definition group_local :: "cli \<Rightarrow> string list \<Rightarrow> secret_files \<Rightarrow> outcome" where
  "group_local c args fs = in_state_dir c fs (\<lambda>dir.
     let read = (\<lambda>command. case read_groups c (path_join dir ''groups.tsv'') fs of
                    Inl err \<Rightarrow> failing err fs | Inr gs \<Rightarrow> command gs);
         bad = usage ''group create|list|show <group-id>'' fs in
     case args of
       [] \<Rightarrow> bad
     | a # _ \<Rightarrow>
         if a = ''create'' then group_create c args dir fs
         else if a = ''list'' then
           read (\<lambda>gs. printing (''['' @ str_join '','' (map (\<lambda>(i, ns). object_text
              [text_member ''group_id'' i, raw_member ''node_count'' (dec (length ns))]) gs) @ '']'') fs)
         else if a = ''show'' then
           second_arg args ''usage: nodewe group show <group-id>'' fs (\<lambda>i. read (\<lambda>gs.
             case find (\<lambda>g. fst g = i) gs of
               None \<Rightarrow> failing ''group not found'' fs
             | Some (i, ns) \<Rightarrow> printing (object_text [text_member ''group_id'' i, raw_member ''nodes'' (text_array ns)]) fs))
         else bad)"

section \<open>Scopes\<close>

text \<open>One entry of the listing: entries that cannot be read and names that are no plain names are left out.\<close>

definition listed_entry :: "dir_entry \<Rightarrow> (string \<times> string \<times> nat) option" where
  "listed_entry d =
     (let name = from_utf8_lossy (de_name d) in
      if name = ''.'' \<or> name = ''..'' \<or> list_ex (\<lambda>b. b \<in> {CHR ''/'', BACKSLASH, CHR 0x00}) name then None
      else map_option (\<lambda>kind. (name,
             case kind of A_directory \<Rightarrow> ''directory'' | A_file \<Rightarrow> ''file'' | Another \<Rightarrow> ''other'',
             if kind = A_file then or_else (de_size d) 0 else 0)) (de_kind d))"

definition scope_listing :: "cli \<Rightarrow> scope \<Rightarrow> string + string" where
  "scope_listing c sc =
     (case cl_entries c (root sc) of
        Inl err \<Rightarrow> Inl (''cannot list Scope: '' @ err)
      | Inr ds \<Rightarrow>
          Inr (''['' @ str_join '','' (map (\<lambda>(name, kind, size). object_text
             [text_member ''name'' name, member ''kind'' kind, raw_member ''size'' (dec size)])
             (sort_key fst (List.map_filter listed_entry (List.map_filter id ds)))) @ '']''))"

definition scope_command :: "cli \<Rightarrow> string list \<Rightarrow> secret_files \<Rightarrow> outcome" where
  "scope_command c args fs =
     (let action = (case args of [] \<Rightarrow> ''inspect'' | a # _ \<Rightarrow> a); path = (case args of _ # p # _ \<Rightarrow> p | _ \<Rightarrow> ''.'') in
      case Scope_new (fsys (cl_host c)) path of
        Inl err \<Rightarrow> failing err fs
      | Inr sc \<Rightarrow>
          if action = ''inspect'' then
            printing (object_text [text_member ''root'' (from_utf8_lossy (root sc)),
              raw_member ''operations'' (text_array [''read'', ''write'', ''execute''])]) fs
          else if action = ''list'' then
            (case scope_listing c sc of Inl err \<Rightarrow> failing err fs | Inr out \<Rightarrow> printing out fs)
          else usage ''scope list|inspect <path>'' fs)"

section \<open>Grants, audit, doctor\<close>

definition grant_create :: "cli \<Rightarrow> string \<Rightarrow> secret_files \<Rightarrow> outcome" where
  "grant_create c dir fs =
     (let path = path_join dir ''grants.tsv''; code = cli_random_token c 0;
          expires = dec (unat (clk (cl_env c) 0) + 300000)
      in case append_line c path (code @ [TAB] @ expires @ [TAB] @ ''unused'') fs of
        (Inl err, fs) \<Rightarrow> failing err fs
      | (Inr _, fs) \<Rightarrow>
          audited c dir (object_text [member ''event'' ''grant.created'', raw_member ''expires_at'' expires])
            (printing (object_text [text_member ''grant_code'' code, raw_member ''expires_at'' expires]))
            (cli_restrict_file c path fs))"

definition grant_list_line :: "string \<Rightarrow> string" where
  "grant_list_line line =
     (case str_splitn 3 TAB line of
        [code, expires, status] \<Rightarrow>
          object_text [text_member ''grant_code'' code, raw_member ''expires_at'' expires, member ''status'' status] @ [NL]
      | _ \<Rightarrow> [])"

definition revoked_line :: "string \<Rightarrow> string \<Rightarrow> string" where
  "revoked_line code line =
     (let fields = str_splitn 3 TAB line in
      if fields \<noteq> [] \<and> hd fields = code
      then hd fields @ [TAB] @ (case fields of _ # expires # _ \<Rightarrow> expires | _ \<Rightarrow> ''0'') @ [TAB] @ ''revoked''
      else line)"

definition grant_revoke :: "cli \<Rightarrow> string \<Rightarrow> string \<Rightarrow> secret_files \<Rightarrow> outcome" where
  "grant_revoke c code dir fs =
     (let path = path_join dir ''grants.tsv'';
          ls = str_lines (case read_text c path fs of Inl _ \<Rightarrow> [] | Inr contents \<Rightarrow> contents)
      in if \<not> list_ex (\<lambda>line. hd (str_splitn 3 TAB line) = code) ls then failing ''grant not found'' fs
         else (case write_text c path (str_join [NL] (map (revoked_line code) ls) @ [NL]) fs of
                 (Inl err, fs) \<Rightarrow> failing err fs
               | (Inr _, fs) \<Rightarrow>
                   audited c dir (object_text [member ''event'' ''grant.revoked'', text_member ''grant_code'' code])
                     (printing (object_text [text_member ''grant_code'' code, raw_member ''revoked'' ''true'']))
                     (cli_restrict_file c path fs)))"

text \<open>\<open>grant\<close> without a control plane.\<close>

definition grant_local :: "cli \<Rightarrow> string list \<Rightarrow> secret_files \<Rightarrow> outcome" where
  "grant_local c args fs = in_state_dir c fs (\<lambda>dir.
     let path = path_join dir ''grants.tsv''; bad = usage ''grant create|list|revoke <grant-code>'' fs in
     case args of
       [] \<Rightarrow> bad
     | a # _ \<Rightarrow>
         if a = ''create'' then grant_create c dir fs
         else if a = ''list'' then
           (if \<not> file_exists fs path then (Inr (), [], fs)
            else case read_text c path fs of
              Inl err \<Rightarrow> failing err fs
            | Inr contents \<Rightarrow> (Inr (), concat (map grant_list_line (str_lines contents)), fs))
         else if a = ''revoke'' then
           second_arg args ''usage: nodewe grant revoke <grant-code>'' fs (\<lambda>code. grant_revoke c code dir fs)
         else bad)"

definition audit_command :: "cli \<Rightarrow> string list \<Rightarrow> secret_files \<Rightarrow> outcome" where
  "audit_command c args fs =
     (if args = [] \<or> hd args \<noteq> ''list'' then usage ''audit list'' fs
      else in_state_dir c fs (\<lambda>dir.
        let path = path_join dir ''audit.jsonl'' in
        if \<not> file_exists fs path then (Inr (), [], fs)
        else case read_text c path fs of Inl err \<Rightarrow> failing err fs | Inr contents \<Rightarrow> (Inr (), contents, fs)))"

definition doctor :: "cli \<Rightarrow> secret_files \<Rightarrow> outcome" where
  "doctor c fs = in_state_dir c fs (\<lambda>dir.
     printing (object_text [text_member ''state_dir'' (from_utf8_lossy dir), raw_member ''state_writable'' ''true'',
       raw_member ''protocol_version'' ''1'', member ''agent'' AGENT_VERSION, member ''mode'' ''local-mvp'']) fs)"

end
