(* ===== verification/Cli_Task.thy ===== *)
theory Cli_Task
  imports Cli_Local
begin

text \<open>
  Tasks of the command line tool, \<open>cli/src/main.rs\<close>: running one in the foreground, the files it leaves,
  reading them back, and running a command on every node of a group with several workers.

  The pipes, the wait for the child and the resolution of the command are those of the agent; the tool has
  its own copy of the first two, word for word. Workers take nodes from a shared queue. A step of the group
  is a worker that takes a node, finishes the task it runs, or finds the queue empty; the effect of a task
  on the files is one step, at its end.
\<close>

section \<open>Task files\<close>

definition state_name :: "task_state \<Rightarrow> string" where
  "state_name s =
     (case s of Pending \<Rightarrow> ''Pending'' | Approved \<Rightarrow> ''Approved'' | Running \<Rightarrow> ''Running'' | Succeeded \<Rightarrow> ''Succeeded''
      | Failed \<Rightarrow> ''Failed'' | CancelRequested \<Rightarrow> ''CancelRequested'' | Cancelled \<Rightarrow> ''Cancelled'' | TimedOut \<Rightarrow> ''TimedOut'')"

definition task_file :: "string \<Rightarrow> string \<Rightarrow> string \<Rightarrow> string" where
  "task_file dir i ending = path_join (path_join dir ''tasks'') (i @ ending)"

definition meta_part :: "string \<Rightarrow> string" where
  "meta_part part = replace_chars {NL} (BACKSLASH # ''n'') (replace_chars {BACKSLASH} [BACKSLASH, BACKSLASH] part)"

definition task_meta :: "task_record \<Rightarrow> string" where
  "task_meta r =
     ''id='' @ tr_id r @ [NL] @ ''node_id='' @ tr_node_id r @ [NL] @ ''state='' @ state_name (tr_state r) @ [NL]
     @ ''command='' @ str_join '' '' (map meta_part (tr_command r)) @ [NL]"

definition persist_task :: "cli \<Rightarrow> string \<Rightarrow> task_record \<Rightarrow> string \<Rightarrow> string \<Rightarrow> secret_files \<Rightarrow> (string + unit) \<times> secret_files" where
  "persist_task c dir r stdout stderr fs =
     (let out = task_file dir (tr_id r) ''.stdout''; err = task_file dir (tr_id r) ''.stderr'';
          meta = task_file dir (tr_id r) ''.meta''
      in case write_text c out stdout fs of
        (Inl e, fs) \<Rightarrow> (Inl e, fs)
      | (Inr _, fs) \<Rightarrow>
     (case write_text c err stderr fs of
        (Inl e, fs) \<Rightarrow> (Inl e, fs)
      | (Inr _, fs) \<Rightarrow>
     (case write_text c meta (task_meta r) (cli_restrict_file c err (cli_restrict_file c out fs)) of
        (Inl e, fs) \<Rightarrow> (Inl e, fs)
      | (Inr _, fs) \<Rightarrow> (Inr (), cli_restrict_file c meta fs))))"

text \<open>\<open>print_task_meta\<close>: the members printed so far are kept when a line has no equals sign.\<close>

fun meta_members :: "bool \<Rightarrow> string list \<Rightarrow> string \<Rightarrow> (string + unit) \<times> string" where
  "meta_members first [] out = (Inr (), out @ [CHR 0x7D, NL])"
| "meta_members first (line # ls) out =
     (case split_once line CHR ''='' of
        None \<Rightarrow> (Inl ''invalid task metadata'', out)
      | Some (key, val) \<Rightarrow> meta_members False ls (out @ (if first then [] else '','') @ text_member key val))"

definition print_task_meta :: "cli \<Rightarrow> string \<Rightarrow> secret_files \<Rightarrow> outcome" where
  "print_task_meta c path fs =
     (case read_text c path fs of
        Inl err \<Rightarrow> failing err fs
      | Inr contents \<Rightarrow> (case meta_members True (str_lines contents) [CHR 0x7B] of (r, out) \<Rightarrow> (r, out, fs)))"

text \<open>\<open>task show|logs|cancel\<close> without a control plane.\<close>

definition task_action_local :: "cli \<Rightarrow> string \<Rightarrow> string \<Rightarrow> string \<Rightarrow> secret_files \<Rightarrow> outcome" where
  "task_action_local c action i dir fs =
     (let text_of = (\<lambda>path. case read_text c path fs of Inl _ \<Rightarrow> [] | Inr contents \<Rightarrow> contents) in
      if \<not> file_exists fs (task_file dir i ''.meta'') then failing ''task not found'' fs
      else if action = ''show'' then print_task_meta c (task_file dir i ''.meta'') fs
      else if action = ''logs'' then
        (Inr (), text_of (task_file dir i ''.stdout'') @ text_of (task_file dir i ''.stderr''), fs)
      else failing (''local NodeWe tasks are foreground-only; provide NODEWE_CONTROL_PLANE and NODEWE_TOKEN ''
                    @ ''for remote cancellation'') fs)"

section \<open>Running a task\<close>

definition cli_truncate :: "bytes \<Rightarrow> string" where
  "cli_truncate bs = lossy_text (take (min (length bs) MAX_OUTPUT) bs)"

text \<open>What \<open>run_task\<close> checks before it starts anything: timeout, node, scope, and the record in state
  \<open>Running\<close>. The identifier comes from the \<open>k\<close>-th reading of the clock.\<close>

record task_plan =
  tp_timeout :: u64
  tp_node :: string
  tp_cwd :: string
  tp_record :: task_record

definition plan_task :: "cli \<Rightarrow> nat \<Rightarrow> string list \<Rightarrow> string \<Rightarrow> secret_files \<Rightarrow> string + task_plan" where
  "plan_task c k args dir fs =
     (case cli_option args ''--node'' of None \<Rightarrow> Inl ''--node is required'' | Some node_id \<Rightarrow>
     (case cli_option args ''--scope'' of None \<Rightarrow> Inl ''--scope is required'' | Some scope_path \<Rightarrow>
     (let timeout_ms = or_else (Option.bind (cli_option args ''--timeout-ms'') parse_u64) 30000;
          rest = dropWhile (\<lambda>a. a \<noteq> ''--'') args
      in if rest = [] then Inl ''use `--` before the command''
         else if tl rest = [] then Inl ''command is required after `--`''
         else case read_nodes c (path_join dir ''nodes.tsv'') fs of Inl err \<Rightarrow> Inl err | Inr entries \<Rightarrow>
     (if \<not> list_ex (\<lambda>entry. en_id entry = node_id \<and> en_online entry) entries
      then Inl ''node is not paired or has been revoked''
      else case Scope_new (fsys (cl_host c)) scope_path of Inl err \<Rightarrow> Inl err | Inr sc \<Rightarrow>
     (case scope_authorize (fsys (cl_host c)) sc ''.'' Execute of Inl err \<Rightarrow> Inl err | Inr _ \<Rightarrow>
     (case resolve_command (fsys (cl_host c)) (tl rest) ALLOWED_COMMANDS of Inl err \<Rightarrow> Inl err | Inr command \<Rightarrow>
     (case NodeId_new node_id of Inl err \<Rightarrow> Inl err | Inr node \<Rightarrow>
     (case TaskRecord_new (now_id c k ''task'') node command of Inl err \<Rightarrow> Inl err | Inr r \<Rightarrow>
     (case task_transition r Approved of Inl err \<Rightarrow> Inl err | Inr r \<Rightarrow>
     (case task_transition r Running of Inl err \<Rightarrow> Inl err | Inr r \<Rightarrow>
        Inr \<lparr>tp_timeout = timeout_ms, tp_node = node_id, tp_cwd = root sc, tp_record = r\<rparr>))))))))))"

text \<open>The end of a task: move the record, write its files, record the event, print.\<close>

definition finish_task ::
  "cli \<Rightarrow> string \<Rightarrow> task_record \<Rightarrow> task_state \<Rightarrow> string \<Rightarrow> string \<Rightarrow> string \<Rightarrow> (secret_files \<Rightarrow> outcome) \<Rightarrow> secret_files \<Rightarrow> outcome" where
  "finish_task c dir r final stdout stderr event report fs =
     (case task_transition r final of
        Inl err \<Rightarrow> failing err fs
      | Inr r \<Rightarrow>
          (case persist_task c dir r stdout stderr fs of
             (Inl err, fs) \<Rightarrow> failing err fs
           | (Inr _, fs) \<Rightarrow> audited c dir event report fs))"

definition run_planned :: "cli \<Rightarrow> string \<Rightarrow> task_plan \<Rightarrow> secret_files \<Rightarrow> outcome option" where
  "run_planned c dir p fs =
     (let r = tp_record p; i = tr_id r in
      case spawn (cl_host c) (tr_command r) (tp_cwd p) of
        Inl err \<Rightarrow> Some (failing (''cannot start task: '' @ err) fs)
      | Inr child \<Rightarrow>
          map_option (\<lambda>w. case w of
              Inl err \<Rightarrow> failing err fs
            | Inr gone \<Rightarrow>
                if \<not> gone then
                  finish_task c dir r TimedOut [] ''timed out''
                    (object_text [member ''event'' ''task.timeout'', member ''task_id'' i, text_member ''node_id'' (tp_node p)])
                    (failing (''task '' @ i @ '' timed out'')) fs
                else (case wait_status child of Inl err \<Rightarrow> failing err fs | Inr status \<Rightarrow>
                     (case read_pipe_bounded (stdout_pipe child) MAX_OUTPUT of Inl err \<Rightarrow> failing err fs | Inr (out, _) \<Rightarrow>
                     (case read_pipe_bounded (stderr_pipe child) MAX_OUTPUT of Inl err \<Rightarrow> failing err fs | Inr (err_out, _) \<Rightarrow>
                      (let final = (if status = Some 0 then Succeeded else Failed) in
                       finish_task c dir r final (cli_truncate out) (cli_truncate err_out)
                         (object_text [member ''event'' ''task.completed'', member ''task_id'' i, text_member ''node_id'' (tp_node p),
                            member ''result'' (if status = Some 0 then ''succeeded'' else ''failed'')])
                         (printing (object_text [member ''task_id'' i, text_member ''node_id'' (tp_node p),
                            member ''state'' (state_name final),
                            raw_member ''exit_code'' (case status of None \<Rightarrow> ''null'' | Some code \<Rightarrow> show_int code)])) fs)))))
            (wait_child child (unat (tp_timeout p)) 0))"

definition run_task :: "cli \<Rightarrow> nat \<Rightarrow> string list \<Rightarrow> secret_files \<Rightarrow> outcome option" where
  "run_task c k args fs =
     (case state_dir c of
        Inl err \<Rightarrow> Some (failing err fs)
      | Inr dir \<Rightarrow>
          (case plan_task c k args dir fs of
             Inl err \<Rightarrow> Some (failing err fs) | Inr p \<Rightarrow> run_planned c dir p fs))"

section \<open>Running on a group\<close>

record group_plan =
  gp_id :: string
  gp_nodes :: "string list"
  gp_workers :: nat
  gp_stop :: bool
  gp_scope :: string
  gp_command :: "string list"

definition plan_group :: "cli \<Rightarrow> string list \<Rightarrow> secret_files \<Rightarrow> string + group_plan" where
  "plan_group c args fs =
     (case (case cli_option args ''--group'' of Some g \<Rightarrow> Some g | None \<Rightarrow> (case args of _ # g # _ \<Rightarrow> Some g | _ \<Rightarrow> None)) of
        None \<Rightarrow> Inl ''--group is required'' | Some group_id \<Rightarrow>
     (case cli_option args ''--scope'' of None \<Rightarrow> Inl ''--scope is required'' | Some scope_path \<Rightarrow>
     (let max_concurrency = max (or_else (Option.bind (cli_option args ''--max-concurrency'') parse_usize) 1) 1;
          failure_policy = or_else (cli_option args ''--failure-policy'') ''stop'';
          rest = dropWhile (\<lambda>a. a \<noteq> ''--'') args
      in if failure_policy \<noteq> ''stop'' \<and> failure_policy \<noteq> ''continue''
         then Inl ''--failure-policy must be stop or continue''
         else if rest = [] then Inl ''use `--` before the command''
         else if tl rest = [] then Inl ''command is required after `--`''
         else case state_dir c of Inl err \<Rightarrow> Inl err | Inr dir \<Rightarrow>
     (case read_groups c (path_join dir ''groups.tsv'') fs of Inl err \<Rightarrow> Inl err | Inr gs \<Rightarrow>
     (case find (\<lambda>g. fst g = group_id) gs of None \<Rightarrow> Inl ''group not found'' | Some (_, ns) \<Rightarrow>
        if ns = [] then Inl ''group has no nodes''
        else Inr \<lparr>gp_id = group_id, gp_nodes = ns, gp_workers = min max_concurrency (length ns),
                 gp_stop = (failure_policy = ''stop''), gp_scope = scope_path, gp_command = tl rest\<rparr>)))))"

definition group_task_args :: "group_plan \<Rightarrow> string \<Rightarrow> string list" where
  "group_task_args p n = [''run'', ''--node'', n, ''--scope'', gp_scope p, ''--''] @ gp_command p"

datatype worker = Waiting | Working string | Ended

text \<open>The queue, the workers with the failures each has collected, the files, what was printed, how often
  the clock was read, and the tasks that ended, in their order.\<close>

record group_run =
  gr_queue :: "string list"
  gr_workers :: "(worker \<times> string list) list"
  gr_files :: secret_files
  gr_printed :: string
  gr_clock :: nat
  gr_log :: "(string \<times> (string + unit)) list"

definition group_start :: "group_plan \<Rightarrow> secret_files \<Rightarrow> group_run" where
  "group_start p fs =
     \<lparr>gr_queue = gp_nodes p, gr_workers = replicate (gp_workers p) (Waiting, []), gr_files = fs, gr_printed = [],
      gr_clock = 0, gr_log = []\<rparr>"

definition after_task :: "group_plan \<Rightarrow> string \<Rightarrow> string + unit \<Rightarrow> string list \<Rightarrow> worker \<times> string list" where
  "after_task p n r failures =
     (case r of
        Inr _ \<Rightarrow> (Waiting, failures)
      | Inl err \<Rightarrow> (if gp_stop p then Ended else Waiting, failures @ [n @ '': '' @ err]))"

inductive group_step :: "cli \<Rightarrow> group_plan \<Rightarrow> group_run \<Rightarrow> group_run \<Rightarrow> bool" for c p where
  take: "i < length (gr_workers g) \<Longrightarrow> gr_workers g ! i = (Waiting, failures) \<Longrightarrow> gr_queue g \<noteq> [] \<Longrightarrow>
    group_step c p g (g\<lparr>gr_queue := butlast (gr_queue g),
                        gr_workers := (gr_workers g)[i := (Working (last (gr_queue g)), failures)]\<rparr>)"
| leave: "i < length (gr_workers g) \<Longrightarrow> gr_workers g ! i = (Waiting, failures) \<Longrightarrow> gr_queue g = [] \<Longrightarrow>
    group_step c p g (g\<lparr>gr_workers := (gr_workers g)[i := (Ended, failures)]\<rparr>)"
| finish: "i < length (gr_workers g) \<Longrightarrow> gr_workers g ! i = (Working n, failures) \<Longrightarrow>
    run_task c (gr_clock g) (group_task_args p n) (gr_files g) = Some (r, out, fs) \<Longrightarrow>
    group_step c p g (g\<lparr>gr_workers := (gr_workers g)[i := after_task p n r failures], gr_files := fs,
                        gr_printed := gr_printed g @ out, gr_clock := gr_clock g + 1, gr_log := gr_log g @ [(n, r)]\<rparr>)"

text \<open>Joining the workers, when all have ended.\<close>

definition all_ended :: "group_run \<Rightarrow> bool" where
  "all_ended g \<longleftrightarrow> list_all (\<lambda>w. fst w = Ended) (gr_workers g)"

definition group_outcome :: "group_plan \<Rightarrow> group_run \<Rightarrow> outcome" where
  "group_outcome p g =
     (let failures = concat (map snd (gr_workers g)) in
      if failures = []
      then (Inr (), gr_printed g @ object_text [text_member ''group_id'' (gp_id p), member ''status'' ''succeeded''] @ [NL], gr_files g)
      else (Inl (''group run failed: '' @ str_join ''; '' failures), gr_printed g, gr_files g))"

end
