(* ===== verification/Cli_Remote.thy ===== *)
theory Cli_Remote
  imports Cli_Task
begin

text \<open>
  The command line tool as a client of the control plane, \<open>cli/src/main.rs\<close>: its token and transport, the
  requests of \<open>node\<close>, \<open>grant\<close>, \<open>approval\<close> and \<open>task\<close>, and the choice among all commands.

  The requests are written like those of the agent (the texts are the same), and \<open>exchange\<close> reads the
  response. A command makes one exchange; \<open>net\<close> answers it.
\<close>

section \<open>Token and transport\<close>

definition remote_token :: "cli \<Rightarrow> string + string" where
  "remote_token c =
     (let e = cl_env c in
      case env_var e ''NODEWE_TOKEN'' of
        Some token \<Rightarrow> if token = [] then Inl ''NODEWE_TOKEN cannot be empty'' else header_token token
      | None \<Rightarrow>
     (case environ e ''NODEWE_TOKEN_FILE'' of
        None \<Rightarrow> Inl ''NODEWE_TOKEN or NODEWE_TOKEN_FILE is required''
      | Some path \<Rightarrow>
     (case file_mode e path of
        Inl err \<Rightarrow> Inl (''cannot read token file: '' @ err)
      | Inr mode \<Rightarrow>
          if mode AND 511 \<noteq> 384 \<and> mode AND 511 \<noteq> 256
          then Inl (''token file must be mode 0600 or 0400 (got '' @ show_radix 8 (mode AND 511) @ '')'')
          else (case read_file e path of
                  Inl err \<Rightarrow> Inl (''cannot read token file '' @ from_utf8_lossy path @ '': '' @ err)
                | Inr content \<Rightarrow>
                    if str_trim content = [] then Inl ''NODEWE_TOKEN_FILE cannot be empty''
                    else header_token (str_trim content)))))"

definition remote_token_optional :: "cli \<Rightarrow> string + string" where
  "remote_token_optional c =
     (if environ (cl_env c) ''NODEWE_TOKEN'' \<noteq> None \<or> environ (cl_env c) ''NODEWE_TOKEN_FILE'' \<noteq> None
      then remote_token c else Inr [])"

definition remote_config :: "cli \<Rightarrow> string list \<Rightarrow> string + (string \<times> string) option" where
  "remote_config c args =
     (case env_var (cl_env c) ''NODEWE_CONTROL_PLANE'' of
        None \<Rightarrow> Inr None
      | Some endpoint \<Rightarrow>
          (case (if args \<noteq> [] \<and> hd args = ''enroll'' then remote_token_optional c else remote_token c) of
             Inl err \<Rightarrow> Inl err | Inr token \<Rightarrow> Inr (Some (endpoint, token))))"

text \<open>\<open>load_tls_options\<close>: whether TLS is on; the authorities are required, the client's own certificate
  and key come together or not at all.\<close>

definition cli_load_tls_options :: "cli \<Rightarrow> string \<Rightarrow> string + bool" where
  "cli_load_tls_options c endpoint =
     (let e = cl_env c; ca = environ e ''NODEWE_CLI_TLS_CA''; certificate = environ e ''NODEWE_CLI_TLS_CERT'';
          private_key = environ e ''NODEWE_CLI_TLS_KEY'';
          server_name = or_else (env_var e ''NODEWE_CLI_TLS_SERVER_NAME'') (endpoint_host endpoint);
          build = (\<lambda>ca client. case cl_tls c ca client server_name of Inl err \<Rightarrow> Inl err | Inr _ \<Rightarrow> Inr True)
      in if ca = None \<and> certificate = None \<and> private_key = None then Inr False
         else case ca of
           None \<Rightarrow> Inl ''NODEWE_CLI_TLS_CA is required when CLI TLS is enabled''
         | Some ca \<Rightarrow>
             (case (certificate, private_key) of
                (None, None) \<Rightarrow> build ca None
              | (Some certificate, Some private_key) \<Rightarrow> build ca (Some (certificate, private_key))
              | _ \<Rightarrow> Inl ''NODEWE_CLI_TLS_CERT and NODEWE_CLI_TLS_KEY must be supplied together''))"

definition http_request :: "cli \<Rightarrow> network \<Rightarrow> string \<Rightarrow> string \<Rightarrow> string + string" where
  "http_request c net endpoint request =
     (case cli_load_tls_options c endpoint of
        Inl err \<Rightarrow> Inl err
      | Inr tls \<Rightarrow>
          (case ensure_endpoint_safe (cl_env c) endpoint tls of
             Inl err \<Rightarrow> Inl err | Inr _ \<Rightarrow> exchange net 0 request))"

definition http_get_json :: "cli \<Rightarrow> network \<Rightarrow> string \<Rightarrow> string \<Rightarrow> string \<Rightarrow> string + string" where
  "http_get_json c net endpoint path token = http_request c net endpoint (get_request endpoint path token)"

definition http_post_json :: "cli \<Rightarrow> network \<Rightarrow> string \<Rightarrow> string \<Rightarrow> string \<Rightarrow> string \<Rightarrow> string + string" where
  "http_post_json c net endpoint path body token = http_request c net endpoint (post_request endpoint path body token)"

definition http_post_json_unauthenticated :: "cli \<Rightarrow> network \<Rightarrow> string \<Rightarrow> string \<Rightarrow> string \<Rightarrow> string + string" where
  "http_post_json_unauthenticated c net endpoint path body =
     http_request c net endpoint (post_request_unauthenticated endpoint path body)"

definition json_string_field :: "cli \<Rightarrow> string \<Rightarrow> string \<Rightarrow> string option" where
  "json_string_field c object key = json_value (parse_json (cl_env c)) object key"

definition find_json_object_by_string :: "cli \<Rightarrow> string \<Rightarrow> string \<Rightarrow> string \<Rightarrow> string option" where
  "find_json_object_by_string c array key expected =
     Option.bind (Option.bind (parse_json (cl_env c) array) as_array) (\<lambda>vs.
       map_option (json_text (cl_agent c)) (find (\<lambda>object. Option.bind (get_member object key) as_str = Some expected) vs))"

text \<open>\<open>println!\<close> of the response.\<close>

definition print_response :: "string + string \<Rightarrow> secret_files \<Rightarrow> outcome" where
  "print_response r fs = (case r of Inl err \<Rightarrow> failing err fs | Inr response \<Rightarrow> printing response fs)"

section \<open>Nodes and grants\<close>

definition save_remote_credential :: "cli \<Rightarrow> string \<Rightarrow> string \<Rightarrow> secret_files \<Rightarrow> (string + unit) \<times> secret_files" where
  "save_remote_credential c node_id response fs =
     (case json_string_field c response ''credential'' of
        None \<Rightarrow> (Inl ''Control Plane response did not include a node credential'', fs)
      | Some credential \<Rightarrow>
     (case state_dir c of
        Inl err \<Rightarrow> (Inl err, fs)
      | Inr base \<Rightarrow>
          (let dir = path_join base ''credentials''; path = path_join dir (node_id @ ''.token'') in
           case cl_dir_error c dir of
             Some err \<Rightarrow> (Inl err, fs)
           | None \<Rightarrow> (case write_text c path credential fs of
                       (Inl err, fs) \<Rightarrow> (Inl err, fs) | (Inr _, fs) \<Rightarrow> (Inr (), cli_restrict_file c path fs)))))"

definition enrolled :: "cli \<Rightarrow> string \<Rightarrow> string \<Rightarrow> string + string \<Rightarrow> secret_files \<Rightarrow> outcome" where
  "enrolled c i name r fs =
     (case r of
        Inl err \<Rightarrow> failing err fs
      | Inr response \<Rightarrow>
          (case save_remote_credential c i response fs of
             (Inl err, fs) \<Rightarrow> failing err fs
           | (Inr _, fs) \<Rightarrow>
               printing (object_text [text_member ''node_id'' i, text_member ''name'' name, raw_member ''enrolled'' ''true'']) fs))"

definition remote_pair :: "cli \<Rightarrow> network \<Rightarrow> string list \<Rightarrow> string \<Rightarrow> string \<Rightarrow> secret_files \<Rightarrow> outcome" where
  "remote_pair c net args endpoint token fs =
     (let i = or_else (cli_option args ''--id'') (now_id c 0 ''node'') in
      case NodeId_new i of Inl _ \<Rightarrow> failing ''invalid node id'' fs | Inr _ \<Rightarrow>
     (let name = or_else (cli_option args ''--name'') i; labels = or_else (cli_option args ''--labels'') [] in
      case parse_labels labels of Inl err \<Rightarrow> failing err fs | Inr _ \<Rightarrow>
        enrolled c i name (http_post_json c net endpoint ''/v1/nodes''
          (object_text [text_member ''node_id'' i, text_member ''name'' name, text_member ''labels'' labels]) token) fs))"

definition remote_enroll :: "cli \<Rightarrow> network \<Rightarrow> string list \<Rightarrow> string \<Rightarrow> secret_files \<Rightarrow> outcome" where
  "remote_enroll c net args endpoint fs =
     (case cli_option args ''--id'' of None \<Rightarrow> failing ''--id is required'' fs | Some i \<Rightarrow>
     (case NodeId_new i of Inl _ \<Rightarrow> failing ''invalid node id'' fs | Inr _ \<Rightarrow>
     (case cli_option args ''--grant-code'' of None \<Rightarrow> failing ''--grant-code is required'' fs | Some code \<Rightarrow>
     (case cli_option args ''--grant-signature'' of None \<Rightarrow> failing ''--grant-signature is required'' fs | Some signature \<Rightarrow>
     (let name = or_else (cli_option args ''--name'') i; labels = or_else (cli_option args ''--labels'') [] in
      case parse_labels labels of Inl err \<Rightarrow> failing err fs | Inr _ \<Rightarrow>
        enrolled c i name (http_post_json_unauthenticated c net endpoint ''/v1/grants/redeem''
          (object_text [text_member ''grant_code'' code, text_member ''grant_signature'' signature, text_member ''node_id'' i,
             text_member ''name'' name, text_member ''labels'' labels])) fs)))))"

definition remote_node :: "cli \<Rightarrow> network \<Rightarrow> string list \<Rightarrow> string \<Rightarrow> string \<Rightarrow> secret_files \<Rightarrow> outcome" where
  "remote_node c net args endpoint token fs =
     (let bad = usage ''node list|pair|enroll|inspect|revoke'' fs in
      case args of
        [] \<Rightarrow> bad
      | a # _ \<Rightarrow>
          if a = ''list'' then print_response (http_get_json c net endpoint ''/v1/nodes'' token) fs
          else if a = ''pair'' then remote_pair c net args endpoint token fs
          else if a = ''enroll'' then remote_enroll c net args endpoint fs
          else if a = ''inspect'' \<or> a = ''show'' then
            second_arg args ''node id is required'' fs (\<lambda>i.
              case http_get_json c net endpoint ''/v1/nodes'' token of
                Inl err \<Rightarrow> failing err fs
              | Inr response \<Rightarrow>
                  (case find_json_object_by_string c response ''node_id'' i of
                     None \<Rightarrow> failing ''node not found'' fs | Some object \<Rightarrow> printing object fs))
          else if a = ''revoke'' then
            second_arg args ''node id is required'' fs (\<lambda>i.
              case NodeId_new i of
                Inl _ \<Rightarrow> failing ''invalid node id'' fs
              | Inr _ \<Rightarrow> print_response (http_post_json c net endpoint (''/v1/nodes/'' @ i @ ''/revoke'') (object_text []) token) fs)
          else bad)"

definition remote_grant :: "cli \<Rightarrow> network \<Rightarrow> string list \<Rightarrow> string \<Rightarrow> string \<Rightarrow> secret_files \<Rightarrow> outcome" where
  "remote_grant c net args endpoint token fs =
     (let bad = usage ''grant create|list|revoke <grant-code>'' fs in
      case args of
        [] \<Rightarrow> bad
      | a # _ \<Rightarrow>
          if a = ''create'' then print_response (http_post_json c net endpoint ''/v1/grants'' (object_text []) token) fs
          else if a = ''list'' then print_response (http_get_json c net endpoint ''/v1/grants'' token) fs
          else if a = ''revoke'' then
            second_arg args ''grant code is required'' fs (\<lambda>code.
              case NodeId_new code of
                Inl _ \<Rightarrow> failing ''invalid grant code'' fs
              | Inr _ \<Rightarrow> print_response (http_post_json c net endpoint (''/v1/grants/'' @ code @ ''/revoke'') (object_text []) token) fs)
          else bad)"

definition node_command :: "cli \<Rightarrow> network \<Rightarrow> string list \<Rightarrow> secret_files \<Rightarrow> outcome" where
  "node_command c net args fs =
     (case remote_config c args of
        Inl err \<Rightarrow> failing err fs
      | Inr None \<Rightarrow> node_local c args fs
      | Inr (Some (endpoint, token)) \<Rightarrow> remote_node c net args endpoint token fs)"

definition grant_command :: "cli \<Rightarrow> network \<Rightarrow> string list \<Rightarrow> secret_files \<Rightarrow> outcome" where
  "grant_command c net args fs =
     (case remote_config c args of
        Inl err \<Rightarrow> failing err fs
      | Inr None \<Rightarrow> grant_local c args fs
      | Inr (Some (endpoint, token)) \<Rightarrow> remote_grant c net args endpoint token fs)"

section \<open>Approvals and tasks\<close>

text \<open>\<open>NODEWE_CONTROL_PLANE\<close> and the token, as \<open>approval\<close> and \<open>submit_task\<close> need them.\<close>

definition with_control_plane :: "cli \<Rightarrow> secret_files \<Rightarrow> (string \<Rightarrow> string \<Rightarrow> outcome) \<Rightarrow> outcome" where
  "with_control_plane c fs command =
     (case env_var (cl_env c) ''NODEWE_CONTROL_PLANE'' of
        None \<Rightarrow> failing ''NODEWE_CONTROL_PLANE is required'' fs
      | Some endpoint \<Rightarrow> (case remote_token c of Inl err \<Rightarrow> failing err fs | Inr token \<Rightarrow> command endpoint token))"

definition optional_member :: "string \<Rightarrow> string option \<Rightarrow> string list" where
  "optional_member key v = (case v of None \<Rightarrow> [] | Some x \<Rightarrow> [text_member key x])"

definition approval_body :: "string list \<Rightarrow> string \<Rightarrow> string" where
  "approval_body args node_id =
     object_text ([text_member ''node_id'' node_id, member ''ability'' ''task.exec'',
       text_member ''program'' (or_else (cli_option args ''--program'') ''echo''),
       text_member ''argument'' (or_else (cli_option args ''--argument'') [])]
       @ optional_member ''actor'' (cli_option args ''--actor''))"

definition approval_command :: "cli \<Rightarrow> network \<Rightarrow> string list \<Rightarrow> secret_files \<Rightarrow> outcome" where
  "approval_command c net args fs = with_control_plane c fs (\<lambda>endpoint token.
     let bad = usage ''approval create|list --node <id> [--program P --argument A]'' fs in
     case args of
       [] \<Rightarrow> bad
     | a # _ \<Rightarrow>
         if a = ''create'' then
           (case cli_option args ''--node'' of
              None \<Rightarrow> failing ''--node is required'' fs
            | Some node_id \<Rightarrow>
                print_response (http_post_json c net endpoint ''/v1/approvals'' (approval_body args node_id) token) fs)
         else if a = ''list'' then print_response (http_get_json c net endpoint ''/v1/approvals'' token) fs
         else bad)"

definition task_body :: "cli \<Rightarrow> string list \<Rightarrow> string \<Rightarrow> string \<Rightarrow> nat \<Rightarrow> string" where
  "task_body c args node_id ability output_limit =
     (let keyed = cli_option args ''--idempotency-key'' in
      object_text ([text_member ''request_id'' (now_id c (if keyed = None then 1 else 0) ''request'')]
        @ optional_member ''actor'' (cli_option args ''--actor'')
        @ [text_member ''node_id'' node_id, text_member ''ability'' ability,
           text_member ''program'' (or_else (cli_option args ''--program'') ''echo''),
           text_member ''argument'' (or_else (cli_option args ''--argument'') []),
           text_member ''idempotency_key'' (or_else keyed (now_id c 0 ''request'')),
           raw_member ''output_limit'' (dec output_limit)]
        @ optional_member ''approval_id'' (cli_option args ''--approval-id'')
        @ (if has_flag args ''--approved'' then [raw_member ''approved'' ''true''] else [])))"

definition submit_task :: "cli \<Rightarrow> network \<Rightarrow> string list \<Rightarrow> secret_files \<Rightarrow> outcome" where
  "submit_task c net args fs = with_control_plane c fs (\<lambda>endpoint token.
     case cli_option args ''--node'' of None \<Rightarrow> failing ''--node is required'' fs | Some node_id \<Rightarrow>
     (case cli_option args ''--ability'' of None \<Rightarrow> failing ''--ability is required'' fs | Some ability \<Rightarrow>
     (case (case cli_option args ''--output-limit'' of None \<Rightarrow> Some (1024 * 1024) | Some value \<Rightarrow> parse_usize value) of
        None \<Rightarrow> failing ''--output-limit must be a positive integer'' fs
      | Some output_limit \<Rightarrow>
          if output_limit = 0 \<or> output_limit > 1024 * 1024
          then failing ''--output-limit must be between 1 and 1048576'' fs
          else print_response (http_post_json c net endpoint ''/v1/tasks''
                 (task_body c args node_id ability output_limit) token) fs)))"

definition task_action :: "cli \<Rightarrow> network \<Rightarrow> string list \<Rightarrow> secret_files \<Rightarrow> outcome" where
  "task_action c net args fs = in_state_dir c fs (\<lambda>dir.
     second_arg args ''task id is required'' fs (\<lambda>i.
       let action = hd args in
       case env_var (cl_env c) ''NODEWE_CONTROL_PLANE'' of
         None \<Rightarrow> task_action_local c action i dir fs
       | Some endpoint \<Rightarrow>
           (case remote_token c of
              Inl err \<Rightarrow> failing err fs
            | Inr token \<Rightarrow>
                if action = ''show'' then print_response (http_get_json c net endpoint (''/v1/tasks/'' @ i) token) fs
                else if action = ''logs'' then
                  (case http_get_json c net endpoint (''/v1/tasks/'' @ i) token of
                     Inl err \<Rightarrow> failing err fs
                   | Inr task \<Rightarrow> (Inr (), or_else (json_string_field c task ''output'') [], fs))
                else if action = ''cancel'' then
                  print_response (http_post_json c net endpoint (''/v1/tasks/'' @ i @ ''/cancel'') (object_text []) token) fs
                else task_action_local c action i dir fs)))"

section \<open>The whole command\<close>

text \<open>What a command line comes to: an outcome, waiting forever, or the workers of a group.\<close>

datatype command_result = Outcome outcome | Waits_forever | Group group_plan

definition returned_outcome :: "outcome option \<Rightarrow> command_result" where
  "returned_outcome r = (case r of None \<Rightarrow> Waits_forever | Some q \<Rightarrow> Outcome q)"

definition task_command :: "cli \<Rightarrow> network \<Rightarrow> string list \<Rightarrow> secret_files \<Rightarrow> command_result" where
  "task_command c net args fs =
     (case args of
        [] \<Rightarrow> Outcome (usage ''task run|show|logs|cancel ...'' fs)
      | a # _ \<Rightarrow>
          if a = ''run'' then returned_outcome (run_task c 0 args fs)
          else if a = ''submit'' then Outcome (submit_task c net args fs)
          else if a \<in> {''show'', ''logs'', ''cancel''} then Outcome (task_action c net args fs)
          else Outcome (usage ''task run|show|logs|cancel ...'' fs))"

definition group_command :: "cli \<Rightarrow> string list \<Rightarrow> secret_files \<Rightarrow> command_result" where
  "group_command c args fs =
     (if args \<noteq> [] \<and> hd args = ''run'' then
        (case state_dir c of
           Inl err \<Rightarrow> Outcome (failing err fs)
         | Inr _ \<Rightarrow> (case plan_group c args fs of Inl err \<Rightarrow> Outcome (failing err fs) | Inr p \<Rightarrow> Group p))
      else Outcome (group_local c args fs))"

text \<open>\<open>dispatch\<close>; the help text is left out.\<close>

definition dispatch_command :: "cli \<Rightarrow> network \<Rightarrow> string list \<Rightarrow> secret_files \<Rightarrow> command_result" where
  "dispatch_command c net raw_args fs =
     (case normalize_args raw_args of
        (Inl err, _) \<Rightarrow> Outcome (failing err fs)
      | (Inr args, fl) \<Rightarrow>
          (let c = with_flags fl c in
           case args of
             [] \<Rightarrow> Outcome (Inr (), [], fs)
           | a # rest \<Rightarrow>
               if args = [''--help''] \<or> args = [''-h''] then Outcome (Inr (), [], fs)
               else if args = [''--version''] then Outcome (printing (''nodewe '' @ AGENT_VERSION) fs)
               else if a = ''auth'' then Outcome (auth c rest fs)
               else if a = ''node'' then Outcome (node_command c net rest fs)
               else if a = ''group'' then group_command c rest fs
               else if a = ''scope'' then Outcome (scope_command c rest fs)
               else if a = ''task'' then task_command c net rest fs
               else if a = ''grant'' then Outcome (grant_command c net rest fs)
               else if a = ''approval'' then Outcome (approval_command c net rest fs)
               else if a = ''audit'' then Outcome (audit_command c rest fs)
               else if a = ''doctor'' then Outcome (doctor c fs)
               else Outcome (failing (''unknown command `'' @ a @ ''`; run `nodewe --help`'') fs)))"

text \<open>What \<open>main\<close> prints of an error; \<open>k\<close> is the clock reading of its request identifier.\<close>

definition error_report :: "cli \<Rightarrow> flags \<Rightarrow> nat \<Rightarrow> string \<Rightarrow> string" where
  "error_report c fl k error =
     (if env_var (cl_env (with_flags fl c)) ''NODEWE_OUTPUT'' = Some ''json''
      then object_text [member ''code'' (error_code error), text_member ''message'' error,
             text_member ''request_id'' (now_id c k ''req'')]
      else error)"

end
