(* ===== verification/Cli_Group.thy ===== *)
theory Cli_Group
  imports Cli_Remote Agent_Session "HOL-Library.Multiset"
begin

text \<open>
  Running a command on a group: whatever the workers do first, every node is taken once, the result of the
  command tells whether all of them succeeded, and the run ends.
\<close>

section \<open>The contract of the workers\<close>

inductive_cases group_step_cases: "group_step c p g g'"

fun node_of :: "worker \<Rightarrow> string list" where
  "node_of Waiting = []"
| "node_of (Working n) = [n]"
| "node_of Ended = []"

definition running :: "group_run \<Rightarrow> string list" where
  "running g = concat (map (\<lambda>w. node_of (fst w)) (gr_workers g))"

definition failed :: "group_run \<Rightarrow> (string \<times> string) list" where
  "failed g = List.map_filter (\<lambda>(n, r). case r of Inl err \<Rightarrow> Some (n, err) | Inr _ \<Rightarrow> None) (gr_log g)"

text \<open>What holds between the steps: no node is lost or taken twice, the failures the workers hold are those
  of the tasks that ended, and a worker that left early failed under the policy \<open>stop\<close>.\<close>

definition worker_ok :: "group_plan \<Rightarrow> string list \<Rightarrow> worker \<times> string list \<Rightarrow> bool" where
  "worker_ok p queue w \<longleftrightarrow>
     (fst w = Ended \<longrightarrow> queue = [] \<or> gp_stop p \<and> snd w \<noteq> [])
   \<and> (gp_stop p \<longrightarrow> (if fst w = Ended then length (snd w) \<le> 1 else snd w = []))"

definition group_inv :: "group_plan \<Rightarrow> group_run \<Rightarrow> bool" where
  "group_inv p g \<longleftrightarrow>
     mset (map fst (gr_log g)) + mset (running g) + mset (gr_queue g) = mset (gp_nodes p)
   \<and> length (gr_workers g) = gp_workers p
   \<and> mset (concat (map snd (gr_workers g))) = mset (map (\<lambda>(n, err). n @ '': '' @ err) (failed g))
   \<and> (\<forall>w \<in> set (gr_workers g). worker_ok p (gr_queue g) w)"

text \<open>Replacing one worker.\<close>

lemma concat_map_update:
  assumes "i < length xs"
  shows "mset (concat (map f (xs[i := y]))) + mset (f (xs ! i)) = mset (concat (map f xs)) + mset (f y)"
  using assms
proof (induction xs arbitrary: i)
  case (Cons x xs)
  then show ?case by (cases i) (auto simp: ac_simps)
qed simp

lemma ball_update: "\<forall>x \<in> set xs. P x \<Longrightarrow> P y \<Longrightarrow> \<forall>x \<in> set (xs[i := y]). P x"
  using set_update_subset_insert by fastforce

lemma running_update:
  assumes "i < length (gr_workers g)" and "gr_workers g' = (gr_workers g)[i := w]"
  shows "mset (running g') + mset (node_of (fst (gr_workers g ! i))) = mset (running g) + mset (node_of (fst w))"
  unfolding running_def assms(2) using concat_map_update [OF assms(1), of "\<lambda>w. node_of (fst w)" w] .

lemma group_inv_start: "group_inv p (group_start p fs)"
  by (simp add: group_inv_def group_start_def running_def failed_def map_filter_simps worker_ok_def)

lemma group_inv_take:
  assumes "i < length (gr_workers g)" and "gr_workers g ! i = (Waiting, failures)" and "gr_queue g \<noteq> []" and "group_inv p g"
    and g': "g' = g\<lparr>gr_queue := butlast (gr_queue g), gr_workers := (gr_workers g)[i := (Working (last (gr_queue g)), failures)]\<rparr>"
  shows "group_inv p g'"
proof -
  let ?w = "(Working (last (gr_queue g)), failures)"
  have ok: "\<forall>w \<in> set (gr_workers g). worker_ok p (butlast (gr_queue g)) w" "worker_ok p (gr_queue g) (gr_workers g ! i)"
    using assms(1,3,4) by (auto simp: group_inv_def worker_ok_def)
  have q: "mset (gr_queue g) = add_mset (last (gr_queue g)) (mset (butlast (gr_queue g)))"
    using assms(3) by (metis append_butlast_last_id mset.simps mset_append add_mset_add_single)
  have "mset (running g') = add_mset (last (gr_queue g)) (mset (running g))"
    using running_update [OF assms(1), of g' ?w] assms(2) by (simp add: g')
  moreover have "mset (concat (map snd (gr_workers g'))) = mset (concat (map snd (gr_workers g)))"
    using concat_map_update [OF assms(1), of snd ?w] assms(2) by (simp add: g')
  moreover have "failed g' = failed g" by (simp add: g' failed_def)
  moreover have "worker_ok p (butlast (gr_queue g)) ?w" using ok(2) assms(2) by (simp add: worker_ok_def)
  then have "\<forall>w \<in> set (gr_workers g'). worker_ok p (gr_queue g') w"
    using ball_update [OF ok(1)] by (simp add: g')
  ultimately show ?thesis
    using assms(4) q by (simp add: group_inv_def g')
qed

lemma group_inv_leave:
  assumes "i < length (gr_workers g)" and "gr_workers g ! i = (Waiting, failures)" and "gr_queue g = []" and "group_inv p g"
    and g': "g' = g\<lparr>gr_workers := (gr_workers g)[i := (Ended, failures)]\<rparr>"
  shows "group_inv p g'"
proof -
  have ok: "\<forall>w \<in> set (gr_workers g). worker_ok p (gr_queue g) w" "worker_ok p (gr_queue g) (gr_workers g ! i)"
    using assms(1,4) by (auto simp: group_inv_def)
  have "mset (running g') = mset (running g)"
    using running_update [OF assms(1), of g' "(Ended, failures)"] assms(2) by (simp add: g')
  moreover have "mset (concat (map snd (gr_workers g'))) = mset (concat (map snd (gr_workers g)))"
    using concat_map_update [OF assms(1), of snd "(Ended, failures)"] assms(2) by (simp add: g')
  moreover have "failed g' = failed g" by (simp add: g' failed_def)
  moreover have "\<forall>w \<in> set (gr_workers g'). worker_ok p (gr_queue g') w"
    using ball_update [OF ok(1), of "(Ended, failures)" i] ok(2) assms(2,3) by (auto simp: g' worker_ok_def)
  ultimately show ?thesis
    using assms(4) by (simp add: group_inv_def g')
qed

lemma group_inv_finish:
  assumes "i < length (gr_workers g)" and "gr_workers g ! i = (Working n, failures)" and "group_inv p g"
    and g': "g' = g\<lparr>gr_workers := (gr_workers g)[i := after_task p n r failures], gr_files := fs,
                    gr_printed := out, gr_clock := k, gr_log := gr_log g @ [(n, r)]\<rparr>"
  shows "group_inv p g'"
proof -
  have ok: "\<forall>w \<in> set (gr_workers g). worker_ok p (gr_queue g) w" "worker_ok p (gr_queue g) (gr_workers g ! i)"
    using assms(1,3) by (auto simp: group_inv_def)
  have same: "gr_queue g' = gr_queue g" "gr_log g' = gr_log g @ [(n, r)]" "length (gr_workers g') = length (gr_workers g)"
    by (simp_all add: g')
  have "mset (running g) = add_mset n (mset (running g'))"
    using running_update [OF assms(1), of g' "after_task p n r failures"] assms(2)
    by (simp add: g' after_task_def split: sum.splits if_splits)
  moreover have "mset (concat (map snd (gr_workers g'))) = mset (map (\<lambda>(n, err). n @ '': '' @ err) (failed g'))"
    using concat_map_update [OF assms(1), of snd "after_task p n r failures"] assms(2,3)
    by (auto simp: g' group_inv_def failed_def after_task_def map_filter_def split: sum.splits)
  moreover have "worker_ok p (gr_queue g) (after_task p n r failures)"
    using ok(2) assms(2) by (auto simp: worker_ok_def after_task_def split: sum.split)
  then have "\<forall>w \<in> set (gr_workers g'). worker_ok p (gr_queue g') w"
    using ball_update [OF ok(1)] by (simp add: g')
  ultimately show ?thesis
    using assms(3) by (simp add: group_inv_def same)
qed

lemma group_inv_step: "group_step c p g g' \<Longrightarrow> group_inv p g \<Longrightarrow> group_inv p g'"
  by (erule group_step_cases) (blast intro: group_inv_take group_inv_leave group_inv_finish)+

lemma group_inv_reached: "(group_step c p)\<^sup>*\<^sup>* (group_start p fs) g \<Longrightarrow> group_inv p g"
  by (induction rule: rtranclp_induct) (auto intro: group_inv_start group_inv_step)

text \<open>What follows from the invariant when all workers have ended.\<close>

lemma plan_group_workers:
  assumes "plan_group c args fs = Inr p"
  shows "gp_nodes p \<noteq> [] \<and> 0 < gp_workers p \<and> gp_workers p \<le> length (gp_nodes p)"
  using assms unfolding plan_group_def Let_def
  by (clarsimp simp: less_max_iff_disj split: option.split_asm sum.split_asm if_split_asm prod.split_asm)

lemma failed_all: "failed g = [] \<longleftrightarrow> list_all (\<lambda>(n, r). r = Inr ()) (gr_log g)"
  by (auto simp: failed_def map_filter_def filter_empty_conv list_all_iff split: sum.splits)

lemma ended_running: "all_ended g \<Longrightarrow> running g = []"
  by (auto simp: all_ended_def running_def list_all_iff)

lemma collected: "group_inv p g \<Longrightarrow> length (concat (map snd (gr_workers g))) = length (failed g)"
  unfolding group_inv_def by (metis length_map size_mset)

lemma each_one:
  assumes "\<forall>w \<in> set ws. length (snd w) = 1"
  shows "length (concat (map snd ws)) = length ws"
  using assms by (induction ws) auto

lemma at_most_one:
  assumes "\<forall>w \<in> set ws. length (snd w) \<le> 1"
  shows "length (concat (map snd ws)) \<le> length ws"
  using assms by (induction ws) auto

lemma group_early:
  assumes "group_inv p g" and "all_ended g" and "gr_queue g \<noteq> []"
  shows "(gr_workers g \<noteq> [] \<longrightarrow> gp_stop p) \<and> length (failed g) = gp_workers p"
proof -
  have "worker_ok p (gr_queue g) w \<and> fst w = Ended" if "w \<in> set (gr_workers g)" for w
    using assms that by (auto simp: group_inv_def all_ended_def list_all_iff)
  then have each: "gp_stop p \<and> length (snd w) = 1" if "w \<in> set (gr_workers g)" for w
    using that assms(3) by (fastforce simp: worker_ok_def le_Suc_eq)
  then have "length (concat (map snd (gr_workers g))) = length (gr_workers g)"
    using each_one by blast
  then show ?thesis
    using collected [OF assms(1)] each assms(1) by (cases "gr_workers g") (auto simp: group_inv_def)
qed

text \<open>C33: \<open>group run\<close> runs its command at most once on every node of the group, whatever the order in which
  the workers go on. It succeeds exactly if every node was run and every task succeeded. A node is left out
  only under the policy \<open>stop\<close>, and only if each of the workers met a failure: the policy stops the worker
  that failed, not the others.\<close>

theorem group_run_contract:
  assumes "plan_group c args fs0 = Inr p" and "(group_step c p)\<^sup>*\<^sup>* (group_start p fs) g" and "all_ended g"
  shows "mset (map fst (gr_log g)) + mset (gr_queue g) = mset (gp_nodes p)
    \<and> (fst (group_outcome p g) = Inr () \<longleftrightarrow>
         mset (map fst (gr_log g)) = mset (gp_nodes p) \<and> list_all (\<lambda>(n, r). r = Inr ()) (gr_log g))
    \<and> (gr_queue g \<noteq> [] \<longrightarrow> gp_stop p \<and> length (failed g) = gp_workers p)"
proof -
  have inv: "group_inv p g" using group_inv_reached [OF assms(2)] .
  then have m: "mset (map fst (gr_log g)) + mset (gr_queue g) = mset (gp_nodes p)"
    using ended_running [OF assms(3)] by (simp add: group_inv_def)
  have w: "0 < gp_workers p" "gr_workers g \<noteq> []"
    using plan_group_workers [OF assms(1)] inv by (auto simp: group_inv_def)
  have e: "gr_queue g \<noteq> [] \<longrightarrow> gp_stop p \<and> length (failed g) = gp_workers p"
    using group_early [OF inv assms(3)] w(2) by blast
  have o: "fst (group_outcome p g) = Inr () \<longleftrightarrow> failed g = []"
    using collected [OF inv] by (simp add: group_outcome_def Let_def del: concat_eq_Nil_conv) (metis length_0_conv)
  have q: "gr_queue g = [] \<longleftrightarrow> mset (map fst (gr_log g)) = mset (gp_nodes p)"
    using m by (metis add_cancel_right_right mset_zero_iff)
  have "failed g = [] \<Longrightarrow> gr_queue g = []" using e w(1) by (metis length_0_conv less_irrefl)
  then show ?thesis using m e o q failed_all by blast
qed

section \<open>The run ends\<close>

lemma run_task_returns:
  assumes "sleeping (cl_host c)"
  shows "\<exists>q. run_task c k args fs = Some q"
proof -
  have "\<exists>q. run_planned c dir p fs = Some q" for dir p
  proof (cases "spawn (cl_host c) (tr_command (tp_record p)) (tp_cwd p)")
    case (Inr child)
    then obtain r where "wait_child child (unat (tp_timeout p)) 0 = Some r"
      using assms wait_child_ends unfolding sleeping_def by blast
    then show ?thesis using Inr by (simp add: run_planned_def Let_def del: split_paired_Ex)
  qed (simp add: run_planned_def Let_def del: split_paired_Ex)
  then show ?thesis by (auto simp: run_task_def split: sum.split simp del: split_paired_Ex)
qed

fun weight :: "worker \<Rightarrow> nat" where
  "weight Waiting = 1"
| "weight (Working n) = 2"
| "weight Ended = 0"

definition group_weight :: "group_run \<Rightarrow> nat" where
  "group_weight g = 2 * length (gr_queue g) + sum_list (map (\<lambda>w. weight (fst w)) (gr_workers g))"

lemma weight_update:
  "i < length xs \<Longrightarrow> sum_list (map f (xs[i := y])) + f (xs ! i) = sum_list (map f xs) + (f y :: nat)"
  by (induction xs arbitrary: i) (auto simp: nth_Cons split: nat.splits)

lemma group_step_weight:
  assumes "group_step c p g g'"
  shows "group_weight g' < group_weight g"
proof -
  have u: "i < length (gr_workers g) \<Longrightarrow> gr_workers g' = (gr_workers g)[i := w] \<Longrightarrow>
      sum_list (map (\<lambda>w. weight (fst w)) (gr_workers g')) + weight (fst (gr_workers g ! i))
      = sum_list (map (\<lambda>w. weight (fst w)) (gr_workers g)) + weight (fst w)" for i w
    using weight_update [of i "gr_workers g" "\<lambda>w. weight (fst w)" w] by simp
  show ?thesis
    using assms
  proof (cases rule: group_step.cases)
    case (take i failures)
    then show ?thesis
      using u [of i "(Working (last (gr_queue g)), failures)"]
      by (cases "gr_queue g" rule: rev_cases) (simp_all add: group_weight_def)
  next
    case (leave i failures)
    then show ?thesis using u [of i "(Ended, failures)"] by (simp add: group_weight_def)
  next
    case (finish i n failures r out fs)
    then show ?thesis
      using u [of i "after_task p n r failures"]
      by (simp add: group_weight_def after_task_def split: sum.splits if_splits)
  qed
qed

lemma group_step_exists:
  assumes "sleeping (cl_host c)" and "\<not> all_ended g"
  shows "\<exists>g'. group_step c p g g'"
proof -
  obtain i where i: "i < length (gr_workers g)" "fst (gr_workers g ! i) \<noteq> Ended"
    using assms(2) by (auto simp: all_ended_def list_all_length)
  obtain w failures where w: "gr_workers g ! i = (w, failures)" by fastforce
  show ?thesis
  proof (cases w)
    case Waiting
    then show ?thesis using i w group_step.take group_step.leave by blast
  next
    case (Working n)
    moreover obtain r out fs where "run_task c (gr_clock g) (group_task_args p n) (gr_files g) = Some (r, out, fs)"
      using run_task_returns [OF assms(1)] by (metis prod_cases3)
    ultimately show ?thesis using i w group_step.finish by blast
  qed (use i w in simp)
qed

lemma group_ends:
  assumes "sleeping (cl_host c)"
  shows "\<exists>g'. (group_step c p)\<^sup>*\<^sup>* g g' \<and> all_ended g'"
proof (induction "group_weight g" arbitrary: g rule: less_induct)
  case less
  show ?case
  proof (cases "all_ended g")
    case False
    then obtain h where "group_step c p g h" using group_step_exists [OF assms] by blast
    then show ?thesis using less group_step_weight by (meson converse_rtranclp_into_rtranclp)
  qed blast
qed

lemma group_steps_weight: "(group_step c p ^^ n) g g' \<Longrightarrow> n + group_weight g' \<le> group_weight g"
proof (induction n arbitrary: g')
  case (Suc n)
  then obtain h where "(group_step c p ^^ n) g h" "group_step c p h g'" by auto
  then show ?case using Suc.IH group_step_weight by fastforce
qed simp

text \<open>C34: \<open>group run\<close> ends, in whatever order its workers go on: if a sleep lasts as long as it is documented
  to, a run that has not ended can go on, and no run has more steps than twice its nodes and once its
  workers.\<close>

theorem group_run_ends:
  assumes "sleeping (cl_host c)"
  shows "(\<exists>g. (group_step c p)\<^sup>*\<^sup>* (group_start p fs) g \<and> all_ended g)
    \<and> (\<not> all_ended g \<longrightarrow> (\<exists>g'. group_step c p g g'))
    \<and> ((group_step c p ^^ n) (group_start p fs) g \<longrightarrow> n \<le> 2 * length (gp_nodes p) + gp_workers p)"
proof -
  have "group_weight (group_start p fs) = 2 * length (gp_nodes p) + gp_workers p"
    by (simp add: group_weight_def group_start_def sum_list_replicate)
  then show ?thesis
    using group_ends [OF assms] group_step_exists [OF assms] group_steps_weight [of n c p "group_start p fs" g] by fastforce
qed

section \<open>A sample run\<close>

text \<open>A group of two nodes that are not paired, one worker, the policy \<open>stop\<close>: the first task fails and the
  other node is left out.\<close>

definition sample_cli :: cli where
  "sample_cli = \<lparr>cl_agent = sample_agent (\<lambda>_. []) (\<lambda>_. None), cl_dir_error = (\<lambda>_. None), cl_read_error = (\<lambda>_. None),
     cl_open_error = (\<lambda>_. None), cl_write_stop = (\<lambda>_. None), cl_new_mode = 420, cl_chmod = True,
     cl_entries = (\<lambda>_. Inr []), cl_tls = (\<lambda>_ _ _. Inr ())\<rparr>"

definition sample_plan :: group_plan where
  "sample_plan = \<lparr>gp_id = ''g'', gp_nodes = [''a'', ''b''], gp_workers = 1, gp_stop = True, gp_scope = ''/srv/lab'',
     gp_command = [''echo'']\<rparr>"

definition sample_groups :: secret_files where
  "sample_groups = [''.nodewe/groups.tsv'' \<mapsto> (384, ''g'' @ [TAB] @ ''a,b'' @ [NL])]"

lemma sample_state_dir: "state_dir sample_cli = Inr ''.nodewe''"
  by (simp add: state_dir_def state_root_def sample_cli_def sample_agent_def sample_env_def Let_def)

lemma sample_group_plan:
  "plan_group sample_cli [''run'', ''g'', ''--scope'', ''/srv/lab'', ''--'', ''echo''] sample_groups = Inr sample_plan"
proof -
  have r: "read_groups sample_cli (path_join ''.nodewe'' ''groups.tsv'') sample_groups = Inr [(''g'', [''a'', ''b''])]"
    by (simp add: read_groups_def file_exists_def read_text_def sample_groups_def sample_cli_def path_join_def
        is_absolute_def rooted_def byte_def str_lines_def str_split_def chop_cr_def map_filter_simps parse_group_def split_once_def Let_def)
  show ?thesis
    by (simp add: plan_group_def cli_option_def sample_state_dir r or_else_def sample_plan_def Let_def)
qed

definition sample_end :: group_run where
  "sample_end = (group_start sample_plan sample_groups)\<lparr>gr_queue := [''a''],
     gr_workers := [(Ended, [''b: node is not paired or has been revoked''])], gr_clock := 1,
     gr_log := [(''b'', Inl ''node is not paired or has been revoked'')]\<rparr>"

lemma sample_run: "(group_step sample_cli sample_plan)\<^sup>*\<^sup>* (group_start sample_plan sample_groups) sample_end"
proof -
  let ?g = "group_start sample_plan sample_groups"
  let ?h = "?g\<lparr>gr_queue := [''a''], gr_workers := [(Working ''b'', [])]\<rparr>"
  have t: "group_step sample_cli sample_plan ?g ?h"
    using group_step.take [of 0 ?g "[]" sample_cli sample_plan]
    by (simp add: group_start_def sample_plan_def)
  have r: "run_task sample_cli 0 (group_task_args sample_plan ''b'') sample_groups
      = Some (failing ''node is not paired or has been revoked'' sample_groups)"
    by (simp add: run_task_def sample_state_dir plan_task_def group_task_args_def sample_plan_def cli_option_def
        read_nodes_def file_exists_def sample_groups_def path_join_def is_absolute_def rooted_def Let_def)
  have "group_step sample_cli sample_plan ?h sample_end"
    using group_step.finish [of 0 ?h "''b''" "[]" sample_cli sample_plan] r
    by (simp add: group_start_def sample_plan_def sample_end_def failing_def after_task_def)
  then show ?thesis using t by (meson rtranclp.rtrancl_into_rtrancl rtranclp.rtrancl_refl)
qed

theorem group_run_contract_witness:
  "fst (group_outcome sample_plan sample_end) \<noteq> Inr () \<and> gp_stop sample_plan \<and> length (failed sample_end) = 1"
proof -
  have e: "all_ended sample_end" "gr_queue sample_end = [''a'']" "length (gr_log sample_end) = 1"
    by (simp_all add: sample_end_def all_ended_def)
  have s: "gp_workers sample_plan = 1" "length (gp_nodes sample_plan) = 2" by (simp_all add: sample_plan_def)
  note c = group_run_contract [OF sample_group_plan sample_run e(1)]
  have "mset (map fst (gr_log sample_end)) \<noteq> mset (gp_nodes sample_plan)"
    using e(3) s(2) by (metis length_map mset_eq_length numeral_eq_one_iff semiring_norm(85))
  then show ?thesis using c e(2) s(1) by simp
qed

lemma sample_sleeping: "sleeping (cl_host sample_cli)"
  by (simp add: sleeping_def sample_cli_def sample_agent_def sample_host_def sample_child_def)

theorem group_run_ends_witness:
  "\<exists>g. (group_step sample_cli sample_plan)\<^sup>*\<^sup>* (group_start sample_plan sample_groups) g \<and> all_ended g"
  using group_run_ends [OF sample_sleeping] by blast

end
