(* ===== verification/Cli_Revocation.thy ===== *)
theory Cli_Revocation
  imports Cli_Group
begin

text \<open>
  Revoking a node in the local state: what the tables say after they were written and read again, which
  files each command of the tool touches, and that a revoked node runs no task again, whatever commands
  without newlines in their arguments follow.
\<close>

section \<open>Labels and rows\<close>

definition labels_ok :: "string list \<Rightarrow> bool" where
  "labels_ok ls \<longleftrightarrow> distinct ls \<and> (\<forall>l \<in> set ls. l \<noteq> [] \<and> length l \<le> 64 \<and> list_all cli_label_char l)"

lemma label_char_free: "b \<in> {CHR '','', TAB, NL, CR} \<Longrightarrow> \<not> cli_label_char b"
  by (elim insertE emptyE) (simp_all add: cli_label_char_def is_ascii_alphanumeric_def is_ascii_digit_def
    is_ascii_lowercase_def is_ascii_uppercase_def byte_def)

lemma label_char_plain: "cli_label_char b \<Longrightarrow> is_ascii_graphic b \<and> b \<notin> {CHR '','', TAB, NL, CR}"
  using label_char_free [of b]
  by (auto simp: cli_label_char_def is_ascii_graphic_def is_ascii_alphanumeric_def is_ascii_digit_def
    is_ascii_lowercase_def is_ascii_uppercase_def byte_def)

lemma list_all_disjoint: "(\<And>b. b \<in> S \<Longrightarrow> \<not> P b) \<Longrightarrow> list_all P l \<Longrightarrow> set l \<inter> S = {}"
  by (auto simp: list_all_iff)

lemma label_free: "list_all cli_label_char l \<Longrightarrow> set l \<inter> {CHR '','', TAB, NL, CR} = {}"
  by (rule list_all_disjoint [OF label_char_free])

lemma parse_labels_loop_ok: "labels_ok acc \<Longrightarrow> parse_labels_loop acc raws = Inr ls \<Longrightarrow> labels_ok ls"
proof (induction acc raws rule: parse_labels_loop.induct)
  case (2 labels raw rest)
  define l where "l = str_trim raw"
  have add: "l \<noteq> [] \<Longrightarrow> \<not> 64 < length l \<Longrightarrow> list_all cli_label_char l \<Longrightarrow>
      labels_ok (if l \<in> set labels then labels else labels @ [l])"
    using "2.prems"(1) by (auto simp: labels_ok_def)
  note ih = "2.IH" [OF l_def]
  show ?case
    using "2.prems" ih add unfolding parse_labels_loop.simps Let_def l_def [symmetric]
    by (cases "l = []"; cases "64 < length l"; cases "list_all cli_label_char l") simp_all
qed simp

lemma parse_labels_ok: "parse_labels value = Inr ls \<Longrightarrow> labels_ok ls"
  using parse_labels_loop_ok [of "[]"] by (simp add: parse_labels_def labels_ok_def)

lemma parse_labels_loop_again: "labels_ok (acc @ ls) \<Longrightarrow> parse_labels_loop acc ls = Inr (acc @ ls)"
proof (induction ls arbitrary: acc)
  case (Cons l ls)
  then have l: "list_all cli_label_char l" "l \<noteq> []" "length l \<le> 64" "l \<notin> set acc" by (auto simp: labels_ok_def)
  then have "str_trim l = l"
    using label_char_plain by (intro str_trim_graphic) (auto simp: list_all_iff)
  then show ?case using l Cons by (simp add: Let_def)
qed simp

lemma parse_labels_join: "labels_ok ls \<Longrightarrow> parse_labels (str_join '','' ls) = Inr ls"
proof (cases "ls = []")
  case True
  then show ?thesis by (simp add: parse_labels_def str_split_def str_trim_def)
next
  case False
  assume ok: "labels_ok ls"
  have "\<forall>l \<in> set ls. CHR '','' \<notin> set l" using ok label_free by (fastforce simp: labels_ok_def)
  then show ?thesis
    using False parse_labels_loop_again [of "[]" ls] ok by (simp add: parse_labels_def str_split_join)
qed

definition row_ok :: "node_entry \<Rightarrow> bool" where
  "row_ok e \<longleftrightarrow> TAB \<notin> set (en_id e) \<and> NL \<notin> set (en_id e) \<and> NL \<notin> set (en_name e) \<and> labels_ok (en_labels e)"

text \<open>An entry as it is read back: the tabs of its name are blanks.\<close>

definition stored :: "node_entry \<Rightarrow> node_entry" where
  "stored e = e\<lparr>en_name := replace_chars {TAB} '' '' (en_name e)\<rparr>"

lemma set_join_labels: "labels_ok ls \<Longrightarrow> set (str_join '','' ls) \<inter> {TAB, NL, CR} = {}"
proof (induction ls)
  case (Cons l ls)
  then have "labels_ok ls" "set l \<inter> {TAB, NL, CR} = {}" using label_free [of l] by (auto simp: labels_ok_def)
  then show ?case using Cons.IH by (cases ls) auto
qed simp

lemma row_line:
  assumes "row_ok e"
  shows "\<exists>l. node_entry_line e = l @ [NL] \<and> NL \<notin> set l \<and> chop_cr l = l \<and> parse_node_entry l = Some (stored e)"
proof -
  let ?status = "if en_online e then ''online'' else ''revoked''"
  let ?labels = "str_join '','' (en_labels e)"
  let ?l = "en_id e @ TAB # replace_chars {TAB} '' '' (en_name e) @ TAB # ?status @ TAB # ?labels"
  have i: "replace_chars {TAB} '' '' (en_id e) = en_id e"
    using assms by (auto simp: row_ok_def intro!: replace_chars_id)
  have n: "TAB \<notin> set (replace_chars {TAB} '' '' (en_name e))" "NL \<notin> set (replace_chars {TAB} '' '' (en_name e))"
    using assms replace_chars_gone [of "'' ''" "{TAB}" "en_name e"] by (auto simp: row_ok_def replace_chars_def split: if_splits)
  have j: "set ?labels \<inter> {TAB, NL, CR} = {}" using assms set_join_labels by (simp add: row_ok_def)
  have s: "TAB \<notin> set ?status" "NL \<notin> set ?status" by auto
  have "?labels \<noteq> [] \<Longrightarrow> last ?labels \<noteq> CR" using j last_in_set [of ?labels] by fastforce
  then have "last ?l \<noteq> CR" by (cases "?labels = []") auto
  then have c: "chop_cr ?l = ?l" by (simp add: chop_cr_def)
  have "NL \<notin> set ?l" using assms j n s by (auto simp: row_ok_def)
  moreover have "str_splitn 4 TAB ?l = [en_id e, replace_chars {TAB} '' '' (en_name e), ?status, ?labels]"
    using assms n s by (simp add: row_ok_def numeral_eq_Suc str_splitn_append del: str_splitn.simps(3))
  then have "parse_node_entry ?l = Some (stored e)"
    using parse_labels_join assms by (simp add: parse_node_entry_def row_ok_def stored_def)
  ultimately show ?thesis using c i by (intro exI [of _ ?l]) (simp add: node_entry_line_def)
qed

lemma rows_written:
  assumes "\<forall>e \<in> set es. row_ok e"
  shows "List.map_filter parse_node_entry (str_lines (concat (map node_entry_line es))) = map stored es"
  using assms
proof (induction es)
  case (Cons e es)
  obtain l where l: "node_entry_line e = l @ [NL]" "NL \<notin> set l" "chop_cr l = l" "parse_node_entry l = Some (stored e)"
    using row_line Cons.prems by (metis list.set_intros(1))
  then show ?case using Cons by (simp add: str_lines_terminated map_filter_simps)
qed (simp add: map_filter_simps)

lemma parsed_row:
  assumes "parse_node_entry l = Some e" and "NL \<notin> set l"
  shows "row_ok e"
proof -
  have t: "set (takeWhile P x) \<subseteq> set x" "set (tl (dropWhile P x)) \<subseteq> set x" for P and x :: string
    using set_takeWhileD set_dropWhileD by (metis subsetI, metis (no_types, lifting) list.set_sel(2) subsetI tl_Nil)
  have "TAB \<notin> set (takeWhile (\<lambda>x. x \<noteq> TAB) l)" by (auto dest: set_takeWhileD)
  then show ?thesis
    using assms parse_labels_ok t(1) [of "\<lambda>x. x \<noteq> TAB" l] t(1) [of "\<lambda>x. x \<noteq> TAB" "tl (dropWhile (\<lambda>x. x \<noteq> TAB) l)"]
      t(2) [of "\<lambda>x. x \<noteq> TAB" l]
    by (auto simp: parse_node_entry_def row_ok_def numeral_eq_Suc split: list.splits sum.splits if_splits)
qed

text \<open>The rows of a table in a file.\<close>

definition rows :: "secret_files \<Rightarrow> string \<Rightarrow> node_entry list" where
  "rows fs path = (case fs path of None \<Rightarrow> [] | Some (_, contents) \<Rightarrow> List.map_filter parse_node_entry (str_lines contents))"

lemma read_nodes_rows: "read_nodes c path fs = Inr es \<Longrightarrow> es = rows fs path"
  by (auto simp: read_nodes_def rows_def read_text_def file_exists_def map_filter_simps split: option.splits if_splits)

lemma rows_ok: "e \<in> set (rows fs path) \<Longrightarrow> row_ok e"
  by (auto simp: rows_def map_filter_def secrets.line_no_newline parsed_row split: option.splits)

section \<open>What a command touches\<close>

text \<open>The contents at a path. Commands are followed by the contents they leave there.\<close>

abbreviation text_at :: "string \<Rightarrow> secret_files \<Rightarrow> string option" where
  "text_at path fs \<equiv> map_option snd (fs path)"

abbreviation files :: "outcome \<Rightarrow> secret_files" where
  "files q \<equiv> snd (snd q)"

named_theorems frame_simps \<open>a command leaves the contents at other paths alone\<close>

lemma rows_text: "text_at path fs = text_at path fs' \<Longrightarrow> rows fs path = rows fs' path"
  by (auto simp: rows_def split: option.splits)

lemma files_failing [frame_simps]: "files (failing err fs) = fs"
  by (simp add: failing_def)

lemma files_printing [frame_simps]: "files (printing out fs) = fs"
  by (simp add: printing_def)

lemma files_usage [frame_simps]: "files (usage out fs) = fs"
  by (simp add: usage_def frame_simps)

lemma files_print_response [frame_simps]: "files (print_response r fs) = fs"
  by (simp add: print_response_def frame_simps split: sum.split)

lemma put_text_other [frame_simps]: "p \<noteq> path \<Longrightarrow> snd (put_text c p before contents fs) path = fs path"
  by (auto simp: put_text_def Let_def split: option.split)

lemma write_text_other [frame_simps]: "p \<noteq> path \<Longrightarrow> snd (write_text c p contents fs) path = fs path"
  by (simp add: write_text_def frame_simps)

lemma append_line_other [frame_simps]: "p \<noteq> path \<Longrightarrow> snd (append_line c p line fs) path = fs path"
  by (simp add: append_line_def frame_simps)

lemma restrict_text [frame_simps]: "text_at path (cli_restrict_file c p fs) = text_at path fs"
  by (auto simp: cli_restrict_file_def split: option.split)

text \<open>Sequencing: what was written first, then the rest.\<close>

lemma after_write:
  assumes "\<And>fs'. text_at path fs' = text_at path (snd w) \<Longrightarrow> text_at path (files (k fs')) = text_at path fs'"
    and "text_at path (snd w) = text_at path fs"
  shows "text_at path (files (case w of (Inl err, fs') \<Rightarrow> failing err fs' | (Inr u, fs') \<Rightarrow> k fs')) = text_at path fs"
  using assms by (cases w; cases "fst w") (simp_all add: failing_def)

lemma path_join_inject: "\<not> rooted a \<Longrightarrow> \<not> rooted b \<Longrightarrow> path_join dir a = path_join dir b \<longleftrightarrow> a = b"
  by (simp add: path_join_def)

lemma last_path_join: "b \<noteq> [] \<Longrightarrow> last (path_join a b) = last b"
  by (simp add: path_join_def)

abbreviation node_table :: "string \<Rightarrow> string" where
  "node_table dir \<equiv> path_join dir ''nodes.tsv''"

lemma other_files [frame_simps]:
  "path_join dir ''session'' \<noteq> node_table dir" "path_join dir ''groups.tsv'' \<noteq> node_table dir"
  "path_join dir ''grants.tsv'' \<noteq> node_table dir" "path_join dir ''audit.jsonl'' \<noteq> node_table dir"
  by (simp_all add: path_join_inject rooted_def)

lemma not_node_table: "b \<noteq> [] \<Longrightarrow> last b \<noteq> CHR ''v'' \<Longrightarrow> path_join a b \<noteq> node_table dir"
  using last_path_join [of b a] last_path_join [of "''nodes.tsv''" dir] by auto

lemma other_task_files [frame_simps]:
  "task_file d i ''.stdout'' \<noteq> node_table dir" "task_file d i ''.stderr'' \<noteq> node_table dir"
  "task_file d i ''.meta'' \<noteq> node_table dir"
  unfolding task_file_def by (rule not_node_table; simp)+

lemma other_credential [frame_simps]: "path_join d (i @ ''.token'') \<noteq> node_table dir"
  by (rule not_node_table) simp_all

text \<open>Every command but \<open>node pair\<close> and \<open>node revoke\<close>.\<close>

abbreviation table_of :: "cli \<Rightarrow> string" where
  "table_of c \<equiv> node_table (state_root c)"

abbreviation same_table :: "cli \<Rightarrow> secret_files \<Rightarrow> outcome \<Rightarrow> bool" where
  "same_table c fs q \<equiv> text_at (table_of c) (files q) = text_at (table_of c) fs"

lemma state_dir_root: "state_dir c = Inr dir \<Longrightarrow> dir = state_root c"
  by (simp add: state_dir_def Let_def split: option.splits)

lemma in_state_dir_table [frame_simps]:
  "same_table c fs (command (state_root c)) \<Longrightarrow> same_table c fs (in_state_dir c fs command)"
  using state_dir_root by (auto simp: in_state_dir_def frame_simps split: sum.split)

lemma append_audit_text [frame_simps]: "text_at (node_table dir) (snd (append_audit c dir ev fs)) = text_at (node_table dir) fs"
proof -
  obtain r fs' where w: "append_line c (path_join dir ''audit.jsonl'') ev fs = (r, fs')" by fastforce
  then have "text_at (node_table dir) fs' = text_at (node_table dir) fs"
    using append_line_other [OF other_files(4), of c dir ev fs] by simp
  then show ?thesis using w by (cases r) (simp_all add: append_audit_def Let_def frame_simps)
qed

lemma audited_text:
  "(\<And>fs'. text_at (node_table dir) (files (command fs')) = text_at (node_table dir) fs') \<Longrightarrow>
   text_at (node_table dir) (files (audited c dir ev command fs)) = text_at (node_table dir) fs"
  unfolding audited_def by (rule after_write) (simp_all add: frame_simps)

lemma auth_table: "same_table c fs (auth c args fs)"
  unfolding auth_def Let_def
  by (rule in_state_dir_table)
    (auto simp: frame_simps other_files [symmetric] split: list.split intro!: after_write)

lemma doctor_table: "same_table c fs (doctor c fs)"
  unfolding doctor_def by (rule in_state_dir_table) (simp add: frame_simps)

lemma audit_table: "same_table c fs (audit_command c args fs)"
  unfolding audit_command_def Let_def
  by (simp add: frame_simps)
    (intro impI in_state_dir_table, auto simp: frame_simps split: sum.split)

lemma scope_table: "files (scope_command c args fs) = fs"
  by (simp add: scope_command_def Let_def frame_simps split: sum.split)

lemma grant_create_text: "text_at (node_table dir) (files (grant_create c dir fs)) = text_at (node_table dir) fs"
  unfolding grant_create_def Let_def
  by (rule after_write) (auto simp: frame_simps intro!: audited_text [THEN trans])

lemma grant_revoke_text: "text_at (node_table dir) (files (grant_revoke c code dir fs)) = text_at (node_table dir) fs"
  unfolding grant_revoke_def Let_def
  by (auto simp: frame_simps intro!: after_write audited_text [THEN trans])

lemma grant_local_table: "same_table c fs (grant_local c args fs)"
  unfolding grant_local_def Let_def
  by (rule in_state_dir_table)
    (auto simp: frame_simps grant_create_text grant_revoke_text second_arg_def split: list.split sum.split)

lemma group_create_text: "text_at (node_table dir) (files (group_create c args dir fs)) = text_at (node_table dir) fs"
  unfolding group_create_def Let_def
  by (auto simp: frame_simps write_groups_def split: option.split sum.split intro!: after_write audited_text [THEN trans])

lemma group_local_table: "same_table c fs (group_local c args fs)"
  unfolding group_local_def Let_def
  by (rule in_state_dir_table)
    (auto simp: frame_simps group_create_text second_arg_def split: list.split sum.split option.split)

text \<open>Tasks.\<close>

lemma then_write:
  assumes "\<And>fs'. text_at path (snd (k fs')) = text_at path fs'" and "text_at path (snd w) = text_at path fs"
  shows "text_at path (snd (case w of (Inl err, fs') \<Rightarrow> (Inl err, fs') | (Inr u, fs') \<Rightarrow> k fs')) = text_at path fs"
  using assms by (cases w; cases "fst w") simp_all

lemma persist_task_text [frame_simps]:
  "text_at (node_table dir) (snd (persist_task c d r out err fs)) = text_at (node_table dir) fs"
  unfolding persist_task_def Let_def
  by (intro then_write) (simp_all add: frame_simps)

lemma finish_task_text:
  assumes "\<And>fs'. files (report fs') = fs'"
  shows "text_at (node_table dir) (files (finish_task c dir r s out err ev report fs)) = text_at (node_table dir) fs"
  unfolding finish_task_def
  by (auto simp: frame_simps assms split: sum.split intro!: after_write audited_text [THEN trans])

lemma run_planned_text:
  assumes "run_planned c dir p fs = Some q"
  shows "text_at (node_table dir) (files q) = text_at (node_table dir) fs"
proof (cases "spawn (cl_host c) (tr_command (tp_record p)) (tp_cwd p)")
  case (Inr child)
  then obtain w where w: "wait_child child (unat (tp_timeout p)) 0 = Some w"
    using assms by (auto simp: run_planned_def Let_def)
  show ?thesis
    using assms Inr w
    by (cases w) (auto simp: run_planned_def Let_def frame_simps finish_task_text split: sum.splits if_splits)
qed (use assms in \<open>auto simp: run_planned_def Let_def frame_simps\<close>)

lemma run_task_table:
  assumes "run_task c k args fs = Some q"
  shows "same_table c fs q"
proof (cases "state_dir c")
  case (Inr dir)
  then show ?thesis
    using assms state_dir_root [OF Inr] run_planned_text [of c dir]
    by (cases "plan_task c k args dir fs") (auto simp: run_task_def frame_simps)
qed (use assms in \<open>auto simp: run_task_def frame_simps\<close>)

lemma group_run_table:
  assumes "(group_step c p)\<^sup>*\<^sup>* g g'"
  shows "text_at (table_of c) (gr_files g') = text_at (table_of c) (gr_files g)"
  using assms
proof (induction rule: rtranclp_induct)
  case (step h h')
  from step.hyps(2) have "text_at (table_of c) (gr_files h') = text_at (table_of c) (gr_files h)"
    by (cases rule: group_step.cases) (auto dest!: run_task_table)
  then show ?case using step.IH by simp
qed simp

text \<open>The remote commands.\<close>

lemma save_credential_text [frame_simps]:
  "text_at (node_table dir) (snd (save_remote_credential c i response fs)) = text_at (node_table dir) fs"
  unfolding save_remote_credential_def Let_def
  by (auto simp: frame_simps split: option.split sum.split intro!: then_write)

lemma enrolled_text [frame_simps]: "text_at (node_table dir) (files (enrolled c i name r fs)) = text_at (node_table dir) fs"
  unfolding enrolled_def
  by (auto simp: frame_simps split: sum.split intro!: after_write)

lemma remote_pair_text [frame_simps]:
  "text_at (node_table dir) (files (remote_pair c net args endpoint token fs)) = text_at (node_table dir) fs"
  unfolding remote_pair_def Let_def by (simp add: frame_simps split: sum.split)

lemma remote_enroll_text [frame_simps]:
  "text_at (node_table dir) (files (remote_enroll c net args endpoint fs)) = text_at (node_table dir) fs"
  unfolding remote_enroll_def Let_def by (simp add: frame_simps split: option.split sum.split)

lemma remote_node_text: "text_at (node_table dir) (files (remote_node c net args endpoint token fs)) = text_at (node_table dir) fs"
  unfolding remote_node_def Let_def second_arg_def
  by (cases args) (simp_all add: frame_simps split: list.split option.split sum.split)

lemma remote_grant_files: "files (remote_grant c net args endpoint token fs) = fs"
  unfolding remote_grant_def Let_def second_arg_def
  by (simp add: frame_simps split: list.split sum.split)

lemma grant_command_table: "same_table c fs (grant_command c net args fs)"
  unfolding grant_command_def
  by (simp add: frame_simps grant_local_table remote_grant_files split: sum.split option.split prod.split)

lemma approval_files: "files (approval_command c net args fs) = fs"
  unfolding approval_command_def with_control_plane_def Let_def
  by (simp add: frame_simps split: list.split sum.split option.split)

lemma submit_task_files: "files (submit_task c net args fs) = fs"
  unfolding submit_task_def with_control_plane_def Let_def
  by (simp add: frame_simps split: sum.split option.split)

lemma task_action_local_files [frame_simps]: "files (task_action_local c action i dir fs) = fs"
  unfolding task_action_local_def print_task_meta_def Let_def
  by (simp add: frame_simps split: sum.split prod.split)

lemma task_action_table: "same_table c fs (task_action c net args fs)"
  unfolding task_action_def Let_def second_arg_def
  by (rule in_state_dir_table) (simp add: frame_simps split: list.split sum.split option.split)

lemma task_command_table: "task_command c net args fs = Outcome q \<Longrightarrow> same_table c fs q"
  unfolding task_command_def
  by (auto simp: frame_simps submit_task_files task_action_table returned_outcome_def
      split: list.splits if_splits option.splits dest!: run_task_table)

lemma group_command_table: "group_command c args fs = Outcome q \<Longrightarrow> same_table c fs q"
  unfolding group_command_def
  by (auto simp: frame_simps group_local_table split: if_splits sum.splits)

section \<open>Pairing and revoking\<close>

lemma nodes_written:
  assumes "cl_write_stop c path = None" and "write_nodes c path es fs = (r, fs')"
  shows "(\<exists>err. r = Inl err \<and> fs' = fs) \<or> r = Inr () \<and> text_at path fs' = Some (concat (map node_entry_line es))"
  using assms by (auto simp: write_nodes_def write_text_def put_text_def Let_def split: option.splits)

lemma rows_after:
  assumes "text_at path fs = Some (concat (map node_entry_line es))" and "\<forall>e \<in> set es. row_ok e"
  shows "rows fs path = map stored es"
  using assms rows_written by (auto simp: rows_def)

text \<open>The rest of a command, once the table is written.\<close>

lemma audited_rows:
  "(\<And>fs'. files (report fs') = fs') \<Longrightarrow>
   rows (files (audited c dir ev report fs)) (node_table dir) = rows fs (node_table dir)"
  by (rule rows_text, rule audited_text) simp

lemma entry_simps [simp]:
  "en_id (stored e) = en_id e" "en_online (stored e) \<longleftrightarrow> en_online e"
  "en_id (set_offline j e) = en_id e" "en_online (set_offline j e) \<longleftrightarrow> en_online e \<and> en_id e \<noteq> j"
  by (simp_all add: stored_def set_offline_def)

lemma row_ok_offline: "row_ok e \<Longrightarrow> row_ok (set_offline i e)"
  by (cases "en_id e = i") (simp_all add: row_ok_def set_offline_def)

lemma node_revoke_rows:
  assumes "cl_write_stop c (node_table dir) = None"
  shows "rows (files (node_revoke c i dir fs)) (node_table dir)
      \<in> {rows fs (node_table dir), map (stored \<circ> set_offline i) (rows fs (node_table dir))}
    \<and> (fst (node_revoke c i dir fs) = Inr () \<longrightarrow>
        list_ex (\<lambda>e. en_id e = i) (rows fs (node_table dir))
        \<and> rows (files (node_revoke c i dir fs)) (node_table dir) = map (stored \<circ> set_offline i) (rows fs (node_table dir)))"
proof (cases "read_nodes c (node_table dir) fs")
  case (Inr es)
  note es = read_nodes_rows [OF Inr]
  obtain r fs' where w: "write_nodes c (node_table dir) (map (set_offline i) es) fs = (r, fs')" by fastforce
  have ok: "\<forall>e \<in> set (map (set_offline i) es). row_ok e" using rows_ok row_ok_offline es by auto
  show ?thesis
  proof (cases r)
    case (Inr u)
    then have "rows fs' (node_table dir) = map (stored \<circ> set_offline i) es"
      using nodes_written [OF assms w] rows_after [OF _ ok] by auto
    then show ?thesis
      using \<open>read_nodes c (node_table dir) fs = Inr es\<close> w Inr es
      by (simp add: node_revoke_def Let_def failing_def audited_rows frame_simps)
  next
    case (Inl err)
    then show ?thesis
      using \<open>read_nodes c (node_table dir) fs = Inr es\<close> nodes_written [OF assms w] w
      by (simp add: node_revoke_def Let_def failing_def)
  qed
qed (simp add: node_revoke_def Let_def failing_def)

lemma id_char_plain: "b \<in> {TAB, NL} \<Longrightarrow> \<not> id_char b"
  by (elim insertE emptyE) (simp_all add: id_char_def is_ascii_graphic_def byte_def)

lemma node_id_plain: "NodeId_new i = Inr j \<Longrightarrow> TAB \<notin> set i \<and> NL \<notin> set i"
  using id_char_plain by (auto simp: NodeId_new_def list_all_iff split: if_splits)

lemma option_in: "cli_option args x = Some v \<Longrightarrow> v \<in> set args"
  unfolding cli_option_def by (induction args x rule: arg_option.induct) (auto split: if_splits)

lemma node_pair_rows:
  assumes "cl_write_stop c (node_table dir) = None" and "\<forall>a \<in> set args. NL \<notin> set a"
  shows "rows (files (node_pair c args dir fs)) (node_table dir) = rows fs (node_table dir)
    \<or> (\<exists>e. (\<forall>x \<in> set (rows fs (node_table dir)). en_id x \<noteq> en_id e)
        \<and> rows (files (node_pair c args dir fs)) (node_table dir) = map stored (rows fs (node_table dir) @ [e]))"
proof -
  define i where "i = or_else (cli_option args ''--id'') (now_id c 0 ''node'')"
  define name where "name = or_else (cli_option args ''--name'') i"
  note pair = node_pair_def [of c args dir fs, unfolded Let_def, folded i_def, folded name_def]
  show ?thesis
  proof (cases "\<exists>labels j es. parse_labels (or_else (cli_option args ''--labels'') []) = Inr labels
      \<and> NodeId_new i = Inr j \<and> read_nodes c (node_table dir) fs = Inr es \<and> \<not> list_ex (\<lambda>entry. en_id entry = i) es")
    case False
    then have "files (node_pair c args dir fs) = fs"
      unfolding pair by (auto simp: frame_simps split: sum.split)
    then show ?thesis by simp
  next
    case True
    then obtain labels j es where h: "parse_labels (or_else (cli_option args ''--labels'') []) = Inr labels"
        "NodeId_new i = Inr j" "read_nodes c (node_table dir) fs = Inr es" "\<not> list_ex (\<lambda>entry. en_id entry = i) es"
      by blast
    define e where "e = \<lparr>en_id = i, en_name = name, en_online = True, en_labels = labels\<rparr>"
    note es = read_nodes_rows [OF h(3)]
    obtain r fs' where w: "write_nodes c (node_table dir) (es @ [e]) fs = (r, fs')" by fastforce
    have "NL \<notin> set name"
      using assms(2) option_in [of args "''--name''"] node_id_plain [OF h(2)]
      by (cases "cli_option args ''--name''") (auto simp: name_def or_else_def)
    then have "row_ok e" using node_id_plain [OF h(2)] parse_labels_ok [OF h(1)] by (simp add: e_def row_ok_def)
    then have ok: "\<forall>x \<in> set (es @ [e]). row_ok x" using rows_ok es by auto
    have new: "\<forall>x \<in> set es. en_id x \<noteq> en_id e" using h(4) by (auto simp: list_ex_iff e_def)
    show ?thesis
    proof (cases r)
      case (Inr u)
      then have "rows fs' (node_table dir) = map stored (es @ [e])"
        using nodes_written [OF assms(1) w] rows_after [OF _ ok] by auto
      moreover have "rows (files (node_pair c args dir fs)) (node_table dir) = rows fs' (node_table dir)"
        unfolding pair using h w Inr
        by (simp add: e_def audited_rows frame_simps rows_text [OF restrict_text])
      ultimately show ?thesis using new es by auto
    next
      case (Inl err)
      then have "files (node_pair c args dir fs) = fs"
        unfolding pair using h w nodes_written [OF assms(1) w] by (simp add: e_def frame_simps)
      then show ?thesis by simp
    qed
  qed
qed

section \<open>A revoked node stays revoked\<close>

definition revoked_rows :: "string \<Rightarrow> node_entry list \<Rightarrow> bool" where
  "revoked_rows i es \<longleftrightarrow> list_ex (\<lambda>e. en_id e = i) es \<and> list_all (\<lambda>e. en_id e = i \<longrightarrow> \<not> en_online e) es"

definition revoked_in :: "string \<Rightarrow> string \<Rightarrow> secret_files \<Rightarrow> bool" where
  "revoked_in dir i fs \<longleftrightarrow> revoked_rows i (rows fs (node_table dir))"

lemma revoked_offline: "list_ex (\<lambda>e. en_id e = i) es \<Longrightarrow> revoked_rows i (map (stored \<circ> set_offline i) es)"
  by (auto simp: revoked_rows_def list_all_iff list_ex_iff)

lemma revoked_kept: "revoked_rows i es \<Longrightarrow> revoked_rows i (map (stored \<circ> set_offline j) es)"
  by (auto simp: revoked_rows_def list_all_iff list_ex_iff)

lemma revoked_more: "revoked_rows i es \<Longrightarrow> \<forall>x \<in> set es. en_id x \<noteq> en_id e \<Longrightarrow> revoked_rows i (map stored (es @ [e]))"
  by (auto simp: revoked_rows_def list_all_iff list_ex_iff)

lemma revoked_same: "text_at (node_table dir) fs' = text_at (node_table dir) fs \<Longrightarrow> revoked_in dir i fs \<Longrightarrow> revoked_in dir i fs'"
  unfolding revoked_in_def using rows_text by metis

lemma revoked_by: "cl_write_stop c (node_table dir) = None \<Longrightarrow> fst (node_revoke c i dir fs) = Inr () \<Longrightarrow>
    revoked_in dir i (files (node_revoke c i dir fs))"
  using node_revoke_rows [of c dir i fs] revoked_offline [of i "rows fs (node_table dir)"] unfolding revoked_in_def by simp

lemma revoked_revoke:
  assumes "cl_write_stop c (node_table dir) = None" and "revoked_in dir i fs"
  shows "revoked_in dir i (files (node_revoke c j dir fs))"
  using node_revoke_rows [OF assms(1), of j fs] revoked_kept assms(2) unfolding revoked_in_def by auto

lemma revoked_pair:
  assumes "cl_write_stop c (node_table dir) = None" and "\<forall>a \<in> set args. NL \<notin> set a" and "revoked_in dir i fs"
  shows "revoked_in dir i (files (node_pair c args dir fs))"
  using node_pair_rows [OF assms(1,2), of fs] revoked_more assms(3) unfolding revoked_in_def by auto

text \<open>The commands that work on one state directory: whole writes of the node table, and no newline in an
  argument (see \<open>name_forges_row\<close>).\<close>

definition command_in :: "string \<Rightarrow> cli \<Rightarrow> string list \<Rightarrow> bool" where
  "command_in dir c raw \<longleftrightarrow>
     state_root (with_flags (snd (normalize_args raw)) c) = dir
   \<and> cl_write_stop c (node_table dir) = None
   \<and> list_all (\<lambda>a. NL \<notin> set a) raw"

text \<open>One command of the tool, to its end.\<close>

inductive cli_step :: "string \<Rightarrow> secret_files \<Rightarrow> secret_files \<Rightarrow> bool" for dir where
  command: "command_in dir c raw \<Longrightarrow> dispatch_command c net raw fs = Outcome q \<Longrightarrow> cli_step dir fs (files q)"
| group_run: "command_in dir c raw \<Longrightarrow> dispatch_command c net raw fs = Group p \<Longrightarrow>
    (group_step (with_flags (snd (normalize_args raw)) c) p)\<^sup>*\<^sup>* (group_start p fs) g \<Longrightarrow> all_ended g \<Longrightarrow>
    cli_step dir fs (gr_files g)"

lemma normalize_loop_step:
  assumes "normalize_loop_args after (a # rest) args fl = (Inr args', fl')"
  shows "\<exists>after2 rest2 args2 fl2. normalize_loop_args after2 rest2 args2 fl2 = (Inr args', fl')
    \<and> length rest2 \<le> length rest \<and> set rest2 \<subseteq> set rest
    \<and> set args2 \<subseteq> insert ''--timeout-ms'' (set args \<union> set (a # rest))"
  using assms
  by (simp split: if_split_asm list.split_asm sum.split_asm del: ex_simps)
    (intro exI conjI, assumption, (auto)[1], (auto)[1], (auto)[1])+

lemma normalize_loop_set:
  "normalize_loop_args after raw args fl = (Inr args', fl') \<Longrightarrow> set args' \<subseteq> insert ''--timeout-ms'' (set args \<union> set raw)"
proof (induction raw arbitrary: after args fl rule: length_induct)
  case (1 raw)
  show ?case
  proof (cases raw)
    case (Cons a rest)
    then obtain after2 rest2 args2 fl2 where s: "normalize_loop_args after2 rest2 args2 fl2 = (Inr args', fl')"
        "length rest2 \<le> length rest" "set rest2 \<subseteq> set rest"
        "set args2 \<subseteq> insert ''--timeout-ms'' (set args \<union> set (a # rest))"
      using normalize_loop_step "1.prems" by metis
    then have "set args' \<subseteq> insert ''--timeout-ms'' (set args2 \<union> set rest2)" using "1.IH" Cons by (metis le_imp_less_Suc length_Cons)
    then show ?thesis using s(3,4) Cons by auto
  qed (use "1.prems" in auto)
qed

lemma normalize_set: "normalize_args raw = (Inr args, fl) \<Longrightarrow> set args \<subseteq> insert ''--timeout-ms'' (set raw)"
  unfolding normalize_args_def using normalize_loop_set by fastforce

lemma node_local_revoked:
  assumes "cl_write_stop c (table_of c) = None" and "\<forall>a \<in> set args. NL \<notin> set a" and "revoked_in (state_root c) i fs"
  shows "revoked_in (state_root c) i (files (node_local c args fs))"
proof (cases "state_dir c")
  case (Inr dir)
  note here = revoked_pair [OF assms] revoked_revoke [OF assms(1,3)] assms(3)
  show ?thesis
    unfolding node_local_def in_state_dir_def Inr state_dir_root [OF Inr] Let_def second_arg_def
    using here by (cases args) (simp_all add: frame_simps split: list.split sum.split option.split)
qed (simp add: node_local_def in_state_dir_def frame_simps assms(3))

lemma node_command_revoked:
  assumes "cl_write_stop c (table_of c) = None" and "\<forall>a \<in> set args. NL \<notin> set a" and "revoked_in (state_root c) i fs"
  shows "revoked_in (state_root c) i (files (node_command c net args fs))"
  using node_local_revoked [OF assms] revoked_same [of _ "state_root c" fs i] remote_node_text assms(3)
  unfolding node_command_def by (simp add: frame_simps split: sum.split option.split prod.split)

lemma cl_write_stop_flags [simp]: "cl_write_stop (with_flags fl c) = cl_write_stop c"
  by (simp add: with_flags_def Let_def)

lemma dispatch_revoked:
  assumes "dispatch_command c net raw fs = Outcome q" and "command_in dir c raw" and "revoked_in dir i fs"
  shows "revoked_in dir i (files q)"
proof (cases "fst (normalize_args raw)")
  case (Inl err)
  then show ?thesis
    using assms by (cases "normalize_args raw") (auto simp: dispatch_command_def frame_simps)
next
  case (Inr args)
  then obtain fl where n: "normalize_args raw = (Inr args, fl)" by (cases "normalize_args raw") simp
  let ?c = "with_flags fl c"
  have d: "state_root ?c = dir" "cl_write_stop ?c (table_of ?c) = None" using assms(2) n by (auto simp: command_in_def)
  have a: "\<forall>a \<in> set args. NL \<notin> set a"
    using assms(2) normalize_set [OF n] by (auto simp: command_in_def list_all_iff)
  show ?thesis
  proof (cases args)
    case Nil
    then show ?thesis using assms(1,3) n by (auto simp: dispatch_command_def)
  next
    case (Cons x rest)
    have same: "revoked_in dir i (files r)" if "same_table ?c fs r" for r
      using revoked_same that assms(3) d(1) by metis
    have ok: "revoked_in dir i (files (auth ?c rest fs))" "revoked_in dir i (files (doctor ?c fs))"
        "revoked_in dir i (files (audit_command ?c rest fs))" "revoked_in dir i (files (grant_command ?c net rest fs))"
      by (rule same, rule auth_table doctor_table audit_table grant_command_table)+
    have node: "revoked_in dir i (files (node_command ?c net rest fs))"
      using node_command_revoked [OF d(2), of rest i fs net] a assms(3) d(1) Cons by simp
    show ?thesis
      using assms(1) n Cons node ok
      by (auto simp: dispatch_command_def Let_def frame_simps assms(3) scope_table approval_files split: if_splits
          dest!: group_command_table task_command_table intro: same)
  qed
qed

lemma step_revoked: "cli_step dir fs fs' \<Longrightarrow> revoked_in dir i fs \<Longrightarrow> revoked_in dir i fs'"
proof (induction rule: cli_step.induct)
  case (command c raw net fs q)
  then show ?case using dispatch_revoked by blast
next
  case (group_run c raw net fs p g)
  then have "text_at (node_table dir) (gr_files g) = text_at (node_table dir) fs"
    using group_run_table [OF group_run.hyps(3)] by (auto simp: command_in_def group_start_def)
  then show ?case using revoked_same group_run.prems by blast
qed

lemma steps_revoked: "(cli_step dir)\<^sup>*\<^sup>* fs fs' \<Longrightarrow> revoked_in dir i fs \<Longrightarrow> revoked_in dir i fs'"
  by (induction rule: rtranclp_induct) (auto intro: step_revoked)

lemma revoked_refused:
  assumes "revoked_in (state_root c) i fs" and "cli_option args ''--node'' = Some i"
  shows "\<exists>err. run_task c k args fs = Some (failing err fs)"
proof (cases "state_dir c")
  case (Inr dir)
  note dir = state_dir_root [OF Inr]
  have "\<exists>err. plan_task c k args dir fs = Inl err"
  proof (cases "read_nodes c (node_table dir) fs")
    case (Inr es)
    have "\<not> list_ex (\<lambda>entry. en_id entry = i \<and> en_online entry) es"
      using assms(1) read_nodes_rows [OF Inr]
      by (auto simp: dir revoked_in_def revoked_rows_def list_all_iff list_ex_iff)
    then show ?thesis using assms(2) Inr by (simp add: plan_task_def Let_def split: option.split)
  qed (use assms(2) in \<open>simp add: plan_task_def Let_def split: option.split\<close>)
  then show ?thesis using Inr by (auto simp: run_task_def)
qed (auto simp: run_task_def failing_def)

text \<open>C35: Revoking a node in the local state lasts, as long as no argument holds a newline. After a
  successful \<open>node revoke\<close>, let any commands of the tool follow one after the other on the same state
  directory (pairing, other revocations, groups and their runs, tasks, remote commands), where no
  argument holds a newline and the writes of the node table are whole (\<open>command_in\<close>). Then a task for
  that node is refused and changes nothing. Without the condition on newlines it is false
  (\<open>name_forges_row\<close>).\<close>

theorem revoked_node_runs_nothing:
  assumes "fst (node_revoke c i dir fs) = Inr ()" and "cl_write_stop c (path_join dir ''nodes.tsv'') = None"
    and "(cli_step dir)\<^sup>*\<^sup>* (files (node_revoke c i dir fs)) fs'"
    and "state_root c' = dir" and "cli_option args ''--node'' = Some i"
  shows "\<exists>err. run_task c' k args fs' = Some (failing err fs')"
  using revoked_refused assms steps_revoked revoked_by by metis

section \<open>A sample\<close>

definition sample_table :: secret_files where
  "sample_table = [''.nodewe/nodes.tsv'' \<mapsto> (384, ''a'' @ [TAB] @ ''a'' @ [TAB] @ ''online'' @ [TAB, NL])]"

lemma sample_table_path: "node_table ''.nodewe'' = ''.nodewe/nodes.tsv''"
  by (simp add: path_join_def rooted_def)

lemma sample_row: "row_ok \<lparr>en_id = ''a'', en_name = ''a'', en_online = o1, en_labels = []\<rparr>"
  by (simp add: row_ok_def labels_ok_def)

lemma table_read:
  "read_nodes sample_cli (node_table ''.nodewe'') sample_table
   = Inr [\<lparr>en_id = ''a'', en_name = ''a'', en_online = True, en_labels = []\<rparr>]"
proof -
  let ?e = "\<lparr>en_id = ''a'', en_name = ''a'', en_online = True, en_labels = []\<rparr>"
  have "node_entry_line ?e = ''a'' @ [TAB] @ ''a'' @ [TAB] @ ''online'' @ [TAB, NL]"
    by (simp add: node_entry_line_def replace_chars_def)
  moreover have "List.map_filter parse_node_entry (str_lines (concat (map node_entry_line [?e]))) = map stored [?e]"
    by (rule rows_written) (simp add: sample_row)
  ultimately have "List.map_filter parse_node_entry (str_lines (''a'' @ [TAB] @ ''a'' @ [TAB] @ ''online'' @ [TAB, NL])) = [?e]"
    by (simp add: stored_def replace_chars_def)
  then show ?thesis
    unfolding sample_table_path read_nodes_def
    by (simp add: file_exists_def sample_table_def read_text_def sample_cli_def byte_def)
qed

lemma sample_revoke: "fst (node_revoke sample_cli ''a'' ''.nodewe'' sample_table) = Inr ()"
  unfolding node_revoke_def Let_def table_read
  by (simp add: write_nodes_def write_text_def put_text_def sample_cli_def audited_def append_audit_def append_line_def
      printing_def Let_def split: option.split)

theorem revoked_node_runs_nothing_witness:
  "\<exists>fs err. cli_step ''.nodewe'' (files (node_revoke sample_cli ''a'' ''.nodewe'' sample_table)) fs
     \<and> run_task sample_cli 0 [''run'', ''--node'', ''a'', ''--scope'', ''/srv/lab'', ''--'', ''echo''] fs = Some (failing err fs)"
proof -
  let ?fs = "files (node_revoke sample_cli ''a'' ''.nodewe'' sample_table)"
  have r: "state_root sample_cli = ''.nodewe''" using state_dir_root [OF sample_state_dir] by simp
  have n: "normalize_args [''auth'', ''login''] = (Inr [''auth'', ''login''], \<lparr>fl_json = False, fl_profile = None\<rparr>)"
    by (simp add: normalize_args_def)
  have w: "cl_write_stop sample_cli p = None" for p by (simp add: sample_cli_def)
  have "command_in ''.nodewe'' sample_cli [''auth'', ''login'']"
    unfolding command_in_def n by (simp add: state_root_def with_flags_def sample_cli_def sample_agent_def sample_env_def Let_def)
  moreover have "dispatch_command sample_cli net [''auth'', ''login''] ?fs
      = Outcome (auth (with_flags \<lparr>fl_json = False, fl_profile = None\<rparr> sample_cli) [''login''] ?fs)" for net
    by (simp add: dispatch_command_def n Let_def)
  ultimately obtain fs where s: "cli_step ''.nodewe'' ?fs fs" using cli_step.command by blast
  moreover have "\<exists>err. run_task sample_cli 0 [''run'', ''--node'', ''a'', ''--scope'', ''/srv/lab'', ''--'', ''echo''] fs
      = Some (failing err fs)"
    by (rule revoked_node_runs_nothing [OF sample_revoke w _ r]) (simp_all add: s r_into_rtranclp cli_option_def)
  ultimately show ?thesis by blast
qed

text \<open>Why a newline in an argument is excluded: a name is written as it is, and a name with a newline
  forges a row. Here \<open>node pair --id x --name x<newline>a --labels online\<close> brings the revoked node \<open>a\<close> back.\<close>

lemma name_forges_row:
  "revoked_in ''.nodewe'' ''a'' (files (node_revoke sample_cli ''a'' ''.nodewe'' sample_table))"
  "\<not> revoked_rows ''a'' (List.map_filter parse_node_entry (str_lines (concat (map node_entry_line
      [\<lparr>en_id = ''a'', en_name = ''a'', en_online = False, en_labels = []\<rparr>,
       \<lparr>en_id = ''x'', en_name = ''x'' @ [NL] @ ''a'', en_online = True, en_labels = [''online'']\<rparr>]))))"
proof -
  show "revoked_in ''.nodewe'' ''a'' (files (node_revoke sample_cli ''a'' ''.nodewe'' sample_table))"
    by (rule revoked_by [OF _ sample_revoke]) (simp add: sample_cli_def)
  have p: "parse_labels [] = Inr []" by (simp add: parse_labels_def str_split_def str_trim_def)
  have "str_lines (node_entry_line \<lparr>en_id = ''x'', en_name = ''x'' @ [NL] @ ''a'', en_online = True, en_labels = [''online'']\<rparr>)
      = [''x'' @ [TAB] @ ''x'', ''a'' @ [TAB] @ ''online'' @ [TAB] @ ''online'']"
    by (simp add: node_entry_line_def replace_chars_def str_lines_def str_split_def chop_cr_def Let_def)
  moreover have "parse_node_entry (''a'' @ [TAB] @ ''online'' @ [TAB] @ ''online'')
      = Some \<lparr>en_id = ''a'', en_name = ''online'', en_online = True, en_labels = []\<rparr>"
    by (simp add: parse_node_entry_def numeral_eq_Suc p)
  moreover obtain l where "node_entry_line \<lparr>en_id = ''a'', en_name = ''a'', en_online = False, en_labels = []\<rparr> = l @ [NL]"
      "NL \<notin> set l"
    using row_line [OF sample_row] by blast
  ultimately show "\<not> revoked_rows ''a'' (List.map_filter parse_node_entry (str_lines (concat (map node_entry_line
      [\<lparr>en_id = ''a'', en_name = ''a'', en_online = False, en_labels = []\<rparr>,
       \<lparr>en_id = ''x'', en_name = ''x'' @ [NL] @ ''a'', en_online = True, en_labels = [''online'']\<rparr>]))))"
    by (simp add: str_lines_terminated map_filter_simps revoked_rows_def split: option.split)
qed

end
