(* ===== verification/Cli_Safety.thy ===== *)
theory Cli_Safety
  imports Cli_Revocation
begin

text \<open>
  What the tool promises beyond its tables: no request leaves in plaintext for another machine, a task that
  was run can be shown again, and arguments behind \<open>--\<close> reach the program as they were typed.
\<close>

section \<open>No plaintext to another machine\<close>

definition may_talk :: "cli \<Rightarrow> string \<Rightarrow> bool" where
  "may_talk c endpoint \<longleftrightarrow>
     cli_load_tls_options c endpoint = Inr True \<or> loopback endpoint
   \<or> env_var (cl_env c) ''NODEWE_ALLOW_INSECURE_HTTP'' = Some ''1''"

lemma http_request_silent: "\<not> may_talk c endpoint \<Longrightarrow> http_request c net endpoint request = http_request c net' endpoint request"
  by (cases "cli_load_tls_options c endpoint")
    (auto simp: http_request_def may_talk_def ensure_endpoint_safe_def loopback_def Let_def)

lemma http_silent:
  assumes "\<not> may_talk c endpoint"
  shows "http_get_json c net endpoint path token = http_get_json c net' endpoint path token"
    and "http_post_json c net endpoint path body token = http_post_json c net' endpoint path body token"
    and "http_post_json_unauthenticated c net endpoint path body = http_post_json_unauthenticated c net' endpoint path body"
  unfolding http_get_json_def http_post_json_def http_post_json_unauthenticated_def
  by (rule http_request_silent [OF assms])+

lemma remote_silent:
  assumes "\<not> may_talk c endpoint"
  shows "remote_node c net args endpoint token fs = remote_node c net' args endpoint token fs"
    and "remote_grant c net args endpoint token fs = remote_grant c net' args endpoint token fs"
  unfolding remote_node_def remote_pair_def remote_enroll_def remote_grant_def
  by (simp_all only: http_silent [OF assms, where net = net and net' = net'])

abbreviation endpoint_of :: "cli \<Rightarrow> string option" where
  "endpoint_of c \<equiv> env_var (cl_env c) ''NODEWE_CONTROL_PLANE''"

lemma remote_config_endpoint: "remote_config c args = Inr (Some (endpoint, token)) \<Longrightarrow> endpoint_of c = Some endpoint"
  by (auto simp: remote_config_def split: option.splits sum.splits)

lemma commands_silent:
  assumes "\<forall>endpoint. endpoint_of c = Some endpoint \<longrightarrow> \<not> may_talk c endpoint"
  shows "node_command c net args fs = node_command c net' args fs"
    and "grant_command c net args fs = grant_command c net' args fs"
    and "approval_command c net args fs = approval_command c net' args fs"
    and "submit_task c net args fs = submit_task c net' args fs"
    and "task_action c net args fs = task_action c net' args fs"
proof -
  have s: "\<not> may_talk c endpoint" if "remote_config c args = Inr (Some (endpoint, token))" for endpoint token
    using that assms remote_config_endpoint by blast
  show "node_command c net args fs = node_command c net' args fs" "grant_command c net args fs = grant_command c net' args fs"
    unfolding node_command_def grant_command_def
    by (auto split: sum.split option.split dest!: s simp: remote_silent [where net = net and net' = net'])
  have "approval_command c net args fs = approval_command c net' args fs
      \<and> submit_task c net args fs = submit_task c net' args fs \<and> task_action c net args fs = task_action c net' args fs"
  proof (cases "endpoint_of c")
    case (Some endpoint)
    then have n: "\<not> may_talk c endpoint" using assms by blast
    show ?thesis
      unfolding approval_command_def submit_task_def task_action_def with_control_plane_def Some option.case
        http_silent [OF n, where net = net and net' = net'] by blast
  qed (simp add: approval_command_def submit_task_def task_action_def with_control_plane_def)
  then show "approval_command c net args fs = approval_command c net' args fs"
      "submit_task c net args fs = submit_task c net' args fs" "task_action c net args fs = task_action c net' args fs"
    by blast+
qed

text \<open>The global options do not change where the control plane is or how it is reached.\<close>

lemma flags_environ:
  "x \<noteq> ''NODEWE_OUTPUT'' \<Longrightarrow> x \<noteq> ''NODEWE_PROFILE'' \<Longrightarrow> environ (cl_env (with_flags fl c)) x = environ (cl_env c) x"
  by (simp add: with_flags_def Let_def)

lemma flags_talk: "endpoint_of (with_flags fl c) = endpoint_of c" "may_talk (with_flags fl c) endpoint = may_talk c endpoint"
proof -
  have e: "environ (cl_env (with_flags fl c)) x = environ (cl_env c) x"
    if "x \<in> {''NODEWE_CONTROL_PLANE'', ''NODEWE_ALLOW_INSECURE_HTTP'', ''NODEWE_CLI_TLS_CA'', ''NODEWE_CLI_TLS_CERT'',
      ''NODEWE_CLI_TLS_KEY'', ''NODEWE_CLI_TLS_SERVER_NAME''}" for x
    using that by (intro flags_environ) auto
  have t: "cl_tls (with_flags fl c) = cl_tls c" by (simp add: with_flags_def Let_def)
  show "endpoint_of (with_flags fl c) = endpoint_of c"
    unfolding env_var_def using e by simp
  show "may_talk (with_flags fl c) endpoint = may_talk c endpoint"
    unfolding may_talk_def cli_load_tls_options_def env_var_def Let_def t by (simp only: e insert_iff simp_thms)
qed

text \<open>C36: No request of the tool leaves in plaintext for another machine. When the network makes any
  difference to a command, then the address of the control plane is on this machine, or TLS with the
  configured authorities is on, or plain transport was explicitly allowed.\<close>

theorem no_plaintext_to_other_machines:
  assumes "dispatch_command c net raw fs \<noteq> dispatch_command c net' raw fs"
  shows "\<exists>endpoint. env_var (cl_env c) ''NODEWE_CONTROL_PLANE'' = Some endpoint
    \<and> (loopback endpoint \<or> cli_load_tls_options c endpoint = Inr True
      \<or> env_var (cl_env c) ''NODEWE_ALLOW_INSECURE_HTTP'' = Some ''1'')"
proof (rule ccontr)
  assume n: "\<not> ?thesis"
  have s: "\<forall>endpoint. endpoint_of (with_flags fl c) = Some endpoint \<longrightarrow> \<not> may_talk (with_flags fl c) endpoint" for fl
  proof (intro allI impI notI)
    fix endpoint
    assume "endpoint_of (with_flags fl c) = Some endpoint" and "may_talk (with_flags fl c) endpoint"
    then have "endpoint_of c = Some endpoint" "may_talk c endpoint" by (simp_all only: flags_talk)
    then show False using n unfolding may_talk_def by metis
  qed
  have "dispatch_command c net raw fs = dispatch_command c net' raw fs"
    unfolding dispatch_command_def task_command_def Let_def commands_silent [OF s, where net = net and net' = net']
    by (rule refl)
  then show False using assms by blast
qed

section \<open>The record of a task\<close>

lemma write_text_done: "write_text c path contents fs = (Inr u, fs') \<Longrightarrow> \<exists>m. fs' = fs(path \<mapsto> (m, contents))"
  by (auto simp: write_text_def put_text_def Let_def split: option.splits)

lemma append_line_done:
  "append_line c path line fs = (Inr u, fs') \<Longrightarrow> \<exists>m. fs' = fs(path \<mapsto> (m, or_else (text_at path fs) [] @ line @ [NL]))"
  by (auto simp: append_line_def put_text_def Let_def or_else_def split: option.splits)

lemma restrict_same: "path \<noteq> q \<Longrightarrow> cli_restrict_file c path fs q = fs q"
  by (auto simp: cli_restrict_file_def split: option.split)

lemma last_task_file: "ending \<noteq> [] \<Longrightarrow> last (task_file dir i ending) = last ending"
  unfolding task_file_def by (subst last_path_join) auto

lemma last_audit: "last (path_join dir ''audit.jsonl'') = CHR ''l''"
  by (simp add: last_path_join)

lemma task_files_apart:
  "distinct [task_file dir i ''.stdout'', task_file dir i ''.stderr'', task_file dir i ''.meta'', path_join dir ''audit.jsonl'']"
proof -
  have "distinct (map last [task_file dir i ''.stdout'', task_file dir i ''.stderr'', task_file dir i ''.meta'',
      path_join dir ''audit.jsonl''])"
    by (simp add: last_task_file last_audit)
  then show ?thesis by (rule distinct_map [THEN iffD1, THEN conjunct1])
qed

text \<open>The files of a task after it was written down.\<close>

definition task_written :: "string \<Rightarrow> task_record \<Rightarrow> string \<Rightarrow> string \<Rightarrow> string \<Rightarrow> secret_files \<Rightarrow> secret_files \<Rightarrow> bool" where
  "task_written dir r out err event fs fs' \<longleftrightarrow>
     text_at (task_file dir (tr_id r) ''.stdout'') fs' = Some out
   \<and> text_at (task_file dir (tr_id r) ''.stderr'') fs' = Some err
   \<and> text_at (task_file dir (tr_id r) ''.meta'') fs' = Some (task_meta r)
   \<and> text_at (path_join dir ''audit.jsonl'') fs' = Some (or_else (text_at (path_join dir ''audit.jsonl'') fs) [] @ event @ [NL])
   \<and> (\<forall>path. path \<notin> {task_file dir (tr_id r) ''.stdout'', task_file dir (tr_id r) ''.stderr'',
        task_file dir (tr_id r) ''.meta'', path_join dir ''audit.jsonl''} \<longrightarrow> fs' path = fs path)"

lemma persist_task_done:
  assumes "persist_task c dir r out err fs = (Inr u, fs')" and "append_audit c dir event fs' = (Inr v, fs'')"
  shows "task_written dir r out err event fs fs''"
proof -
  define a b m l where paths: "a = task_file dir (tr_id r) ''.stdout''" "b = task_file dir (tr_id r) ''.stderr''"
    "m = task_file dir (tr_id r) ''.meta''" "l = path_join dir ''audit.jsonl''"
  have d: "distinct [a, b, m, l]" using task_files_apart [of dir "tr_id r"] by (simp only: paths)
  obtain fs1 fs2 fs3 where w: "write_text c a out fs = (Inr (), fs1)" "write_text c b err fs1 = (Inr (), fs2)"
      "write_text c m (task_meta r) (cli_restrict_file c b (cli_restrict_file c a fs2)) = (Inr (), fs3)"
      "fs' = cli_restrict_file c m fs3"
    using assms(1) unfolding persist_task_def Let_def paths [symmetric] by (auto split: prod.splits sum.splits)
  obtain fs4 where x: "append_line c l event fs' = (Inr (), fs4)" "fs'' = cli_restrict_file c l fs4"
    using assms(2) unfolding append_audit_def Let_def paths [symmetric] by (auto split: prod.splits sum.splits)
  obtain m1 m2 m3 m4 where y: "fs1 = fs(a \<mapsto> (m1, out))" "fs2 = fs1(b \<mapsto> (m2, err))"
      "fs3 = (cli_restrict_file c b (cli_restrict_file c a fs2))(m \<mapsto> (m3, task_meta r))"
      "fs4 = fs'(l \<mapsto> (m4, or_else (text_at l fs') [] @ event @ [NL]))"
    using write_text_done [OF w(1)] write_text_done [OF w(2)] write_text_done [OF w(3)] append_line_done [OF x(1)] by blast
  have "text_at l fs' = text_at l fs" using d by (auto simp: w(4) y(1-3) restrict_text restrict_same)
  moreover have "fs' q = fs q" if "q \<notin> {a, b, m}" for q using that d by (auto simp: w(4) y(1-3) restrict_same)
  moreover have "text_at a fs' = Some out" "text_at b fs' = Some err" "text_at m fs' = Some (task_meta r)"
    using d by (simp_all add: w(4) y(1-3) restrict_text)
  ultimately show ?thesis
    unfolding task_written_def paths [symmetric] using d by (auto simp: x(2) y(4) restrict_text restrict_same)
qed

lemma task_written_id: "task_transition r s = Inr r' \<Longrightarrow> r' = r\<lparr>tr_state := s\<rparr>"
  by (auto simp: task_transition_def split: if_splits)

lemma finish_task_done:
  assumes "finish_task c dir r s out err event report fs = (Inr (), q, fs')" and "\<And>fs. files (report fs) = fs"
  shows "task_written dir (r\<lparr>tr_state := s\<rparr>) out err event fs fs' \<and> (\<exists>fs. report fs = (Inr (), q, fs'))"
proof -
  obtain r' where r: "task_transition r s = Inr r'"
    using assms(1) by (cases "task_transition r s") (auto simp: finish_task_def failing_def)
  obtain fs1 where w: "persist_task c dir r' out err fs = (Inr (), fs1)"
    using assms(1) by (cases "persist_task c dir r' out err fs"; cases "fst (persist_task c dir r' out err fs)")
      (auto simp: finish_task_def r failing_def)
  obtain fs2 where a: "append_audit c dir event fs1 = (Inr (), fs2)"
    using assms(1) by (cases "append_audit c dir event fs1"; cases "fst (append_audit c dir event fs1)")
      (auto simp: finish_task_def r w audited_def failing_def)
  have "report fs2 = (Inr (), q, fs')" using assms(1) by (simp add: finish_task_def r w audited_def a)
  moreover from this have "fs' = fs2" using assms(2) [of fs2] by simp
  ultimately show ?thesis using persist_task_done [OF w a] task_written_id [OF r] by blast
qed

text \<open>What is kept of a pipe: the text of its first bytes, up to the end of the file (an empty block) and
  the limit.\<close>

definition kept_text :: "bytes list \<times> string option \<Rightarrow> string" where
  "kept_text pipe = lossy_text (take MAX_OUTPUT (concat (takeWhile (\<lambda>block. block \<noteq> []) (fst pipe))))"

lemma read_pipe_loop_kept:
  "read_pipe_loop limit cs err out tr = Inr (kept, b) \<Longrightarrow> length out \<le> limit \<Longrightarrow>
   kept = out @ take (limit - length out) (concat (takeWhile (\<lambda>block. block \<noteq> []) cs))"
proof (induction limit cs err out tr rule: read_pipe_loop.induct)
  case (3 limit c cs err out tr)
  show ?case
  proof (cases "c \<noteq> [] \<and> length out < limit")
    case True
    let ?k = "min (limit - length out) (length c)"
    have "take ?k c = take (limit - length out) c" by (simp add: min_def)
    then show ?thesis using True 3 by (auto simp: Let_def min_def split: if_splits)
  next
    case False
    then show ?thesis using 3 by (auto split: if_splits)
  qed
qed simp_all

lemma read_pipe_kept:
  assumes "read_pipe_bounded pipe MAX_OUTPUT = Inr (out, b)"
  shows "cli_truncate out = kept_text pipe"
  using read_pipe_loop_kept [of MAX_OUTPUT "fst pipe" "snd pipe" "[]" False out b] assms
  by (simp add: read_pipe_bounded_def cli_truncate_def kept_text_def min_def)

text \<open>What a task that was run to its end leaves behind and prints.\<close>

definition ended_state :: "int option \<Rightarrow> task_state" where
  "ended_state status = (if status = Some 0 then Succeeded else Failed)"

definition task_recorded ::
  "cli \<Rightarrow> string \<Rightarrow> task_plan \<Rightarrow> child \<Rightarrow> int option \<Rightarrow> string \<Rightarrow> secret_files \<Rightarrow> secret_files \<Rightarrow> bool" where
  "task_recorded c dir p child status printed fs fs' \<longleftrightarrow>
     spawn (cl_host c) (tr_command (tp_record p)) (tp_cwd p) = Inr child
   \<and> wait_child child (unat (tp_timeout p)) 0 = Some (Inr True) \<and> wait_status child = Inr status
   \<and> task_written dir ((tp_record p)\<lparr>tr_state := ended_state status\<rparr>) (kept_text (stdout_pipe child)) (kept_text (stderr_pipe child))
       (object_text [member ''event'' ''task.completed'', member ''task_id'' (tr_id (tp_record p)),
          text_member ''node_id'' (tp_node p), member ''result'' (if status = Some 0 then ''succeeded'' else ''failed'')]) fs fs'
   \<and> printed = object_text [member ''task_id'' (tr_id (tp_record p)), text_member ''node_id'' (tp_node p),
       member ''state'' (if status = Some 0 then ''Succeeded'' else ''Failed''),
       raw_member ''exit_code'' (case status of None \<Rightarrow> ''null'' | Some code \<Rightarrow> show_int code)] @ [NL]"

lemma run_planned_done:
  assumes "run_planned c dir p fs = Some (Inr (), q, fs')"
  shows "\<exists>child status. task_recorded c dir p child status q fs fs'"
proof -
  obtain child where child: "spawn (cl_host c) (tr_command (tp_record p)) (tp_cwd p) = Inr child"
    using assms by (cases "spawn (cl_host c) (tr_command (tp_record p)) (tp_cwd p)")
      (auto simp: run_planned_def Let_def failing_def)
  obtain w where w: "wait_child child (unat (tp_timeout p)) 0 = Some w"
    using assms child by (auto simp: run_planned_def Let_def)
  have fail: "files (failing err fs) = fs" "fst (failing err fs) \<noteq> Inr ()" for err fs by (simp_all add: failing_def)
  have true: "w = Inr True"
    using assms finish_task_done [where report = "failing err" for err] fail
    by (cases w) (auto simp: run_planned_def Let_def child w failing_def split: if_splits dest!: finish_task_done)
  then obtain status out b err b' where s: "wait_status child = Inr status"
      "read_pipe_bounded (stdout_pipe child) MAX_OUTPUT = Inr (out, b)"
      "read_pipe_bounded (stderr_pipe child) MAX_OUTPUT = Inr (err, b')"
    using assms by (auto simp: run_planned_def Let_def child w failing_def split: sum.splits)
  have f: "finish_task c dir (tp_record p) (ended_state status) (kept_text (stdout_pipe child)) (kept_text (stderr_pipe child))
      (object_text [member ''event'' ''task.completed'', member ''task_id'' (tr_id (tp_record p)),
          text_member ''node_id'' (tp_node p), member ''result'' (if status = Some 0 then ''succeeded'' else ''failed'')])
      (printing (object_text [member ''task_id'' (tr_id (tp_record p)), text_member ''node_id'' (tp_node p),
          member ''state'' (if status = Some 0 then ''Succeeded'' else ''Failed''),
          raw_member ''exit_code'' (case status of None \<Rightarrow> ''null'' | Some code \<Rightarrow> show_int code)])) fs = (Inr (), q, fs')"
    using assms s(1) by (simp add: run_planned_def Let_def child w true s(2,3) read_pipe_kept [OF s(2)] read_pipe_kept [OF s(3)]
        ended_state_def state_name_def split: if_splits)
  show ?thesis
    using finish_task_done [OF f] child w true s(1) by (auto simp: task_recorded_def frame_simps printing_def)
qed

text \<open>Showing a record: the four lines of the file, as members.\<close>

definition record_members :: "task_record \<Rightarrow> string list" where
  "record_members r =
     [text_member ''id'' (tr_id r), text_member ''node_id'' (tr_node_id r), text_member ''state'' (state_name (tr_state r)),
      text_member ''command'' (str_join '' '' (map meta_part (tr_command r)))]"

lemma state_name_plain: "NL \<notin> set (state_name s) \<and> CR \<notin> set (state_name s)"
  by (cases s) (simp_all add: state_name_def)

lemma meta_part_free: "NL \<notin> set (meta_part a) \<and> (CR \<notin> set a \<longrightarrow> CR \<notin> set (meta_part a))"
  by (auto simp: meta_part_def replace_chars_def split: if_splits)

lemma free_join: "c \<notin> set sep \<Longrightarrow> \<forall>w \<in> set ws. c \<notin> set w \<Longrightarrow> c \<notin> set (str_join sep ws)"
proof (induction ws)
  case (Cons w ws)
  then show ?case by (cases ws) auto
qed simp

lemma meta_lines:
  assumes "NL \<notin> set (tr_id r)" and "CR \<notin> set (tr_id r)" and "NL \<notin> set (tr_node_id r)" and "CR \<notin> set (tr_node_id r)"
    and "\<forall>a \<in> set (tr_command r). CR \<notin> set a"
  shows "str_lines (task_meta r) = [''id='' @ tr_id r, ''node_id='' @ tr_node_id r, ''state='' @ state_name (tr_state r),
    ''command='' @ str_join '' '' (map meta_part (tr_command r))]"
proof -
  let ?command = "str_join '' '' (map meta_part (tr_command r))"
  let ?ls = "[''id='' @ tr_id r, ''node_id='' @ tr_node_id r, ''state='' @ state_name (tr_state r), ''command='' @ ?command]"
  have c: "NL \<notin> set ?command" "CR \<notin> set ?command"
    by (rule free_join; use assms(5) meta_part_free in simp)+
  have "\<forall>l \<in> set ?ls. NL \<notin> set l \<and> CR \<notin> set l" using assms(1-4) c state_name_plain by simp
  from str_lines_concat [OF this, of "[]"] show ?thesis by (simp add: task_meta_def)
qed

lemma member_line: "CHR ''='' \<notin> set key \<Longrightarrow> split_once (key @ ''='' @ v) CHR ''='' = Some (key, v)"
  by (simp add: split_once_append)

lemma shown_members:
  "meta_members True [''id='' @ a, ''node_id='' @ b, ''state='' @ s, ''command='' @ d] out
   = (Inr (), out @ str_join '','' [text_member ''id'' a, text_member ''node_id'' b, text_member ''state'' s, text_member ''command'' d]
        @ [CHR 0x7D, NL])"
  using member_line [of "''id''" a] member_line [of "''node_id''" b] member_line [of "''state''" s] member_line [of "''command''" d]
  by simp

lemma record_shown:
  assumes "text_at (task_file dir (tr_id r) ''.meta'') fs = Some (task_meta r)" and "valid_utf8 (task_meta r)"
    and "cl_read_error c (task_file dir (tr_id r) ''.meta'') = None"
    and "NL \<notin> set (tr_id r)" and "CR \<notin> set (tr_id r)" and "NL \<notin> set (tr_node_id r)" and "CR \<notin> set (tr_node_id r)"
    and "\<forall>a \<in> set (tr_command r). CR \<notin> set a"
  shows "task_action_local c ''show'' (tr_id r) dir fs = printing (object_text (record_members r)) fs"
proof -
  obtain m where f: "fs (task_file dir (tr_id r) ''.meta'') = Some (m, task_meta r)" using assms(1) by auto
  then have "read_text c (task_file dir (tr_id r) ''.meta'') fs = Inr (task_meta r)"
    using assms(2,3) by (simp add: read_text_def)
  then show ?thesis
    unfolding task_action_local_def print_task_meta_def Let_def
    using f shown_members by (simp add: file_exists_def meta_lines [OF assms(4-8)] printing_def object_text_def record_members_def)
qed

lemma id_char_line: "b \<in> {NL, CR} \<Longrightarrow> \<not> id_char b"
  by (elim insertE emptyE) (simp_all add: id_char_def is_ascii_graphic_def byte_def)

lemma now_id_line: "NL \<notin> set (now_id c k ''task'')" "CR \<notin> set (now_id c k ''task'')"
  using hex_chars [of "nanos (cl_agent c) k"]
  by (auto simp: now_id_def list_all_iff is_ascii_digit_def is_ascii_lowercase_def byte_def)

lemma planned:
  assumes "plan_task c k args dir fs = Inr p"
  shows "tr_id (tp_record p) = now_id c k ''task'' \<and> list_all id_char (tr_node_id (tp_record p))"
  using assms unfolding plan_task_def Let_def
  by (auto simp: TaskRecord_new_def NodeId_new_def split: option.splits sum.splits if_splits dest!: task_written_id)

text \<open>C37: A task that was run is on record, exactly, and nothing else changed. When \<open>task run\<close> succeeds,
  the task went through the checks of its plan, its child was started with the planned command in the
  scope and exited in time. Its record then says \<open>Succeeded\<close> if the exit code is 0 and \<open>Failed\<close>
  otherwise; its three files hold the text of what the child wrote to each of its pipes (the first
  1 MiB of each) and that record; one line is appended to the audit file, the \<open>task.completed\<close> event
  of this task and node with that result; every other file is as it was; and the task, the node, the
  state and the exit code are printed. \<open>task show\<close> then prints the record back, if the command is text
  without carriage returns and the file can be read.\<close>

theorem task_run_recorded:
  assumes "run_task c k args fs = Some (Inr (), q, fs')"
  shows "\<exists>p child status. plan_task c k args (state_root c) fs = Inr p
    \<and> spawn (cl_host c) (tr_command (tp_record p)) (tp_cwd p) = Inr child
    \<and> wait_child child (unat (tp_timeout p)) 0 = Some (Inr True) \<and> wait_status child = Inr status
    \<and> (let dir = state_root c; r = (tp_record p)\<lparr>tr_state := if status = Some 0 then Succeeded else Failed\<rparr> in
      task_written dir r
        (lossy_text (take MAX_OUTPUT (concat (takeWhile (\<lambda>block. block \<noteq> []) (fst (stdout_pipe child))))))
        (lossy_text (take MAX_OUTPUT (concat (takeWhile (\<lambda>block. block \<noteq> []) (fst (stderr_pipe child))))))
        (object_text [member ''event'' ''task.completed'', member ''task_id'' (tr_id r),
           text_member ''node_id'' (tp_node p), member ''result'' (if status = Some 0 then ''succeeded'' else ''failed'')]) fs fs'
      \<and> q = object_text [member ''task_id'' (tr_id r), text_member ''node_id'' (tp_node p),
           member ''state'' (if status = Some 0 then ''Succeeded'' else ''Failed''),
           raw_member ''exit_code'' (case status of None \<Rightarrow> ''null'' | Some code \<Rightarrow> show_int code)] @ [NL]
      \<and> (valid_utf8 (task_meta r) \<longrightarrow> list_all (\<lambda>a. CR \<notin> set a) (tr_command r) \<longrightarrow>
          cl_read_error c (task_file dir (tr_id r) ''.meta'') = None \<longrightarrow>
          task_action_local c ''show'' (tr_id r) dir fs' = printing (object_text (record_members r)) fs'))"
proof -
  obtain dir where dir: "state_dir c = Inr dir"
    using assms by (cases "state_dir c") (auto simp: run_task_def failing_def)
  obtain p where p: "plan_task c k args dir fs = Inr p"
    using assms by (cases "plan_task c k args dir fs") (auto simp: run_task_def failing_def dir)
  then have "run_planned c dir p fs = Some (Inr (), q, fs')" using assms by (simp add: run_task_def dir)
  then obtain child status where w: "task_recorded c dir p child status q fs fs'" using run_planned_done by blast
  let ?r = "(tp_record p)\<lparr>tr_state := ended_state status\<rparr>"
  have i: "tr_id ?r = now_id c k ''task''" "list_all id_char (tr_node_id ?r)" using planned [OF p] by simp_all
  have n: "b \<in> {NL, CR} \<Longrightarrow> b \<notin> set (tr_node_id ?r)" for b
    using i(2) id_char_line [of b] by (auto simp only: list_all_iff)
  have lines: "NL \<notin> set (tr_id ?r)" "CR \<notin> set (tr_id ?r)" "NL \<notin> set (tr_node_id ?r)" "CR \<notin> set (tr_node_id ?r)"
    using now_id_line n by (simp_all add: i(1))
  have meta: "text_at (task_file dir (tr_id ?r) ''.meta'') fs' = Some (task_meta ?r)"
    using w unfolding task_recorded_def task_written_def by blast
  have shown: "task_action_local c ''show'' (tr_id ?r) dir fs' = printing (object_text (record_members ?r)) fs'"
    if "valid_utf8 (task_meta ?r)" "list_all (\<lambda>a. CR \<notin> set a) (tr_command ?r)"
      "cl_read_error c (task_file dir (tr_id ?r) ''.meta'') = None"
    using record_shown [where r = ?r and dir = dir and fs = fs' and c = c, OF meta that(1,3) lines] that(2) by (simp add: list_all_iff)
  show ?thesis
    using p w shown unfolding task_recorded_def state_dir_root [OF dir, symmetric] kept_text_def ended_state_def Let_def
    by (intro exI [of _ p] exI [of _ child] exI [of _ status] conjI impI) simp_all
qed

section \<open>Arguments\<close>

lemma normalize_behind: "normalize_loop_args True raw args fl = (Inr (args @ raw), fl)"
  by (induction raw arbitrary: args) auto

lemma normalize_at_separator: "normalize_loop_args after (''--'' # raw) args fl = (Inr (args @ ''--'' # raw), fl)"
  by (simp add: normalize_behind)

lemma normalize_loop_separator:
  "normalize_loop_args False pre acc fl = (Inr args, fl') \<Longrightarrow> ''--'' \<notin> set pre \<Longrightarrow>
   normalize_loop_args False (pre @ ''--'' # command) acc fl = (Inr (args @ ''--'' # command), fl')"
proof (induction pre arbitrary: acc fl rule: length_induct)
  case (1 pre)
  show ?case
  proof (cases pre)
    case Nil
    then show ?thesis using "1.prems" by (simp add: normalize_behind)
  next
    case (Cons a rest)
    have ih: "normalize_loop_args False ys x f = (Inr args, fl') \<Longrightarrow> ''--'' \<notin> set ys \<Longrightarrow> length ys \<le> length rest \<Longrightarrow>
        normalize_loop_args False (ys @ ''--'' # command) x f = (Inr (args @ ''--'' # command), fl')" for ys x f
      using "1.IH" Cons by (metis le_imp_less_Suc length_Cons)
    note one = normalize_loop_args.simps(2) [of False a _ acc fl]
    have "normalize_loop_args False (a # rest) acc fl = (Inr args, fl')" "a \<noteq> ''--''" "''--'' \<notin> set rest"
      using "1.prems" Cons by auto
    then show ?thesis
    proof (cases rest)
      case Nil
      then show ?thesis
        using \<open>normalize_loop_args False (a # rest) acc fl = (Inr args, fl')\<close> \<open>a \<noteq> ''--''\<close> Cons
        by (auto simp: normalize_behind split: if_splits)
    next
      case rest: (Cons b r)
      show ?thesis
        using \<open>normalize_loop_args False (a # rest) acc fl = (Inr args, fl')\<close> \<open>a \<noteq> ''--''\<close> \<open>''--'' \<notin> set rest\<close>
        unfolding Cons rest append_Cons one
        by (simp del: normalize_loop_args.simps split: if_split_asm sum.split_asm)
          (use ih [of "b # r"] ih [of r] rest in \<open>auto simp del: normalize_loop_args.simps\<close>)
    qed
  qed
qed

text \<open>Global options end at \<open>--\<close>: what stands behind it is kept word by word.\<close>

lemma separator_kept:
  "normalize_args pre = (Inr args, fl) \<Longrightarrow> ''--'' \<notin> set pre \<Longrightarrow>
   normalize_args (pre @ ''--'' # command) = (Inr (args @ ''--'' # command), fl)"
  unfolding normalize_args_def by (rule normalize_loop_separator)

text \<open>The options of a command are looked for behind \<open>--\<close> as well: an argument of the program sets the timeout.\<close>

lemma options_beyond_separator:
  "cli_option [''run'', ''--node'', ''a'', ''--scope'', ''.'', ''--'', ''echo'', ''--timeout-ms'', ''5''] ''--timeout-ms'' = Some ''5''"
  by (simp add: cli_option_def)

text \<open>The tasks of a group never get the timeout of the command line.\<close>

lemma group_timeout_lost:
  assumes "gp_scope p \<noteq> ''--timeout-ms''" and "n \<noteq> ''--timeout-ms''" and "''--timeout-ms'' \<notin> set (gp_command p)"
  shows "cli_option (group_task_args p n) ''--timeout-ms'' = None"
proof -
  have "x \<notin> set args \<Longrightarrow> arg_option args x = None" for args and x :: string
    by (induction args x rule: arg_option.induct) auto
  then show ?thesis using assms by (simp add: cli_option_def group_task_args_def)
qed

text \<open>A task that timed out is reported with the code of a bad request.\<close>

lemma timed_out_code: "error_code ''task task_1 timed out'' = ''invalid_request''"
  by (simp add: error_code_def to_ascii_lowercase_def to_lower_def is_ascii_uppercase_def byte_def Let_def)

text \<open>A profile may be called \<open>..\<close>: its directory is then the directory that holds all profiles.\<close>

lemma dot_profile:
  "normalize_args [''--profile'', ''..'', ''doctor''] = (Inr [''doctor''], \<lparr>fl_json = False, fl_profile = Some ''..''\<rparr>)
   \<and> state_root (with_flags \<lparr>fl_json = False, fl_profile = Some ''..''\<rparr> sample_cli) = ''.nodewe/profiles/..''"
proof
  have "NodeId_new ''..'' = Inr ''..''" by (simp add: NodeId_new_def id_char_def is_ascii_graphic_def byte_def)
  then show "normalize_args [''--profile'', ''..'', ''doctor''] = (Inr [''doctor''], \<lparr>fl_json = False, fl_profile = Some ''..''\<rparr>)"
    by (simp add: normalize_args_def)
  show "state_root (with_flags \<lparr>fl_json = False, fl_profile = Some ''..''\<rparr> sample_cli) = ''.nodewe/profiles/..''"
    by (simp add: state_root_def with_flags_def sample_cli_def sample_agent_def sample_env_def path_join_def rooted_def Let_def)
qed

section \<open>Samples\<close>

definition task_fs :: filesystem where
  "task_fs = sample_fs\<lparr>exists := (\<lambda>p. p = ''/srv/lab/.''),
     canonicalize := (\<lambda>p. if p = ''/srv/lab'' \<or> p = ''/srv/lab/.'' then Some ''/srv/lab'' else None)\<rparr>"

definition task_cli :: cli where
  "task_cli = sample_cli\<lparr>cl_agent := (cl_agent sample_cli)\<lparr>local_host := sample_host\<lparr>fsys := task_fs\<rparr>\<rparr>\<rparr>"

definition task_args :: "string list" where
  "task_args = [''run'', ''--node'', ''a'', ''--scope'', ''/srv/lab'', ''--'', ''echo'', ''hi'']"

lemma task_state_dir: "state_dir task_cli = Inr ''.nodewe''"
  by (simp add: state_dir_def state_root_def task_cli_def sample_cli_def sample_agent_def sample_env_def Let_def)

lemma task_host: "cl_host task_cli = sample_host\<lparr>fsys := task_fs\<rparr>"
  by (simp add: task_cli_def)

lemma task_table: "read_nodes task_cli (node_table ''.nodewe'') sample_table
    = Inr [\<lparr>en_id = ''a'', en_name = ''a'', en_online = True, en_labels = []\<rparr>]"
proof -
  have e: "cl_read_error task_cli = cl_read_error sample_cli" by (simp add: task_cli_def)
  show ?thesis using table_read unfolding read_nodes_def read_text_def e .
qed

lemma task_authorized: "scope_authorize task_fs \<lparr>root = ''/srv/lab''\<rparr> ''.'' Execute = Inr ''/srv/lab''"
  by (simp add: scope_authorize_def scope_resolve_def task_fs_def sample_fs_def path_eval)

lemma task_resolved: "resolve_command task_fs [''echo'', ''hi''] ALLOWED_COMMANDS = Inr [''/usr/bin/echo'', ''hi'']"
  by (simp add: resolve_command_def validate_command_def trusted_directories_def task_fs_def sample_fs_def ALLOWED_COMMANDS_def path_eval)

lemma task_planned:
  "\<exists>p. plan_task task_cli 0 task_args ''.nodewe'' sample_table = Inr p \<and> tr_command (tp_record p) = [''/usr/bin/echo'', ''hi'']
     \<and> tr_state (tp_record p) = Running \<and> tp_timeout p = 30000"
proof -
  have s: "Scope_new task_fs ''/srv/lab'' = Inr \<lparr>root = ''/srv/lab''\<rparr>"
    by (simp add: Scope_new_def task_fs_def sample_fs_def)
  have o1: "cli_option task_args ''--node'' = Some ''a''" "cli_option task_args ''--scope'' = Some ''/srv/lab''"
    "cli_option task_args ''--timeout-ms'' = None" "dropWhile (\<lambda>a. a \<noteq> ''--'') task_args = [''--'', ''echo'', ''hi'']"
    by (simp_all add: cli_option_def task_args_def)
  have n: "NodeId_new ''a'' = Inr ''a''"
    by (simp add: NodeId_new_def id_char_def is_ascii_graphic_def byte_def)
  show ?thesis
    by (simp add: plan_task_def o1 task_table task_host s task_authorized task_resolved n TaskRecord_new_def
        task_transition_def now_id_def or_else_def Let_def)
qed

lemma task_waited: "wait_child sample_child 30000 0 = Some (Inr True)"
  by (simp add: sample_child_def wait_child.simps)

lemma task_ran: "\<exists>q fs'. run_task task_cli 0 task_args sample_table = Some (Inr (), q, fs')"
proof -
  obtain p where p: "plan_task task_cli 0 task_args ''.nodewe'' sample_table = Inr p"
      "tr_command (tp_record p) = [''/usr/bin/echo'', ''hi'']" "tr_state (tp_record p) = Running" "tp_timeout p = 30000"
    using task_planned by blast
  have pipes: "read_pipe_bounded (stdout_pipe sample_child) MAX_OUTPUT = Inr (as_bytes ''hi'', False)"
      "read_pipe_bounded (stderr_pipe sample_child) MAX_OUTPUT = Inr ([], False)" "wait_status sample_child = Inr (Some 0)"
    by (simp_all add: sample_child_def read_pipe_bounded_def MAX_OUTPUT_def as_bytes_def)
  have spawned: "spawn (cl_host task_cli) [''/usr/bin/echo'', ''hi''] cwd = Inr sample_child" for cwd
    by (simp add: task_host sample_host_def)
  have io: "cl_open_error task_cli = (\<lambda>_. None)" "cl_write_stop task_cli = (\<lambda>_. None)"
    by (simp_all add: task_cli_def sample_cli_def)
  have w: "\<exists>fs'. write_text task_cli path x fs = (Inr (), fs')" "\<exists>fs'. append_line task_cli path x fs = (Inr (), fs')" for path x fs
    by (simp_all add: write_text_def append_line_def put_text_def io Let_def)
  have "\<exists>fs'. persist_task task_cli dir r out err fs = (Inr (), fs')" for dir r out err fs
  proof -
    obtain f1 where f1: "write_text task_cli (task_file dir (tr_id r) ''.stdout'') out fs = (Inr (), f1)" using w(1) by blast
    obtain f2 where f2: "write_text task_cli (task_file dir (tr_id r) ''.stderr'') err f1 = (Inr (), f2)" using w(1) by blast
    obtain f3 where "write_text task_cli (task_file dir (tr_id r) ''.meta'') (task_meta r)
        (cli_restrict_file task_cli (task_file dir (tr_id r) ''.stderr'')
          (cli_restrict_file task_cli (task_file dir (tr_id r) ''.stdout'') f2)) = (Inr (), f3)"
      using w(1) by blast
    then show ?thesis by (simp add: persist_task_def Let_def f1 f2)
  qed
  then obtain save where save: "persist_task task_cli dir r out err fs = (Inr (), save dir r out err fs)" for dir r out err fs
    by metis
  obtain log where log: "append_audit task_cli dir ev fs = (Inr (), log dir ev fs)" for dir ev fs
  proof -
    obtain line where "append_line task_cli path x fs = (Inr (), line path x fs)" for path x fs using w(2) by metis
    then have "append_audit task_cli dir ev fs = (Inr (), cli_restrict_file task_cli (path_join dir ''audit.jsonl'')
        (line (path_join dir ''audit.jsonl'') ev fs))" for dir ev fs
      by (simp add: append_audit_def Let_def)
    then show thesis by (rule that)
  qed
  have "\<exists>q fs'. finish_task task_cli dir (tp_record p) Succeeded out err ev (printing z) fs = (Inr (), q, fs')"
    for dir out err ev z fs
    by (simp add: finish_task_def task_transition_def p(3) audited_def printing_def save log)
  then show ?thesis
    by (simp add: run_task_def task_state_dir p run_planned_def spawned task_waited pipes Let_def)
qed

text \<open>\<open>task run\<close> does not look at the arguments of the program: it runs what the agent refuses.\<close>

definition cat_fs :: filesystem where
  "cat_fs = task_fs\<lparr>is_file := (\<lambda>p. p = ''/usr/bin/cat'')\<rparr>"

definition cat_cli :: cli where
  "cat_cli = sample_cli\<lparr>cl_agent := (cl_agent sample_cli)\<lparr>local_host := sample_host\<lparr>fsys := cat_fs\<rparr>\<rparr>\<rparr>"

lemma outside_argument:
  "\<exists>p. plan_task cat_cli 0 [''run'', ''--node'', ''a'', ''--scope'', ''/srv/lab'', ''--'', ''cat'', ''/etc/passwd''] ''.nodewe'' sample_table = Inr p
     \<and> tr_command (tp_record p) = [''/usr/bin/cat'', ''/etc/passwd'']"
  "\<exists>err. prepare_command (cl_host cat_cli) [''cat'', ''/etc/passwd''] ''/srv/lab'' = Inl err"
proof -
  have host: "cl_host cat_cli = sample_host\<lparr>fsys := cat_fs\<rparr>" by (simp add: cat_cli_def)
  have table: "read_nodes cat_cli (node_table ''.nodewe'') sample_table
      = Inr [\<lparr>en_id = ''a'', en_name = ''a'', en_online = True, en_labels = []\<rparr>]"
  proof -
    have e: "cl_read_error cat_cli = cl_read_error sample_cli" by (simp add: cat_cli_def)
    show ?thesis using table_read unfolding read_nodes_def read_text_def e .
  qed
  have auth: "scope_authorize cat_fs \<lparr>root = ''/srv/lab''\<rparr> ''.'' Execute = Inr ''/srv/lab''"
    by (simp add: scope_authorize_def scope_resolve_def cat_fs_def task_fs_def sample_fs_def path_eval)
  let ?args = "[''run'', ''--node'', ''a'', ''--scope'', ''/srv/lab'', ''--'', ''cat'', ''/etc/passwd'']"
  have s: "Scope_new cat_fs ''/srv/lab'' = Inr \<lparr>root = ''/srv/lab''\<rparr>"
    by (simp add: Scope_new_def cat_fs_def task_fs_def sample_fs_def)
  have o1: "cli_option ?args ''--node'' = Some ''a''" "cli_option ?args ''--scope'' = Some ''/srv/lab''"
    "cli_option ?args ''--timeout-ms'' = None"
    by (simp_all add: cli_option_def)
  have n: "NodeId_new ''a'' = Inr ''a''"
    by (simp add: NodeId_new_def id_char_def is_ascii_graphic_def byte_def)
  have r: "resolve_command cat_fs [''cat'', ''/etc/passwd''] ALLOWED_COMMANDS = Inr [''/usr/bin/cat'', ''/etc/passwd'']"
    by (simp add: resolve_command_def validate_command_def trusted_directories_def cat_fs_def task_fs_def sample_fs_def ALLOWED_COMMANDS_def path_eval)
  show "\<exists>p. plan_task cat_cli 0 ?args ''.nodewe'' sample_table = Inr p \<and> tr_command (tp_record p) = [''/usr/bin/cat'', ''/etc/passwd'']"
    by (simp add: plan_task_def o1 table host s auth r n TaskRecord_new_def
        task_transition_def now_id_def or_else_def Let_def)
  have "\<exists>err. scope_authorize cat_fs \<lparr>root = ''/srv/lab''\<rparr> ''/etc/passwd'' Read = Inl err"
    by (simp add: scope_authorize_def scope_resolve_def cat_fs_def task_fs_def sample_fs_def path_eval)
  then show "\<exists>err. prepare_command (cl_host cat_cli) [''cat'', ''/etc/passwd''] ''/srv/lab'' = Inl err"
    by (auto simp: prepare_command_def host s auth r validate_command_arguments_def file_name_def components_def pieces_def
        rooted_def str_split_def skipped_def to_component_def byte_def split: sum.split)
qed

theorem task_run_recorded_witness:
  "\<exists>q fs' r. run_task task_cli 0 task_args sample_table = Some (Inr (), q, fs')
     \<and> tr_state r = Succeeded \<and> text_at (task_file ''.nodewe'' (tr_id r) ''.meta'') fs' = Some (task_meta r)
     \<and> text_at (task_file ''.nodewe'' (tr_id r) ''.stdout'') fs' = Some ''hi''"
proof -
  obtain q fs' where r: "run_task task_cli 0 task_args sample_table = Some (Inr (), q, fs')" using task_ran by blast
  have dir: "state_root task_cli = ''.nodewe''" using state_dir_root [OF task_state_dir] by simp
  obtain p where p: "plan_task task_cli 0 task_args ''.nodewe'' sample_table = Inr p"
      "tr_command (tp_record p) = [''/usr/bin/echo'', ''hi'']"
    using task_planned by blast
  have c: "spawn (cl_host task_cli) [''/usr/bin/echo'', ''hi''] cwd = Inr sample_child" for cwd
    by (simp add: task_host sample_host_def)
  have s: "wait_status sample_child = Inr (Some 0)" "fst (stdout_pipe sample_child) = [as_bytes ''hi'']"
    by (simp_all add: sample_child_def)
  have "from_utf8_lossy ''hi'' = ''hi''" by (simp add: good_tail_def lead_width_def byte_def)
  moreover have "take MAX_OUTPUT (as_bytes ''hi'') = as_bytes ''hi''" "as_bytes ''hi'' \<noteq> []"
    by (simp_all add: MAX_OUTPUT_def as_bytes_def)
  ultimately have o1: "lossy_text (take MAX_OUTPUT (as_bytes ''hi'')) = ''hi''" "as_bytes ''hi'' \<noteq> []"
    by (simp_all add: lossy_text_def del: from_utf8_lossy.simps)
  obtain p' child status where w: "p' = p" "spawn (cl_host task_cli) (tr_command (tp_record p')) (tp_cwd p') = Inr child"
      "wait_status child = Inr status"
      "text_at (task_file ''.nodewe'' (tr_id (tp_record p')) ''.meta'') fs'
        = Some (task_meta ((tp_record p')\<lparr>tr_state := if status = Some 0 then Succeeded else Failed\<rparr>))"
      "text_at (task_file ''.nodewe'' (tr_id (tp_record p')) ''.stdout'') fs'
        = Some (lossy_text (take MAX_OUTPUT (concat (takeWhile (\<lambda>block. block \<noteq> []) (fst (stdout_pipe child))))))"
    using task_run_recorded [OF r] unfolding Let_def dir p(1) task_written_def by auto
  have "child = sample_child" using w(1,2) p(2) c by simp
  then have "status = Some 0" using w(3) s(1) by simp
  then have "text_at (task_file ''.nodewe'' (tr_id ((tp_record p)\<lparr>tr_state := Succeeded\<rparr>)) ''.meta'') fs'
      = Some (task_meta ((tp_record p)\<lparr>tr_state := Succeeded\<rparr>))"
    "text_at (task_file ''.nodewe'' (tr_id ((tp_record p)\<lparr>tr_state := Succeeded\<rparr>)) ''.stdout'') fs' = Some ''hi''"
    using w(1,4,5) s(2) o1 \<open>child = sample_child\<close> by simp_all
  then show ?thesis using r by (intro exI [of _ q] exI [of _ fs'] exI [of _ "(tp_record p)\<lparr>tr_state := Succeeded\<rparr>"]) simp
qed

definition remote_cli :: cli where
  "remote_cli = sample_cli\<lparr>cl_agent := (cl_agent sample_cli)\<lparr>outside := sample_env
     (\<lambda>x. if x = ''NODEWE_CONTROL_PLANE'' then Some ''127.0.0.1:8787'' else if x = ''NODEWE_TOKEN'' then Some ''t0'' else None)
     (\<lambda>_. Inl []) (\<lambda>_. None)\<rparr>\<rparr>"

theorem no_plaintext_to_other_machines_witness:
  "\<exists>endpoint. env_var (cl_env remote_cli) ''NODEWE_CONTROL_PLANE'' = Some endpoint
    \<and> (loopback endpoint \<or> cli_load_tls_options remote_cli endpoint = Inr True
      \<or> env_var (cl_env remote_cli) ''NODEWE_ALLOW_INSECURE_HTTP'' = Some ''1'')"
proof -
  let ?net = "\<lambda>err :: string. \<lambda>(k :: nat) (request :: string). Inl err :: string + bytes list"
  have n: "normalize_args [''grant'', ''list''] = (Inr [''grant'', ''list''], \<lparr>fl_json = False, fl_profile = None\<rparr>)"
    by (simp add: normalize_args_def)
  have "dispatch_command remote_cli (?net err) [''grant'', ''list''] fs = Outcome (failing err fs)" for err fs
    by (simp add: dispatch_command_def n grant_command_def remote_config_def remote_token_def env_var_def remote_grant_def
        http_get_json_def http_request_def cli_load_tls_options_def ensure_endpoint_safe_def exchange_def header_token_def
        validate_header_value_def rsplit_once_def split_once_def print_response_def with_flags_def remote_cli_def
        sample_cli_def sample_agent_def sample_env_def byte_def Let_def)
  then have "dispatch_command remote_cli (?net ''x'') [''grant'', ''list''] sample_table
      \<noteq> dispatch_command remote_cli (?net ''y'') [''grant'', ''list''] sample_table"
    by (simp add: failing_def)
  then show ?thesis by (rule no_plaintext_to_other_machines)
qed

end
