(* ===== verification/Cli_Submission.thy ===== *)
theory Cli_Submission
  imports Cli_Group Agent_Protocol
begin

text \<open>
  \<open>task submit\<close> and the control plane together: the body the tool writes is the request the control plane
  reads, with every option in its place.
\<close>

section \<open>The body and its meaning\<close>

text \<open>What \<open>serde_json\<close> makes of the body of \<open>task submit\<close>.\<close>

definition text_json :: "string \<Rightarrow> string option \<Rightarrow> (string \<times> json) list" where
  "text_json key v = (case v of None \<Rightarrow> [] | Some x \<Rightarrow> [(key, JString x)])"

definition submission_request :: "cli \<Rightarrow> string list \<Rightarrow> string" where
  "submission_request c args = now_id c (if cli_option args ''--idempotency-key'' = None then 1 else 0) ''request''"

definition submission_members :: "cli \<Rightarrow> string list \<Rightarrow> string \<Rightarrow> string \<Rightarrow> nat \<Rightarrow> (string \<times> json) list" where
  "submission_members c args node_id ability limit =
     [(''request_id'', JString (submission_request c args))]
       @ text_json ''actor'' (cli_option args ''--actor'')
       @ [(''node_id'', JString node_id), (''ability'', JString ability),
          (''program'', JString (or_else (cli_option args ''--program'') ''echo'')),
          (''argument'', JString (or_else (cli_option args ''--argument'') [])),
          (''idempotency_key'', JString (or_else (cli_option args ''--idempotency-key'') (now_id c 0 ''request''))),
          (''output_limit'', JU64 (word_of_nat limit))]
       @ text_json ''approval_id'' (cli_option args ''--approval-id'')
       @ (if has_flag args ''--approved'' then [(''approved'', JBool True)] else [])"

lemma written_text: "map written_member (text_json k v) = optional_member k v"
  by (simp add: text_json_def optional_member_def text_member_def json_escape_def escape_def split: option.split)

lemma body_written:
  assumes "limit \<le> 1024 * 1024"
  shows "task_body c args node_id ability limit = written (submission_members c args node_id ability limit)"
proof -
  have "unat (word_of_nat limit :: u64) = limit" using assms by (simp add: unat_of_nat)
  then show ?thesis
    by (simp add: task_body_def written_def submission_members_def written_text raw_member_def text_member_def
        json_escape_def escape_def submission_request_def Let_def)
qed

lemma text_json_at: "map_of (text_json k v) k' = (if k = k' then map_option JString v else None)"
  by (simp add: text_json_def split: option.split)

lemma flag_at: "map_of (if b then [(k, v)] else []) k' = (if b \<and> k = k' then Some v else None)"
  by simp

lemma member_at: "map_of (xs @ ys) k = (case map_of xs k of None \<Rightarrow> map_of ys k | Some v \<Rightarrow> Some v)"
  by (induction xs) auto

lemma submission_at:
  fixes c args node_id ability limit
  defines "obj \<equiv> submission_members c args node_id ability limit"
  shows "map_of obj ''request_id'' = Some (JString (submission_request c args))"
    and "map_of obj ''actor'' = map_option JString (cli_option args ''--actor'')"
    and "map_of obj ''node_id'' = Some (JString node_id)" and "map_of obj ''ability'' = Some (JString ability)"
    and "map_of obj ''program'' = Some (JString (or_else (cli_option args ''--program'') ''echo''))"
    and "map_of obj ''argument'' = Some (JString (or_else (cli_option args ''--argument'') []))"
    and "map_of obj ''idempotency_key'' = Some (JString (or_else (cli_option args ''--idempotency-key'') (now_id c 0 ''request'')))"
    and "map_of obj ''output_limit'' = Some (JU64 (word_of_nat limit))" and "map_of obj ''timeout_ms'' = None"
    and "map_of obj ''approval_id'' = map_option JString (cli_option args ''--approval-id'')"
    and "map_of obj ''approved'' = (if has_flag args ''--approved'' then Some (JBool True) else None)"
  unfolding obj_def submission_members_def member_at text_json_at flag_at by (simp_all split: option.split)

lemma submission_fields:
  assumes "pj body = Some (JObject (submission_members c args node_id ability limit))"
  shows "json_types_valid pj body [''node_id'', ''request_id'', ''actor'', ''ability'', ''idempotency_key'', ''program'',
      ''argument'', ''approval_id''] [''timeout_ms'', ''output_limit''] [''approved'']"
    and "json_field pj body ''request_id'' = Some (submission_request c args)"
    and "json_field pj body ''actor'' = cli_option args ''--actor''"
    and "field_or pj body ''node_id'' d = node_id" and "field_or pj body ''ability'' d = ability"
    and "field_or pj body ''program'' d = or_else (cli_option args ''--program'') ''echo''"
    and "field_or pj body ''argument'' d = or_else (cli_option args ''--argument'') []"
    and "field_or pj body ''idempotency_key'' d = or_else (cli_option args ''--idempotency-key'') (now_id c 0 ''request'')"
    and "json_field pj body ''approval_id'' = cli_option args ''--approval-id''"
    and "json_key_present pj body ''timeout_ms'' \<longleftrightarrow> False"
    and "json_key_present pj body ''output_limit'' \<longleftrightarrow> True"
    and "json_number pj body ''output_limit'' = Some (word_of_nat limit)"
proof -
  have s: "Option.bind (map_option JString v) as_str = v" "none_or (\<lambda>v. as_str v \<noteq> None) (map_option JString v)" for v
    by (cases v; simp add: none_or_def)+
  note simps = parse_json_object_def assms submission_at s json_field_def field_or_def json_key_present_def json_number_def
  show "json_types_valid pj body [''node_id'', ''request_id'', ''actor'', ''ability'', ''idempotency_key'', ''program'',
      ''argument'', ''approval_id''] [''timeout_ms'', ''output_limit''] [''approved'']"
    using s(2) by (simp add: json_types_valid_def simps) (auto simp: none_or_def)
  show "json_field pj body ''actor'' = cli_option args ''--actor''" "json_field pj body ''approval_id'' = cli_option args ''--approval-id''"
    by (simp_all add: simps)
qed (simp_all add: parse_json_object_def assms submission_at json_field_def field_or_def json_key_present_def json_number_def)

lemma node_id_word: "is_ascii_digit b \<or> is_ascii_lowercase b \<Longrightarrow> node_id_char b"
  by (auto simp: node_id_char_def is_ascii_graphic_def is_ascii_digit_def is_ascii_lowercase_def byte_def)

lemma request_valid:
  assumes "nanos (cl_agent c) k < 2 ^ 128"
  shows "valid_node_id (now_id c k ''request'')"
proof -
  have "length (hex (nanos (cl_agent c) k)) \<le> 32" using hex_length [of "nanos (cl_agent c) k" 32] assms by simp
  moreover have "list_all node_id_char (hex (nanos (cl_agent c) k))"
    using hex_chars node_id_word by (auto simp: list_all_iff)
  moreover have "list_all node_id_char ''request_''"
    by (simp add: node_id_char_def is_ascii_graphic_def byte_def)
  ultimately show ?thesis by (simp add: now_id_def valid_node_id_def)
qed

text \<open>The actor of a request: the authenticated one, who may name himself, or the one an administrator names.\<close>

definition acting :: "string option \<Rightarrow> string option \<Rightarrow> string \<Rightarrow> bool" where
  "acting authenticated named actor \<longleftrightarrow>
     (case authenticated of None \<Rightarrow> actor = or_else named ''admin'' | Some a \<Rightarrow> actor = a \<and> (named = None \<or> named = Some a))"

text \<open>C38: \<open>task submit\<close> asks for what was typed. The tool posts one body to \<open>/v1/tasks\<close>, and the control
  plane reads it as the request with the node, ability, program, argument, approval, idempotency key and
  output limit of the options, for the acting user; the timeout is always the default, whatever
  \<open>--timeout-ms\<close> says, since the tool does not send it. The hypothesis on the parser says that \<open>serde_json\<close>
  reads back an object with the members of the request; that the body is that text is part of the proof; the clock counts nanoseconds in 128 bits.\<close>

theorem submission_understood:
  assumes "env_var (cl_env c) ''NODEWE_CONTROL_PLANE'' = Some endpoint" and "remote_token c = Inr token"
    and "cli_option args ''--node'' = Some node_id" and "cli_option args ''--ability'' = Some ability"
    and "(case cli_option args ''--output-limit'' of None \<Rightarrow> Some (1024 * 1024) | Some v \<Rightarrow> parse_usize v) = Some limit"
    and "0 < limit" and "limit \<le> 1024 * 1024"
    and "parse_json e (written (submission_members c args node_id ability limit))
      = Some (JObject (submission_members c args node_id ability limit))"
    and "\<forall>k. nanos (cl_agent c) k < 2 ^ 128"
    and "acting authenticated (cli_option args ''--actor'') actor" and "valid_node_id actor"
  shows "submit_task c net args fs
      = print_response (http_request c net endpoint (post_request endpoint ''/v1/tasks'' (task_body c args node_id ability limit) token)) fs
    \<and> read_task_request (task_body c args node_id ability limit) authenticated e st
      = (Inr \<lparr>rq_node_id = node_id, rq_request_id = submission_request c args, rq_actor = actor, rq_ability = ability,
           rq_idempotency_key = or_else (cli_option args ''--idempotency-key'') (now_id c 0 ''request''),
           rq_program = or_else (cli_option args ''--program'') ''echo'',
           rq_argument = or_else (cli_option args ''--argument'') [],
           rq_approval_id = cli_option args ''--approval-id'', rq_timeout_ms = DEFAULT_TASK_TIMEOUT_MS,
           rq_output_limit = limit\<rparr>, st)"
proof -
  have "parse_json e (task_body c args node_id ability limit) = Some (JObject (submission_members c args node_id ability limit))"
    using assms(8) by (simp add: body_written [OF assms(7)])
  note f = submission_fields [of "parse_json e", OF this]
  have limit: "unat (word_of_nat limit :: u64) = limit"
    using assms(7) by (simp add: unat_of_nat)
  have a: "resolve_actor e (task_body c args node_id ability limit) authenticated = Some actor"
    using assms(10) by (auto simp: resolve_actor_def f(3) acting_def or_else_def split: option.splits)
  have n: "number_or e (task_body c args node_id ability limit) ''timeout_ms'' d = Some d"
    "number_or e (task_body c args node_id ability limit) ''output_limit'' d = Some (word_of_nat limit)" for d
    by (simp_all add: number_or_def f(10-12))
  have r: "valid_node_id (submission_request c args)" using request_valid assms(9) by (simp add: submission_request_def)
  have "read_task_request (task_body c args node_id ability limit) authenticated e st
      = (Inr \<lparr>rq_node_id = node_id, rq_request_id = submission_request c args, rq_actor = actor, rq_ability = ability,
           rq_idempotency_key = or_else (cli_option args ''--idempotency-key'') (now_id c 0 ''request''),
           rq_program = or_else (cli_option args ''--program'') ''echo'',
           rq_argument = or_else (cli_option args ''--argument'') [],
           rq_approval_id = cli_option args ''--approval-id'', rq_timeout_ms = DEFAULT_TASK_TIMEOUT_MS,
           rq_output_limit = limit\<rparr>, st)"
    using assms(6,7,11) r limit
    by (simp add: read_task_request_def f(1,2) f(4-9) a n Let_def MAX_TASK_OUTPUT_LIMIT_def
        DEFAULT_TASK_TIMEOUT_MS_def MAX_TASK_TIMEOUT_MS_def)
  then show ?thesis
    using assms(1-7) by (simp add: submit_task_def with_control_plane_def http_post_json_def)
qed

definition submitting_cli :: cli where
  "submitting_cli = sample_cli\<lparr>cl_agent := (cl_agent sample_cli)\<lparr>nanos := (\<lambda>k. k mod 2 ^ 128), outside := sample_env
     (\<lambda>x. if x = ''NODEWE_CONTROL_PLANE'' then Some ''127.0.0.1:8787'' else if x = ''NODEWE_TOKEN'' then Some ''t0'' else None)
     (\<lambda>_. Inl []) (\<lambda>_. None)\<rparr>\<rparr>"

definition submit_args :: "string list" where
  "submit_args = [''submit'', ''--node'', ''n1'', ''--ability'', ''file.read'', ''--program'', ''in.txt'']"

theorem submission_understood_witness:
  "rq_program (case fst (read_task_request (task_body submitting_cli submit_args ''n1'' ''file.read'' 1048576) None
      (sample_env (\<lambda>_. None) (\<lambda>_. Inl []) (\<lambda>_. Some (JObject (submission_members submitting_cli submit_args ''n1'' ''file.read'' 1048576))))
      (sample_state [] [])) of Inr rq \<Rightarrow> rq) = ''in.txt''"
proof -
  let ?e = "sample_env (\<lambda>_. None) (\<lambda>_. Inl []) (\<lambda>_. Some (JObject (submission_members submitting_cli submit_args ''n1'' ''file.read'' 1048576)))"
  have env: "env_var (cl_env submitting_cli) ''NODEWE_CONTROL_PLANE'' = Some ''127.0.0.1:8787''"
    "env_var (cl_env submitting_cli) ''NODEWE_TOKEN'' = Some ''t0''"
    by (simp_all add: submitting_cli_def env_var_def sample_env_def byte_def)
  then have t: "remote_token submitting_cli = Inr ''t0''"
    by (simp add: remote_token_def header_token_def validate_header_value_def Let_def)
  have o1: "cli_option submit_args ''--node'' = Some ''n1''" "cli_option submit_args ''--ability'' = Some ''file.read''"
    "cli_option submit_args ''--output-limit'' = None" "cli_option submit_args ''--actor'' = None"
    "cli_option submit_args ''--program'' = Some ''in.txt''"
    by (simp_all add: cli_option_def submit_args_def)
  have l: "(case cli_option submit_args ''--output-limit'' of None \<Rightarrow> Some (1024 * 1024) | Some v \<Rightarrow> parse_usize v) = Some 1048576"
    by (simp add: o1)
  have p: "parse_json ?e (written (submission_members submitting_cli submit_args ''n1'' ''file.read'' 1048576))
      = Some (JObject (submission_members submitting_cli submit_args ''n1'' ''file.read'' 1048576))"
    by (simp add: sample_env_def)
  have c: "\<forall>k. nanos (cl_agent submitting_cli) k < 2 ^ 128" by (simp add: submitting_cli_def)
  have a: "acting None (cli_option submit_args ''--actor'') ''admin''" by (simp add: acting_def o1 or_else_def)
  have v: "valid_node_id ''admin''" by (simp add: valid_node_id_def node_id_char_def is_ascii_graphic_def byte_def)
  show ?thesis
    using submission_understood [OF env(1) t o1(1,2) l _ _ p c a v, where st = "sample_state [] []"]
    by (simp add: o1 or_else_def)
qed

end
