(* ===== verification/Spec2Isabelle.thy ===== *)
theory Spec2Isabelle
  imports Accept_Loop Agent_Protocol Sdk_Adapters Cli_Safety Cli_Submission
begin

text \<open>
  \<^bold>\<open>NodeWe.\<close> A control plane that hands out tasks, agents that run them inside a directory, a command
  line tool that does both locally or talks to the control plane, and two small libraries of shared
  types. This theory collects the library; the definitions and properties are in the theories it imports.

  \<^bold>\<open>The program and its parts.\<close>

  The control plane (\<open>control-plane/src/main.rs\<close>) keeps a store of nodes, tasks, grants, approvals and an
  audit log. Administrators, users with an OIDC token and agents send it HTTP requests; agents may also
  keep a WebSocket channel open. Every change is persisted before it is answered or taken back.

  \<^item> \<open>Http_Parse\<close>: the reader of \<open>handle\<close>, header checks, query strings, the response writer.
  \<^item> \<open>Json_Text\<close>, \<open>Crypto\<close>: typed access to JSON, escaping; hexadecimal, base64, constant-time comparison,
    SHA-256 and HMAC on machine words.
  \<^item> \<open>Store_Model\<close>: the records of the store, identifiers, labels, abilities, and their JSON.
  \<^item> \<open>Audit_Chain\<close>: the hash chain over the audit records and its export.
  \<^item> \<open>Policy_Config\<close>: policy file, OIDC profile, secrets from the environment, the checks on the address.
  \<^item> \<open>Control_State\<close>: the shared \<open>State\<close>, persist-or-roll-back, acting users, grant signatures.
  \<^item> \<open>Node_Handlers\<close>, \<open>Task_Handlers\<close>: one definition per handler, every early return a branch.
  \<^item> \<open>Router\<close>: authentication, \<open>route_with_actor\<close>, the messages of a channel, \<open>handle\<close>; the step relation
    \<open>server_step\<close> and its runs \<open>reachable\<close>.
  \<^item> \<open>Ws_Frames\<close>: the frame readers and writers of both sides.
  \<^item> \<open>Snapshot\<close>, \<open>Storage\<close>, \<open>Server_Tls\<close>, \<open>Startup\<close>: the text of the store, encryption at rest and the
    files it is kept in, the TLS configuration, and \<open>main\<close> up to the accept loop.
  \<^item> \<open>Accept_Loop\<close>: the loop at the end of \<open>main\<close> with its counter of connections, as steps in any order.

  The agent core (\<open>node-runtime/src/lib.rs\<close>) is \<open>Runtime_Core\<close>: paths, scopes, the task state machine, the
  allowlist. The agent (\<open>node-runtime/src/main.rs\<close>) is \<open>Agent_Exec\<close> (running a task) and \<open>Agent_Client\<close>
  (options, requests, responses, one round of polling or of a channel, enrolment).

  The command line tool (\<open>cli/src/main.rs\<close>) works on a state directory, or on a control plane if one is
  configured. \<open>Cli_Local\<close> is \<open>normalize_args\<close>, the state directory with its tables of nodes, groups and
  grants, and the commands on them; \<open>Cli_Task\<close> is \<open>run_task\<close>, \<open>persist_task\<close> and \<open>run_group\<close>; \<open>Cli_Remote\<close> is
  the requests of the remote commands and \<open>dispatch\<close>. A command takes the files as a map and returns its
  result, what it prints and the files. What the tool has in common with the agent (pipes, the wait for the
  child, the reader of responses) is the definition of the agent. The workers of \<open>run_group\<close> are the step
  relation \<open>group_step\<close>: a waiting worker takes a node or leaves, a working one finishes its task. The tasks
  themselves are whole steps: two tasks share only the audit file, to which each appends.

  \<open>Sdk_Adapters\<close> is the envelope of \<open>sdk/src/lib.rs\<close> and the adapter of \<open>adapters/src/lib.rs\<close>.

  \<^bold>\<open>How the code is modelled.\<close>

  A Rust string is a HOL string of its UTF-8 bytes; operations on characters go through \<open>chars_of\<close>. Integers
  of a fixed width are words; \<open>usize\<close> values that are lengths are natural numbers, and the one sum of them
  that can wrap (\<open>usize_add\<close>) is written out. A \<open>Result\<close> is a sum with the error on the left; a function that
  can panic returns \<open>exec\<close>. Handlers take the outside world and the state, and return the response and the
  new state. Every read of the clock or of the random source has a place: \<open>clk e k\<close> and \<open>rnd e k\<close> are the
  \<open>k\<close>-th answers within a call, and \<open>later\<close> moves on. Loops are recursive functions over what they consume;
  the ones that wait for a child are \<open>partial_function (option)\<close>, with a theorem that they return. Opening
  and writing a special file, such as a named pipe, may block: these calls return an option as well, and
  \<open>None\<close> is a call that never returns.

  Parameters stand for code that is not in the repository: the parser and the printer of \<open>serde_json\<close>, the
  Ed25519, SHA-1 and AES-GCM of \<open>ring\<close>, the certificates of \<open>rustls\<close>, the answers of the operating system
  about paths, files and children, the clock, the random source, and whether a write succeeds. Where a
  property needs more of one of them than that it is a function, the hypothesis is named and says so.

  \<^bold>\<open>What is shown.\<close>

  \<^item> \<open>Server_Frames\<close>: what each agent call and the redeeming of a grant may change in the store, and the audit
    record each appends.
  \<^item> \<open>Server_Safety\<close>: no run rewrites history, only credentials act, agents cannot administer, revoked nodes
    stay out, tokens are authentic, answers are durable, channels speak for one node, and what each kind of
    connection does, which is always a run. The invariants are \<open>store_wf\<close> and \<open>store_evolves\<close>; the locale \<open>handler\<close> is the contract each
    handler meets, proved once per handler and used for the router.
  \<^item> \<open>Task_Safety\<close>: admission, leases, results, cancelling. \<open>Audit_Chain\<close>: finality and tamper evidence.
  \<^item> \<open>Snapshot\<close>, \<open>Storage\<close>, \<open>Startup\<close>: round trip of the text (locale \<open>stored_table\<close>, once per table), atomic
    replacement, what production mode guarantees (and what not: a fresh SQLite database and PostgreSQL may hold
    plaintext), and that a restart serves what was persisted.
    \<open>Accept_Loop\<close>: the connection limit in every interleaving.
  \<^item> \<open>Runtime_Core\<close>, \<open>Agent_Safety\<close>: containment in the scope, permitted programs, which outputs are bounded and
    redacted, which tasks end (all but file tasks that a named pipe blocks), and which files change.
    \<open>Agent_Session\<close>: sessions, what one round of polling sends, backoff, credential files.
  \<^item> \<open>Agent_Wire\<close>, \<open>Agent_Protocol\<close>: agent and control plane together: a call is a route or is refused for its size, the handshake of the
    channel succeeds, heartbeats are accepted, a report completes its task.
  \<^item> \<open>Cli_Group\<close>: a group run in any interleaving runs each node at most once, ends, and succeeds only if all
    succeed. \<open>Cli_Revocation\<close>: over any commands without newlines in their arguments a revoked
    node runs nothing. \<open>Cli_Safety\<close>: no plaintext to other machines, and exactly what \<open>task run\<close> leaves behind. \<open>Cli_Submission\<close>: tool and control plane together.
  \<^item> \<open>Sdk_Adapters\<close>: which answers of a channel the SDK accepts.

  The locale \<open>codec\<close> of the prelude is met by every writer with its reader (numbers, hexadecimal, JSON strings),
  \<open>identifier_check\<close> by every check of identifiers, \<open>growing_table\<close> by every table of the store.

  \<^bold>\<open>Not modelled.\<close> Sockets, timeouts of connections, and TLS records: \<open>handle\<close> is a function of the blocks it
  reads, and requests take the lock one after the other, which is the order of the runs. Poisoned mutexes.
  SQL: of a database only the row with the snapshot is modelled. What is printed for the operator. A process that creates
  the credential file of the agent while the agent does. Of the
  tool: the help text, the modes of its directories, its sockets, and what two commands that run at the
  same time do to one file.
\<close>

end
